(* ===== verification/Go_Prelude.thy ===== *)
theory Go_Prelude
  imports Main "HOL-Library.Multiset" "HOL-Library.AList" "HOL-Library.List_Lexorder"
    "HOL-Library.Char_ord" "HOL-Library.Word"
begin

text \<open>
  The Go features the operator is written with: errors as values that wrap one another, panics,
  functions that return \<open>(value, error)\<close> while they change the outside world, loops over
  slices and over maps (whose order Go leaves open), and the functions of the packages
  \<open>strings\<close> and \<open>sort\<close> that the sources call.  The lemmas here are shared by every
  component; those about running a piece of code are collected in \<open>go_simps\<close>.
\<close>

section \<open>Errors\<close>

text \<open>
  An error is a leaf or wraps another one.  \<open>Errorf f as\<close> is \<open>errors.New(f)\<close> or
  \<open>fmt.Errorf(f, as)\<close> without the verb \<open>%w\<close>: the arguments are part of the text and cannot be
  unwrapped.  \<open>Wrapf f as e\<close> is \<open>fmt.Errorf\<close> with \<open>e\<close> under \<open>%w\<close>.  The text itself is
  never inspected by the sources, so the format and its arguments are kept as they stand.
  \<open>NotFound\<close> is the error of the Kubernetes client that \<open>apierrors.IsNotFound\<close> recognises,
  \<open>ApiError\<close> every other one, \<open>TransportError\<close> an error of the container registry with
  its HTTP status code, \<open>LibError\<close> an error of any other library.
\<close>

datatype error =
    NotFound string
  | ApiError string
  | TransportError nat
  | LibError string
  | ErrNoMatchingJob
  | Errorf string "fmt_arg list"
  | Wrapf string "fmt_arg list" error
and fmt_arg = AS string | AI int | AE error

fun root_cause :: "error \<Rightarrow> error" where
  "root_cause (Wrapf f as e) = root_cause e"
| "root_cause e = e"

definition IsNotFound :: "error \<Rightarrow> bool" where
  "IsNotFound e = (case root_cause e of NotFound _ \<Rightarrow> True | _ \<Rightarrow> False)"

section \<open>Results and effects\<close>

datatype 'a res = Ok 'a | Err error | Panic

type_synonym ('s, 'a) go = "'s \<Rightarrow> 'a res \<times> 's"

definition ret :: "'a \<Rightarrow> ('s, 'a) go" where
  "ret a = (\<lambda>s. (Ok a, s))"

definition raise :: "error \<Rightarrow> ('s, 'a) go" where
  "raise e = (\<lambda>s. (Err e, s))"

text \<open>A pure computation inside an effectful one.\<close>

definition pure_go :: "'a res \<Rightarrow> ('s, 'a) go" where
  "pure_go r = (\<lambda>s. (r, s))"

text \<open>
  \<open>attempt m k\<close> is \<open>x, err := m(); k\<close>: the continuation sees the error or the value.  A panic is
  not an error value and passes by every continuation.
\<close>

definition attempt :: "('s, 'a) go \<Rightarrow> (error + 'a \<Rightarrow> ('s, 'b) go) \<Rightarrow> ('s, 'b) go" where
  "attempt m k = (\<lambda>s. case m s of
      (Ok a, t) \<Rightarrow> k (Inr a) t
    | (Err e, t) \<Rightarrow> k (Inl e) t
    | (Panic, t) \<Rightarrow> (Panic, t))"

text \<open>
  \<open>check m w k\<close> is \<open>x, err := m(); if err != nil { return w(err) }; k\<close>, and \<open>bind_go\<close> the same with
  the error returned as it is.
\<close>

definition check :: "('s, 'a) go \<Rightarrow> (error \<Rightarrow> error) \<Rightarrow> ('a \<Rightarrow> ('s, 'b) go) \<Rightarrow> ('s, 'b) go" where
  "check m w k = attempt m (\<lambda>r. case r of Inl e \<Rightarrow> raise (w e) | Inr a \<Rightarrow> k a)"

definition bind_go :: "('s, 'a) go \<Rightarrow> ('a \<Rightarrow> ('s, 'b) go) \<Rightarrow> ('s, 'b) go" where
  "bind_go m k = check m (\<lambda>e. e) k"

text \<open>A \<open>for _, x := range xs\<close> loop over a slice, with the local variables it updates.\<close>

fun loop :: "'x list \<Rightarrow> ('x \<Rightarrow> 'a \<Rightarrow> ('s, 'a) go) \<Rightarrow> 'a \<Rightarrow> ('s, 'a) go" where
  "loop [] body a = ret a"
| "loop (x # xs) body a = bind_go (body x a) (\<lambda>b. loop xs body b)"

text \<open>The same for computations without effects.\<close>

definition check_res :: "'a res \<Rightarrow> (error \<Rightarrow> error) \<Rightarrow> ('a \<Rightarrow> 'b res) \<Rightarrow> 'b res" where
  "check_res r w k = (case r of Ok a \<Rightarrow> k a | Err e \<Rightarrow> Err (w e) | Panic \<Rightarrow> Panic)"

definition of_sum :: "error + 'a \<Rightarrow> 'a res" where
  "of_sum x = (case x of Inl e \<Rightarrow> Err e | Inr a \<Rightarrow> Ok a)"

text \<open>A pointer that the code dereferences without a test: \<open>nil\<close> panics.\<close>

definition deref :: "'a option \<Rightarrow> 'a res" where
  "deref p = (case p of None \<Rightarrow> Panic | Some a \<Rightarrow> Ok a)"

section \<open>Maps\<close>

text \<open>
  A Go map is an association list; reading a missing key of a \<open>map[string]string\<close> gives the zero
  value \<open>""\<close>.  A \<open>nil\<close> map reads like an empty one, and is told apart (as \<open>None\<close>) only where
  the sources test for it.
\<close>

type_synonym smap = "(string \<times> string) list"

definition mget :: "smap \<Rightarrow> string \<Rightarrow> string" where
  "mget m k = (case map_of m k of None \<Rightarrow> '''' | Some v \<Rightarrow> v)"

definition mput :: "('k \<times> 'v) list \<Rightarrow> 'k \<Rightarrow> 'v \<Rightarrow> ('k \<times> 'v) list" where
  "mput m k v = AList.update k v m"

definition mputs :: "('k \<times> 'v) list \<Rightarrow> ('k \<times> 'v) list \<Rightarrow> ('k \<times> 'v) list" where
  "mputs m kvs = fold (\<lambda>(k, v) m. mput m k v) kvs m"

definition mdel :: "('k \<times> 'v) list \<Rightarrow> 'k \<Rightarrow> ('k \<times> 'v) list" where
  "mdel m k = filter (\<lambda>kv. fst kv \<noteq> k) m"

text \<open>
  Ranging over a map visits every key once, in an order the language does not fix.  The order is a
  choice function: any list it proposes that is not a rearrangement of the keys is replaced by the
  keys as they stand, so that every choice gives a legal order and every legal order is a choice.
\<close>

fun is_perm :: "'a list \<Rightarrow> 'a list \<Rightarrow> bool" where
  "is_perm [] ys = (ys = [])"
| "is_perm (x # xs) ys = (x \<in> set ys \<and> is_perm xs (remove1 x ys))"

definition range_keys :: "('k list \<Rightarrow> 'k list) \<Rightarrow> ('k \<times> 'v) list \<Rightarrow> 'k list" where
  "range_keys order m =
     (let ks = map fst m in if is_perm (order ks) ks then order ks else ks)"

definition range_map :: "('k list \<Rightarrow> 'k list) \<Rightarrow> ('k \<times> 'v) list \<Rightarrow> ('k \<times> 'v) list" where
  "range_map order m = map (\<lambda>k. (k, the (map_of m k))) (range_keys order m)"

section \<open>Strings\<close>

text \<open>A Go string is a sequence of bytes; so is \<^typ>\<open>string\<close>.\<close>

definition HasSuffix :: "string \<Rightarrow> string \<Rightarrow> bool" where
  "HasSuffix s suf = (length suf \<le> length s \<and> drop (length s - length suf) s = suf)"

definition TrimSuffix :: "string \<Rightarrow> string \<Rightarrow> string" where
  "TrimSuffix s suf = (if HasSuffix s suf then take (length s - length suf) s else s)"

definition HasPrefix :: "string \<Rightarrow> string \<Rightarrow> bool" where
  "HasPrefix s pre = (take (length pre) s = pre)"

definition TrimPrefix :: "string \<Rightarrow> string \<Rightarrow> string" where
  "TrimPrefix s pre = (if HasPrefix s pre then drop (length pre) s else s)"

fun Contains :: "string \<Rightarrow> string \<Rightarrow> bool" where
  "Contains [] sub = (sub = [])"
| "Contains (c # s) sub = (HasPrefix (c # s) sub \<or> Contains s sub)"

text \<open>
  \<open>strings.Split\<close> by one character, and \<open>regexp.Split\<close> by a character class: a string of \<open>n\<close> separators
  has \<open>n + 1\<close> fields.
\<close>

fun split_by :: "(char \<Rightarrow> bool) \<Rightarrow> string \<Rightarrow> string list" where
  "split_by p [] = [[]]"
| "split_by p (c # s) =
     (if p c then [] # split_by p s
      else case split_by p s of [] \<Rightarrow> [[c]] | f # fs \<Rightarrow> (c # f) # fs)"

fun Join :: "string list \<Rightarrow> string \<Rightarrow> string" where
  "Join [] sep = []"
| "Join [s] sep = s"
| "Join (s # t # ss) sep = s @ sep @ Join (t # ss) sep"

text \<open>\<open>strings.IndexAny\<close>: the index of the first byte that is one of \<open>cs\<close>; \<open>None\<close> is \<open>-1\<close>.\<close>

fun IndexAny :: "string \<Rightarrow> string \<Rightarrow> nat option" where
  "IndexAny [] cs = None"
| "IndexAny (c # s) cs = (if c \<in> set cs then Some 0 else map_option Suc (IndexAny s cs))"

text \<open>\<open>fmt.Sprintf("%d", n)\<close> of an unsigned number.\<close>

fun show_nat :: "nat \<Rightarrow> string" where
  "show_nat n =
     (if n < 10 then [char_of (48 + n)] else show_nat (n div 10) @ [char_of (48 + n mod 10)])"

declare show_nat.simps [simp del]

text \<open>\<open>strconv.ParseBool\<close>.\<close>

definition ParseBool :: "string \<Rightarrow> bool option" where
  "ParseBool s =
     (if s \<in> set [''1'', ''t'', ''T'', ''true'', ''TRUE'', ''True''] then Some True
      else if s \<in> set [''0'', ''f'', ''F'', ''false'', ''FALSE'', ''False''] then Some False
      else None)"

section \<open>Lemmas\<close>

named_theorems go_simps \<open>running the combinators on a state\<close>

subsection \<open>Running code\<close>

lemma ret_run [go_simps]: "ret a s = (Ok a, s)"
  by (simp add: ret_def)

lemma raise_run [go_simps]: "raise e s = (Err e, s)"
  by (simp add: raise_def)

lemma pure_go_run [go_simps]: "pure_go r s = (r, s)"
  by (simp add: pure_go_def)

lemma attempt_run [go_simps]:
  "attempt m k s = (case m s of
      (Ok a, t) \<Rightarrow> k (Inr a) t | (Err e, t) \<Rightarrow> k (Inl e) t | (Panic, t) \<Rightarrow> (Panic, t))"
  by (simp add: attempt_def)

lemma check_run [go_simps]:
  "check m w k s = (case m s of
      (Ok a, t) \<Rightarrow> k a t | (Err e, t) \<Rightarrow> (Err (w e), t) | (Panic, t) \<Rightarrow> (Panic, t))"
  by (simp add: check_def attempt_def raise_def split: prod.split res.split)

lemma bind_go_run [go_simps]:
  "bind_go m k s = (case m s of
      (Ok a, t) \<Rightarrow> k a t | (Err e, t) \<Rightarrow> (Err e, t) | (Panic, t) \<Rightarrow> (Panic, t))"
  by (simp add: bind_go_def check_run)

lemma check_res_simps [simp]:
  "check_res (Ok a) w k = k a" "check_res (Err e) w k = Err (w e)" "check_res Panic w k = Panic"
  by (simp_all add: check_res_def)

lemma of_sum_simps [simp]: "of_sum (Inl e) = Err e" "of_sum (Inr a) = Ok a"
  by (simp_all add: of_sum_def)

lemma deref_simps [simp]: "deref None = Panic" "deref (Some a) = Ok a"
  by (simp_all add: deref_def)

lemma check_res_Ok_iff:
  "check_res r w k = Ok b \<longleftrightarrow> (\<exists>a. r = Ok a \<and> k a = Ok b)"
  by (cases r) auto

lemma check_res_Panic_iff:
  "check_res r w k = Panic \<longleftrightarrow> r = Panic \<or> (\<exists>a. r = Ok a \<and> k a = Panic)"
  by (cases r) auto

lemma of_sum_Ok_iff [simp]: "of_sum x = Ok a \<longleftrightarrow> x = Inr a"
  by (cases x) auto

lemma of_sum_not_Panic [simp]: "of_sum x \<noteq> Panic"
  by (cases x) auto

lemma IsNotFound_Wrapf [simp]: "IsNotFound (Wrapf f as e) = IsNotFound e"
  by (simp add: IsNotFound_def)

lemma IsNotFound_leaf [simp]:
  "IsNotFound (NotFound x)" "\<not> IsNotFound (ApiError x)" "\<not> IsNotFound (TransportError n)"
  "\<not> IsNotFound (LibError x)" "\<not> IsNotFound ErrNoMatchingJob" "\<not> IsNotFound (Errorf f as)"
  by (simp_all add: IsNotFound_def)

subsection \<open>Maps\<close>

lemma map_of_mput [simp]: "map_of (mput m k v) = (map_of m)(k \<mapsto> v)"
  by (simp add: mput_def update_conv')

lemma map_of_mput_apply: "map_of (mput m k v) x = (if x = k then Some v else map_of m x)"
  by simp

lemma mget_mput [simp]: "mget (mput m k v) x = (if x = k then v else mget m x)"
  by (simp add: mget_def)

lemma mget_Nil [simp]: "mget [] k = ''''"
  by (simp add: mget_def)

lemma mget_Cons [simp]: "mget ((a, b) # m) k = (if k = a then b else mget m k)"
  by (auto simp: mget_def)

lemma mput_Nil [simp]: "mput [] k v = [(k, v)]"
  by (simp add: mput_def)

lemma mput_Cons [simp]:
  "mput ((a, b) # m) k v = (if k = a then (a, v) # m else (a, b) # mput m k v)"
  by (auto simp: mput_def)

lemma mputs_simps [simp]:
  "mputs m [] = m" "mputs m ((k, v) # kvs) = mputs (mput m k v) kvs"
  by (simp_all add: mputs_def)

lemma dom_map_of_fst: "dom (map_of m) = set (map fst m)"
  by (simp add: dom_map_of_conv_image_fst)

lemma set_fst_mput [simp]: "fst ` set (mput m k v) = insert k (fst ` set m)"
  using dom_map_of_conv_image_fst [of "mput m k v"] dom_map_of_conv_image_fst [of m] by auto

lemma set_mput_subset: "set (mput m k v) \<subseteq> insert (k, v) (set m)"
proof (induction m)
  case (Cons x m)
  then show ?case by (cases x) auto
qed simp

lemma distinct_mput: "distinct (map fst m) \<Longrightarrow> distinct (map fst (mput m k v))"
  by (simp add: mput_def distinct_update)

lemma map_of_mputs:
  "map_of (mputs m kvs) k = (case map_of (rev kvs) k of None \<Rightarrow> map_of m k | Some v \<Rightarrow> Some v)"
  by (induction kvs arbitrary: m) (auto simp: map_add_def split: option.split)

lemma map_of_mputs_distinct:
  assumes "distinct (map fst kvs)"
  shows "map_of (mputs m kvs) k = (case map_of kvs k of None \<Rightarrow> map_of m k | Some v \<Rightarrow> Some v)"
proof -
  have "map_of (rev kvs) = map_of kvs"
    using assms by (simp add: map_of_inject_set flip: rev_map)
  then show ?thesis by (simp add: map_of_mputs)
qed

lemma mget_mputs_in:
  assumes "distinct (map fst kvs)" and "map_of kvs k = Some v"
  shows "mget (mputs m kvs) k = v"
  using assms by (simp add: mget_def map_of_mputs_distinct)

lemma distinct_mputs: "distinct (map fst m) \<Longrightarrow> distinct (map fst (mputs m kvs))"
  by (induction kvs arbitrary: m) (auto simp: distinct_mput)

lemma map_of_mdel: "map_of (mdel m k) x = (if x = k then None else map_of m x)"
  by (induction m) (auto simp: mdel_def)

subsection \<open>The order of a range loop\<close>

lemma is_perm_iff: "is_perm xs ys \<longleftrightarrow> mset xs = mset ys"
proof (induction xs arbitrary: ys)
  case Nil
  then show ?case by auto
next
  case (Cons x xs)
  show ?case
  proof (cases "x \<in> set ys")
    case True
    then have "mset ys = add_mset x (mset (remove1 x ys))" by simp
    with True Cons show ?thesis by (metis add_mset_add_mset_same_iff is_perm.simps(2) mset.simps(2))
  next
    case False
    then have "mset (x # xs) \<noteq> mset ys" by (metis list.set_intros(1) set_mset_mset)
    with False show ?thesis by simp
  qed
qed

lemma mset_range_keys [simp]: "mset (range_keys order m) = mset (map fst m)"
  by (simp add: range_keys_def Let_def is_perm_iff)

lemma set_range_keys [simp]: "set (range_keys order m) = fst ` set m"
  using mset_range_keys [of order m] by (metis list.set_map set_mset_mset)

lemma distinct_range_keys [simp]: "distinct (range_keys order m) = distinct (map fst m)"
  using mset_range_keys [of order m] by (metis mset_eq_imp_distinct_iff)

lemma map_fst_range_map [simp]: "map fst (range_map order m) = range_keys order m"
  by (simp add: range_map_def comp_def)

lemma set_range_map:
  assumes "distinct (map fst m)"
  shows "set (range_map order m) = set m"
proof -
  have "set (range_map order m) = (\<lambda>k. (k, the (map_of m k))) ` fst ` set m"
    by (simp add: range_map_def)
  also have "\<dots> = (\<lambda>kv. (fst kv, the (map_of m (fst kv)))) ` set m"
    by (simp add: image_image)
  also have "\<dots> = set m"
    using assms by (force simp: image_iff map_of_eq_Some_iff)
  finally show ?thesis .
qed

lemma range_map_memD: "(k, v) \<in> set (range_map order m) \<Longrightarrow> map_of m k = Some v"
  by (force simp: range_map_def dom_map_of_conv_image_fst [symmetric])

subsection \<open>Strings\<close>

lemma TrimSuffix_append [simp]: "TrimSuffix (s @ suf) suf = s"
  by (simp add: TrimSuffix_def HasSuffix_def)

lemma split_by_ne [simp]: "split_by p s \<noteq> []"
  by (induction s) (auto split: list.split)

lemma length_split_by: "length (split_by p s) = Suc (length (filter p s))"
proof (induction s)
  case Nil
  then show ?case by simp
next
  case (Cons c s)
  then show ?case by (cases "split_by p s") auto
qed

lemma split_by_no_sep: "f \<in> set (split_by p s) \<Longrightarrow> c \<in> set f \<Longrightarrow> \<not> p c"
proof (induction s arbitrary: f)
  case Nil
  then show ?case by simp
next
  case (Cons d s)
  then show ?case by (cases "split_by p s") (force split: if_splits)+
qed

lemma hd_split_by: "hd (split_by p s) = takeWhile (\<lambda>c. \<not> p c) s"
proof (induction s)
  case Nil
  then show ?case by simp
next
  case (Cons c s)
  then show ?case by (cases "split_by p s") auto
qed

text \<open>Splitting a joined list of fields gives the fields back.\<close>

lemma split_by_field:
  "(\<And>c. c \<in> set f \<Longrightarrow> \<not> p c) \<Longrightarrow> split_by p f = [f]"
  by (induction f) auto

lemma split_by_append_sep:
  assumes "\<And>c. c \<in> set f \<Longrightarrow> \<not> p c" and "p d"
  shows "split_by p (f @ d # s) = f # split_by p s"
  using assms by (induction f) auto

lemma split_by_Join:
  assumes "fs \<noteq> []" and "\<And>f. f \<in> set fs \<Longrightarrow> d \<notin> set f"
  shows "split_by (\<lambda>c. c = d) (Join fs [d]) = fs"
  using assms
proof (induction fs "[d]" rule: Join.induct)
  case (2 s)
  then show ?case by (auto intro!: split_by_field)
next
  case (3 s t ss)
  then have "split_by (\<lambda>c. c = d) (Join (t # ss) [d]) = t # ss" by auto
  moreover have "split_by (\<lambda>c. c = d) (s @ d # Join (t # ss) [d]) =
      s # split_by (\<lambda>c. c = d) (Join (t # ss) [d])"
    using "3.prems" by (intro split_by_append_sep) auto
  ultimately show ?case by simp
qed simp

lemma Contains_char: "Contains s [c] \<longleftrightarrow> c \<in> set s"
  by (induction s) (auto simp: HasPrefix_def)

end
