(* ===== verification/KMM_Types.thy ===== *)
theory KMM_Types
  imports Go_Prelude
begin

text \<open>
  The data of the operator: the custom resources of \<open>api/v1beta1\<close> and \<open>api-hub/v1beta1\<close>, the
  internal \<open>ModuleLoaderData\<close> of \<open>internal/api\<close>, the constants of \<open>internal/constants\<close>,
  and of the Kubernetes objects the fields the sources read or write.  A pointer that may be
  \<open>nil\<close> is an \<open>option\<close>; an embedded struct is a field; the Go zero value of a struct is the
  constant \<open>zero_...\<close>.
\<close>

section \<open>Kubernetes objects\<close>

type_synonym i32 = "32 word"

record NamespacedName =
  nn_Namespace :: string
  nn_Name :: string

record LocalObjectReference =
  lor_Name :: string

record OwnerReference =
  or_Kind :: string
  or_Name :: string
  or_UID :: string
  or_Controller :: bool

text \<open>
  \<open>metadata\<close>: a deletion timestamp is \<open>None\<close> for \<open>nil\<close> and \<open>Some 0\<close> for the zero time.
  Annotations keep \<open>nil\<close> apart from an empty map, because \<open>IsJobChanged\<close> does.
\<close>

record ObjectMeta =
  om_Name :: string
  om_GenerateName :: string
  om_Namespace :: string
  om_UID :: string
  om_Labels :: smap
  om_Annotations :: "smap option"
  om_Finalizers :: "string list"
  om_OwnerReferences :: "OwnerReference list"
  om_DeletionTimestamp :: "nat option"

definition zero_ObjectMeta :: ObjectMeta where
  "zero_ObjectMeta = \<lparr>om_Name = '''', om_GenerateName = '''', om_Namespace = '''', om_UID = '''',
     om_Labels = [], om_Annotations = None, om_Finalizers = [], om_OwnerReferences = [],
     om_DeletionTimestamp = None\<rparr>"

text \<open>A \<open>metav1.Object\<close> used as an owner: which kind of object, and its metadata.\<close>

record Owner =
  own_Kind :: string
  own_Meta :: ObjectMeta

record KeyToPath =
  kp_Key :: string
  kp_Path :: string

datatype HostPathType = HostPathDirectory | HostPathDirectoryOrCreate

datatype VolumeSource =
    NoSource
  | HostPath string HostPathType
  | SecretSource string "KeyToPath list"
  | ConfigMapSource string "KeyToPath list"
  | OtherSource string

record Volume =
  vol_Name :: string
  vol_Source :: VolumeSource

record VolumeMount =
  vm_Name :: string
  vm_ReadOnly :: bool
  vm_MountPath :: string

record EnvVar =
  ev_Name :: string
  ev_Value :: string

record ResourceRequirements =
  rr_Limits :: smap
  rr_Requests :: smap

record SecurityContext =
  sc_AllowPrivilegeEscalation :: "bool option"
  sc_CapabilitiesAdd :: "string list option"
  sc_RunAsUser :: "int option"
  sc_SELinuxType :: "string option"
  sc_Privileged :: "bool option"

record Lifecycle =
  lc_PostStart :: "string list"
  lc_PreStop :: "string list"

record Container =
  c_Name :: string
  c_Image :: string
  c_ImagePullPolicy :: string
  c_Command :: "string list"
  c_Args :: "string list"
  c_Env :: "EnvVar list"
  c_Resources :: ResourceRequirements
  c_Lifecycle :: "Lifecycle option"
  c_SecurityContext :: "SecurityContext option"
  c_VolumeMounts :: "VolumeMount list"

record PodSpec =
  ps_Containers :: "Container list"
  ps_ImagePullSecrets :: "LocalObjectReference list"
  ps_NodeSelector :: smap
  ps_PriorityClassName :: string
  ps_RestartPolicy :: string
  ps_ServiceAccountName :: string
  ps_Volumes :: "Volume list"

record PodTemplateSpec =
  pt_Labels :: smap
  pt_Finalizers :: "string list"
  pt_Spec :: PodSpec

record DaemonSet =
  ds_Meta :: ObjectMeta
  ds_Template :: PodTemplateSpec
  ds_Selector :: "smap option"
  ds_DesiredNumberScheduled :: i32
  ds_NumberAvailable :: i32

record Job =
  job_Meta :: ObjectMeta
  job_Completions :: "int option"
  job_BackoffLimit :: "int option"
  job_Template :: PodTemplateSpec
  job_Succeeded :: i32
  job_Active :: i32
  job_Failed :: i32

record Taint =
  taint_Key :: string
  taint_Effect :: string

record Node =
  node_Meta :: ObjectMeta
  node_Taints :: "Taint list"
  node_KernelVersion :: string

record Condition =
  cond_Type :: string
  cond_Status :: string

record Pod =
  pod_Meta :: ObjectMeta
  pod_NodeName :: string
  pod_Conditions :: "Condition list"

record Secret =
  sec_Meta :: ObjectMeta
  sec_Data :: smap

record ConfigMap =
  cm_Meta :: ObjectMeta
  cm_Data :: smap

definition zero_Resources :: ResourceRequirements where
  "zero_Resources = \<lparr>rr_Limits = [], rr_Requests = []\<rparr>"

definition zero_Container :: Container where
  "zero_Container = \<lparr>c_Name = '''', c_Image = '''', c_ImagePullPolicy = '''', c_Command = [],
     c_Args = [], c_Env = [], c_Resources = zero_Resources, c_Lifecycle = None,
     c_SecurityContext = None, c_VolumeMounts = []\<rparr>"

definition zero_SecurityContext :: SecurityContext where
  "zero_SecurityContext = \<lparr>sc_AllowPrivilegeEscalation = None, sc_CapabilitiesAdd = None,
     sc_RunAsUser = None, sc_SELinuxType = None, sc_Privileged = None\<rparr>"

definition zero_PodSpec :: PodSpec where
  "zero_PodSpec = \<lparr>ps_Containers = [], ps_ImagePullSecrets = [], ps_NodeSelector = [],
     ps_PriorityClassName = '''', ps_RestartPolicy = '''', ps_ServiceAccountName = '''',
     ps_Volumes = []\<rparr>"

definition zero_PodTemplateSpec :: PodTemplateSpec where
  "zero_PodTemplateSpec = \<lparr>pt_Labels = [], pt_Finalizers = [], pt_Spec = zero_PodSpec\<rparr>"

definition zero_DaemonSet :: DaemonSet where
  "zero_DaemonSet = \<lparr>ds_Meta = zero_ObjectMeta, ds_Template = zero_PodTemplateSpec,
     ds_Selector = None, ds_DesiredNumberScheduled = 0, ds_NumberAvailable = 0\<rparr>"

definition zero_Volume :: Volume where
  "zero_Volume = \<lparr>vol_Name = '''', vol_Source = NoSource\<rparr>"

definition zero_VolumeMount :: VolumeMount where
  "zero_VolumeMount = \<lparr>vm_Name = '''', vm_ReadOnly = False, vm_MountPath = ''''\<rparr>"

section \<open>The Module resource\<close>

record BuildArg =
  ba_Name :: string
  ba_Value :: string

record TLSOptions =
  tls_Insecure :: bool
  tls_InsecureSkipTLSVerify :: bool

record KanikoParams =
  kaniko_Tag :: string

record Build =
  build_BuildArgs :: "BuildArg list"
  build_DockerfileConfigMap :: "LocalObjectReference option"
  build_BaseImageRegistryTLS :: TLSOptions
  build_Secrets :: "LocalObjectReference list"
  build_KanikoParams :: "KanikoParams option"

record Sign =
  sign_UnsignedImage :: string
  sign_UnsignedImageRegistryTLS :: TLSOptions
  sign_KeySecret :: "LocalObjectReference option"
  sign_CertSecret :: "LocalObjectReference option"
  sign_FilesToSign :: "string list"

record KernelMapping =
  km_Build :: "Build option"
  km_Sign :: "Sign option"
  km_ContainerImage :: string
  km_Literal :: string
  km_RegistryTLS :: "TLSOptions option"
  km_Regexp :: string

record ModprobeArgs =
  ma_Load :: "string list"
  ma_Unload :: "string list"

record ModprobeSpec =
  mp_ModuleName :: string
  mp_Parameters :: "string list"
  mp_DirName :: string
  mp_Args :: "ModprobeArgs option"
  mp_RawArgs :: "ModprobeArgs option"
  mp_FirmwarePath :: string

record ModuleLoaderContainerSpec =
  mlc_Build :: "Build option"
  mlc_Sign :: "Sign option"
  mlc_ContainerImage :: string
  mlc_ImagePullPolicy :: string
  mlc_KernelMappings :: "KernelMapping list"
  mlc_Modprobe :: ModprobeSpec
  mlc_RegistryTLS :: TLSOptions

record ModuleLoaderSpec =
  ml_Container :: ModuleLoaderContainerSpec
  ml_ServiceAccountName :: string

record DevicePluginContainerSpec =
  dpc_Command :: "string list"
  dpc_Args :: "string list"
  dpc_Env :: "EnvVar list"
  dpc_Image :: string
  dpc_ImagePullPolicy :: string
  dpc_Resources :: ResourceRequirements
  dpc_VolumeMounts :: "VolumeMount list"

record DevicePluginSpec =
  dp_Container :: DevicePluginContainerSpec
  dp_ServiceAccountName :: string
  dp_Volumes :: "Volume list"

record ModuleSpec =
  spec_DevicePlugin :: "DevicePluginSpec option"
  spec_ModuleLoader :: ModuleLoaderSpec
  spec_ImageRepoSecret :: "LocalObjectReference option"
  spec_Selector :: smap

record DaemonSetStatus =
  dst_NodesMatchingSelectorNumber :: i32
  dst_DesiredNumber :: i32
  dst_AvailableNumber :: i32

record ModuleStatus =
  st_DevicePlugin :: DaemonSetStatus
  st_ModuleLoader :: DaemonSetStatus

record Module =
  mod_Meta :: ObjectMeta
  mod_Spec :: ModuleSpec
  mod_Status :: ModuleStatus

section \<open>The data of one kernel\<close>

record ModuleLoaderData =
  mld_KernelVersion :: string
  mld_ImageRepoSecret :: "LocalObjectReference option"
  mld_Selector :: smap
  mld_Name :: string
  mld_Namespace :: string
  mld_ServiceAccountName :: string
  mld_Build :: "Build option"
  mld_Sign :: "Sign option"
  mld_ContainerImage :: string
  mld_ImagePullPolicy :: string
  mld_Modprobe :: ModprobeSpec
  mld_RegistryTLS :: "TLSOptions option"
  mld_Owner :: Owner

section \<open>The PreflightValidation resource\<close>

text \<open>A status reason is the text of a \<open>fmt.Sprintf\<close>, kept as the format and its arguments.\<close>

record Message =
  msg_Format :: string
  msg_Args :: "fmt_arg list"

record PreflightValidationSpec =
  pvs_KernelVersion :: string
  pvs_PushBuiltImage :: bool

record CRStatus =
  crs_VerificationStatus :: string
  crs_StatusReason :: Message
  crs_VerificationStage :: string
  crs_LastTransitionTime :: nat

record PreflightValidation =
  pv_Meta :: ObjectMeta
  pv_Spec :: PreflightValidationSpec
  pv_CRStatuses :: "(string \<times> CRStatus) list option"

definition VerificationTrue :: string where
  "VerificationTrue = ''True''"

definition VerificationFalse :: string where
  "VerificationFalse = ''False''"

definition VerificationStageImage :: string where
  "VerificationStageImage = ''Image''"

definition VerificationStageBuild :: string where
  "VerificationStageBuild = ''Build''"

definition VerificationStageSign :: string where
  "VerificationStageSign = ''Sign''"

definition VerificationStageRequeued :: string where
  "VerificationStageRequeued = ''Requeued''"

definition VerificationStageDone :: string where
  "VerificationStageDone = ''Done''"

section \<open>The resources of the hub\<close>

record ManagedClusterModuleSpec =
  mcms_ModuleSpec :: ModuleSpec
  mcms_SpokeNamespace :: string
  mcms_Selector :: smap

record ManagedClusterModuleStatus =
  mcmst_NumberDesired :: i32
  mcmst_NumberApplied :: i32
  mcmst_NumberDegraded :: i32

record ManagedClusterModule =
  mcm_Meta :: ObjectMeta
  mcm_Spec :: ManagedClusterModuleSpec
  mcm_Status :: ManagedClusterModuleStatus

record ClusterClaim =
  cc_Name :: string
  cc_Value :: string

record ManagedCluster =
  mc_Meta :: ObjectMeta
  mc_ClusterClaims :: "ClusterClaim list"

text \<open>
  A ManifestWork: the Module it carries (\<open>None\<close> before it is set), the identifier of the resource
  whose feedback is collected, and the paths of the collected values.
\<close>

record ResourceIdentifier =
  ri_Group :: string
  ri_Resource :: string
  ri_Name :: string
  ri_Namespace :: string

record ManifestWork =
  mw_Meta :: ObjectMeta
  mw_Manifests :: "Module list"
  mw_ManifestConfigs :: "(ResourceIdentifier \<times> (string \<times> string) list) list"
  mw_Conditions :: "Condition list"

section \<open>Constants\<close>

definition ModuleNameLabel :: string where
  "ModuleNameLabel = ''kmm.node.kubernetes.io/module.name''"

definition NodeLabelerFinalizer :: string where
  "NodeLabelerFinalizer = ''kmm.node.kubernetes.io/node-labeler''"

definition TargetKernelTarget :: string where
  "TargetKernelTarget = ''kmm.node.kubernetes.io/target-kernel''"

definition DaemonSetRole :: string where
  "DaemonSetRole = ''kmm.node.kubernetes.io/role''"

definition JobType :: string where
  "JobType = ''kmm.node.kubernetes.io/job-type''"

definition JobHashAnnotation :: string where
  "JobHashAnnotation = ''kmm.node.kubernetes.io/last-hash''"

definition KernelLabel :: string where
  "KernelLabel = ''kmm.node.kubernetes.io/kernel-version.full''"

definition ManagedClusterModuleNameLabel :: string where
  "ManagedClusterModuleNameLabel = ''kmm.node.kubernetes.io/managedclustermodule.name''"

definition KernelVersionsClusterClaimName :: string where
  "KernelVersionsClusterClaimName = ''kernel-versions.kmm.node.kubernetes.io''"

definition DockerfileCMKey :: string where
  "DockerfileCMKey = ''dockerfile''"

definition PublicSignDataKey :: string where
  "PublicSignDataKey = ''cert''"

definition PrivateSignDataKey :: string where
  "PrivateSignDataKey = ''key''"

lemmas label_defs = ModuleNameLabel_def NodeLabelerFinalizer_def TargetKernelTarget_def
  DaemonSetRole_def JobType_def JobHashAnnotation_def KernelLabel_def
  ManagedClusterModuleNameLabel_def KernelVersionsClusterClaimName_def DockerfileCMKey_def
  PublicSignDataKey_def PrivateSignDataKey_def

lemmas zero_defs = zero_ObjectMeta_def zero_Resources_def zero_Container_def
  zero_SecurityContext_def zero_PodSpec_def zero_PodTemplateSpec_def zero_DaemonSet_def
  zero_Volume_def zero_VolumeMount_def

text \<open>The labels the operator writes are different keys, so none overwrites another.\<close>

lemma label_keys_distinct [simp]:
  "ModuleNameLabel \<noteq> JobType" "ModuleNameLabel \<noteq> TargetKernelTarget" "ModuleNameLabel \<noteq> DaemonSetRole"
  "ModuleNameLabel \<noteq> KernelLabel" "JobType \<noteq> TargetKernelTarget" "DaemonSetRole \<noteq> KernelLabel"
  "JobType \<noteq> ModuleNameLabel" "TargetKernelTarget \<noteq> ModuleNameLabel" "DaemonSetRole \<noteq> ModuleNameLabel"
  "KernelLabel \<noteq> ModuleNameLabel" "TargetKernelTarget \<noteq> JobType" "KernelLabel \<noteq> DaemonSetRole"
  by (simp_all add: label_defs)

end
