(* ===== verification/KMM_Env.thy ===== *)
theory KMM_Env
  imports KMM_Types
begin

text \<open>
  What the operator runs against.  The Kubernetes API server, the container registry and the
  libraries the sources call are not part of the repository; they are the fields of the record
  \<open>env\<close>, an argument of every definition that uses them.  A remote call is answered by a function
  of the whole history of calls made before it, so an environment may change the cluster between two
  calls, fail any of them, or answer the same question differently each time: a theorem that
  quantifies over \<open>env\<close> holds whatever the cluster and the other controllers do.

  Running code appends every remote call to \<open>history\<close>; the theorems on what the operator does
  to the cluster are about that history.  The predicate \<open>guar\<close> is the program logic for it: a
  precondition on the history, a condition each new call meets at the moment it is made, and
  postconditions for normal and error returns.
\<close>

section \<open>Remote calls\<close>

text \<open>
  Options of a registry access, as \<open>go-containerregistry\<close>'s \<open>crane\<close> takes them; a keychain is
  identified by the value the authentication library made of the secret.
\<close>

datatype crane_option =
    WithContext
  | Insecure
  | WithTransportSkipVerify
  | WithAuthFromKeychain string
  | WithAuth string

datatype read_call =
    GetModule NamespacedName
  | ListModules
  | ListNodes smap
  | GetNode string
  | ListDaemonSets string smap
  | GetDaemonSet NamespacedName
  | ListJobs string smap
  | GetConfigMap NamespacedName
  | GetSecret NamespacedName
  | GetPod NamespacedName
  | GetPreflightValidation NamespacedName
  | ListPreflightValidations
  | GetManagedClusterModule NamespacedName
  | ListManagedClusterModules
  | ListManagedClusters smap
  | ListManifestWorks smap
  | GetManifestWork NamespacedName
  | GetClusterClaim string
  | CraneManifest string "crane_option list"
  | CranePullLayer string "crane_option list"

datatype write_call =
    CreateDaemonSet DaemonSet
  | PatchDaemonSet DaemonSet DaemonSet
  | DeleteDaemonSet DaemonSet
  | CreateJob Job
  | DeleteJob Job
  | PatchNode Node Node
  | PatchPod Pod Pod
  | UpdateModuleStatus Module
  | UpdatePreflightStatus PreflightValidation
  | UpdateManagedClusterModuleStatus ManagedClusterModule
  | CreateManifestWork ManifestWork
  | PatchManifestWork ManifestWork ManifestWork
  | DeleteManifestWork ManifestWork
  | CreateClusterClaim ClusterClaim
  | PatchClusterClaim ClusterClaim ClusterClaim

datatype event = Read read_call | Write write_call

type_synonym history = "event list"

text \<open>Which range statement over a map asks for an order.\<close>

datatype range_site =
    RangeMldMappings
  | RangeGarbageCollect
  | RangeStatusUpdate
  | RangeUpdateMetrics
  | RangeSelector NamespacedName
  | RangeCRStatuses
  | RangeKernels
  | RangeClusterMappings string

text \<open>The content of an image manifest and of a manifest list, as far as it is used.\<close>

record Digest =
  dg_Algorithm :: string
  dg_Hex :: string

record ManifestEntry =
  me_Digest :: Digest
  me_Architecture :: "string option"

section \<open>The environment\<close>

record env =
  \<comment> \<open>libraries without side effects\<close>
  MatchString :: "string \<Rightarrow> string \<Rightarrow> error + bool"
  EnvsubstParse :: "string list \<Rightarrow> string \<Rightarrow> error + string"
  HashBuild :: "string \<Rightarrow> PodTemplateSpec \<Rightarrow> error + 64 word"
  HashSign :: "string \<Rightarrow> string \<Rightarrow> PodTemplateSpec \<Rightarrow> error + 64 word"
  Getenv :: "string \<Rightarrow> string"
  SetControllerReference :: "Owner \<Rightarrow> OwnerReference list \<Rightarrow> error + OwnerReference list"
  IsControlledBy :: "OwnerReference list \<Rightarrow> Owner \<Rightarrow> bool"
  IsPodReady :: "Pod \<Rightarrow> bool"
  NewRequirement :: "string \<Rightarrow> string \<Rightarrow> error + unit"
  SelectorMatches :: "smap \<Rightarrow> smap \<Rightarrow> bool"
  LabelsChanged :: "smap \<Rightarrow> smap \<Rightarrow> bool"
  RemoveFinalizer :: "string list \<Rightarrow> string \<Rightarrow> string list"
  NewFromPullSecrets :: "Secret list \<Rightarrow> error + string"
  UnmarshalMediaType :: "string \<Rightarrow> error + string option"
  UnmarshalManifest :: "string \<Rightarrow> error + Digest list"
  UnmarshalIndexManifest :: "string \<Rightarrow> error + ManifestEntry list"
  LayerHeaders :: "string \<Rightarrow> (error + string) list"
  GOARCH :: string
  range_order :: "range_site \<Rightarrow> string list \<Rightarrow> string list"
  Now :: "history \<Rightarrow> nat"
  \<comment> \<open>reads\<close>
  cl_GetModule :: "history \<Rightarrow> NamespacedName \<Rightarrow> error + Module"
  cl_ListModules :: "history \<Rightarrow> error + Module list"
  cl_ListNodes :: "history \<Rightarrow> smap \<Rightarrow> error + Node list"
  cl_GetNode :: "history \<Rightarrow> string \<Rightarrow> error + Node"
  cl_ListDaemonSets :: "history \<Rightarrow> string \<Rightarrow> smap \<Rightarrow> error + DaemonSet list"
  cl_GetDaemonSet :: "history \<Rightarrow> NamespacedName \<Rightarrow> error + DaemonSet"
  cl_ListJobs :: "history \<Rightarrow> string \<Rightarrow> smap \<Rightarrow> error + Job list"
  cl_GetConfigMap :: "history \<Rightarrow> NamespacedName \<Rightarrow> error + ConfigMap"
  cl_GetSecret :: "history \<Rightarrow> NamespacedName \<Rightarrow> error + Secret"
  cl_GetPod :: "history \<Rightarrow> NamespacedName \<Rightarrow> error + Pod"
  cl_GetPreflightValidation :: "history \<Rightarrow> NamespacedName \<Rightarrow> error + PreflightValidation"
  cl_ListPreflightValidations :: "history \<Rightarrow> error + PreflightValidation list"
  cl_GetManagedClusterModule :: "history \<Rightarrow> NamespacedName \<Rightarrow> error + ManagedClusterModule"
  cl_ListManagedClusterModules :: "history \<Rightarrow> error + ManagedClusterModule list"
  cl_ListManagedClusters :: "history \<Rightarrow> smap \<Rightarrow> error + ManagedCluster list"
  cl_ListManifestWorks :: "history \<Rightarrow> smap \<Rightarrow> error + ManifestWork list"
  cl_GetManifestWork :: "history \<Rightarrow> NamespacedName \<Rightarrow> error + ManifestWork"
  cl_GetClusterClaim :: "history \<Rightarrow> string \<Rightarrow> error + ClusterClaim"
  cr_Manifest :: "history \<Rightarrow> string \<Rightarrow> crane_option list \<Rightarrow> error + string"
  cr_PullLayer :: "history \<Rightarrow> string \<Rightarrow> crane_option list \<Rightarrow> error + string"
  \<comment> \<open>writes: a create or patch answers with the object as the server stored it\<close>
  cl_CreateDaemonSet :: "history \<Rightarrow> DaemonSet \<Rightarrow> error + DaemonSet"
  cl_PatchDaemonSet :: "history \<Rightarrow> DaemonSet \<Rightarrow> DaemonSet \<Rightarrow> error + DaemonSet"
  cl_Write :: "history \<Rightarrow> write_call \<Rightarrow> error + unit"
  cl_UpdatePreflightStatus :: "history \<Rightarrow> PreflightValidation \<Rightarrow> error + PreflightValidation"

section \<open>The state of a run\<close>

text \<open>
  Beside the history, the operator keeps its Prometheus gauges (\<open>internal/metrics\<close>): the number of
  Modules, and for each (name, namespace, kernel, stage) whether the stage is completed.
\<close>

record metrics =
  kmmoResourcesNum :: nat
  kmmoCompletedStage :: "((string \<times> string \<times> string \<times> string) \<times> bool) list"

record op_state =
  history :: history
  gauges :: metrics

definition call :: "event \<Rightarrow> (history \<Rightarrow> error + 'a) \<Rightarrow> (op_state, 'a) go" where
  "call ev f = (\<lambda>s. (of_sum (f (history s)), s\<lparr>history := history s @ [ev]\<rparr>))"

definition do_write :: "env \<Rightarrow> write_call \<Rightarrow> (op_state, unit) go" where
  "do_write L w = call (Write w) (\<lambda>h. cl_Write L h w)"

text \<open>
  \<open>controllerutil.CreateOrPatch\<close>, by its documentation: get the object; if there is none, apply the
  mutate function to the object given and create it; otherwise apply it to the object found and, if
  that changed something, patch it.  The result says which of the three happened, with the object
  as it is afterwards.
\<close>

datatype OperationResult = OperationResultNone | OperationResultCreated | OperationResultUpdated

definition CreateOrPatch ::
  "('s, 'o) go \<Rightarrow> ('o \<Rightarrow> ('s, 'o) go) \<Rightarrow> ('o \<Rightarrow> 'o \<Rightarrow> ('s, 'o) go) \<Rightarrow> 'o \<Rightarrow> ('o \<Rightarrow> ('s, 'o) go)
   \<Rightarrow> ('s, OperationResult \<times> 'o) go" where
  "CreateOrPatch get create patch obj f =
     attempt get (\<lambda>r. case r of
       Inl e \<Rightarrow>
         if IsNotFound e
         then bind_go (f obj) (\<lambda>o1. bind_go (create o1) (\<lambda>o2. ret (OperationResultCreated, o2)))
         else raise e
     | Inr found \<Rightarrow>
         bind_go (f found) (\<lambda>o1.
           if o1 = found then ret (OperationResultNone, found)
           else bind_go (patch found o1) (\<lambda>o2. ret (OperationResultUpdated, o2))))"

section \<open>Guarantees on the calls made\<close>

text \<open>
  \<open>trace_ok J h evs\<close>: each of the calls \<open>evs\<close>, made one after the other from history \<open>h\<close> on, meets
  \<open>J\<close> at the history of its moment.
\<close>

fun trace_ok :: "(history \<Rightarrow> event \<Rightarrow> bool) \<Rightarrow> history \<Rightarrow> history \<Rightarrow> bool" where
  "trace_ok J h [] = True"
| "trace_ok J h (e # es) = (J h e \<and> trace_ok J (h @ [e]) es)"

definition guar ::
  "(history \<Rightarrow> bool) \<Rightarrow> (history \<Rightarrow> event \<Rightarrow> bool) \<Rightarrow> (op_state, 'a) go
   \<Rightarrow> ('a \<Rightarrow> history \<Rightarrow> bool) \<Rightarrow> (error \<Rightarrow> history \<Rightarrow> bool) \<Rightarrow> bool" where
  "guar P J m Q E \<longleftrightarrow> (\<forall>s r t. P (history s) \<longrightarrow> m s = (r, t) \<longrightarrow>
     (\<exists>evs. history t = history s @ evs \<and> trace_ok J (history s) evs) \<and>
     (case r of Ok a \<Rightarrow> Q a (history t) | Err e \<Rightarrow> E e (history t) | Panic \<Rightarrow> True))"

text \<open>\<open>emits F m\<close>: every call \<open>m\<close> makes is an \<open>F\<close>.\<close>

definition emits :: "(event \<Rightarrow> bool) \<Rightarrow> (op_state, 'a) go \<Rightarrow> bool" where
  "emits F m \<longleftrightarrow> guar (\<lambda>_. True) (\<lambda>_. F) m (\<lambda>_ _. True) (\<lambda>_ _. True)"

definition is_read :: "event \<Rightarrow> bool" where
  "is_read e = (case e of Read _ \<Rightarrow> True | Write _ \<Rightarrow> False)"

definition writes :: "history \<Rightarrow> write_call list" where
  "writes h = concat (map (\<lambda>e. case e of Read _ \<Rightarrow> [] | Write w \<Rightarrow> [w]) h)"

section \<open>Lemmas\<close>

named_theorems emits_rules \<open>which calls a piece of code makes\<close>
named_theorems guar_rules \<open>the rules of the program logic\<close>

lemma call_run [go_simps]:
  "call ev f s = (of_sum (f (history s)), s\<lparr>history := history s @ [ev]\<rparr>)"
  by (simp add: call_def)

lemma do_write_run [go_simps]:
  "do_write L w s = (of_sum (cl_Write L (history s) w), s\<lparr>history := history s @ [Write w]\<rparr>)"
  by (simp add: do_write_def call_run)

lemma is_read_simps [simp]: "is_read (Read r)" "\<not> is_read (Write w)"
  by (simp_all add: is_read_def)

lemma writes_simps [simp]:
  "writes [] = []" "writes (Read r # h) = writes h" "writes (Write w # h) = w # writes h"
  "writes (h @ h') = writes h @ writes h'"
  by (simp_all add: writes_def)

lemma in_writes_iff: "w \<in> set (writes h) \<longleftrightarrow> Write w \<in> set h"
  by (induction h) (auto simp: writes_def split: event.splits)

lemma writes_of_reads: "list_all is_read h \<Longrightarrow> writes h = []"
  by (induction h) (auto simp: writes_def is_read_def split: event.splits)

lemma trace_ok_append [simp]:
  "trace_ok J h (xs @ ys) \<longleftrightarrow> trace_ok J h xs \<and> trace_ok J (h @ xs) ys"
  by (induction xs arbitrary: h) auto

lemma trace_ok_mono:
  assumes "trace_ok J h evs" and "\<And>h e. J h e \<Longrightarrow> K h e"
  shows "trace_ok K h evs"
  using assms by (induction evs arbitrary: h) auto

lemma trace_ok_const: "trace_ok (\<lambda>_. F) h evs \<longleftrightarrow> list_all F evs"
  by (induction evs arbitrary: h) auto

lemma trace_ok_reads: "list_all is_read evs \<Longrightarrow> (\<And>h r. J h (Read r)) \<Longrightarrow> trace_ok J h evs"
  by (induction evs arbitrary: h) (auto simp: is_read_def split: event.splits)

lemma trace_ok_nth:
  "trace_ok J h evs \<longleftrightarrow> (\<forall>xs e ys. evs = xs @ e # ys \<longrightarrow> J (h @ xs) e)"
proof (induction evs arbitrary: h)
  case Nil
  then show ?case by simp
next
  case (Cons a evs)
  have "(\<forall>xs e ys. a # evs = xs @ e # ys \<longrightarrow> J (h @ xs) e) \<longleftrightarrow>
      J h a \<and> (\<forall>xs e ys. evs = xs @ e # ys \<longrightarrow> J ((h @ [a]) @ xs) e)"
    by (force simp: Cons_eq_append_conv)
  with Cons.IH [of "h @ [a]"] show ?case by simp
qed

subsection \<open>The rules of the logic\<close>

lemma guarD:
  assumes "guar P J m Q E" and "P (history s)" and "m s = (r, t)"
  obtains evs where "history t = history s @ evs" and "trace_ok J (history s) evs"
    and "case r of Ok a \<Rightarrow> Q a (history t) | Err e \<Rightarrow> E e (history t) | Panic \<Rightarrow> True"
  using assms unfolding guar_def by blast

lemma guar_weaken:
  assumes "guar P' J' m Q' E'"
    and "\<And>h. P h \<Longrightarrow> P' h" and "\<And>h e. J' h e \<Longrightarrow> J h e"
    and "\<And>a h. Q' a h \<Longrightarrow> Q a h" and "\<And>e h. E' e h \<Longrightarrow> E e h"
  shows "guar P J m Q E"
  unfolding guar_def
proof (intro allI impI)
  fix s r t
  assume "P (history s)" and m: "m s = (r, t)"
  then have "P' (history s)" using assms(2) by blast
  then obtain evs where evs: "history t = history s @ evs" "trace_ok J' (history s) evs"
    and post: "case r of Ok a \<Rightarrow> Q' a (history t) | Err e \<Rightarrow> E' e (history t) | Panic \<Rightarrow> True"
    using guarD [OF assms(1) _ m] by blast
  have "trace_ok J (history s) evs"
    by (rule trace_ok_mono [OF evs(2) assms(3)])
  with evs(1) post assms(4,5)
  show "(\<exists>evs. history t = history s @ evs \<and> trace_ok J (history s) evs) \<and>
      (case r of Ok a \<Rightarrow> Q a (history t) | Err e \<Rightarrow> E e (history t) | Panic \<Rightarrow> True)"
    by (auto split: res.splits)
qed

lemma guar_ret [guar_rules]:
  "(\<And>h. P h \<Longrightarrow> Q a h) \<Longrightarrow> guar P J (ret a) Q E"
  by (auto simp: guar_def ret_run)

lemma guar_raise [guar_rules]:
  "(\<And>h. P h \<Longrightarrow> E e h) \<Longrightarrow> guar P J (raise e) Q E"
  by (auto simp: guar_def raise_run)

lemma guar_pure_go [guar_rules]:
  assumes "\<And>h a. P h \<Longrightarrow> r = Ok a \<Longrightarrow> Q a h" and "\<And>h e. P h \<Longrightarrow> r = Err e \<Longrightarrow> E e h"
  shows "guar P J (pure_go r) Q E"
  using assms by (auto simp: guar_def pure_go_run split: res.splits)

lemma guar_call [guar_rules]:
  assumes "\<And>h. P h \<Longrightarrow> J h ev"
    and "\<And>h a. P h \<Longrightarrow> f h = Inr a \<Longrightarrow> Q a (h @ [ev])"
    and "\<And>h e. P h \<Longrightarrow> f h = Inl e \<Longrightarrow> E e (h @ [ev])"
  shows "guar P J (call ev f) Q E"
  unfolding guar_def
proof (intro allI impI)
  fix s r t
  assume P: "P (history s)" and "call ev f s = (r, t)"
  then have r: "r = of_sum (f (history s))" and t: "history t = history s @ [ev]"
    by (auto simp: call_run)
  have "case r of Ok a \<Rightarrow> Q a (history t) | Err e \<Rightarrow> E e (history t) | Panic \<Rightarrow> True"
    using assms(2,3) P r t by (cases "f (history s)") auto
  with assms(1) P t show "(\<exists>evs. history t = history s @ evs \<and> trace_ok J (history s) evs) \<and>
      (case r of Ok a \<Rightarrow> Q a (history t) | Err e \<Rightarrow> E e (history t) | Panic \<Rightarrow> True)"
    by simp
qed

lemma guar_attempt:
  assumes m: "guar P J m (\<lambda>a. R (Inr a)) (\<lambda>e. R (Inl e))"
    and k: "\<And>r. guar (R r) J (k r) Q E"
  shows "guar P J (attempt m k) Q E"
  unfolding guar_def
proof (intro allI impI)
  fix s r t
  assume P: "P (history s)" and run: "attempt m k s = (r, t)"
  obtain r1 s1 where m1: "m s = (r1, s1)" by fastforce
  obtain evs1 where h1: "history s1 = history s @ evs1" and tr1: "trace_ok J (history s) evs1"
    and post: "case r1 of Ok a \<Rightarrow> R (Inr a) (history s1) | Err e \<Rightarrow> R (Inl e) (history s1) | Panic \<Rightarrow> True"
    using guarD [OF m P m1] by metis
  show "(\<exists>evs. history t = history s @ evs \<and> trace_ok J (history s) evs) \<and>
      (case r of Ok a \<Rightarrow> Q a (history t) | Err e \<Rightarrow> E e (history t) | Panic \<Rightarrow> True)"
  proof (cases "r1 = Panic")
    case True
    with run m1 have "r = Panic" "t = s1" by (auto simp: attempt_run)
    with h1 tr1 show ?thesis by auto
  next
    case False
    define x where "x = (case r1 of Ok a \<Rightarrow> Inr a | Err e \<Rightarrow> Inl e | Panic \<Rightarrow> undefined)"
    have R: "R x (history s1)" and kx: "k x s1 = (r, t)"
      using False post run m1 by (auto simp: attempt_run x_def split: res.splits)
    obtain evs2 where h2: "history t = history s1 @ evs2" and tr2: "trace_ok J (history s1) evs2"
      and post2: "case r of Ok a \<Rightarrow> Q a (history t) | Err e \<Rightarrow> E e (history t) | Panic \<Rightarrow> True"
      using guarD [OF k R kx] by metis
    have "history t = history s @ (evs1 @ evs2)" using h1 h2 by simp
    moreover have "trace_ok J (history s) (evs1 @ evs2)" using tr1 tr2 h1 by simp
    ultimately show ?thesis using post2 by blast
  qed
qed

lemma guar_check:
  assumes "guar P J m R (\<lambda>e. E (w e))" and "\<And>a. guar (R a) J (k a) Q E"
  shows "guar P J (check m w k) Q E"
  unfolding check_def
proof (rule guar_attempt [where R = "\<lambda>r. case r of Inl e \<Rightarrow> E (w e) | Inr a \<Rightarrow> R a"])
  show "guar P J m (\<lambda>a. case Inr a of Inl e \<Rightarrow> E (w e) | Inr a \<Rightarrow> R a)
      (\<lambda>e. case Inl e of Inl e \<Rightarrow> E (w e) | Inr a \<Rightarrow> R a)"
    using assms(1) by simp
  show "guar (case r of Inl e \<Rightarrow> E (w e) | Inr a \<Rightarrow> R a) J
      (case r of Inl e \<Rightarrow> raise (w e) | Inr a \<Rightarrow> k a) Q E" for r
    using assms(2) by (cases r) (auto intro: guar_raise)
qed

lemma guar_bind_go:
  assumes "guar P J m R E" and "\<And>a. guar (R a) J (k a) Q E"
  shows "guar P J (bind_go m k) Q E"
  unfolding bind_go_def using assms by (rule guar_check)

text \<open>Loops: the invariant speaks of the elements already visited.\<close>

lemma guar_loop_prefix:
  assumes "\<And>ys x zs a. xs = ys @ x # zs \<Longrightarrow> guar (I (vs @ ys) a) J (body x a) (I (vs @ ys @ [x])) E"
  shows "guar (I vs a) J (loop xs body a) (I (vs @ xs)) E"
  using assms
proof (induction xs arbitrary: a vs)
  case Nil
  then show ?case by (auto intro: guar_ret)
next
  case (Cons x xs)
  have "guar (I vs a) J (body x a) (I (vs @ [x])) E"
    using Cons.prems [of "[]" x xs a] by simp
  moreover have "guar (I (vs @ [x]) b) J (loop xs body b) (I ((vs @ [x]) @ xs)) E" for b
  proof (rule Cons.IH)
    fix ys y zs c
    assume "xs = ys @ y # zs"
    then show "guar (I ((vs @ [x]) @ ys) c) J (body y c) (I ((vs @ [x]) @ ys @ [y])) E"
      using Cons.prems [of "x # ys" y zs c] by simp
  qed
  ultimately show ?case by (auto intro: guar_bind_go)
qed

lemma guar_loop:
  assumes "\<And>x a. x \<in> set xs \<Longrightarrow> guar (I a) J (body x a) I E"
  shows "guar (I a) J (loop xs body a) I E"
proof -
  have "guar (I b) J (body x b) I E" if "xs = ys @ x # zs" for ys x zs b
    using assms that by simp
  then show ?thesis by (rule guar_loop_prefix [where I = "\<lambda>_. I"])
qed

lemma guar_conj:
  assumes "guar P J m Q E" and "emits F m"
  shows "guar P (\<lambda>h e. J h e \<and> F e) m Q E"
  unfolding guar_def
proof (intro allI impI)
  fix s r t
  assume P: "P (history s)" and m: "m s = (r, t)"
  obtain evs where e: "history t = history s @ evs" "trace_ok J (history s) evs"
    and post: "case r of Ok a \<Rightarrow> Q a (history t) | Err e \<Rightarrow> E e (history t) | Panic \<Rightarrow> True"
    using guarD [OF assms(1) P m] by metis
  obtain evs' where e': "history t = history s @ evs'" "trace_ok (\<lambda>_. F) (history s) evs'"
    using guarD [OF assms(2) [unfolded emits_def] TrueI m] by metis
  have "trace_ok (\<lambda>h e. J h e \<and> F e) (history s) evs"
    using e e' by (auto simp: trace_ok_const list_all_iff trace_ok_nth)
  with e post show "(\<exists>evs. history t = history s @ evs \<and> trace_ok (\<lambda>h e. J h e \<and> F e) (history s) evs) \<and>
      (case r of Ok a \<Rightarrow> Q a (history t) | Err e \<Rightarrow> E e (history t) | Panic \<Rightarrow> True)"
    by blast
qed

subsection \<open>Which calls are made\<close>

lemma emits_iff:
  "emits F m \<longleftrightarrow> (\<forall>s r t. m s = (r, t) \<longrightarrow> (\<exists>evs. history t = history s @ evs \<and> list_all F evs))"
  unfolding emits_def guar_def trace_ok_const
  by (auto split: res.splits) (metis res.exhaust)+

lemma emitsE:
  assumes "emits F m" and "m s = (r, t)"
  obtains evs where "history t = history s @ evs" and "list_all F evs"
  using assms unfolding emits_iff by blast

text \<open>A fact of the past stays true, whatever is called.\<close>

lemma guar_stable:
  assumes "emits F m" and "\<And>h h'. I h \<Longrightarrow> I (h @ h')"
  shows "guar I (\<lambda>_. F) m (\<lambda>_. I) (\<lambda>_. I)"
  unfolding guar_def
proof (intro allI impI)
  fix s r t
  assume I: "I (history s)" and m: "m s = (r, t)"
  obtain evs where evs: "history t = history s @ evs" "list_all F evs"
    using emitsE [OF assms(1) m] by metis
  then have "I (history t)" using assms(2) I by simp
  with evs show "(\<exists>evs. history t = history s @ evs \<and> trace_ok (\<lambda>_. F) (history s) evs) \<and>
      (case r of Ok a \<Rightarrow> I (history t) | Err e \<Rightarrow> I (history t) | Panic \<Rightarrow> True)"
    by (auto simp: trace_ok_const split: res.split)
qed

lemma guar_frame:
  assumes "guar P J m Q E" and "\<And>h h'. I h \<Longrightarrow> I (h @ h')"
  shows "guar (\<lambda>h. P h \<and> I h) J m (\<lambda>a h. Q a h \<and> I h) (\<lambda>e h. E e h \<and> I h)"
  unfolding guar_def
proof (intro allI impI)
  fix s r t
  assume P: "P (history s) \<and> I (history s)" and m: "m s = (r, t)"
  obtain evs where evs: "history t = history s @ evs" "trace_ok J (history s) evs"
    and post: "case r of Ok a \<Rightarrow> Q a (history t) | Err e \<Rightarrow> E e (history t) | Panic \<Rightarrow> True"
    using guarD [OF assms(1) _ m] P by metis
  have "I (history t)" using evs(1) assms(2) P by simp
  with evs post show "(\<exists>evs. history t = history s @ evs \<and> trace_ok J (history s) evs) \<and>
      (case r of Ok a \<Rightarrow> Q a (history t) \<and> I (history t) | Err e \<Rightarrow> E e (history t) \<and> I (history t) | Panic \<Rightarrow> True)"
    by (auto split: res.splits)
qed

text \<open>A fact of the past may be used for the calls that follow.\<close>

lemma guar_frame_calls:
  assumes "guar P J m Q E" and "\<And>h h'. I h \<Longrightarrow> I (h @ h')"
  shows "guar (\<lambda>h. P h \<and> I h) (\<lambda>h e. J h e \<and> I h) m (\<lambda>a h. Q a h \<and> I h) (\<lambda>e h. E e h \<and> I h)"
  unfolding guar_def
proof (intro allI impI)
  fix s r t
  assume P: "P (history s) \<and> I (history s)" and m: "m s = (r, t)"
  obtain evs where evs: "history t = history s @ evs" "trace_ok J (history s) evs"
    and post: "case r of Ok a \<Rightarrow> Q a (history t) | Err e \<Rightarrow> E e (history t) | Panic \<Rightarrow> True"
    using guarD [OF assms(1) _ m] P by metis
  have "trace_ok (\<lambda>h e. J h e \<and> I h) (history s) evs"
    using evs(2) assms(2) P by (auto simp: trace_ok_nth)
  moreover have "I (history t)" using evs(1) assms(2) P by simp
  ultimately show "(\<exists>evs. history t = history s @ evs \<and> trace_ok (\<lambda>h e. J h e \<and> I h) (history s) evs) \<and>
      (case r of Ok a \<Rightarrow> Q a (history t) \<and> I (history t) | Err e \<Rightarrow> E e (history t) \<and> I (history t) | Panic \<Rightarrow> True)"
    using evs(1) post by (auto split: res.splits)
qed

text \<open>Code of which only the calls matter, in the middle of a proof about histories.\<close>

lemma guar_emits:
  assumes "emits F m" and "\<And>h e. I h \<Longrightarrow> F e \<Longrightarrow> J h e" and "\<And>h h'. I h \<Longrightarrow> I (h @ h')"
  shows "guar I J m (\<lambda>_. I) (\<lambda>_. I)"
  unfolding guar_def
proof (intro allI impI)
  fix s r t
  assume I: "I (history s)" and m: "m s = (r, t)"
  obtain evs where evs: "history t = history s @ evs" "list_all F evs"
    using emitsE [OF assms(1) m] by metis
  have "I (history t)" using evs(1) assms(3) I by simp
  moreover have "trace_ok J (history s) evs"
    using evs(2) assms(2,3) I by (auto simp: trace_ok_nth list_all_iff)
  ultimately show "(\<exists>evs. history t = history s @ evs \<and> trace_ok J (history s) evs) \<and>
      (case r of Ok a \<Rightarrow> I (history t) | Err e \<Rightarrow> I (history t) | Panic \<Rightarrow> True)"
    using evs(1) by (auto split: res.split)
qed

lemma emits_mono: "emits F m \<Longrightarrow> (\<And>e. F e \<Longrightarrow> G e) \<Longrightarrow> emits G m"
  unfolding emits_def by (erule guar_weaken) auto

lemma emits_ret [emits_rules, intro]: "emits F (ret a)"
  by (simp add: emits_def guar_ret)

lemma emits_raise [emits_rules, intro]: "emits F (raise e)"
  by (simp add: emits_def guar_raise)

lemma emits_pure_go [emits_rules, intro]: "emits F (pure_go r)"
  by (simp add: emits_def guar_pure_go)

lemma emits_call [emits_rules]: "F ev \<Longrightarrow> emits F (call ev f)"
  by (simp add: emits_def guar_call)

lemma emits_do_write [emits_rules]: "F (Write w) \<Longrightarrow> emits F (do_write L w)"
  by (simp add: do_write_def emits_call)

lemma emits_attempt [emits_rules]: "emits F m \<Longrightarrow> (\<And>r. emits F (k r)) \<Longrightarrow> emits F (attempt m k)"
  unfolding emits_def by (rule guar_attempt [where R = "\<lambda>_ _. True"]) auto

lemma emits_check [emits_rules]: "emits F m \<Longrightarrow> (\<And>a. emits F (k a)) \<Longrightarrow> emits F (check m w k)"
  unfolding emits_def by (rule guar_check [where R = "\<lambda>_ _. True"]) auto

lemma emits_bind_go [emits_rules]: "emits F m \<Longrightarrow> (\<And>a. emits F (k a)) \<Longrightarrow> emits F (bind_go m k)"
  unfolding emits_def by (rule guar_bind_go [where R = "\<lambda>_ _. True"]) auto

lemma emits_loop [emits_rules]:
  "(\<And>x a. x \<in> set xs \<Longrightarrow> emits F (body x a)) \<Longrightarrow> emits F (loop xs body a)"
  unfolding emits_def by (rule guar_loop [where I = "\<lambda>_ _. True"]) auto

lemma emits_CreateOrPatch [emits_rules]:
  assumes "emits F get" and "\<And>x. emits F (create x)" and "\<And>x y. emits F (patch x y)"
    and "\<And>x. emits F (f x)"
  shows "emits F (CreateOrPatch get create patch obj f)"
  unfolding CreateOrPatch_def
  by (rule emits_attempt)
    (auto intro!: assms emits_bind_go emits_ret emits_raise split: sum.split)

lemma emits_if [emits_rules]: "(b \<Longrightarrow> emits F m) \<Longrightarrow> (\<not> b \<Longrightarrow> emits F n) \<Longrightarrow> emits F (if b then m else n)"
  by simp

lemma emits_option [emits_rules]:
  "(x = None \<Longrightarrow> emits F m) \<Longrightarrow> (\<And>a. x = Some a \<Longrightarrow> emits F (n a)) \<Longrightarrow>
   emits F (case x of None \<Rightarrow> m | Some a \<Rightarrow> n a)"
  by (cases x) auto

lemma emits_sum [emits_rules]:
  "(\<And>e. x = Inl e \<Longrightarrow> emits F (m e)) \<Longrightarrow> (\<And>a. x = Inr a \<Longrightarrow> emits F (n a)) \<Longrightarrow>
   emits F (case x of Inl e \<Rightarrow> m e | Inr a \<Rightarrow> n a)"
  by (cases x) auto

lemma emits_prod [emits_rules]:
  "(\<And>a b. x = (a, b) \<Longrightarrow> emits F (m a b)) \<Longrightarrow> emits F (case x of (a, b) \<Rightarrow> m a b)"
  by (cases x) auto

lemma history_grows:
  assumes "emits F m" and "m s = (r, t)"
  shows "\<exists>evs. history t = history s @ evs"
  using assms by (blast elim: emitsE)

end
