(* ===== verification/Kernel_Templates.thy ===== *)
theory Kernel_Templates
  imports KMM_Env
begin

text \<open>
  \<open>internal/utils/replaceStrings.go\<close>: the variables a kernel version defines, and their substitution
  in the templates of a Module.  The substitution itself is the library \<open>envsubst\<close>, the field
  \<open>EnvsubstParse\<close> of the environment.
\<close>

text \<open>The separators of the regular expression \<open>[.,-]\<close>.\<close>

definition is_kernel_sep :: "char \<Rightarrow> bool" where
  "is_kernel_sep c = (c = CHR ''.'' \<or> c = CHR '','' \<or> c = CHR ''-'')"

text \<open>
  Slices of Go.  An index expression panics outside the length.  A slice expression \<open>xs[:n]\<close> panics
  only outside the capacity; between the length and the capacity it shows the zero values the array was
  made with.  The capacity is a parameter, since the language leaves it to the implementation of
  \<open>append\<close> inside \<open>regexp.Split\<close>.
\<close>

definition at_index :: "'a list \<Rightarrow> nat \<Rightarrow> 'a res" where
  "at_index xs i = (if i < length xs then Ok (xs ! i) else Panic)"

definition slice_to :: "nat \<Rightarrow> 'a \<Rightarrow> 'a list \<Rightarrow> nat \<Rightarrow> 'a list res" where
  "slice_to capacity zero xs n =
     (if n \<le> capacity then Ok (take n (xs @ replicate (capacity - length xs) zero)) else Panic)"

text \<open>
  The expressions of the composite literal are evaluated from left to right, without a test of the
  number of fields.
\<close>

definition kernel_envvars :: "nat \<Rightarrow> string \<Rightarrow> string list res" where
  "kernel_envvars capacity kern =
     (let osConfigFieldsList = split_by is_kernel_sep kern in
      check_res (slice_to capacity '''' osConfigFieldsList (2 + 1)) (\<lambda>e. e) (\<lambda>xyz.
      check_res (at_index osConfigFieldsList 0) (\<lambda>e. e) (\<lambda>x.
      check_res (at_index osConfigFieldsList 1) (\<lambda>e. e) (\<lambda>y.
      check_res (at_index osConfigFieldsList 2) (\<lambda>e. e) (\<lambda>z. Ok
        [''KERNEL_FULL_VERSION='' @ kern,
         ''KERNEL_VERSION='' @ kern,
         ''KERNEL_XYZ='' @ Join xyz ''.'',
         ''KERNEL_X='' @ x,
         ''KERNEL_Y='' @ y,
         ''KERNEL_Z='' @ z])))))"

definition KernelComponentsAsEnvVars :: "string \<Rightarrow> string list res" where
  "KernelComponentsAsEnvVars kern = kernel_envvars (length (split_by is_kernel_sep kern)) kern"

fun ReplaceInTemplates :: "env \<Rightarrow> string list \<Rightarrow> string list \<Rightarrow> string list res" where
  "ReplaceInTemplates L envvars [] = Ok []"
| "ReplaceInTemplates L envvars (v # templates) =
     (case EnvsubstParse L envvars v of
        Inl e \<Rightarrow> Err (Errorf ''failed to substitute %q: %v'' [AS v, AE e])
      | Inr resultString \<Rightarrow>
          check_res (ReplaceInTemplates L envvars templates) (\<lambda>e. e) (\<lambda>rest. Ok (resultString # rest)))"

section \<open>Lemmas\<close>

text \<open>
  Whatever the capacity: if the slice expression does not panic for want of a third field, reading the
  third field does.
\<close>

lemma kernel_envvars_eq:
  assumes "length (split_by is_kernel_sep kern) \<le> capacity"
  shows "kernel_envvars capacity kern =
     (let fs = split_by is_kernel_sep kern in
      if length fs < 3 then Panic
      else Ok [''KERNEL_FULL_VERSION='' @ kern, ''KERNEL_VERSION='' @ kern,
        ''KERNEL_XYZ='' @ Join (take 3 fs) ''.'', ''KERNEL_X='' @ fs ! 0, ''KERNEL_Y='' @ fs ! 1, ''KERNEL_Z='' @ fs ! 2])"
  using assms by (auto simp: kernel_envvars_def slice_to_def at_index_def check_res_def Let_def)

lemmas KernelComponentsAsEnvVars_eq =
  kernel_envvars_eq [OF order_refl, folded KernelComponentsAsEnvVars_def]

lemma KernelComponents_not_Err [simp]: "KernelComponentsAsEnvVars kern \<noteq> Err e"
  by (simp add: KernelComponentsAsEnvVars_eq Let_def)

lemma ReplaceInTemplates_Ok_iff:
  "ReplaceInTemplates L envvars ts = Ok rs \<longleftrightarrow>
     list_all2 (\<lambda>t r. EnvsubstParse L envvars t = Inr r) ts rs"
proof (induction ts arbitrary: rs)
  case Nil
  then show ?case by auto
next
  case (Cons t ts)
  then show ?case
    by (auto simp: check_res_Ok_iff list_all2_Cons1 split: sum.splits)
qed

lemma ReplaceInTemplates_not_Panic [simp]: "ReplaceInTemplates L envvars ts \<noteq> Panic"
  by (induction ts) (auto simp: check_res_Panic_iff split: sum.splits)

lemma ReplaceInTemplates_single:
  "ReplaceInTemplates L envvars [t] = Ok rs \<longleftrightarrow>
     (\<exists>r. EnvsubstParse L envvars t = Inr r \<and> rs = [r])"
  by (simp only: ReplaceInTemplates_Ok_iff list_all2_Cons1 list_all2_Nil) auto

text \<open>A field at the front of a kernel version ends at its first separator.\<close>

lemma split_by_rest:
  assumes "\<And>c. c \<in> set f \<Longrightarrow> \<not> p c" and "rest = [] \<or> p (hd rest)"
  shows "\<exists>fs. split_by p (f @ rest) = f # fs"
proof (cases rest)
  case Nil
  with assms(1) show ?thesis by (auto simp: split_by_field)
next
  case (Cons d ds)
  with assms(2) have "p d" by simp
  with Cons split_by_append_sep [of f p d ds] assms(1) show ?thesis by simp
qed

lemma KernelComponents_fields:
  assumes "\<And>c. c \<in> set x \<union> set y \<union> set z \<Longrightarrow> \<not> is_kernel_sep c"
    and "is_kernel_sep s1" and "is_kernel_sep s2"
    and "rest = [] \<or> is_kernel_sep (hd rest)"
  shows "\<exists>fs. split_by is_kernel_sep (x @ [s1] @ y @ [s2] @ z @ rest) = x # y # z # fs"
proof -
  obtain fs where "split_by is_kernel_sep (z @ rest) = z # fs"
    using split_by_rest [of z is_kernel_sep rest] assms(1,4) by auto
  with assms show ?thesis by (simp add: split_by_append_sep)
qed

section \<open>Properties\<close>

text \<open>
  C39. The variables of a kernel version, on every input.  With whatever capacity \<open>regexp.Split\<close> hands
  out the slice of fields, the function panics exactly if the version has fewer than two separators,
  that is fewer than three fields: with a small capacity in the slice expression, with a large one at
  the index of the third field.  There is no error return.  For a version \<open>x.y.z...\<close>, whichever of
  the separators \<open>.\<close>, \<open>,\<close> and \<open>-\<close> stand between its first three fields and whatever follows the
  third one after a separator, the variables are the full version under two names, the three fields
  joined by dots, and each of the three fields.  The version comes from a node, from the cluster claim of
  a spoke, or from a PreflightValidation that any user may create.
\<close>

theorem KernelComponentsAsEnvVars_panic:
  assumes "length (split_by is_kernel_sep kern) \<le> capacity"
  shows "kernel_envvars capacity kern = KernelComponentsAsEnvVars kern \<and>
     (kernel_envvars capacity kern = Panic \<longleftrightarrow> length (filter is_kernel_sep kern) < 2) \<and>
     (\<forall>e. kernel_envvars capacity kern \<noteq> Err e) \<and>
     (\<forall>x y z s1 s2 rest. (\<forall>c \<in> set x \<union> set y \<union> set z. \<not> is_kernel_sep c) \<and>
        is_kernel_sep s1 \<and> is_kernel_sep s2 \<and> (rest = [] \<or> is_kernel_sep (hd rest)) \<and>
        kern = x @ [s1] @ y @ [s2] @ z @ rest \<longrightarrow>
        kernel_envvars capacity kern = Ok
          [''KERNEL_FULL_VERSION='' @ kern, ''KERNEL_VERSION='' @ kern,
           ''KERNEL_XYZ='' @ x @ ''.'' @ y @ ''.'' @ z,
           ''KERNEL_X='' @ x, ''KERNEL_Y='' @ y, ''KERNEL_Z='' @ z])"
proof (intro conjI allI impI; (elim conjE)?)
  show "kernel_envvars capacity kern = KernelComponentsAsEnvVars kern"
    by (simp add: kernel_envvars_eq [OF assms] KernelComponentsAsEnvVars_eq)
  show "kernel_envvars capacity kern = Panic \<longleftrightarrow> length (filter is_kernel_sep kern) < 2"
    by (auto simp: kernel_envvars_eq [OF assms] Let_def length_split_by)
  show "kernel_envvars capacity kern \<noteq> Err e" for e
    by (simp add: kernel_envvars_eq [OF assms] Let_def)
next
  fix x y z s1 s2 rest
  assume "\<forall>c \<in> set x \<union> set y \<union> set z. \<not> is_kernel_sep c" "is_kernel_sep s1" "is_kernel_sep s2"
    "rest = [] \<or> is_kernel_sep (hd rest)" and kern: "kern = x @ [s1] @ y @ [s2] @ z @ rest"
  then obtain fs where "split_by is_kernel_sep kern = x # y # z # fs"
    using KernelComponents_fields [of x y z s1 s2 rest] by blast
  then show "kernel_envvars capacity kern = Ok
      [''KERNEL_FULL_VERSION='' @ kern, ''KERNEL_VERSION='' @ kern,
       ''KERNEL_XYZ='' @ x @ ''.'' @ y @ ''.'' @ z, ''KERNEL_X='' @ x, ''KERNEL_Y='' @ y, ''KERNEL_Z='' @ z]"
    by (simp add: kernel_envvars_eq [OF assms] Let_def numeral_eq_Suc)
qed

theorem KernelComponentsAsEnvVars_panic_witness:
  "kernel_envvars 4 ''5.4'' = Panic \<and>
   kernel_envvars 9 ''5.16.11-200.fc35'' = Ok
     [''KERNEL_FULL_VERSION=5.16.11-200.fc35'', ''KERNEL_VERSION=5.16.11-200.fc35'',
      ''KERNEL_XYZ=5.16.11'', ''KERNEL_X=5'', ''KERNEL_Y=16'', ''KERNEL_Z=11'']"
proof -
  have "length (split_by is_kernel_sep ''5.4'') \<le> 4" by (simp add: is_kernel_sep_def)
  from KernelComponentsAsEnvVars_panic [OF this, THEN conjunct2, THEN conjunct1]
  have "kernel_envvars 4 ''5.4'' = Panic" by (simp add: is_kernel_sep_def)
  moreover have "length (split_by is_kernel_sep ''5.16.11-200.fc35'') \<le> 9"
    by (simp add: is_kernel_sep_def)
  from KernelComponentsAsEnvVars_panic [OF this, THEN conjunct2, THEN conjunct2, THEN conjunct2, rule_format,
      of "''5''" "''16''" "''11''" "CHR ''.''" "CHR ''.''" "''-200.fc35''"]
  have "kernel_envvars 9 ''5.16.11-200.fc35'' = Ok
     [''KERNEL_FULL_VERSION=5.16.11-200.fc35'', ''KERNEL_VERSION=5.16.11-200.fc35'',
      ''KERNEL_XYZ=5.16.11'', ''KERNEL_X=5'', ''KERNEL_Y=16'', ''KERNEL_Z=11'']"
    by (auto simp: is_kernel_sep_def)
  ultimately show ?thesis by simp
qed

end
