(* ===== verification/Samples.thy ===== *)
theory Samples
  imports KMM_Env
begin

text \<open>
  Concrete values for the closed examples that accompany the theorems: an environment, a state to
  start from, and a Module with what belongs to it.  They model no code.
\<close>

section \<open>An environment\<close>

text \<open>
  An empty cluster, as a concrete environment for closed examples: every list is empty, every object
  is missing, every write succeeds, no image exists, a template contains no variable and a regular
  expression matches the version it is equal to.
\<close>

definition empty_cluster :: env where
  "empty_cluster = \<lparr>
     MatchString = (\<lambda>re k. Inr (re = k)),
     EnvsubstParse = (\<lambda>_ t. Inr t),
     HashBuild = (\<lambda>_ _. Inr 7),
     HashSign = (\<lambda>_ _ _. Inr 9),
     Getenv = (\<lambda>_. ''''),
     SetControllerReference = (\<lambda>o1 rs. Inr (rs @ [\<lparr>or_Kind = own_Kind o1, or_Name = om_Name (own_Meta o1),
       or_UID = om_UID (own_Meta o1), or_Controller = True\<rparr>])),
     IsControlledBy = (\<lambda>rs o1. list_ex (\<lambda>r. or_Controller r \<and> or_UID r = om_UID (own_Meta o1)) rs),
     IsPodReady = (\<lambda>p. list_ex (\<lambda>c. cond_Type c = ''Ready'' \<and> cond_Status c = ''True'') (pod_Conditions p)),
     NewRequirement = (\<lambda>_ _. Inr ()),
     SelectorMatches = (\<lambda>reqs ls. list_all (\<lambda>(k, v). map_of ls k = Some v) reqs),
     LabelsChanged = (\<lambda>a b. a \<noteq> b),
     RemoveFinalizer = (\<lambda>fs f. removeAll f fs),
     NewFromPullSecrets = (\<lambda>_. Inr ''keychain''),
     UnmarshalMediaType = (\<lambda>_. Inr None),
     UnmarshalManifest = (\<lambda>_. Inr []),
     UnmarshalIndexManifest = (\<lambda>_. Inr []),
     LayerHeaders = (\<lambda>_. []),
     GOARCH = ''amd64'',
     range_order = (\<lambda>_ ks. ks),
     Now = length,
     cl_GetModule = (\<lambda>_ _. Inl (NotFound ''module'')),
     cl_ListModules = (\<lambda>_. Inr []),
     cl_ListNodes = (\<lambda>_ _. Inr []),
     cl_GetNode = (\<lambda>_ _. Inl (NotFound ''node'')),
     cl_ListDaemonSets = (\<lambda>_ _ _. Inr []),
     cl_GetDaemonSet = (\<lambda>_ _. Inl (NotFound ''daemonset'')),
     cl_ListJobs = (\<lambda>_ _ _. Inr []),
     cl_GetConfigMap = (\<lambda>_ _. Inl (NotFound ''configmap'')),
     cl_GetSecret = (\<lambda>_ _. Inl (NotFound ''secret'')),
     cl_GetPod = (\<lambda>_ _. Inl (NotFound ''pod'')),
     cl_GetPreflightValidation = (\<lambda>_ _. Inl (NotFound ''preflightvalidation'')),
     cl_ListPreflightValidations = (\<lambda>_. Inr []),
     cl_GetManagedClusterModule = (\<lambda>_ _. Inl (NotFound ''managedclustermodule'')),
     cl_ListManagedClusterModules = (\<lambda>_. Inr []),
     cl_ListManagedClusters = (\<lambda>_ _. Inr []),
     cl_ListManifestWorks = (\<lambda>_ _. Inr []),
     cl_GetManifestWork = (\<lambda>_ _. Inl (NotFound ''manifestwork'')),
     cl_GetClusterClaim = (\<lambda>_ _. Inl (NotFound ''clusterclaim'')),
     cr_Manifest = (\<lambda>_ _ _. Inl (TransportError 404)),
     cr_PullLayer = (\<lambda>_ _ _. Inl (TransportError 404)),
     cl_CreateDaemonSet = (\<lambda>_ ds. Inr ds),
     cl_PatchDaemonSet = (\<lambda>_ _ ds. Inr ds),
     cl_Write = (\<lambda>_ _. Inr ()),
     cl_UpdatePreflightStatus = (\<lambda>_ pv. Inr pv)\<rparr>"

text \<open>The same cluster with a Dockerfile and signing keys, and with jobs that answer every list request.\<close>

definition job_cluster :: "Job list \<Rightarrow> env" where
  "job_cluster jobs = empty_cluster\<lparr>
     cl_GetConfigMap := (\<lambda>_ nn. Inr \<lparr>cm_Meta = zero_ObjectMeta\<lparr>om_Name := nn_Name nn\<rparr>,
       cm_Data = [(DockerfileCMKey, ''FROM scratch'')]\<rparr>),
     cl_GetSecret := (\<lambda>_ nn. Inr \<lparr>sec_Meta = zero_ObjectMeta\<lparr>om_Name := nn_Name nn\<rparr>,
       sec_Data = [(PrivateSignDataKey, ''priv''), (PublicSignDataKey, ''pub'')]\<rparr>),
     cl_ListJobs := (\<lambda>_ _ _. Inr jobs)\<rparr>"

definition fresh_state :: op_state where
  "fresh_state = \<lparr>history = [], gauges = \<lparr>kmmoResourcesNum = 0, kmmoCompletedStage = []\<rparr>\<rparr>"

section \<open>Objects\<close>

definition sample_tls :: TLSOptions where
  "sample_tls = \<lparr>tls_Insecure = False, tls_InsecureSkipTLSVerify = False\<rparr>"

definition sample_sign :: "string list \<Rightarrow> Sign" where
  "sample_sign files = \<lparr>sign_UnsignedImage = ''reg/unsigned:1'', sign_UnsignedImageRegistryTLS = sample_tls,
     sign_KeySecret = Some \<lparr>lor_Name = ''k''\<rparr>, sign_CertSecret = Some \<lparr>lor_Name = ''c''\<rparr>,
     sign_FilesToSign = files\<rparr>"

definition sample_build :: Build where
  "sample_build = \<lparr>build_BuildArgs = [], build_DockerfileConfigMap = Some \<lparr>lor_Name = ''df''\<rparr>,
     build_BaseImageRegistryTLS = sample_tls, build_Secrets = [], build_KanikoParams = None\<rparr>"

definition sample_modprobe :: ModprobeSpec where
  "sample_modprobe = \<lparr>mp_ModuleName = ''kmod'', mp_Parameters = [], mp_DirName = ''/opt'', mp_Args = None,
     mp_RawArgs = None, mp_FirmwarePath = ''''\<rparr>"

definition sample_meta :: "string \<Rightarrow> ObjectMeta" where
  "sample_meta name = zero_ObjectMeta\<lparr>om_Name := name, om_Namespace := ''ns'', om_UID := name\<rparr>"

definition sample_owner :: Owner where
  "sample_owner = \<lparr>own_Kind = ''Module'', own_Meta = sample_meta ''mod''\<rparr>"

definition sample_mapping :: "Build option \<Rightarrow> Sign option \<Rightarrow> KernelMapping" where
  "sample_mapping b sg = \<lparr>km_Build = b, km_Sign = sg, km_ContainerImage = ''reg/img:1'', km_Literal = ''5.4.0-gke'',
     km_RegistryTLS = None, km_Regexp = ''''\<rparr>"

definition sample_spec :: "KernelMapping list \<Rightarrow> ModuleSpec" where
  "sample_spec mappings = \<lparr>spec_DevicePlugin = None,
     spec_ModuleLoader = \<lparr>
       ml_Container = \<lparr>mlc_Build = None, mlc_Sign = None, mlc_ContainerImage = '''',
         mlc_ImagePullPolicy = ''Always'', mlc_KernelMappings = mappings,
         mlc_Modprobe = sample_modprobe, mlc_RegistryTLS = sample_tls\<rparr>,
       ml_ServiceAccountName = ''sa''\<rparr>,
     spec_ImageRepoSecret = None,
     spec_Selector = [(''role'', ''worker'')]\<rparr>"

definition sample_dstatus :: DaemonSetStatus where
  "sample_dstatus = \<lparr>dst_NodesMatchingSelectorNumber = 0, dst_DesiredNumber = 0, dst_AvailableNumber = 0\<rparr>"

definition sample_module :: "KernelMapping list \<Rightarrow> Module" where
  "sample_module mappings = \<lparr>mod_Meta = sample_meta ''mod'', mod_Spec = sample_spec mappings,
     mod_Status = \<lparr>st_DevicePlugin = sample_dstatus, st_ModuleLoader = sample_dstatus\<rparr>\<rparr>"

definition sample_mld :: "Build option \<Rightarrow> Sign option \<Rightarrow> ModuleLoaderData" where
  "sample_mld b sg = \<lparr>mld_KernelVersion = ''5.4.0-gke'', mld_ImageRepoSecret = None,
     mld_Selector = [(''role'', ''worker'')], mld_Name = ''mod'', mld_Namespace = ''ns'',
     mld_ServiceAccountName = ''sa'', mld_Build = b, mld_Sign = sg, mld_ContainerImage = ''reg/img:1'',
     mld_ImagePullPolicy = '''', mld_Modprobe = sample_modprobe, mld_RegistryTLS = Some sample_tls,
     mld_Owner = sample_owner\<rparr>"

definition sample_node :: "string \<Rightarrow> string \<Rightarrow> Node" where
  "sample_node name kern = \<lparr>node_Meta = (sample_meta name)\<lparr>om_Labels := [(''role'', ''worker'')]\<rparr>,
     node_Taints = [], node_KernelVersion = kern\<rparr>"

definition sample_ds :: "string \<Rightarrow> string \<Rightarrow> DaemonSet" where
  "sample_ds name kern = zero_DaemonSet\<lparr>ds_Meta := (sample_meta name)\<lparr>om_Labels :=
     (if kern = '''' then [(ModuleNameLabel, ''mod'')]
      else [(ModuleNameLabel, ''mod''), (KernelLabel, kern)])\<rparr>\<rparr>"

definition sample_job :: "string \<Rightarrow> string \<Rightarrow> i32 \<Rightarrow> Job" where
  "sample_job name hash succeeded = \<lparr>job_Meta = (sample_meta name)\<lparr>
       om_Annotations := Some [(JobHashAnnotation, hash)],
       om_OwnerReferences := [\<lparr>or_Kind = ''Module'', or_Name = ''mod'', or_UID = ''mod'', or_Controller = True\<rparr>]\<rparr>,
     job_Completions = Some 1, job_BackoffLimit = Some 0, job_Template = zero_PodTemplateSpec,
     job_Succeeded = succeeded, job_Active = 0, job_Failed = 0\<rparr>"

text \<open>A cluster with one Module, one node, and the given DaemonSets of the Module.\<close>

definition module_cluster :: "Module \<Rightarrow> DaemonSet list \<Rightarrow> env" where
  "module_cluster m dss = empty_cluster\<lparr>
     cl_GetModule := (\<lambda>_ _. Inr m),
     cl_ListNodes := (\<lambda>_ _. Inr [sample_node ''n1'' ''5.4.0-gke'']),
     cl_ListDaemonSets := (\<lambda>_ _ _. Inr dss)\<rparr>"

definition sample_request :: NamespacedName where
  "sample_request = \<lparr>nn_Namespace = ''ns'', nn_Name = ''mod''\<rparr>"

lemmas sample_defs = empty_cluster_def fresh_state_def sample_tls_def sample_sign_def sample_build_def
  sample_modprobe_def sample_meta_def sample_owner_def sample_mapping_def sample_spec_def
  sample_dstatus_def sample_module_def sample_mld_def sample_node_def sample_ds_def sample_job_def

end
