(* ===== verification/Config_Helpers.thy ===== *)
theory Config_Helpers
  imports Kernel_Templates Samples
begin

text \<open>
  \<open>internal/build/helper.go\<close> and \<open>internal/sign/helper.go\<close>: the build and signing settings of a
  kernel mapping merged over those of the Module.  A deep copy of a value is the value; the copies the
  sources take are what makes updating the result in place leave the Module alone.
\<close>

section \<open>Build arguments and build settings\<close>

text \<open>
  The loop over \<open>args\<close>: an argument with an override is replaced by it, and the override counts
  as used.
\<close>

fun override_args ::
  "(string \<times> BuildArg) list \<Rightarrow> BuildArg list \<Rightarrow> string list \<Rightarrow> BuildArg list \<times> string list" where
  "override_args overridesMap [] unused = ([], unused)"
| "override_args overridesMap (a # args) unused =
     (case map_of overridesMap (ba_Name a) of
        Some ov \<Rightarrow>
          (let (rest, unused') = override_args overridesMap args (removeAll (ba_Name a) unused)
           in (ov # rest, unused'))
      | None \<Rightarrow>
          (let (rest, unused') = override_args overridesMap args unused in (a # rest, unused')))"

definition ApplyBuildArgOverrides :: "BuildArg list \<Rightarrow> BuildArg list \<Rightarrow> BuildArg list" where
  "ApplyBuildArgOverrides args overrides =
     (let overridesMap = mputs [] (map (\<lambda>ov. (ba_Name ov, ov)) overrides);
          (args', unusedOverrides) = override_args overridesMap args (map fst overridesMap)
      in args' @ map (\<lambda>name. the (map_of overridesMap name)) (sort unusedOverrides))"

definition GetRelevantBuild :: "Build option \<Rightarrow> Build option \<Rightarrow> Build option" where
  "GetRelevantBuild moduleBuild mappingBuild =
     (case moduleBuild of
        None \<Rightarrow> mappingBuild
      | Some mb \<Rightarrow>
        (case mappingBuild of
           None \<Rightarrow> moduleBuild
         | Some kb \<Rightarrow> Some (mb\<lparr>
             build_DockerfileConfigMap :=
               (if build_DockerfileConfigMap kb \<noteq> None then build_DockerfileConfigMap kb
                else build_DockerfileConfigMap mb),
             build_BuildArgs := ApplyBuildArgOverrides (build_BuildArgs mb) (build_BuildArgs kb),
             build_Secrets := build_Secrets mb @ build_Secrets kb\<rparr>)))"

section \<open>Signing settings\<close>

definition merge_sign :: "Sign option \<Rightarrow> Sign option \<Rightarrow> Sign option" where
  "merge_sign moduleSign mappingSign =
     (case moduleSign of
        None \<Rightarrow> mappingSign
      | Some ms \<Rightarrow>
        (case mappingSign of
           None \<Rightarrow> moduleSign
         | Some ks \<Rightarrow> Some (ms\<lparr>
             sign_UnsignedImage :=
               (if sign_UnsignedImage ks \<noteq> '''' then sign_UnsignedImage ks else sign_UnsignedImage ms),
             sign_KeySecret :=
               (if sign_KeySecret ks \<noteq> None then sign_KeySecret ks else sign_KeySecret ms),
             sign_CertSecret :=
               (if sign_CertSecret ks \<noteq> None then sign_CertSecret ks else sign_CertSecret ms),
             sign_FilesToSign := sign_FilesToSign ms @ sign_FilesToSign ks\<rparr>)))"

definition GetRelevantSign :: "env \<Rightarrow> Sign option \<Rightarrow> Sign option \<Rightarrow> string \<Rightarrow> Sign res" where
  "GetRelevantSign L moduleSign mappingSign kern =
     check_res (KernelComponentsAsEnvVars kern) (\<lambda>e. e) (\<lambda>osConfigEnvVars.
     check_res (deref (merge_sign moduleSign mappingSign)) (\<lambda>e. e) (\<lambda>signConfig.
     check_res (ReplaceInTemplates L osConfigEnvVars [sign_UnsignedImage signConfig]) (\<lambda>e. e)
       (\<lambda>unsignedImage.
     check_res (ReplaceInTemplates L osConfigEnvVars (sign_FilesToSign signConfig)) (\<lambda>e. e)
       (\<lambda>filesToSign.
     Ok (signConfig\<lparr>sign_UnsignedImage := unsignedImage ! 0, sign_FilesToSign := filesToSign\<rparr>)))))"

section \<open>Lemmas\<close>

text \<open>Which override counts for a name: the last one given.\<close>

definition last_override :: "BuildArg list \<Rightarrow> string \<Rightarrow> BuildArg option" where
  "last_override overrides name = map_of (rev (map (\<lambda>ov. (ba_Name ov, ov)) overrides)) name"

lemma last_override_name: "last_override ovs n = Some ov \<Longrightarrow> ba_Name ov = n"
  unfolding last_override_def by (drule map_of_SomeD) auto

lemma map_of_overridesMap:
  "map_of (mputs [] (map (\<lambda>ov. (ba_Name ov, ov)) overrides)) n = last_override overrides n"
  by (simp add: map_of_mputs last_override_def split: option.split)

lemma snd_override_args:
  "snd (override_args om args unused) =
     filter (\<lambda>n. \<not> (n \<in> ba_Name ` set args \<and> map_of om n \<noteq> None)) unused"
proof (induction args arbitrary: unused)
  case Nil
  then show ?case by simp
next
  case (Cons a args)
  then show ?case
    by (auto simp: case_prod_beta Let_def removeAll_filter_not_eq split: option.splits
        intro!: filter_cong)
qed

lemma fst_override_args:
  assumes "\<And>n ov. map_of om n = Some ov \<Longrightarrow> ba_Name ov = n"
  shows "filter (\<lambda>a. ba_Name a = n) (fst (override_args om args unused)) =
    (case map_of om n of
       None \<Rightarrow> filter (\<lambda>a. ba_Name a = n) args
     | Some ov \<Rightarrow> replicate (length (filter (\<lambda>a. ba_Name a = n) args)) ov)"
  using assms
  by (induction args arbitrary: unused)
    (auto simp: case_prod_beta Let_def split: option.splits)

lemma filter_sort_singleton:
  assumes "distinct ns" and "n \<in> set ns"
  shows "filter (\<lambda>x. x = n) (sort ns) = [n]"
proof -
  have "filter (\<lambda>x. x = n) (sort ns) = sort (filter (\<lambda>x. x = n) ns)"
    by (simp add: filter_sort)
  also have "filter (\<lambda>x. x = n) ns = [n]"
    using assms by (induction ns) (auto simp: filter_empty_conv)
  finally show ?thesis by simp
qed

text \<open>The overrides no argument took, appended in the order of their names.\<close>

lemma filter_appended:
  assumes "distinct ns" and "\<And>m. m \<in> set ns \<Longrightarrow> ba_Name (f m) = m"
  shows "filter (\<lambda>a. ba_Name a = n) (map f (sort ns)) = (if n \<in> set ns then [f n] else [])"
proof -
  have "filter (\<lambda>a. ba_Name a = n) (map f (sort ns)) = map f (filter (\<lambda>m. m = n) (sort ns))"
    using assms(2) by (auto simp: filter_map comp_def intro!: arg_cong [where f = "map f"] filter_cong)
  then show ?thesis
    using assms(1) filter_sort_singleton [of ns n] by (auto simp: filter_empty_conv)
qed

text \<open>
  The build settings of a kernel: those of the one that has any if the Module or the mapping has
  none; otherwise those of the Module, with the Dockerfile of the mapping if it names one, with the
  build arguments of the mapping over those of the Module and the secrets of both.  The registry
  options of the base images and the Kaniko tag of the mapping are not taken over, although the
  mapping's build section is documented to override the Module's settings.
\<close>

lemma GetRelevantBuild_merge:
  "GetRelevantBuild None kb = kb" "GetRelevantBuild mb None = mb"
  "GetRelevantBuild (Some m) (Some k) = Some \<lparr>
     build_BuildArgs = ApplyBuildArgOverrides (build_BuildArgs m) (build_BuildArgs k),
     build_DockerfileConfigMap =
       (case build_DockerfileConfigMap k of None \<Rightarrow> build_DockerfileConfigMap m | Some d \<Rightarrow> Some d),
     build_BaseImageRegistryTLS = build_BaseImageRegistryTLS m,
     build_Secrets = build_Secrets m @ build_Secrets k,
     build_KanikoParams = build_KanikoParams m\<rparr>"
  by (cases mb; cases m; simp add: GetRelevantBuild_def split: option.split)+

lemma ApplyBuildArgOverrides_lookup:
  "filter (\<lambda>a. ba_Name a = n) (ApplyBuildArgOverrides args overrides) =
     (case last_override overrides n of
        None \<Rightarrow> filter (\<lambda>a. ba_Name a = n) args
      | Some ov \<Rightarrow> replicate (max 1 (length (filter (\<lambda>a. ba_Name a = n) args))) ov)"
proof -
  define om where "om = mputs [] (map (\<lambda>ov. (ba_Name ov, ov)) overrides)"
  have om: "map_of om m = last_override overrides m" for m
    by (simp add: om_def map_of_overridesMap)
  have named: "map_of om m = Some ov \<Longrightarrow> ba_Name ov = m" for m ov
    by (simp add: om last_override_name)
  define unused where "unused = snd (override_args om args (map fst om))"
  have dist: "distinct unused"
    by (simp add: unused_def snd_override_args om_def distinct_mputs)
  have unused: "m \<in> set unused \<longleftrightarrow> map_of om m \<noteq> None \<and> m \<notin> ba_Name ` set args" for m
    using dom_map_of_fst [of om] by (auto simp: unused_def snd_override_args)
  have "filter (\<lambda>a. ba_Name a = n) (map (\<lambda>name. the (map_of om name)) (sort unused)) =
      (if n \<in> set unused then [the (map_of om n)] else [])"
    by (rule filter_appended [OF dist]) (use unused named in auto)
  then show ?thesis
    using unused [of n] fst_override_args [of om n args "map fst om", OF named]
    by (cases "map_of om n")
      (auto simp: ApplyBuildArgOverrides_def om_def [symmetric] unused_def case_prod_beta Let_def om
        filter_empty_conv max_def not_less_eq_eq)
qed

section \<open>Properties\<close>

text \<open>
  What the build gets for an argument name, argument lists being arbitrary: if no override has the
  name, the arguments of that name as they were; otherwise the last override of that name in the place
  of each of them, and once if there was none.
\<close>

theorem ApplyBuildArgOverrides_by_name:
  "filter (\<lambda>a. ba_Name a = n) (ApplyBuildArgOverrides args overrides) =
     (case last_override overrides n of
        None \<Rightarrow> filter (\<lambda>a. ba_Name a = n) args
      | Some ov \<Rightarrow> replicate (max 1 (length (filter (\<lambda>a. ba_Name a = n) args))) ov)"
  by (rule ApplyBuildArgOverrides_lookup)

text \<open>
  The signing settings of a kernel: the secrets and the unsigned image of the mapping where it has
  them, the files of the Module followed by those of the mapping, with the template variables of the
  kernel replaced in the image and in every file.
\<close>

theorem GetRelevantSign_merge:
  assumes "GetRelevantSign L (Some ms) (Some ks) kern = Ok sc"
  shows "\<exists>envs. KernelComponentsAsEnvVars kern = Ok envs \<and>
     EnvsubstParse L envs (if sign_UnsignedImage ks \<noteq> '''' then sign_UnsignedImage ks
        else sign_UnsignedImage ms) = Inr (sign_UnsignedImage sc) \<and>
     list_all2 (\<lambda>t f. EnvsubstParse L envs t = Inr f)
       (sign_FilesToSign ms @ sign_FilesToSign ks) (sign_FilesToSign sc) \<and>
     sign_KeySecret sc = (case sign_KeySecret ks of None \<Rightarrow> sign_KeySecret ms | Some k \<Rightarrow> Some k) \<and>
     sign_CertSecret sc = (case sign_CertSecret ks of None \<Rightarrow> sign_CertSecret ms | Some c \<Rightarrow> Some c) \<and>
     sign_UnsignedImageRegistryTLS sc = sign_UnsignedImageRegistryTLS ms"
proof -
  obtain envs rs fs where "KernelComponentsAsEnvVars kern = Ok envs"
    and rs: "ReplaceInTemplates L envs [sign_UnsignedImage (the (merge_sign (Some ms) (Some ks)))] = Ok rs"
    and fs: "ReplaceInTemplates L envs (sign_FilesToSign (the (merge_sign (Some ms) (Some ks)))) = Ok fs"
    and sc: "sc = (the (merge_sign (Some ms) (Some ks)))
        \<lparr>sign_UnsignedImage := rs ! 0, sign_FilesToSign := fs\<rparr>"
    using assms unfolding GetRelevantSign_def check_res_Ok_iff
    by (auto simp: merge_sign_def simp del: ReplaceInTemplates.simps)
  moreover obtain r where "EnvsubstParse L envs
      (sign_UnsignedImage (the (merge_sign (Some ms) (Some ks)))) = Inr r" and "rs = [r]"
    using rs unfolding ReplaceInTemplates_single by blast
  ultimately show ?thesis
    by (auto simp: merge_sign_def ReplaceInTemplates_Ok_iff simp del: ReplaceInTemplates.simps
        split: option.split if_splits)
qed

theorem GetRelevantSign_merge_witness:
  "\<exists>sc. GetRelevantSign empty_cluster (Some (sample_sign [''/opt/a.ko'']))
       (Some (sample_sign [''/opt/b.ko''])) ''5.4.0-gke'' = Ok sc \<and>
     sign_FilesToSign sc = [''/opt/a.ko'', ''/opt/b.ko''] \<and> sign_UnsignedImage sc = ''reg/unsigned:1''"
proof -
  let ?sc = "sample_sign [''/opt/a.ko'', ''/opt/b.ko'']"
  have run: "GetRelevantSign empty_cluster (Some (sample_sign [''/opt/a.ko'']))
      (Some (sample_sign [''/opt/b.ko''])) ''5.4.0-gke'' = Ok ?sc"
    by (simp add: GetRelevantSign_def KernelComponentsAsEnvVars_eq Let_def is_kernel_sep_def
        merge_sign_def sample_defs)
  from GetRelevantSign_merge [OF run] have "sign_UnsignedImage ?sc = ''reg/unsigned:1''"
    by (auto simp: sample_defs)
  with run show ?thesis by (auto simp: sample_sign_def)
qed

end
