(* ===== verification/Kernel_Mapper.thy ===== *)
theory Kernel_Mapper
  imports Config_Helpers
begin

text \<open>
  \<open>internal/module/kernelmapper.go\<close>: which kernel mapping of a Module serves a kernel version, and
  the data of the module loader for it.  Matching a regular expression is the field \<open>MatchString\<close> of
  the environment.
\<close>

definition owner_of_module :: "Module \<Rightarrow> Owner" where
  "owner_of_module m = \<lparr>own_Kind = ''Module'', own_Meta = mod_Meta m\<rparr>"

fun findKernelMapping :: "env \<Rightarrow> KernelMapping list \<Rightarrow> string \<Rightarrow> KernelMapping res" where
  "findKernelMapping L [] kernelVersion = Err (Errorf ''no suitable mapping found'' [])"
| "findKernelMapping L (m # mappings) kernelVersion =
     (if km_Literal m \<noteq> '''' \<and> km_Literal m = kernelVersion then Ok m
      else if km_Regexp m = '''' then findKernelMapping L mappings kernelVersion
      else case MatchString L (km_Regexp m) kernelVersion of
          Inl e \<Rightarrow> Err (Errorf ''could not match regexp %q against kernel %q: %v''
             [AS (km_Regexp m), AS kernelVersion, AE e])
        | Inr matches \<Rightarrow> if matches then Ok m else findKernelMapping L mappings kernelVersion)"

text \<open>
  The struct literal starts from the zero value and no statement assigns \<open>ImagePullPolicy\<close>.
\<close>

definition prepareModuleLoaderData ::
  "env \<Rightarrow> KernelMapping \<Rightarrow> Module \<Rightarrow> string \<Rightarrow> ModuleLoaderData res" where
  "prepareModuleLoaderData L mapping m kernelVersion =
     (let container = ml_Container (spec_ModuleLoader (mod_Spec m));
          build = (if km_Build mapping \<noteq> None \<or> mlc_Build container \<noteq> None
                   then GetRelevantBuild (mlc_Build container) (km_Build mapping) else None)
      in check_res
        (if km_Sign mapping \<noteq> None \<or> mlc_Sign container \<noteq> None
         then check_res (GetRelevantSign L (mlc_Sign container) (km_Sign mapping) kernelVersion)
           (\<lambda>e. Errorf ''failed to get the relevant Sign configuration for kernel %s: %v''
              [AS kernelVersion, AE e])
           (\<lambda>sg. Ok (Some sg))
         else Ok None) (\<lambda>e. e)
        (\<lambda>sg. Ok \<lparr>
           mld_KernelVersion = kernelVersion,
           mld_ImageRepoSecret = spec_ImageRepoSecret (mod_Spec m),
           mld_Selector = spec_Selector (mod_Spec m),
           mld_Name = om_Name (mod_Meta m),
           mld_Namespace = om_Namespace (mod_Meta m),
           mld_ServiceAccountName = ml_ServiceAccountName (spec_ModuleLoader (mod_Spec m)),
           mld_Build = build,
           mld_Sign = sg,
           mld_ContainerImage = (if km_ContainerImage mapping = '''' then mlc_ContainerImage container
                                 else km_ContainerImage mapping),
           mld_ImagePullPolicy = '''',
           mld_Modprobe = mlc_Modprobe container,
           mld_RegistryTLS = (case km_RegistryTLS mapping of
               None \<Rightarrow> Some (mlc_RegistryTLS container) | Some tls \<Rightarrow> Some tls),
           mld_Owner = owner_of_module m\<rparr>))"

definition replaceTemplates :: "env \<Rightarrow> ModuleLoaderData \<Rightarrow> ModuleLoaderData res" where
  "replaceTemplates L mld =
     check_res (KernelComponentsAsEnvVars (mld_KernelVersion mld)) (\<lambda>e. e) (\<lambda>osConfigEnvVars.
     check_res (ReplaceInTemplates L osConfigEnvVars [mld_ContainerImage mld])
       (\<lambda>e. Errorf ''failed to substitute templates in the ContainerImage field: %v'' [AE e])
       (\<lambda>replacedContainerImage. Ok (mld\<lparr>mld_ContainerImage := replacedContainerImage ! 0\<rparr>)))"

definition GetModuleLoaderDataForKernel :: "env \<Rightarrow> Module \<Rightarrow> string \<Rightarrow> ModuleLoaderData res" where
  "GetModuleLoaderDataForKernel L m kernelVersion =
     check_res (findKernelMapping L
         (mlc_KernelMappings (ml_Container (spec_ModuleLoader (mod_Spec m)))) kernelVersion)
       (\<lambda>e. Errorf ''failed to find mapping for kernel %s: %v'' [AS kernelVersion, AE e])
       (\<lambda>foundMapping.
     check_res (prepareModuleLoaderData L foundMapping m kernelVersion)
       (\<lambda>e. Errorf ''failed to prepare module loader data for kernel %s: %v'' [AS kernelVersion, AE e])
       (\<lambda>mld.
     check_res (replaceTemplates L mld)
       (\<lambda>e. Errorf ''failed to replace templates in module loader data for kernel %s: %v''
          [AS kernelVersion, AE e])
       Ok))"

section \<open>Lemmas\<close>

text \<open>A mapping serves a kernel, or stops the search because its regular expression is invalid.\<close>

definition mapping_matches :: "env \<Rightarrow> string \<Rightarrow> KernelMapping \<Rightarrow> bool" where
  "mapping_matches L k m \<longleftrightarrow>
     (km_Literal m \<noteq> '''' \<and> km_Literal m = k) \<or>
     (km_Regexp m \<noteq> '''' \<and> MatchString L (km_Regexp m) k = Inr True)"

definition mapping_invalid :: "env \<Rightarrow> string \<Rightarrow> KernelMapping \<Rightarrow> bool" where
  "mapping_invalid L k m \<longleftrightarrow> \<not> (km_Literal m \<noteq> '''' \<and> km_Literal m = k) \<and>
     km_Regexp m \<noteq> '''' \<and> (\<exists>e. MatchString L (km_Regexp m) k = Inl e)"

lemma findKernelMapping_Cons:
  "findKernelMapping L (m # ms) k =
     (if mapping_matches L k m then Ok m
      else if mapping_invalid L k m then Err (Errorf ''could not match regexp %q against kernel %q: %v''
         [AS (km_Regexp m), AS k, AE (projl (MatchString L (km_Regexp m) k))])
      else findKernelMapping L ms k)"
  by (auto simp: mapping_matches_def mapping_invalid_def split: sum.splits)

lemma findKernelMapping_Ok_iff:
  "findKernelMapping L ms k = Ok m \<longleftrightarrow>
     (\<exists>xs ys. ms = xs @ m # ys \<and> mapping_matches L k m \<and>
        (\<forall>x \<in> set xs. \<not> mapping_matches L k x \<and> \<not> mapping_invalid L k x))"
proof (induction ms)
  case Nil
  then show ?case by simp
next
  case (Cons a ms)
  consider "mapping_matches L k a" | "\<not> mapping_matches L k a" "mapping_invalid L k a"
    | "\<not> mapping_matches L k a" "\<not> mapping_invalid L k a" by blast
  then show ?case
  proof cases
    case 1
    then show ?thesis
      by (auto simp: findKernelMapping_Cons Cons_eq_append_conv simp del: findKernelMapping.simps)
  next
    case 2
    then show ?thesis
      by (auto simp: findKernelMapping_Cons Cons_eq_append_conv simp del: findKernelMapping.simps)
  next
    case 3
    then show ?thesis
      by (auto simp: findKernelMapping_Cons Cons.IH Cons_eq_append_conv simp del: findKernelMapping.simps)
        (rule_tac x = "a # xs" in exI, auto)
  qed
qed

lemma findKernelMapping_not_Panic [simp]: "findKernelMapping L ms k \<noteq> Panic"
  by (induction ms) (auto split: sum.splits)

lemma replaceTemplates_Ok_iff:
  "replaceTemplates L mld = Ok mld' \<longleftrightarrow>
     (\<exists>envs img. KernelComponentsAsEnvVars (mld_KernelVersion mld) = Ok envs \<and>
        EnvsubstParse L envs (mld_ContainerImage mld) = Inr img \<and>
        mld' = mld\<lparr>mld_ContainerImage := img\<rparr>)"
  unfolding replaceTemplates_def check_res_Ok_iff ReplaceInTemplates_single by auto

lemma prepare_Ok_fields:
  assumes "prepareModuleLoaderData L mapping m k = Ok mld"
  shows "mld_KernelVersion mld = k" "mld_Name mld = om_Name (mod_Meta m)"
    "mld_Namespace mld = om_Namespace (mod_Meta m)" "mld_Selector mld = spec_Selector (mod_Spec m)"
    "mld_ImagePullPolicy mld = ''''" "mld_Owner mld = owner_of_module m"
    "mld_Modprobe mld = mlc_Modprobe (ml_Container (spec_ModuleLoader (mod_Spec m)))"
    "mld_Build mld = GetRelevantBuild (mlc_Build (ml_Container (spec_ModuleLoader (mod_Spec m)))) (km_Build mapping)"
    "mld_Sign mld = None \<longleftrightarrow>
       mlc_Sign (ml_Container (spec_ModuleLoader (mod_Spec m))) = None \<and> km_Sign mapping = None"
    "mld_ContainerImage mld = (if km_ContainerImage mapping = ''''
       then mlc_ContainerImage (ml_Container (spec_ModuleLoader (mod_Spec m))) else km_ContainerImage mapping)"
    "mld_RegistryTLS mld \<noteq> None"
proof -
  let ?c = "ml_Container (spec_ModuleLoader (mod_Spec m))"
  obtain sg where sg: "(if km_Sign mapping \<noteq> None \<or> mlc_Sign ?c \<noteq> None
         then check_res (GetRelevantSign L (mlc_Sign ?c) (km_Sign mapping) k)
           (\<lambda>e. Errorf ''failed to get the relevant Sign configuration for kernel %s: %v'' [AS k, AE e])
           (\<lambda>sg. Ok (Some sg))
         else Ok None) = Ok sg"
    and mld: "mld = \<lparr>mld_KernelVersion = k,
           mld_ImageRepoSecret = spec_ImageRepoSecret (mod_Spec m),
           mld_Selector = spec_Selector (mod_Spec m),
           mld_Name = om_Name (mod_Meta m),
           mld_Namespace = om_Namespace (mod_Meta m),
           mld_ServiceAccountName = ml_ServiceAccountName (spec_ModuleLoader (mod_Spec m)),
           mld_Build = (if km_Build mapping \<noteq> None \<or> mlc_Build ?c \<noteq> None
                   then GetRelevantBuild (mlc_Build ?c) (km_Build mapping) else None),
           mld_Sign = sg,
           mld_ContainerImage = (if km_ContainerImage mapping = '''' then mlc_ContainerImage ?c
                                 else km_ContainerImage mapping),
           mld_ImagePullPolicy = '''',
           mld_Modprobe = mlc_Modprobe ?c,
           mld_RegistryTLS = (case km_RegistryTLS mapping of
               None \<Rightarrow> Some (mlc_RegistryTLS ?c) | Some tls \<Rightarrow> Some tls),
           mld_Owner = owner_of_module m\<rparr>"
    using assms unfolding prepareModuleLoaderData_def Let_def check_res_Ok_iff res.inject by metis
  show "mld_KernelVersion mld = k" "mld_Name mld = om_Name (mod_Meta m)"
    "mld_Namespace mld = om_Namespace (mod_Meta m)" "mld_Selector mld = spec_Selector (mod_Spec m)"
    "mld_ImagePullPolicy mld = ''''" "mld_Owner mld = owner_of_module m"
    "mld_Modprobe mld = mlc_Modprobe ?c"
    "mld_ContainerImage mld = (if km_ContainerImage mapping = ''''
       then mlc_ContainerImage ?c else km_ContainerImage mapping)"
    using mld by simp_all
  show "mld_RegistryTLS mld \<noteq> None" using mld by (simp split: option.splits)
  show "mld_Build mld = GetRelevantBuild (mlc_Build ?c) (km_Build mapping)"
    using mld by (simp add: GetRelevantBuild_def)
  show "mld_Sign mld = None \<longleftrightarrow> mlc_Sign ?c = None \<and> km_Sign mapping = None"
    using mld sg by (auto simp: check_res_Ok_iff split: if_splits)
qed

lemma GetModuleLoaderData_Ok_iff:
  "GetModuleLoaderDataForKernel L m k = Ok mld \<longleftrightarrow>
     (\<exists>mapping mld0. findKernelMapping L
          (mlc_KernelMappings (ml_Container (spec_ModuleLoader (mod_Spec m)))) k = Ok mapping \<and>
        prepareModuleLoaderData L mapping m k = Ok mld0 \<and> replaceTemplates L mld0 = Ok mld)"
  by (auto simp: GetModuleLoaderDataForKernel_def check_res_Ok_iff)

lemma GetModuleLoaderData_Ok_fields:
  assumes "GetModuleLoaderDataForKernel L m k = Ok mld"
  shows "mld_KernelVersion mld = k" "mld_Name mld = om_Name (mod_Meta m)"
    "mld_Namespace mld = om_Namespace (mod_Meta m)" "mld_Selector mld = spec_Selector (mod_Spec m)"
    "mld_ImagePullPolicy mld = ''''" "mld_Owner mld = owner_of_module m" "mld_RegistryTLS mld \<noteq> None"
proof -
  obtain mapping mld0 img where prep: "prepareModuleLoaderData L mapping m k = Ok mld0"
    and mld: "mld = mld0\<lparr>mld_ContainerImage := img\<rparr>"
    using assms unfolding GetModuleLoaderData_Ok_iff replaceTemplates_Ok_iff by blast
  note prepare_Ok_fields [OF prep]
  then show "mld_KernelVersion mld = k" "mld_Name mld = om_Name (mod_Meta m)"
    "mld_Namespace mld = om_Namespace (mod_Meta m)" "mld_Selector mld = spec_Selector (mod_Spec m)"
    "mld_ImagePullPolicy mld = ''''" "mld_Owner mld = owner_of_module m" "mld_RegistryTLS mld \<noteq> None"
    unfolding mld by simp_all
qed

section \<open>Properties\<close>

text \<open>
  The mapping found for a kernel is the first one in the Module's list that names it literally or
  whose regular expression matches it; an invalid regular expression before it ends the search with an
  error instead.
\<close>

theorem findKernelMapping_first_match:
  "findKernelMapping L mappings k = Ok m \<longleftrightarrow>
     (\<exists>i < length mappings. mappings ! i = m \<and> mapping_matches L k m \<and>
        (\<forall>j < i. \<not> mapping_matches L k (mappings ! j) \<and> \<not> mapping_invalid L k (mappings ! j)))"
proof -
  have "(\<exists>xs ys. mappings = xs @ m # ys \<and> mapping_matches L k m \<and>
        (\<forall>x \<in> set xs. \<not> mapping_matches L k x \<and> \<not> mapping_invalid L k x)) \<longleftrightarrow>
     (\<exists>i < length mappings. mappings ! i = m \<and> mapping_matches L k m \<and>
        (\<forall>j < i. \<not> mapping_matches L k (mappings ! j) \<and> \<not> mapping_invalid L k (mappings ! j)))"
    (is "?A \<longleftrightarrow> ?B")
  proof
    assume ?A
    then obtain xs ys where "mappings = xs @ m # ys" "mapping_matches L k m"
      "\<forall>x \<in> set xs. \<not> mapping_matches L k x \<and> \<not> mapping_invalid L k x" by blast
    then show ?B by (intro exI [of _ "length xs"]) (auto simp: nth_append)
  next
    assume ?B
    then obtain i where i: "i < length mappings" "mappings ! i = m" "mapping_matches L k m"
      "\<forall>j < i. \<not> mapping_matches L k (mappings ! j) \<and> \<not> mapping_invalid L k (mappings ! j)" by blast
    then have "mappings = take i mappings @ m # drop (Suc i) mappings"
      using id_take_nth_drop by blast
    moreover have "\<forall>x \<in> set (take i mappings). \<not> mapping_matches L k x \<and> \<not> mapping_invalid L k x"
      using i by (auto simp: in_set_conv_nth)
    ultimately show ?A using i(3) by blast
  qed
  then show ?thesis by (simp add: findKernelMapping_Ok_iff)
qed

theorem findKernelMapping_first_match_witness:
  "findKernelMapping empty_cluster
     [(sample_mapping None None)\<lparr>km_Literal := ''5.3.0''\<rparr>, sample_mapping None None] ''5.4.0-gke'' =
     Ok (sample_mapping None None)"
  unfolding findKernelMapping_first_match
  by (intro exI [of _ 1]) (simp add: sample_defs mapping_matches_def mapping_invalid_def)

text \<open>
  C27. The data the operator works with for a kernel: it comes from a mapping of the Module that matches
  the kernel; the container image is that of the mapping, or of the Module if the mapping names none,
  with the variables of the kernel replaced; the build settings are the merged ones; a signing section
  is present exactly when the Module or the mapping has one; and the image pull policy is always empty,
  whatever the Module asks for.
\<close>

theorem GetModuleLoaderDataForKernel_data:
  assumes "GetModuleLoaderDataForKernel L m k = Ok mld"
    and "container = ml_Container (spec_ModuleLoader (mod_Spec m))"
  shows "\<exists>mapping envs. mapping \<in> set (mlc_KernelMappings container) \<and> mapping_matches L k mapping \<and>
     KernelComponentsAsEnvVars k = Ok envs \<and>
     EnvsubstParse L envs (if km_ContainerImage mapping = '''' then mlc_ContainerImage container
        else km_ContainerImage mapping) = Inr (mld_ContainerImage mld) \<and>
     mld_Build mld = GetRelevantBuild (mlc_Build container) (km_Build mapping) \<and>
     (mld_Sign mld = None \<longleftrightarrow> mlc_Sign container = None \<and> km_Sign mapping = None) \<and>
     mld_KernelVersion mld = k \<and> mld_Owner mld = owner_of_module m \<and> mld_ImagePullPolicy mld = ''''"
proof -
  obtain mapping mld0 where found: "findKernelMapping L (mlc_KernelMappings container) k = Ok mapping"
    and prep: "prepareModuleLoaderData L mapping m k = Ok mld0"
    and repl: "replaceTemplates L mld0 = Ok mld"
    using assms by (auto simp: GetModuleLoaderData_Ok_iff)
  have "mapping \<in> set (mlc_KernelMappings container)" "mapping_matches L k mapping"
    using found by (auto simp: findKernelMapping_Ok_iff)
  moreover note fields = prepare_Ok_fields [OF prep]
  ultimately show ?thesis
    using repl assms(2) by (auto simp: replaceTemplates_Ok_iff)
qed

theorem GetModuleLoaderDataForKernel_data_witness:
  "\<exists>mld. GetModuleLoaderDataForKernel empty_cluster (sample_module [sample_mapping None None]) ''5.4.0-gke'' = Ok mld \<and>
     mld_ContainerImage mld = ''reg/img:1'' \<and> mld_ImagePullPolicy mld = ''''"
proof -
  have run: "GetModuleLoaderDataForKernel empty_cluster (sample_module [sample_mapping None None]) ''5.4.0-gke'' =
      Ok (sample_mld None None)"
    by (simp add: GetModuleLoaderDataForKernel_def prepareModuleLoaderData_def replaceTemplates_def
        KernelComponentsAsEnvVars_eq is_kernel_sep_def Let_def owner_of_module_def sample_defs)
  from GetModuleLoaderDataForKernel_data [OF run refl] have "mld_ImagePullPolicy (sample_mld None None) = ''''"
    by blast
  with run show ?thesis by (auto simp: sample_mld_def)
qed

end
