(* ===== verification/Daemon_Set.thy ===== *)
theory Daemon_Set
  imports Kernel_Mapper
begin

text \<open>
  \<open>internal/daemonset/daemonset.go\<close>: the DaemonSets that load the kernel module on the nodes of one
  kernel, and the one of the device plugin.  The generator's field \<open>kernelLabel\<close> is the constant
  \<open>KernelLabel\<close> that \<open>cmd/manager/main.go\<close> passes to \<open>NewCreator\<close>.  Setting a DaemonSet as desired
  returns the updated object instead of updating it through the pointer.
\<close>

section \<open>Small helpers\<close>

definition kubeletDevicePluginsVolumeName :: string where
  "kubeletDevicePluginsVolumeName = ''kubelet-device-plugins''"

definition kubeletDevicePluginsPath :: string where
  "kubeletDevicePluginsPath = ''/var/lib/kubelet/device-plugins''"

definition nodeLibModulesVolumeName :: string where
  "nodeLibModulesVolumeName = ''node-lib-modules''"

definition nodeVarLibFirmwarePath :: string where
  "nodeVarLibFirmwarePath = ''/var/lib/firmware''"

definition nodeVarLibFirmwareVolumeName :: string where
  "nodeVarLibFirmwareVolumeName = ''node-var-lib-firmware''"

definition devicePluginKernelVersion :: string where
  "devicePluginKernelVersion = ''''"

definition isDevicePluginDaemonSet :: "DaemonSet \<Rightarrow> bool" where
  "isDevicePluginDaemonSet ds \<longleftrightarrow> mget (om_Labels (ds_Meta ds)) KernelLabel = ''''"

definition CopyMapStringString :: "smap \<Rightarrow> smap" where
  "CopyMapStringString m = mputs [] m"

definition getDriverContainerNodeLabel :: "string \<Rightarrow> string" where
  "getDriverContainerNodeLabel moduleName = ''kmm.node.kubernetes.io/'' @ moduleName @ ''.ready''"

definition getDevicePluginNodeLabel :: "string \<Rightarrow> string" where
  "getDevicePluginNodeLabel moduleName =
     ''kmm.node.kubernetes.io/'' @ moduleName @ ''.device-plugin-ready''"

definition IsDevicePluginKernelVersion :: "string \<Rightarrow> bool" where
  "IsDevicePluginKernelVersion kernelVersion \<longleftrightarrow> kernelVersion = devicePluginKernelVersion"

definition GetDevicePluginKernelVersion :: string where
  "GetDevicePluginKernelVersion = devicePluginKernelVersion"

definition GetPodPullSecrets :: "LocalObjectReference option \<Rightarrow> LocalObjectReference list" where
  "GetPodPullSecrets secret = (case secret of None \<Rightarrow> [] | Some sec \<Rightarrow> [sec])"

definition OverrideLabels :: "smap \<Rightarrow> smap \<Rightarrow> smap" where
  "OverrideLabels labels overrides = mputs labels overrides"

definition GetNodeLabelFromPod :: "Pod \<Rightarrow> string \<Rightarrow> string" where
  "GetNodeLabelFromPod pod moduleName =
     (if mget (om_Labels (pod_Meta pod)) KernelLabel = devicePluginKernelVersion
      then getDevicePluginNodeLabel moduleName
      else getDriverContainerNodeLabel moduleName)"

section \<open>The commands of the module loader\<close>

definition spaced :: "string list \<Rightarrow> string" where
  "spaced args = concat (map (\<lambda>arg. '' '' @ arg) args)"

text \<open>\<open>args != nil && len(args.Load) > 0\<close>, for either field.\<close>

definition has_args :: "(ModprobeArgs \<Rightarrow> string list) \<Rightarrow> ModprobeArgs option \<Rightarrow> bool" where
  "has_args field args = (case args of None \<Rightarrow> False | Some a \<Rightarrow> field a \<noteq> [])"

definition MakeLoadCommand :: "ModprobeSpec \<Rightarrow> string \<Rightarrow> string list" where
  "MakeLoadCommand spec modName =
     (let fw = mp_FirmwarePath spec;
          start = (if fw \<noteq> '''' then ''cp -r '' @ fw @ ''/* '' @ nodeVarLibFirmwarePath @ '' && '' else '''')
                  @ ''modprobe'';
          shell = [''/bin/sh'', ''-c'']
      in if has_args ma_Load (mp_RawArgs spec)
         then shell @ [start @ spaced (ma_Load (the (mp_RawArgs spec)))]
         else shell @ [start
           @ (if has_args ma_Load (mp_Args spec) then spaced (ma_Load (the (mp_Args spec))) else '' -v'')
           @ (if mp_DirName spec \<noteq> '''' then '' -d '' @ mp_DirName spec else '''')
           @ '' '' @ mp_ModuleName spec
           @ spaced (mp_Parameters spec)])"

text \<open>
  In the branch of the raw arguments the command that removes the firmware is written inside the
  loop, once for every argument.
\<close>

definition MakeUnloadCommand :: "ModprobeSpec \<Rightarrow> string \<Rightarrow> string list" where
  "MakeUnloadCommand spec modName =
     (let fw = mp_FirmwarePath spec;
          fwUnloadCommand = (if fw \<noteq> '''' then '' && cd '' @ fw @ '' && find |sort -r |xargs -I{} rm -d ''
                               @ nodeVarLibFirmwarePath @ ''/{}'' else '''');
          shell = [''/bin/sh'', ''-c'']
      in if has_args ma_Unload (mp_RawArgs spec)
         then shell @ [''modprobe''
           @ concat (map (\<lambda>arg. '' '' @ arg @ fwUnloadCommand) (ma_Unload (the (mp_RawArgs spec))))]
         else shell @ [''modprobe''
           @ (if has_args ma_Unload (mp_Args spec) then spaced (ma_Unload (the (mp_Args spec))) else '' -rv'')
           @ (if mp_DirName spec \<noteq> '''' then '' -d '' @ mp_DirName spec else '''')
           @ '' '' @ mp_ModuleName spec
           @ fwUnloadCommand])"

section \<open>The desired DaemonSets\<close>

text \<open>The final \<open>controllerutil.SetControllerReference(owner, ds, scheme)\<close>.\<close>

definition ds_with_owner :: "env \<Rightarrow> Owner \<Rightarrow> DaemonSet \<Rightarrow> DaemonSet res" where
  "ds_with_owner L owner ds =
     check_res (of_sum (SetControllerReference L owner (om_OwnerReferences (ds_Meta ds)))) (\<lambda>e. e)
       (\<lambda>refs. Ok (ds\<lparr>ds_Meta := (ds_Meta ds)\<lparr>om_OwnerReferences := refs\<rparr>\<rparr>))"

definition SetDriverContainerAsDesired ::
  "env \<Rightarrow> DaemonSet option \<Rightarrow> ModuleLoaderData \<Rightarrow> DaemonSet res" where
  "SetDriverContainerAsDesired L ds_ptr mld =
     (case ds_ptr of None \<Rightarrow> Err (Errorf ''ds cannot be nil'' []) | Some ds \<Rightarrow>
      if mld_ContainerImage mld = '''' then Err (Errorf ''container image cannot be empty'' [])
      else let kernelVersion = mld_KernelVersion mld in
      if kernelVersion = '''' then Err (Errorf ''kernelVersion cannot be empty'' [])
      else
        let standardLabels = [(ModuleNameLabel, mld_Name mld), (KernelLabel, kernelVersion),
              (DaemonSetRole, ''module-loader'')];
            nodeSelector = mput (CopyMapStringString (mld_Selector mld)) KernelLabel kernelVersion;
            nodeLibModulesPath = ''/lib/modules/'' @ kernelVersion;
            withFirmware = (mp_FirmwarePath (mld_Modprobe mld) \<noteq> '''');
            container = zero_Container\<lparr>
              c_Command := [''sleep'', ''infinity''],
              c_Name := ''module-loader'',
              c_Image := mld_ContainerImage mld,
              c_ImagePullPolicy := mld_ImagePullPolicy mld,
              c_Lifecycle := Some \<lparr>
                lc_PostStart = MakeLoadCommand (mld_Modprobe mld) (mld_Name mld),
                lc_PreStop = MakeUnloadCommand (mld_Modprobe mld) (mld_Name mld)\<rparr>,
              c_SecurityContext := Some (zero_SecurityContext\<lparr>
                sc_AllowPrivilegeEscalation := Some False,
                sc_CapabilitiesAdd := Some [''SYS_MODULE''],
                sc_RunAsUser := Some 0,
                sc_SELinuxType := Some ''spc_t''\<rparr>),
              c_VolumeMounts :=
                [\<lparr>vm_Name = nodeLibModulesVolumeName, vm_ReadOnly = True,
                   vm_MountPath = nodeLibModulesPath\<rparr>]
                @ (if withFirmware then [zero_VolumeMount\<lparr>vm_Name := nodeVarLibFirmwareVolumeName,
                     vm_MountPath := nodeVarLibFirmwarePath\<rparr>] else [])\<rparr>;
            volumes =
              [\<lparr>vol_Name = nodeLibModulesVolumeName,
                 vol_Source = HostPath nodeLibModulesPath HostPathDirectory\<rparr>]
              @ (if withFirmware then [\<lparr>vol_Name = nodeVarLibFirmwareVolumeName,
                   vol_Source = HostPath nodeVarLibFirmwarePath HostPathDirectoryOrCreate\<rparr>] else [])
        in ds_with_owner L (mld_Owner mld) (ds\<lparr>
             ds_Meta := (ds_Meta ds)\<lparr>om_Labels :=
               OverrideLabels (om_Labels (ds_Meta ds)) standardLabels\<rparr>,
             ds_Template := \<lparr>
               pt_Labels = standardLabels,
               pt_Finalizers = [NodeLabelerFinalizer],
               pt_Spec = zero_PodSpec\<lparr>
                 ps_Containers := [container],
                 ps_ImagePullSecrets := GetPodPullSecrets (mld_ImageRepoSecret mld),
                 ps_NodeSelector := nodeSelector,
                 ps_PriorityClassName := ''system-node-critical'',
                 ps_ServiceAccountName := mld_ServiceAccountName mld,
                 ps_Volumes := volumes\<rparr>\<rparr>,
             ds_Selector := Some standardLabels\<rparr>))"

definition SetDevicePluginAsDesired :: "env \<Rightarrow> DaemonSet option \<Rightarrow> Module \<Rightarrow> DaemonSet res" where
  "SetDevicePluginAsDesired L ds_ptr m =
     (case ds_ptr of None \<Rightarrow> Err (Errorf ''ds cannot be nil'' []) | Some ds \<Rightarrow>
      case spec_DevicePlugin (mod_Spec m) of
        None \<Rightarrow> Err (Errorf ''device plugin in module should not be nil'' [])
      | Some dp \<Rightarrow>
        let containerVolumeMounts = [zero_VolumeMount\<lparr>vm_Name := kubeletDevicePluginsVolumeName,
              vm_MountPath := kubeletDevicePluginsPath\<rparr>];
            devicePluginVolume = \<lparr>vol_Name = kubeletDevicePluginsVolumeName,
              vol_Source = HostPath kubeletDevicePluginsPath HostPathDirectory\<rparr>;
            standardLabels = [(ModuleNameLabel, om_Name (mod_Meta m)), (DaemonSetRole, ''device-plugin'')];
            container = zero_Container\<lparr>
              c_Args := dpc_Args (dp_Container dp),
              c_Command := dpc_Command (dp_Container dp),
              c_Env := dpc_Env (dp_Container dp),
              c_Name := ''device-plugin'',
              c_Image := dpc_Image (dp_Container dp),
              c_ImagePullPolicy := dpc_ImagePullPolicy (dp_Container dp),
              c_Resources := dpc_Resources (dp_Container dp),
              c_SecurityContext := Some (zero_SecurityContext\<lparr>sc_Privileged := Some True\<rparr>),
              c_VolumeMounts := dpc_VolumeMounts (dp_Container dp) @ containerVolumeMounts\<rparr>
        in ds_with_owner L (owner_of_module m) (ds\<lparr>
             ds_Meta := (ds_Meta ds)\<lparr>om_Labels :=
               OverrideLabels (om_Labels (ds_Meta ds)) standardLabels\<rparr>,
             ds_Selector := Some standardLabels,
             ds_Template := \<lparr>
               pt_Labels = standardLabels,
               pt_Finalizers = [NodeLabelerFinalizer],
               pt_Spec = zero_PodSpec\<lparr>
                 ps_Containers := [container],
                 ps_PriorityClassName := ''system-node-critical'',
                 ps_ImagePullSecrets := GetPodPullSecrets (spec_ImageRepoSecret (mod_Spec m)),
                 ps_NodeSelector := [(getDriverContainerNodeLabel (om_Name (mod_Meta m)), '''')],
                 ps_ServiceAccountName := dp_ServiceAccountName dp,
                 ps_Volumes := [devicePluginVolume] @ dp_Volumes dp\<rparr>\<rparr>\<rparr>))"

section \<open>The DaemonSets of a Module in the cluster\<close>

type_synonym ds_map = "(string \<times> DaemonSet) list"

definition moduleDaemonSets :: "env \<Rightarrow> string \<Rightarrow> string \<Rightarrow> (op_state, DaemonSet list) go" where
  "moduleDaemonSets L name namespace =
     check (call (Read (ListDaemonSets namespace [(ModuleNameLabel, name)]))
         (\<lambda>h. cl_ListDaemonSets L h namespace [(ModuleNameLabel, name)]))
       (\<lambda>e. Errorf ''could not list DaemonSets: %v'' [AE e]) ret"

fun by_kernel :: "DaemonSet list \<Rightarrow> ds_map \<Rightarrow> ds_map res" where
  "by_kernel [] dsByKernelVersion = Ok dsByKernelVersion"
| "by_kernel (ds # dsList) dsByKernelVersion =
     (let kernelVersion = mget (om_Labels (ds_Meta ds)) KernelLabel in
      if map_of dsByKernelVersion kernelVersion \<noteq> None
      then Err (Errorf ''multiple DaemonSets found for kernel %q'' [AS kernelVersion])
      else by_kernel dsList (mput dsByKernelVersion kernelVersion ds))"

definition ModuleDaemonSetsByKernelVersion :: "env \<Rightarrow> string \<Rightarrow> string \<Rightarrow> (op_state, ds_map) go" where
  "ModuleDaemonSetsByKernelVersion L name namespace =
     check (moduleDaemonSets L name namespace)
       (\<lambda>e. Wrapf ''could not get all DaemonSets: %w'' [] e)
       (\<lambda>dsList. pure_go (by_kernel dsList []))"

definition gc_ds_body :: "env \<Rightarrow> string list \<Rightarrow> string \<times> DaemonSet \<Rightarrow> string list \<Rightarrow> (op_state, string list) go" where
  "gc_ds_body L validKernels kv deleted =
     (let kernelVersion = fst kv; ds = snd kv in
      if \<not> isDevicePluginDaemonSet ds \<and> kernelVersion \<notin> set validKernels
      then check (do_write L (DeleteDaemonSet ds))
        (\<lambda>e. Errorf ''could not delete DaemonSet %s: %v'' [AS (om_Name (ds_Meta ds)), AE e])
        (\<lambda>_. ret (deleted @ [om_Name (ds_Meta ds)]))
      else ret deleted)"

definition GarbageCollect :: "env \<Rightarrow> ds_map \<Rightarrow> string list \<Rightarrow> (op_state, string list) go" where
  "GarbageCollect L existingDS validKernels =
     loop (range_map (range_order L RangeGarbageCollect) existingDS) (gc_ds_body L validKernels) []"

section \<open>Lemmas\<close>

definition ds_kernel :: "DaemonSet \<Rightarrow> string" where
  "ds_kernel ds = mget (om_Labels (ds_Meta ds)) KernelLabel"

definition stale_ds :: "string list \<Rightarrow> string \<times> DaemonSet \<Rightarrow> bool" where
  "stale_ds validKernels kv \<longleftrightarrow> ds_kernel (snd kv) \<noteq> '''' \<and> fst kv \<notin> set validKernels"

lemma gc_ds_body_run:
  "gc_ds_body L validKernels kv deleted s =
     (if stale_ds validKernels kv
      then check (do_write L (DeleteDaemonSet (snd kv)))
        (\<lambda>e. Errorf ''could not delete DaemonSet %s: %v'' [AS (om_Name (ds_Meta (snd kv))), AE e])
        (\<lambda>_. ret (deleted @ [om_Name (ds_Meta (snd kv))])) s
      else (Ok deleted, s))"
  by (simp add: gc_ds_body_def stale_ds_def ds_kernel_def isDevicePluginDaemonSet_def Let_def ret_run)

text \<open>What the loop deletes: the stale entries in the order of the loop, up to the first failure.\<close>

lemma gc_ds_loop:
  assumes "loop xs (gc_ds_body L valid) deleted s = (r, t)"
  shows "r \<noteq> Panic \<and> (\<exists>dels rest. map snd (filter (stale_ds valid) xs) = dels @ rest \<and>
     history t = history s @ map (\<lambda>ds. Write (DeleteDaemonSet ds)) dels \<and>
     (\<forall>names. r = Ok names \<longrightarrow> rest = [] \<and> names = deleted @ map (\<lambda>ds. om_Name (ds_Meta ds)) dels))"
  using assms
proof (induction xs arbitrary: deleted s)
  case Nil
  then show ?case by (auto simp: ret_run)
next
  case (Cons x xs)
  show ?case
  proof (cases "stale_ds valid x")
    case False
    then have "loop xs (gc_ds_body L valid) deleted s = (r, t)"
      using Cons.prems by (simp add: gc_ds_body_run [of L valid x] bind_go_run)
    with Cons.IH False show ?thesis by auto
  next
    case stale: True
    let ?s1 = "s\<lparr>history := history s @ [Write (DeleteDaemonSet (snd x))]\<rparr>"
    show ?thesis
    proof (cases "cl_Write L (history s) (DeleteDaemonSet (snd x))")
      case (Inl e)
      with Cons.prems stale have "t = ?s1" "\<exists>e'. r = Err e'"
        by (auto simp: gc_ds_body_run [of L valid x] go_simps)
      with stale show ?thesis
        by (intro conjI exI [of _ "[snd x]"] exI [of _ "map snd (filter (stale_ds valid) xs)"]) auto
    next
      case (Inr u)
      with Cons.prems stale have "loop xs (gc_ds_body L valid) (deleted @ [om_Name (ds_Meta (snd x))]) ?s1 = (r, t)"
        by (simp add: gc_ds_body_run [of L valid x] go_simps)
      from Cons.IH [OF this] obtain dels rest where
        "r \<noteq> Panic" "map snd (filter (stale_ds valid) xs) = dels @ rest"
        "history t = history ?s1 @ map (\<lambda>ds. Write (DeleteDaemonSet ds)) dels"
        "\<forall>names. r = Ok names \<longrightarrow> rest = [] \<and>
           names = (deleted @ [om_Name (ds_Meta (snd x))]) @ map (\<lambda>ds. om_Name (ds_Meta ds)) dels"
        by blast
      with stale show ?thesis
        by (intro conjI exI [of _ "snd x # dels"] exI [of _ rest]) auto
    qed
  qed
qed

lemma by_kernel_Ok:
  assumes "by_kernel dsList m = Ok m'" and "distinct (map fst m)"
  shows "m' = m @ map (\<lambda>ds. (ds_kernel ds, ds)) dsList \<and> distinct (map fst m')"
  using assms
proof (induction dsList arbitrary: m)
  case Nil
  then show ?case by simp
next
  case (Cons ds dsList)
  from Cons.prems have new: "map_of m (ds_kernel ds) = None"
    and rest: "by_kernel dsList (mput m (ds_kernel ds) ds) = Ok m'"
    by (simp_all add: Let_def ds_kernel_def map_of_eq_None_iff split: if_splits)
  from new have "mput m (ds_kernel ds) ds = m @ [(ds_kernel ds, ds)]"
    by (induction m) auto
  then have "m' = m @ map (\<lambda>ds. (ds_kernel ds, ds)) (ds # dsList)"
    using Cons.IH [OF rest distinct_mput [OF Cons.prems(2)]] by simp
  then show ?case
    using Cons.IH [OF rest distinct_mput [OF Cons.prems(2)]] by blast
qed

lemma by_kernel_Err:
  assumes "distinct (map fst m @ map ds_kernel dsList)"
  shows "\<exists>m'. by_kernel dsList m = Ok m'"
  using assms
proof (induction dsList arbitrary: m)
  case Nil
  then show ?case by simp
next
  case (Cons ds dsList)
  then have new: "map_of m (ds_kernel ds) = None"
    by (simp add: map_of_eq_None_iff)
  then have "mput m (ds_kernel ds) ds = m @ [(ds_kernel ds, ds)]"
    by (induction m) auto
  with Cons.prems have "distinct (map fst (mput m (ds_kernel ds) ds) @ map ds_kernel dsList)"
    by simp
  from Cons.IH [OF this] new show ?case by (simp add: Let_def ds_kernel_def)
qed

lemma ModuleDaemonSets_run:
  "ModuleDaemonSetsByKernelVersion L name namespace s =
     (case cl_ListDaemonSets L (history s) namespace [(ModuleNameLabel, name)] of
        Inl e \<Rightarrow> Err (Wrapf ''could not get all DaemonSets: %w'' []
                    (Errorf ''could not list DaemonSets: %v'' [AE e]))
      | Inr dsList \<Rightarrow> by_kernel dsList [],
      s\<lparr>history := history s @ [Read (ListDaemonSets namespace [(ModuleNameLabel, name)])]\<rparr>)"
  by (simp add: ModuleDaemonSetsByKernelVersion_def moduleDaemonSets_def go_simps split: sum.split)

lemma ds_with_owner_Ok_iff:
  "ds_with_owner L owner ds = Ok ds' \<longleftrightarrow>
     (\<exists>refs. SetControllerReference L owner (om_OwnerReferences (ds_Meta ds)) = Inr refs \<and>
        ds' = ds\<lparr>ds_Meta := (ds_Meta ds)\<lparr>om_OwnerReferences := refs\<rparr>\<rparr>)"
  by (auto simp: ds_with_owner_def check_res_Ok_iff)

text \<open>Every volume a container mounts is a volume of the pod.\<close>

definition mounts_ok :: "PodSpec \<Rightarrow> bool" where
  "mounts_ok ps \<longleftrightarrow> (\<forall>c \<in> set (ps_Containers ps). \<forall>vm \<in> set (c_VolumeMounts c).
     vm_Name vm \<in> vol_Name ` set (ps_Volumes ps))"

lemma mget_OverrideLabels_in:
  assumes "distinct (map fst overrides)" and "(k, v) \<in> set overrides"
  shows "mget (OverrideLabels labels overrides) k = v"
  using assms by (simp add: OverrideLabels_def mget_mputs_in map_of_is_SomeI)

lemma mget_OverrideLabels_other:
  assumes "k \<notin> fst ` set overrides"
  shows "mget (OverrideLabels labels overrides) k = mget labels k"
proof -
  have "map_of (rev overrides) k = None"
    using assms by (simp add: map_of_eq_None_iff)
  then show ?thesis by (simp add: OverrideLabels_def mget_def map_of_mputs)
qed

lemma map_of_CopyMap:
  assumes "distinct (map fst m)"
  shows "map_of (CopyMapStringString m) = map_of m"
  using assms by (auto simp: CopyMapStringString_def map_of_mputs_distinct split: option.split)

lemma SetDriver_fields:
  assumes "SetDriverContainerAsDesired L (Some ds) mld = Ok ds'"
  shows "mld_KernelVersion mld \<noteq> ''''"
    and "pt_Labels (ds_Template ds') = [(ModuleNameLabel, mld_Name mld), (KernelLabel, mld_KernelVersion mld),
      (DaemonSetRole, ''module-loader'')]"
    and "om_Labels (ds_Meta ds') = OverrideLabels (om_Labels (ds_Meta ds)) (pt_Labels (ds_Template ds'))"
    and "ds_kernel ds' = mld_KernelVersion mld"
    and "map c_Image (ps_Containers (pt_Spec (ds_Template ds'))) = [mld_ContainerImage mld]"
    and "om_Namespace (ds_Meta ds') = om_Namespace (ds_Meta ds)"
proof -
  show "mld_KernelVersion mld \<noteq> ''''"
    using assms by (auto simp: SetDriverContainerAsDesired_def split: if_splits)
  show labels: "pt_Labels (ds_Template ds') = [(ModuleNameLabel, mld_Name mld), (KernelLabel, mld_KernelVersion mld),
      (DaemonSetRole, ''module-loader'')]"
    and meta: "om_Labels (ds_Meta ds') = OverrideLabels (om_Labels (ds_Meta ds)) (pt_Labels (ds_Template ds'))"
    and "map c_Image (ps_Containers (pt_Spec (ds_Template ds'))) = [mld_ContainerImage mld]"
    and "om_Namespace (ds_Meta ds') = om_Namespace (ds_Meta ds)"
    using assms
    by (auto simp: SetDriverContainerAsDesired_def Let_def ds_with_owner_Ok_iff split: if_splits)
  show "ds_kernel ds' = mld_KernelVersion mld"
    unfolding ds_kernel_def meta by (rule mget_OverrideLabels_in) (simp_all add: labels)
qed

lemma SetDevicePlugin_fields:
  assumes "SetDevicePluginAsDesired L (Some ds) m = Ok ds'"
  shows "pt_Labels (ds_Template ds') = [(ModuleNameLabel, om_Name (mod_Meta m)), (DaemonSetRole, ''device-plugin'')]"
    and "om_Labels (ds_Meta ds') = OverrideLabels (om_Labels (ds_Meta ds)) (pt_Labels (ds_Template ds'))"
  using assms
  by (auto simp: SetDevicePluginAsDesired_def Let_def ds_with_owner_Ok_iff split: if_splits option.splits)

section \<open>Properties\<close>

text \<open>
  C25. Garbage collection of DaemonSets: whatever the cluster answers, the only calls are deletions of
  DaemonSets it was given that carry a kernel label and stand under a kernel that is not valid; so the
  device plugin and the DaemonSets of valid kernels are never touched.  If no deletion fails, it has
  deleted all of these, each once, and returns their names.
\<close>

theorem GarbageCollect_exact:
  assumes "distinct (map fst existingDS)"
    and "GarbageCollect L existingDS validKernels s = (r, t)"
  shows "r \<noteq> Panic \<and> (\<exists>dels.
     history t = history s @ map (\<lambda>ds. Write (DeleteDaemonSet ds)) dels \<and>
     (\<forall>ds \<in> set dels. \<exists>k. (k, ds) \<in> set existingDS \<and> ds_kernel ds \<noteq> '''' \<and> k \<notin> set validKernels) \<and>
     (\<forall>names. r = Ok names \<longrightarrow>
        names = map (\<lambda>ds. om_Name (ds_Meta ds)) dels \<and>
        mset dels = mset (map snd (filter (\<lambda>(k, ds). ds_kernel ds \<noteq> '''' \<and> k \<notin> set validKernels) existingDS))))"
proof -
  let ?xs = "range_map (range_order L RangeGarbageCollect) existingDS"
  have stale: "stale_ds validKernels = (\<lambda>(k, ds). ds_kernel ds \<noteq> '''' \<and> k \<notin> set validKernels)"
    by (auto simp: stale_ds_def)
  have "distinct ?xs"
    using assms(1) by (metis distinct_map distinct_range_keys map_fst_range_map)
  moreover have "distinct existingDS" using assms(1) by (simp add: distinct_map)
  ultimately have perm: "mset ?xs = mset existingDS"
    using set_range_map [OF assms(1)] set_eq_iff_mset_eq_distinct by blast
  obtain dels rest where "r \<noteq> Panic" and dels: "map snd (filter (stale_ds validKernels) ?xs) = dels @ rest"
    and hist: "history t = history s @ map (\<lambda>ds. Write (DeleteDaemonSet ds)) dels"
    and fin: "\<And>names. r = Ok names \<Longrightarrow> rest = [] \<and> names = map (\<lambda>ds. om_Name (ds_Meta ds)) dels"
    using gc_ds_loop [OF assms(2) [unfolded GarbageCollect_def]] by auto
  have "set dels \<subseteq> set (map snd (filter (stale_ds validKernels) ?xs))" by (simp add: dels)
  then have "\<forall>ds \<in> set dels. \<exists>k. (k, ds) \<in> set existingDS \<and> ds_kernel ds \<noteq> '''' \<and> k \<notin> set validKernels"
    using set_range_map [OF assms(1)] by (fastforce simp: stale)
  moreover have "mset dels = mset (map snd (filter (stale_ds validKernels) existingDS))" if "rest = []"
  proof -
    have "mset dels = image_mset snd (filter_mset (stale_ds validKernels) (mset ?xs))"
      using dels that by (metis append_Nil2 mset_filter mset_map)
    then show ?thesis by (simp add: perm)
  qed
  ultimately show ?thesis
    using \<open>r \<noteq> Panic\<close> hist fin by (fastforce simp: stale)
qed

theorem GarbageCollect_exact_witness:
  "\<exists>t. GarbageCollect empty_cluster
       [('''', sample_ds ''dp'' ''''), (''5.4'', sample_ds ''ds1'' ''5.4''), (''4.1'', sample_ds ''ds2'' ''4.1'')]
       [''5.4''] fresh_state = (Ok [''ds2''], t) \<and>
     mset [sample_ds ''ds2'' ''4.1''] = mset (map snd (filter (\<lambda>(k, ds). ds_kernel ds \<noteq> '''' \<and> k \<notin> {''5.4''})
       [('''', sample_ds ''dp'' ''''), (''5.4'', sample_ds ''ds1'' ''5.4''), (''4.1'', sample_ds ''ds2'' ''4.1'')]))"
proof -
  let ?m = "[('''', sample_ds ''dp'' ''''), (''5.4'', sample_ds ''ds1'' ''5.4''), (''4.1'', sample_ds ''ds2'' ''4.1'')]"
  have dist: "distinct (map fst ?m)" by simp
  have run: "GarbageCollect empty_cluster ?m [''5.4''] fresh_state =
      (Ok [''ds2''], fresh_state\<lparr>history := [Write (DeleteDaemonSet (sample_ds ''ds2'' ''4.1''))]\<rparr>)"
    by (simp add: GarbageCollect_def range_map_def range_keys_def Let_def gc_ds_body_def
        isDevicePluginDaemonSet_def go_simps sample_defs zero_defs label_defs)
  from GarbageCollect_exact [OF dist run]
  have "mset [sample_ds ''ds2'' ''4.1''] = mset (map snd (filter (\<lambda>(k, ds). ds_kernel ds \<noteq> '''' \<and> k \<notin> {''5.4''}) ?m))"
    by (auto simp: fresh_state_def map_eq_Cons_conv)
  with run show ?thesis by blast
qed

text \<open>
  The map of the DaemonSets of a Module by kernel is built from one list request and succeeds
  exactly when the request does and no two DaemonSets carry the same kernel label; then it has
  exactly the listed DaemonSets, each under its own kernel label (the device plugin under the empty
  string).
\<close>

theorem ModuleDaemonSetsByKernelVersion_index:
  "ModuleDaemonSetsByKernelVersion L name namespace s = (Ok m, t) \<longleftrightarrow>
     (\<exists>dsList. cl_ListDaemonSets L (history s) namespace [(ModuleNameLabel, name)] = Inr dsList \<and>
        distinct (map ds_kernel dsList) \<and> m = map (\<lambda>ds. (ds_kernel ds, ds)) dsList \<and>
        t = s\<lparr>history := history s @ [Read (ListDaemonSets namespace [(ModuleNameLabel, name)])]\<rparr>)"
proof -
  have "by_kernel dsList [] = Ok m \<longleftrightarrow>
      distinct (map ds_kernel dsList) \<and> m = map (\<lambda>ds. (ds_kernel ds, ds)) dsList" for dsList
    using by_kernel_Ok [of dsList "[]" m] by_kernel_Err [of "[]" dsList] by_kernel_Ok [of dsList "[]"]
    by (fastforce simp: comp_def)
  then show ?thesis
    by (auto simp: ModuleDaemonSets_run split: sum.split)
qed

text \<open>
  C34. The DaemonSet of the module loader is well formed: its selector is the labels of its pods, and the
  DaemonSet itself carries them whatever labels it had; it runs on the nodes the Module selects that
  run the kernel; every volume mounted is defined; it is filed under the kernel it was made for and is
  not taken for a device plugin; and a pod of it stands for the \<open>.ready\<close> label of the node.
\<close>

theorem SetDriverContainerAsDesired_wf:
  assumes "SetDriverContainerAsDesired L (Some ds) mld = Ok ds'" and "distinct (map fst (mld_Selector mld))"
    and "om_Labels (pod_Meta pod) = pt_Labels (ds_Template ds')"
  shows "ds_Selector ds' = Some (pt_Labels (ds_Template ds')) \<and>
     (\<forall>(k, v) \<in> set (pt_Labels (ds_Template ds')). mget (om_Labels (ds_Meta ds')) k = v) \<and>
     map_of (ps_NodeSelector (pt_Spec (ds_Template ds'))) =
       (map_of (mld_Selector mld))(KernelLabel \<mapsto> mld_KernelVersion mld) \<and>
     mounts_ok (pt_Spec (ds_Template ds')) \<and>
     ds_kernel ds' = mld_KernelVersion mld \<and> \<not> isDevicePluginDaemonSet ds' \<and>
     GetNodeLabelFromPod pod (mld_Name mld) = getDriverContainerNodeLabel (mld_Name mld)"
proof -
  have k: "mld_KernelVersion mld \<noteq> ''''"
    using assms(1) by (auto simp: SetDriverContainerAsDesired_def split: if_splits)
  let ?std = "[(ModuleNameLabel, mld_Name mld), (KernelLabel, mld_KernelVersion mld),
    (DaemonSetRole, ''module-loader'')]"
  have labels: "pt_Labels (ds_Template ds') = ?std" and sel: "ds_Selector ds' = Some ?std"
    and ds_labels: "om_Labels (ds_Meta ds') = OverrideLabels (om_Labels (ds_Meta ds)) ?std"
    and nodes: "ps_NodeSelector (pt_Spec (ds_Template ds')) =
       mput (CopyMapStringString (mld_Selector mld)) KernelLabel (mld_KernelVersion mld)"
    and mounts: "mounts_ok (pt_Spec (ds_Template ds'))"
    using assms(1)
    by (auto simp: SetDriverContainerAsDesired_def Let_def ds_with_owner_Ok_iff mounts_ok_def
        zero_VolumeMount_def split: if_splits)
  have get: "mget (om_Labels (ds_Meta ds')) k = v" if "(k, v) \<in> set ?std" for k v
    using that unfolding ds_labels by (intro mget_OverrideLabels_in) auto
  show ?thesis
    using get [of KernelLabel] get k assms(3)
    by (auto simp: labels sel nodes mounts ds_kernel_def isDevicePluginDaemonSet_def
        GetNodeLabelFromPod_def devicePluginKernelVersion_def map_of_CopyMap [OF assms(2)])
qed

definition sample_pod :: "smap \<Rightarrow> Pod" where
  "sample_pod labels = \<lparr>pod_Meta = (sample_meta ''p'')\<lparr>om_Labels := labels\<rparr>,
     pod_NodeName = ''n1'', pod_Conditions = []\<rparr>"

theorem SetDriverContainerAsDesired_wf_witness:
  "\<exists>ds'. SetDriverContainerAsDesired empty_cluster (Some (sample_ds ''ds'' ''4.0'')) (sample_mld None None) = Ok ds' \<and>
     ds_kernel ds' = ''5.4.0-gke'' \<and> mounts_ok (pt_Spec (ds_Template ds'))"
proof -
  obtain ds' where run: "SetDriverContainerAsDesired empty_cluster (Some (sample_ds ''ds'' ''4.0''))
      (sample_mld None None) = Ok ds'"
    by (simp add: SetDriverContainerAsDesired_def Let_def ds_with_owner_def sample_defs)
  have "distinct (map fst (mld_Selector (sample_mld None None)))"
    by (simp add: sample_mld_def)
  moreover have "om_Labels (pod_Meta (sample_pod (pt_Labels (ds_Template ds')))) = pt_Labels (ds_Template ds')"
    by (simp add: sample_pod_def)
  ultimately show ?thesis
    using SetDriverContainerAsDesired_wf [OF run] run by (simp add: sample_mld_def)
qed

text \<open>
  The DaemonSet of the device plugin: it runs exactly where the module loader of the same Module
  is ready (its node selector is the label that a ready module loader pod puts on the node, see the
  previous property); it is taken for a device plugin as long as the object carried no kernel label
  before, and its pods stand for the label \<open>.device-plugin-ready\<close>; every volume mounted is defined
  when every mount of the Module's own container is.
\<close>

theorem SetDevicePluginAsDesired_wf:
  assumes "SetDevicePluginAsDesired L (Some ds) m = Ok ds'" and "spec_DevicePlugin (mod_Spec m) = Some dp"
    and "ds_kernel ds = ''''"
    and "\<forall>vm \<in> set (dpc_VolumeMounts (dp_Container dp)). vm_Name vm \<in> vol_Name ` set (dp_Volumes dp)"
    and "om_Labels (pod_Meta pod) = pt_Labels (ds_Template ds')"
  shows "ps_NodeSelector (pt_Spec (ds_Template ds')) = [(getDriverContainerNodeLabel (om_Name (mod_Meta m)), '''')] \<and>
     ds_Selector ds' = Some (pt_Labels (ds_Template ds')) \<and>
     (\<forall>(k, v) \<in> set (pt_Labels (ds_Template ds')). mget (om_Labels (ds_Meta ds')) k = v) \<and>
     ds_kernel ds' = GetDevicePluginKernelVersion \<and> isDevicePluginDaemonSet ds' \<and>
     mounts_ok (pt_Spec (ds_Template ds')) \<and>
     GetNodeLabelFromPod pod (om_Name (mod_Meta m)) = getDevicePluginNodeLabel (om_Name (mod_Meta m))"
proof -
  let ?std = "[(ModuleNameLabel, om_Name (mod_Meta m)), (DaemonSetRole, ''device-plugin'')]"
  have labels: "pt_Labels (ds_Template ds') = ?std" and sel: "ds_Selector ds' = Some ?std"
    and ds_labels: "om_Labels (ds_Meta ds') = OverrideLabels (om_Labels (ds_Meta ds)) ?std"
    and nodes: "ps_NodeSelector (pt_Spec (ds_Template ds')) = [(getDriverContainerNodeLabel (om_Name (mod_Meta m)), '''')]"
    and mounts: "mounts_ok (pt_Spec (ds_Template ds'))"
    using assms(1,2,4)
    by (auto simp: SetDevicePluginAsDesired_def Let_def ds_with_owner_Ok_iff mounts_ok_def
        zero_VolumeMount_def)
  have get: "mget (om_Labels (ds_Meta ds')) k = v" if "(k, v) \<in> set ?std" for k v
    using that unfolding ds_labels by (intro mget_OverrideLabels_in) auto
  have "mget (om_Labels (ds_Meta ds')) KernelLabel = ''''"
    using assms(3) unfolding ds_labels ds_kernel_def
    by (subst mget_OverrideLabels_other) auto
  with get assms(5) show ?thesis
    by (auto simp: labels sel nodes mounts ds_kernel_def isDevicePluginDaemonSet_def
        GetNodeLabelFromPod_def devicePluginKernelVersion_def GetDevicePluginKernelVersion_def)
qed

definition sample_dp :: DevicePluginSpec where
  "sample_dp = \<lparr>dp_Container = \<lparr>dpc_Command = [], dpc_Args = [], dpc_Env = [], dpc_Image = ''reg/dp:1'',
       dpc_ImagePullPolicy = '''', dpc_Resources = zero_Resources,
       dpc_VolumeMounts = [\<lparr>vm_Name = ''v'', vm_ReadOnly = True, vm_MountPath = ''/v''\<rparr>]\<rparr>,
     dp_ServiceAccountName = ''sa'', dp_Volumes = [\<lparr>vol_Name = ''v'', vol_Source = OtherSource ''emptyDir''\<rparr>]\<rparr>"

definition sample_dp_module :: Module where
  "sample_dp_module = (sample_module [])\<lparr>mod_Spec := (sample_spec [])\<lparr>spec_DevicePlugin := Some sample_dp\<rparr>\<rparr>"

theorem SetDevicePluginAsDesired_wf_witness:
  "\<exists>ds'. SetDevicePluginAsDesired empty_cluster (Some zero_DaemonSet) sample_dp_module = Ok ds' \<and>
     isDevicePluginDaemonSet ds' \<and> mounts_ok (pt_Spec (ds_Template ds'))"
proof -
  obtain ds' where run: "SetDevicePluginAsDesired empty_cluster (Some zero_DaemonSet) sample_dp_module = Ok ds'"
    by (simp add: SetDevicePluginAsDesired_def Let_def ds_with_owner_def sample_dp_module_def sample_defs)
  have "spec_DevicePlugin (mod_Spec sample_dp_module) = Some sample_dp" "ds_kernel zero_DaemonSet = ''''"
    "\<forall>vm \<in> set (dpc_VolumeMounts (dp_Container sample_dp)). vm_Name vm \<in> vol_Name ` set (dp_Volumes sample_dp)"
    "om_Labels (pod_Meta (sample_pod (pt_Labels (ds_Template ds')))) = pt_Labels (ds_Template ds')"
    by (simp_all add: sample_dp_module_def sample_pod_def sample_dp_def ds_kernel_def zero_defs)
  from SetDevicePluginAsDesired_wf [OF run this] run show ?thesis by blast
qed

text \<open>
  With raw unload arguments the firmware is removed after every argument: from the second
  argument on, what the administrator gave to modprobe becomes arguments of \<open>rm\<close>.  Without raw
  arguments the firmware is removed once, after the module.
\<close>

theorem MakeUnloadCommand_firmware:
  assumes "mp_FirmwarePath spec \<noteq> ''''"
    and "clean = '' && cd '' @ mp_FirmwarePath spec @ '' && find |sort -r |xargs -I{} rm -d /var/lib/firmware/{}''"
  shows "(mp_RawArgs spec = Some \<lparr>ma_Load = l, ma_Unload = [a, b]\<rparr> \<longrightarrow>
       MakeUnloadCommand spec n = [''/bin/sh'', ''-c'', ''modprobe '' @ a @ clean @ '' '' @ b @ clean]) \<and>
     (mp_RawArgs spec = None \<longrightarrow>
       (\<exists>cmd. MakeUnloadCommand spec n = [''/bin/sh'', ''-c'', cmd @ clean] \<and>
          MakeUnloadCommand (spec\<lparr>mp_FirmwarePath := ''''\<rparr>) n = [''/bin/sh'', ''-c'', cmd]))"
  using assms by (auto simp: MakeUnloadCommand_def Let_def has_args_def nodeVarLibFirmwarePath_def)

theorem MakeUnloadCommand_firmware_witness:
  "MakeUnloadCommand (sample_modprobe\<lparr>mp_FirmwarePath := ''/fw'',
       mp_RawArgs := Some \<lparr>ma_Load = [], ma_Unload = [''-r'', ''kmod'']\<rparr>\<rparr>) ''mod'' =
     [''/bin/sh'', ''-c'',
      ''modprobe -r && cd /fw && find |sort -r |xargs -I{} rm -d /var/lib/firmware/{} kmod && cd /fw && find |sort -r |xargs -I{} rm -d /var/lib/firmware/{}'']"
  using MakeUnloadCommand_firmware [of "sample_modprobe\<lparr>mp_FirmwarePath := ''/fw'',
       mp_RawArgs := Some \<lparr>ma_Load = [], ma_Unload = [''-r'', ''kmod'']\<rparr>\<rparr>", OF _ refl,
       of "[]" "''-r''" "''kmod''" "''mod''"]
  by (simp add: sample_modprobe_def)

end
