(* ===== verification/Image_Access.thy ===== *)
theory Image_Access
  imports Daemon_Set
begin

text \<open>
  \<open>internal/module/helper.go\<close>, \<open>internal/auth/auth.go\<close> and the part of
  \<open>internal/registry/registry.go\<close> the controllers use: image names, the credentials and options of
  a registry access, whether an image exists, its layers and the files in them.  \<open>crane\<close>, the JSON
  decoder and the tar reader are fields of the environment; a layer is identified by a string, and
  \<open>LayerHeaders\<close> gives the answers of its tar reader one after the other, the end of the list being
  the end of the archive.
\<close>

section \<open>Paths\<close>

text \<open>\<open>filepath.Clean\<close> and \<open>filepath.Join\<close> of the standard library, on Unix.\<close>

fun clean_step :: "bool \<Rightarrow> string list \<Rightarrow> string \<Rightarrow> string list" where
  "clean_step rooted stack c =
     (if c = '''' \<or> c = ''.'' then stack
      else if c = ''..'' then
        (if stack = [] then (if rooted then [] else [''..''])
         else if last stack = ''..'' then stack @ [''..'']
         else butlast stack)
      else stack @ [c])"

definition Clean :: "string \<Rightarrow> string" where
  "Clean path =
     (let rooted = HasPrefix path ''/'';
          comps = foldl (clean_step rooted) [] (split_by (\<lambda>c. c = CHR ''/'') path)
      in if rooted then ''/'' @ Join comps ''/''
         else if comps = [] then ''.'' else Join comps ''/'')"

definition filepath_Join :: "string list \<Rightarrow> string" where
  "filepath_Join elems =
     (case dropWhile (\<lambda>e. e = '''') elems of [] \<Rightarrow> '''' | es \<Rightarrow> Clean (Join es ''/''))"

section \<open>Credentials\<close>

text \<open>A \<open>RegistryAuthGetter\<close> is the name of the secret it reads; \<open>None\<close> is \<open>nil\<close>.\<close>

type_synonym RegistryAuthGetter = "NamespacedName option"

definition GetKeyChain :: "env \<Rightarrow> NamespacedName \<Rightarrow> (op_state, string) go" where
  "GetKeyChain L namespacedName =
     check (call (Read (GetSecret namespacedName)) (\<lambda>h. cl_GetSecret L h namespacedName))
       (\<lambda>e. Wrapf ''cannot find secret %s: %w'' [AS (nn_Name namespacedName)] e)
       (\<lambda>secret.
     check (pure_go (of_sum (NewFromPullSecrets L [secret])))
       (\<lambda>e. Wrapf ''could not create a keycahin from secret %v: %w'' [AS (om_Name (sec_Meta secret))] e)
       ret)"

definition NewRegistryAuthGetterFrom :: "ModuleLoaderData \<Rightarrow> RegistryAuthGetter" where
  "NewRegistryAuthGetterFrom mld =
     (case mld_ImageRepoSecret mld of
        None \<Rightarrow> None
      | Some sec \<Rightarrow> Some \<lparr>nn_Namespace = mld_Namespace mld, nn_Name = lor_Name sec\<rparr>)"

section \<open>The registry\<close>

record RepoPullConfig =
  rpc_repo :: string
  rpc_authOptions :: "crane_option list"

definition image_repo :: "string \<Rightarrow> string" where
  "image_repo img =
     (let hash = split_by (\<lambda>c. c = CHR ''@'') img; tag = split_by (\<lambda>c. c = CHR '':'') img in
      if 1 < length hash then hash ! 0 else if 1 < length tag then tag ! 0 else '''')"

definition tls_options :: "TLSOptions option \<Rightarrow> crane_option list" where
  "tls_options tlsOptions =
     (case tlsOptions of None \<Rightarrow> [] | Some tls \<Rightarrow>
        (if tls_Insecure tls then [Insecure] else [])
        @ (if tls_InsecureSkipTLSVerify tls then [WithTransportSkipVerify] else []))"

definition getPullOptions ::
  "env \<Rightarrow> string \<Rightarrow> TLSOptions option \<Rightarrow> RegistryAuthGetter \<Rightarrow> (op_state, RepoPullConfig) go" where
  "getPullOptions L img tlsOptions registryAuthGetter =
     (let repo = image_repo img in
      if repo = '''' then raise (Errorf ''image url %s is not valid, does not contain hash or tag'' [AS img])
      else let options = [WithContext] @ tls_options tlsOptions in
      case registryAuthGetter of
        None \<Rightarrow> ret \<lparr>rpc_repo = repo, rpc_authOptions = options\<rparr>
      | Some getter \<Rightarrow>
          check (GetKeyChain L getter)
            (\<lambda>e. Wrapf ''cannot get keychain from the registry auth getter: %w'' [] e)
            (\<lambda>keyChain. ret \<lparr>rpc_repo = repo,
               rpc_authOptions = options @ [WithAuthFromKeychain keyChain]\<rparr>))"

fun find_arch :: "string \<Rightarrow> ManifestEntry list \<Rightarrow> string res" where
  "find_arch arch [] = Err (Errorf ''Failed to find manifest for architecture %s'' [AS arch])"
| "find_arch arch (m # ms) =
     (if me_Architecture m = Some arch then Ok (dg_Algorithm (me_Digest m) @ '':'' @ dg_Hex (me_Digest m))
      else find_arch arch ms)"

definition getImageDigestFromMultiImage :: "env \<Rightarrow> string \<Rightarrow> string res" where
  "getImageDigestFromMultiImage L manifestListStream =
     check_res (of_sum (UnmarshalIndexManifest L manifestListStream))
       (\<lambda>e. Wrapf ''failed to unmarshal manifest stream: %w'' [] e)
       (\<lambda>manifests. find_arch (GOARCH L) manifests)"

definition crane_Manifest :: "env \<Rightarrow> string \<Rightarrow> crane_option list \<Rightarrow> (op_state, string) go" where
  "crane_Manifest L img options =
     call (Read (CraneManifest img options)) (\<lambda>h. cr_Manifest L h img options)"

text \<open>
  \<open>UnmarshalMediaType\<close> stands for decoding the manifest and looking up its \<open>mediaType\<close>; \<open>None\<close> is a
  manifest without one.
\<close>

definition getManifestStreamFromImage ::
  "env \<Rightarrow> string \<Rightarrow> string \<Rightarrow> crane_option list \<Rightarrow> (op_state, string) go" where
  "getManifestStreamFromImage L img repo options =
     check (crane_Manifest L img options)
       (\<lambda>e. Wrapf ''failed to get crane manifest from image %s: %w'' [AS img] e)
       (\<lambda>manifest.
     check (pure_go (of_sum (UnmarshalMediaType L manifest)))
       (\<lambda>e. Wrapf ''failed to unmarshal crane manifest: %w'' [] e)
       (\<lambda>mediaType. case mediaType of
          None \<Rightarrow> raise (Errorf ''mediaType is missing from the image %s manifest'' [AS img])
        | Some imageMediaType \<Rightarrow>
            if Contains imageMediaType ''manifest.list''
            then check (pure_go (getImageDigestFromMultiImage L manifest))
                (\<lambda>e. Wrapf ''failed to get arch digets from multi arch image: %w'' [] e)
                (\<lambda>archDigest.
              check (crane_Manifest L (repo @ ''@'' @ archDigest) options)
                (\<lambda>e. Wrapf ''failed to get crane manifest for the arch image: %w'' [] e)
                ret)
            else ret manifest))"

definition getImageManifest ::
  "env \<Rightarrow> string \<Rightarrow> TLSOptions option \<Rightarrow> RegistryAuthGetter \<Rightarrow> (op_state, string \<times> RepoPullConfig) go" where
  "getImageManifest L img tlsOptions registryAuthGetter =
     check (getPullOptions L img tlsOptions registryAuthGetter)
       (\<lambda>e. Wrapf ''failed to get pull options for image %s: %w'' [AS img] e)
       (\<lambda>pullConfig.
     check (getManifestStreamFromImage L img (rpc_repo pullConfig) (rpc_authOptions pullConfig))
       (\<lambda>e. Wrapf ''failed to get manifest stream from image %s: %w'' [AS img] e)
       (\<lambda>manifest. ret (manifest, pullConfig)))"

definition StatusNotFound :: "error \<Rightarrow> bool" where
  "StatusNotFound e \<longleftrightarrow> root_cause e = TransportError 404"

definition registry_ImageExists ::
  "env \<Rightarrow> string \<Rightarrow> TLSOptions option \<Rightarrow> RegistryAuthGetter \<Rightarrow> (op_state, bool) go" where
  "registry_ImageExists L img tlsOptions registryAuthGetter =
     attempt (getImageManifest L img tlsOptions registryAuthGetter) (\<lambda>r. case r of
       Inl e \<Rightarrow> if StatusNotFound e then ret False
                else raise (Wrapf ''could not get image %s: %w'' [AS img] e)
     | Inr _ \<Rightarrow> ret True)"

definition getLayersDigestsFromManifestStream :: "env \<Rightarrow> string \<Rightarrow> string list res" where
  "getLayersDigestsFromManifestStream L manifestStream =
     check_res (of_sum (UnmarshalManifest L manifestStream))
       (\<lambda>e. Wrapf ''failed to unmarshal manifest stream: %w'' [] e)
       (\<lambda>layers. Ok (map (\<lambda>d. dg_Algorithm d @ '':'' @ dg_Hex d) layers))"

definition GetLayersDigests ::
  "env \<Rightarrow> string \<Rightarrow> TLSOptions option \<Rightarrow> RegistryAuthGetter \<Rightarrow> (op_state, string list \<times> RepoPullConfig) go" where
  "GetLayersDigests L img tlsOptions registryAuthGetter =
     check (getImageManifest L img tlsOptions registryAuthGetter)
       (\<lambda>e. Wrapf ''failed to get manifest from image %s: %w'' [AS img] e)
       (\<lambda>(manifest, pullConfig).
     check (pure_go (getLayersDigestsFromManifestStream L manifest))
       (\<lambda>e. Wrapf ''failed to get layers digests from manifest of the image %s: %w'' [AS img] e)
       (\<lambda>digests. ret (digests, pullConfig)))"

definition GetLayerByDigest :: "env \<Rightarrow> string \<Rightarrow> RepoPullConfig \<Rightarrow> (op_state, string) go" where
  "GetLayerByDigest L digest pullConfig =
     (let ref = rpc_repo pullConfig @ ''@'' @ digest in
      call (Read (CranePullLayer ref (rpc_authOptions pullConfig)))
        (\<lambda>h. cr_PullLayer L h ref (rpc_authOptions pullConfig)))"

fun getHeaderStreamFromLayer :: "(error + string) list \<Rightarrow> string \<Rightarrow> unit res" where
  "getHeaderStreamFromLayer [] headerName = Err (Errorf ''header %s not found in the layer'' [AS headerName])"
| "getHeaderStreamFromLayer (Inl e # hs) headerName =
     Err (Wrapf ''failed to get next entry from targz: %w'' [] e)"
| "getHeaderStreamFromLayer (Inr name # hs) headerName =
     (if name = headerName then Ok () else getHeaderStreamFromLayer hs headerName)"

definition modulesLocationPath :: string where
  "modulesLocationPath = ''lib/modules''"

definition VerifyModuleExists :: "env \<Rightarrow> string \<Rightarrow> string \<Rightarrow> string \<Rightarrow> string \<Rightarrow> bool" where
  "VerifyModuleExists L layer pathPrefix kernelVersion moduleFileName =
     (let fullPath = filepath_Join [TrimPrefix pathPrefix ''/'', modulesLocationPath, kernelVersion, moduleFileName]
      in getHeaderStreamFromLayer (LayerHeaders L layer) fullPath = Ok ())"

section \<open>Image names\<close>

definition AppendToTag :: "string \<Rightarrow> string \<Rightarrow> string" where
  "AppendToTag name tag = name @ (if Contains name '':'' then ''_'' else '':'') @ tag"

definition IntermediateImageName :: "string \<Rightarrow> string \<Rightarrow> string \<Rightarrow> string" where
  "IntermediateImageName name namespace targetImage =
     AppendToTag targetImage (namespace @ ''_'' @ name @ ''_kmm_unsigned'')"

definition ShouldBeBuilt :: "ModuleLoaderData \<Rightarrow> bool" where
  "ShouldBeBuilt mld \<longleftrightarrow> mld_Build mld \<noteq> None"

definition ShouldBeSigned :: "ModuleLoaderData \<Rightarrow> bool" where
  "ShouldBeSigned mld \<longleftrightarrow> mld_Sign mld \<noteq> None"

definition ImageExists :: "env \<Rightarrow> ModuleLoaderData \<Rightarrow> string \<Rightarrow> string \<Rightarrow> (op_state, bool) go" where
  "ImageExists L mld namespace imageName =
     (let registryAuthGetter = (case mld_ImageRepoSecret mld of
            None \<Rightarrow> None
          | Some sec \<Rightarrow> Some \<lparr>nn_Namespace = namespace, nn_Name = lor_Name sec\<rparr>)
      in check (registry_ImageExists L imageName (mld_RegistryTLS mld) registryAuthGetter)
        (\<lambda>e. Errorf ''could not check if the image is available: %v'' [AE e]) ret)"

section \<open>Lemmas\<close>

text \<open>The registry has answered a request for the manifest of the image.\<close>

definition manifest_seen :: "env \<Rightarrow> string \<Rightarrow> history \<Rightarrow> bool" where
  "manifest_seen L img h \<longleftrightarrow> (\<exists>h1 options h2 m.
     h = h1 @ Read (CraneManifest img options) # h2 \<and> cr_Manifest L h1 img options = Inr m)"

lemma manifest_seen_append: "manifest_seen L img h \<Longrightarrow> manifest_seen L img (h @ h')"
  unfolding manifest_seen_def by fastforce

lemma manifest_seen_snoc:
  "cr_Manifest L h img options = Inr m \<Longrightarrow> manifest_seen L img (h @ [Read (CraneManifest img options)])"
  unfolding manifest_seen_def by blast

lemma emits_GetKeyChain [emits_rules]: "(\<And>r. F (Read r)) \<Longrightarrow> emits F (GetKeyChain L nn)"
  unfolding GetKeyChain_def by (intro emits_rules)

lemma emits_getPullOptions [emits_rules]:
  "(\<And>r. F (Read r)) \<Longrightarrow> emits F (getPullOptions L img tls auth)"
  unfolding getPullOptions_def Let_def by (intro emits_rules)

lemma emits_crane_Manifest [emits_rules]: "(\<And>r. F (Read r)) \<Longrightarrow> emits F (crane_Manifest L img opts)"
  unfolding crane_Manifest_def by (intro emits_rules)

lemma emits_getImageManifest [emits_rules]:
  "(\<And>r. F (Read r)) \<Longrightarrow> emits F (getImageManifest L img tls auth)"
  unfolding getImageManifest_def getManifestStreamFromImage_def by (intro emits_rules)

lemma emits_registry_ImageExists [emits_rules]:
  "(\<And>r. F (Read r)) \<Longrightarrow> emits F (registry_ImageExists L img tls auth)"
  unfolding registry_ImageExists_def by (intro emits_rules)

lemma emits_ImageExists [emits_rules]: "(\<And>r. F (Read r)) \<Longrightarrow> emits F (ImageExists L mld ns img)"
  unfolding ImageExists_def Let_def by (intro emits_rules)

lemma emits_GetLayersDigests [emits_rules]:
  "(\<And>r. F (Read r)) \<Longrightarrow> emits F (GetLayersDigests L img tls auth)"
  unfolding GetLayersDigests_def by (intro emits_rules)

lemma emits_GetLayerByDigest [emits_rules]: "(\<And>r. F (Read r)) \<Longrightarrow> emits F (GetLayerByDigest L d cfg)"
  unfolding GetLayerByDigest_def Let_def by (intro emits_rules)

text \<open>
  What an environment has to offer so that the question for an image is answered, with yes or with no: the
  name has a tag or a digest, the pull secret can be read and used, and the registry answers, whatever
  was asked before, with a manifest of the image or with \<open>404\<close>.  If the manifest is a list of manifests,
  there is one for the architecture and the registry has what it names.
\<close>

definition pull_secret_ok :: "env \<Rightarrow> ModuleLoaderData \<Rightarrow> bool" where
  "pull_secret_ok L mld \<longleftrightarrow> (\<forall>sec h. mld_ImageRepoSecret mld = Some sec \<longrightarrow>
     (\<exists>secret keys. cl_GetSecret L h \<lparr>nn_Namespace = mld_Namespace mld, nn_Name = lor_Name sec\<rparr> = Inr secret \<and>
        NewFromPullSecrets L [secret] = Inr keys))"

definition entry_digest :: "ManifestEntry \<Rightarrow> string" where
  "entry_digest m = dg_Algorithm (me_Digest m) @ '':'' @ dg_Hex (me_Digest m)"

definition manifest_ok :: "env \<Rightarrow> string \<Rightarrow> string \<Rightarrow> bool" where
  "manifest_ok L img m \<longleftrightarrow> (\<exists>mt. UnmarshalMediaType L m = Inr (Some mt) \<and>
     (Contains mt ''manifest.list'' \<longrightarrow> (\<exists>ms. UnmarshalIndexManifest L m = Inr ms \<and>
        (\<exists>x \<in> set ms. me_Architecture x = Some (GOARCH L)) \<and>
        (\<forall>x \<in> set ms. me_Architecture x = Some (GOARCH L) \<longrightarrow>
           (\<forall>h opts. \<exists>m'. cr_Manifest L h (image_repo img @ ''@'' @ entry_digest x) opts = Inr m')))))"

definition registry_answers :: "env \<Rightarrow> ModuleLoaderData \<Rightarrow> string \<Rightarrow> bool \<Rightarrow> bool" where
  "registry_answers L mld img there \<longleftrightarrow> image_repo img \<noteq> '''' \<and> pull_secret_ok L mld \<and>
     (\<forall>h opts. if there then \<exists>m. cr_Manifest L h img opts = Inr m \<and> manifest_ok L img m
        else \<exists>e. cr_Manifest L h img opts = Inl e \<and> StatusNotFound e)"

lemma find_arch_Ok:
  "\<exists>x \<in> set ms. me_Architecture x = Some arch \<Longrightarrow>
     \<exists>x \<in> set ms. me_Architecture x = Some arch \<and> find_arch arch ms = Ok (entry_digest x)"
  by (induction ms) (auto simp: entry_digest_def)

lemma StatusNotFound_Wrapf [simp]: "StatusNotFound (Wrapf f as e) \<longleftrightarrow> StatusNotFound e"
  by (simp add: StatusNotFound_def)

lemma getPullOptions_Ok:
  assumes "image_repo img \<noteq> ''''" and "pull_secret_ok L mld"
  shows "\<exists>cfg t. getPullOptions L img tls (case mld_ImageRepoSecret mld of None \<Rightarrow> None
       | Some sec \<Rightarrow> Some \<lparr>nn_Namespace = mld_Namespace mld, nn_Name = lor_Name sec\<rparr>) s = (Ok cfg, t) \<and> rpc_repo cfg = image_repo img"
proof (cases "mld_ImageRepoSecret mld")
  case None
  with assms(1) show ?thesis by (simp add: getPullOptions_def Let_def ret_run)
next
  case (Some sec)
  then obtain secret keys where "cl_GetSecret L (history s) \<lparr>nn_Namespace = mld_Namespace mld, nn_Name = lor_Name sec\<rparr> = Inr secret"
    "NewFromPullSecrets L [secret] = Inr keys"
    using assms(2) unfolding pull_secret_ok_def by blast
  with Some assms(1) show ?thesis
    by (simp add: getPullOptions_def GetKeyChain_def Let_def go_simps)
qed

lemma getManifestStream_found:
  assumes "\<And>h opts. \<exists>m. cr_Manifest L h img opts = Inr m \<and> manifest_ok L img m"
  shows "\<exists>m t. getManifestStreamFromImage L img (image_repo img) opts s = (Ok m, t)"
proof -
  obtain m mt where m: "cr_Manifest L (history s) img opts = Inr m" "UnmarshalMediaType L m = Inr (Some mt)"
    and list: "Contains mt ''manifest.list'' \<longrightarrow> (\<exists>ms. UnmarshalIndexManifest L m = Inr ms \<and>
        (\<exists>x \<in> set ms. me_Architecture x = Some (GOARCH L)) \<and>
        (\<forall>x \<in> set ms. me_Architecture x = Some (GOARCH L) \<longrightarrow>
           (\<forall>h opts. \<exists>m'. cr_Manifest L h (image_repo img @ ''@'' @ entry_digest x) opts = Inr m')))"
    using assms [of "history s" opts] unfolding manifest_ok_def by blast
  show ?thesis
  proof (cases "Contains mt ''manifest.list''")
    case False
    with m show ?thesis by (simp add: getManifestStreamFromImage_def crane_Manifest_def go_simps)
  next
    case True
    then obtain ms x where ms: "UnmarshalIndexManifest L m = Inr ms" and x: "find_arch (GOARCH L) ms = Ok (entry_digest x)"
      and there: "\<And>h opts. \<exists>m'. cr_Manifest L h (image_repo img @ ''@'' @ entry_digest x) opts = Inr m'"
      using list find_arch_Ok by metis
    obtain m' where "cr_Manifest L (history s @ [Read (CraneManifest img opts)]) (image_repo img @ ''@'' @ entry_digest x) opts = Inr m'"
      using there by blast
    with True m ms x show ?thesis
      by (simp add: getManifestStreamFromImage_def crane_Manifest_def getImageDigestFromMultiImage_def go_simps)
  qed
qed

lemma getManifestStream_missing:
  assumes "\<And>h opts. \<exists>e. cr_Manifest L h img opts = Inl e \<and> StatusNotFound e"
  shows "\<exists>e t. getManifestStreamFromImage L img repo opts s = (Err e, t) \<and> StatusNotFound e"
proof -
  obtain e where "cr_Manifest L (history s) img opts = Inl e" "StatusNotFound e" using assms by blast
  then show ?thesis by (simp add: getManifestStreamFromImage_def crane_Manifest_def go_simps)
qed

text \<open>Then the question is answered, and truthfully.\<close>

lemma ImageExists_answered:
  assumes "registry_answers L mld img there"
  shows "fst (ImageExists L mld (mld_Namespace mld) img s) = Ok there"
proof -
  let ?auth = "case mld_ImageRepoSecret mld of None \<Rightarrow> None
       | Some sec \<Rightarrow> Some \<lparr>nn_Namespace = mld_Namespace mld, nn_Name = lor_Name sec\<rparr>"
  obtain cfg s1 where cfg: "getPullOptions L img (mld_RegistryTLS mld) ?auth s = (Ok cfg, s1)" "rpc_repo cfg = image_repo img"
    using getPullOptions_Ok [of img L mld "mld_RegistryTLS mld" s] assms unfolding registry_answers_def by blast
  show ?thesis
  proof (cases there)
    case True
    then obtain m t where "getManifestStreamFromImage L img (image_repo img) (rpc_authOptions cfg) s1 = (Ok m, t)"
      using getManifestStream_found [of L img] assms unfolding registry_answers_def by force
    with True cfg show ?thesis
      by (simp add: ImageExists_def registry_ImageExists_def getImageManifest_def Let_def go_simps)
  next
    case False
    then obtain e t where "getManifestStreamFromImage L img (image_repo img) (rpc_authOptions cfg) s1 = (Err e, t)" "StatusNotFound e"
      using getManifestStream_missing [of L img] assms unfolding registry_answers_def by force
    with False cfg show ?thesis
      by (simp add: ImageExists_def registry_ImageExists_def getImageManifest_def Let_def go_simps)
  qed
qed

lemma guar_ImageManifest:
  "guar (\<lambda>_. True) (\<lambda>_. is_read) (getImageManifest L img tls auth) (\<lambda>_. manifest_seen L img) (\<lambda>_ _. True)"
proof -
  have stable: "guar (manifest_seen L img) (\<lambda>_. is_read) m (\<lambda>_. manifest_seen L img) (\<lambda>_ _. True)"
    if "emits is_read m" for m :: "(op_state, 'b) go"
    by (rule guar_weaken [OF guar_stable [OF that, of "manifest_seen L img"]]) (auto intro: manifest_seen_append)
  have stream: "guar (\<lambda>_. True) (\<lambda>_. is_read) (getManifestStreamFromImage L img repo opts)
      (\<lambda>_. manifest_seen L img) (\<lambda>_ _. True)" for repo opts
    unfolding getManifestStreamFromImage_def
  proof (rule guar_check [where R = "\<lambda>_. manifest_seen L img"])
    show "guar (\<lambda>_. True) (\<lambda>_. is_read) (crane_Manifest L img opts) (\<lambda>_. manifest_seen L img) (\<lambda>_ _. True)"
      unfolding crane_Manifest_def by (rule guar_call) (auto intro: manifest_seen_snoc)
  qed (intro stable emits_rules is_read_simps)
  have opts: "guar (\<lambda>_. True) (\<lambda>_. is_read) (getPullOptions L img tls auth) (\<lambda>_ _. True) (\<lambda>_ _. True)"
    using emits_getPullOptions [of is_read] by (simp add: emits_def)
  show ?thesis
    unfolding getImageManifest_def
    by (rule guar_check [where R = "\<lambda>_ _. True", OF opts])
      (rule guar_check [where R = "\<lambda>_. manifest_seen L img", OF stream], auto intro: guar_ret)
qed

lemma guar_ImageExists:
  "guar (\<lambda>_. True) (\<lambda>_. is_read) (ImageExists L mld ns img) (\<lambda>exists h. exists \<longrightarrow> manifest_seen L img h) (\<lambda>_ _. True)"
proof -
  have "guar (\<lambda>_. True) (\<lambda>_. is_read) (registry_ImageExists L img tls auth)
      (\<lambda>exists h. exists \<longrightarrow> manifest_seen L img h) (\<lambda>_ _. True)" for tls auth
    unfolding registry_ImageExists_def
    by (rule guar_attempt [where R = "\<lambda>r h. case r of Inl _ \<Rightarrow> True | Inr _ \<Rightarrow> manifest_seen L img h"])
      (auto intro!: guar_ret guar_raise guar_weaken [OF guar_ImageManifest] split: sum.split)
  then show ?thesis
    unfolding ImageExists_def Let_def
    by (rule guar_check) (auto intro: guar_ret)
qed

lemma getHeaderStream_Ok_iff:
  "getHeaderStreamFromLayer hs name = Ok () \<longleftrightarrow>
     (\<exists>xs ys. hs = map Inr xs @ Inr name # ys)"
proof (induction hs name rule: getHeaderStreamFromLayer.induct)
  case (1 n)
  then show ?case by simp
next
  case (2 e hs n)
  have "Inl e # hs \<noteq> map Inr xs @ Inr n # ys" for xs ys by (cases xs) auto
  then show ?case by simp
next
  case (3 a hs n)
  show ?case
  proof (cases "a = n")
    case True
    then have "Inr a # hs = map Inr [] @ Inr n # hs" by simp
    with True show ?thesis by (metis getHeaderStreamFromLayer.simps(3))
  next
    case False
    then have "(\<exists>xs ys. Inr a # hs = map Inr xs @ Inr n # ys) \<longleftrightarrow> (\<exists>xs ys. hs = map Inr xs @ Inr n # ys)"
      by (auto simp: Cons_eq_append_conv Cons_eq_map_conv)
    with False 3 show ?thesis by simp
  qed
qed

lemma takeWhile_sep: "d \<notin> set xs \<Longrightarrow> takeWhile (\<lambda>c. c \<noteq> d) (xs @ d # ys) = xs"
  by (induction xs) auto

lemma append_sep_inject:
  assumes "xs @ d # us = ys @ d # vs" and "d \<notin> set xs" and "d \<notin> set ys"
  shows "xs = ys \<and> us = vs"
  using assms
proof (induction xs arbitrary: ys)
  case Nil
  then show ?case by (cases ys) auto
next
  case (Cons x xs)
  then show ?case by (cases ys) auto
qed

section \<open>Properties\<close>

text \<open>
  Asking whether an image exists changes nothing in the cluster, and a positive answer is only
  given after the registry has answered a request for the manifest of that very image.
\<close>

theorem ImageExists_sound:
  assumes "ImageExists L mld namespace imageName s = (r, t)"
  shows "\<exists>evs. history t = history s @ evs \<and> writes evs = [] \<and>
     (r = Ok True \<longrightarrow> (\<exists>xs options ys m. history t = xs @ Read (CraneManifest imageName options) # ys \<and>
        cr_Manifest L xs imageName options = Inr m))"
proof -
  obtain evs where "history t = history s @ evs" "list_all is_read evs"
    and "case r of Ok ex \<Rightarrow> ex \<longrightarrow> manifest_seen L imageName (history t) | Err e \<Rightarrow> True | Panic \<Rightarrow> True"
    by (rule guarD [OF guar_ImageExists TrueI assms]) (simp add: trace_ok_const)
  then show ?thesis by (auto simp: writes_of_reads manifest_seen_def)
qed

definition registry_with :: "string \<Rightarrow> env" where
  "registry_with img = empty_cluster\<lparr>
     cr_Manifest := (\<lambda>_ i _. if i = img then Inr ''manifest'' else Inl (TransportError 404)),
     UnmarshalMediaType := (\<lambda>_. Inr (Some ''application/vnd.oci.image.manifest.v1+json''))\<rparr>"

theorem ImageExists_sound_witness:
  "\<exists>t. ImageExists (registry_with ''reg/img:1'') (sample_mld None None) ''ns'' ''reg/img:1'' fresh_state = (Ok True, t) \<and>
     writes (history t) = []"
proof -
  obtain t where run: "ImageExists (registry_with ''reg/img:1'') (sample_mld None None) ''ns'' ''reg/img:1'' fresh_state = (Ok True, t)"
    by (simp add: ImageExists_def registry_ImageExists_def getImageManifest_def getPullOptions_def image_repo_def
        tls_options_def getManifestStreamFromImage_def crane_Manifest_def HasPrefix_def Let_def go_simps
        registry_with_def sample_defs)
  from ImageExists_sound [OF run] have "writes (history t) = []" by (auto simp: fresh_state_def)
  with run show ?thesis by blast
qed

text \<open>
  The repository that digests are looked up in is the text before the first \<open>@\<close>, or before the
  first colon if there is none.  For a registry with a port number that first colon belongs to the
  port, so for an image given by tag the repository is the bare host name.
\<close>

theorem getPullOptions_repo:
  assumes "getPullOptions L img tls auth s = (Ok cfg, t)"
  shows "rpc_repo cfg = (if CHR ''@'' \<in> set img then takeWhile (\<lambda>c. c \<noteq> CHR ''@'') img
       else takeWhile (\<lambda>c. c \<noteq> CHR '':'') img) \<and>
     (CHR ''@'' \<in> set img \<or> CHR '':'' \<in> set img) \<and>
     (\<forall>host port path. img = host @ '':'' @ port @ ''/'' @ path \<longrightarrow>
        CHR ''@'' \<notin> set img \<longrightarrow> CHR '':'' \<notin> set host \<longrightarrow> rpc_repo cfg = host)"
proof -
  have repo: "rpc_repo cfg = image_repo img" and ne: "image_repo img \<noteq> ''''"
    using assms
    by (auto simp: getPullOptions_def Let_def go_simps split: if_splits option.splits prod.splits res.splits)
  have split: "split_by p img ! 0 = takeWhile (\<lambda>c. \<not> p c) img" for p
    using hd_split_by [of p img] by (simp add: hd_conv_nth)
  have "1 < length (split_by (\<lambda>c. c = d) img) \<longleftrightarrow> d \<in> set img" for d
    by (auto simp: length_split_by filter_empty_conv length_greater_0_conv [symmetric] simp del: length_greater_0_conv)
  then have "image_repo img = (if CHR ''@'' \<in> set img then takeWhile (\<lambda>c. c \<noteq> CHR ''@'') img
      else if CHR '':'' \<in> set img then takeWhile (\<lambda>c. c \<noteq> CHR '':'') img else '''')"
    by (simp add: image_repo_def split)
  with ne show ?thesis
    by (auto simp: repo takeWhile_sep split: if_splits)
qed

theorem getPullOptions_repo_witness:
  "\<exists>t. getPullOptions empty_cluster ''host:5000/img:1'' None None fresh_state =
      (Ok \<lparr>rpc_repo = ''host'', rpc_authOptions = [WithContext]\<rparr>, t)"
proof -
  obtain cfg t where run: "getPullOptions empty_cluster ''host:5000/img:1'' None None fresh_state = (Ok cfg, t)"
    and opts: "rpc_authOptions cfg = [WithContext]"
    by (simp add: getPullOptions_def image_repo_def tls_options_def Let_def go_simps)
  from getPullOptions_repo [OF run] have "rpc_repo cfg = ''host''" by simp
  with run opts show ?thesis by (cases cfg) auto
qed

text \<open>
  Two Modules never share the image that is built before signing: for namespaces as Kubernetes
  allows them (without underscores), Modules that differ in name or namespace have different intermediate
  images, also when they name the same final image, and it is never the final image itself.
\<close>

theorem IntermediateImageName_inj:
  assumes "CHR ''_'' \<notin> set ns1" and "CHR ''_'' \<notin> set ns2"
  shows "(IntermediateImageName n1 ns1 target = IntermediateImageName n2 ns2 target \<longleftrightarrow> n1 = n2 \<and> ns1 = ns2) \<and>
     IntermediateImageName n1 ns1 target \<noteq> target"
proof -
  have "n1 = n2 \<and> ns1 = ns2" if "IntermediateImageName n1 ns1 target = IntermediateImageName n2 ns2 target"
  proof -
    from that have "ns1 @ CHR ''_'' # n1 @ ''_kmm_unsigned'' = ns2 @ CHR ''_'' # n2 @ ''_kmm_unsigned''"
      by (simp add: IntermediateImageName_def AppendToTag_def)
    from append_sep_inject [OF this assms(1,2)] show ?thesis by simp
  qed
  then show ?thesis by (auto simp: IntermediateImageName_def AppendToTag_def)
qed

theorem IntermediateImageName_inj_witness:
  "IntermediateImageName ''a'' ''ns'' ''reg/img:1'' = ''reg/img:1_ns_a_kmm_unsigned'' \<and>
   IntermediateImageName ''a'' ''ns'' ''reg/img:1'' \<noteq> IntermediateImageName ''b'' ''ns'' ''reg/img:1''"
  using IntermediateImageName_inj [of "''ns''" "''ns''" "''a''" "''reg/img:1''" "''b''"]
  by (simp add: IntermediateImageName_def AppendToTag_def HasPrefix_def)

end
