(* ===== verification/Job_Helper.thy ===== *)
theory Job_Helper
  imports Image_Access
begin

text \<open>
  \<open>internal/utils/jobhelper.go\<close> and \<open>internal/utils/volume_helper.go\<close>: finding, creating, deleting
  and judging the Jobs that build and sign images, and the volumes of secrets.
\<close>

section \<open>Constants\<close>

definition JobTypeBuild :: string where
  "JobTypeBuild = ''build''"

definition JobTypeSign :: string where
  "JobTypeSign = ''sign''"

definition StatusCompleted :: string where
  "StatusCompleted = ''completed''"

definition StatusCreated :: string where
  "StatusCreated = ''created''"

definition StatusInProgress :: string where
  "StatusInProgress = ''in progress''"

definition StatusFailed :: string where
  "StatusFailed = ''failed''"

lemmas status_defs = StatusCompleted_def StatusCreated_def StatusInProgress_def StatusFailed_def

section \<open>Jobs\<close>

definition annotations :: "Job \<Rightarrow> smap" where
  "annotations job = (case om_Annotations (job_Meta job) of None \<Rightarrow> [] | Some m \<Rightarrow> m)"

definition IsJobChanged :: "Job \<Rightarrow> Job \<Rightarrow> bool res" where
  "IsJobChanged existingJob newJob =
     (if om_Annotations (job_Meta existingJob) = None
      then Err (Errorf ''annotations are not present in the existing job %s'' [AS (om_Name (job_Meta existingJob))])
      else if mget (annotations existingJob) JobHashAnnotation = mget (annotations newJob) JobHashAnnotation
      then Ok False
      else Ok True)"

definition moduleLabels :: "string \<Rightarrow> string \<Rightarrow> smap" where
  "moduleLabels moduleName jobType = [(ModuleNameLabel, moduleName), (JobType, jobType)]"

definition moduleKernelLabels :: "string \<Rightarrow> string \<Rightarrow> string \<Rightarrow> smap" where
  "moduleKernelLabels moduleName targetKernel jobType =
     mput (moduleLabels moduleName jobType) TargetKernelTarget targetKernel"

definition JobLabels :: "string \<Rightarrow> string \<Rightarrow> string \<Rightarrow> smap" where
  "JobLabels modName targetKernel jobType = moduleKernelLabels modName targetKernel jobType"

definition filterJobsByOwner :: "env \<Rightarrow> Job list \<Rightarrow> Owner \<Rightarrow> Job list" where
  "filterJobsByOwner L jobs owner =
     filter (\<lambda>job. IsControlledBy L (om_OwnerReferences (job_Meta job)) owner) jobs"

definition getJobs :: "env \<Rightarrow> string \<Rightarrow> smap \<Rightarrow> (op_state, Job list) go" where
  "getJobs L namespace labels =
     check (call (Read (ListJobs namespace labels)) (\<lambda>h. cl_ListJobs L h namespace labels))
       (\<lambda>e. Errorf ''could not list jobs: %v'' [AE e]) ret"

definition GetModuleJobByKernel ::
  "env \<Rightarrow> string \<Rightarrow> string \<Rightarrow> string \<Rightarrow> string \<Rightarrow> Owner \<Rightarrow> (op_state, Job) go" where
  "GetModuleJobByKernel L modName namespace targetKernel jobType owner =
     (let matchLabels = moduleKernelLabels modName targetKernel jobType in
      check (getJobs L namespace matchLabels)
        (\<lambda>e. Errorf ''failed to get module %s, jobs by kernel %s: %v'' [AS modName, AS targetKernel, AE e])
        (\<lambda>jobs.
          let moduleOwnedJobs = filterJobsByOwner L jobs owner;
              numFoundJobs = length moduleOwnedJobs
          in if numFoundJobs = 0 then raise ErrNoMatchingJob
             else if 1 < numFoundJobs
             then raise (Errorf ''expected 0 or 1 %s job, got %d'' [AS jobType, AI (int numFoundJobs)])
             else ret (moduleOwnedJobs ! 0)))"

definition GetModuleJobs ::
  "env \<Rightarrow> string \<Rightarrow> string \<Rightarrow> string \<Rightarrow> Owner \<Rightarrow> (op_state, Job list) go" where
  "GetModuleJobs L modName namespace jobType owner =
     check (getJobs L namespace (moduleLabels modName jobType))
       (\<lambda>e. Errorf ''failed to get jobs for module %s, namespace %s: %v'' [AS modName, AS namespace, AE e])
       (\<lambda>jobs. ret (filterJobsByOwner L jobs owner))"

definition delete_Job :: "env \<Rightarrow> Job \<Rightarrow> (op_state, unit) go" where
  "delete_Job L job = do_write L (DeleteJob job)"

definition create_Job :: "env \<Rightarrow> Job \<Rightarrow> (op_state, unit) go" where
  "create_Job L jobTemplate = do_write L (CreateJob jobTemplate)"

definition GetJobStatus :: "Job \<Rightarrow> string res" where
  "GetJobStatus job =
     (if job_Succeeded job = 1 then Ok StatusCompleted
      else if job_Active job = 1 then Ok StatusInProgress
      else if job_Failed job = 1 then Ok StatusFailed
      else Err (Errorf ''unknown status: %v''
        [AI (sint (job_Active job)), AI (sint (job_Succeeded job)), AI (sint (job_Failed job))]))"

section \<open>Volumes of secrets\<close>

definition volumeNameFromSecretRef :: "LocalObjectReference \<Rightarrow> string" where
  "volumeNameFromSecretRef ref = ''secret-'' @ lor_Name ref"

definition MakeSecretVolume :: "LocalObjectReference option \<Rightarrow> string \<Rightarrow> string \<Rightarrow> Volume" where
  "MakeSecretVolume secretRef key path =
     (case secretRef of
        None \<Rightarrow> zero_Volume
      | Some ref \<Rightarrow> \<lparr>vol_Name = volumeNameFromSecretRef ref,
          vol_Source = SecretSource (lor_Name ref)
            (if key \<noteq> '''' then [\<lparr>kp_Key = key, kp_Path = path\<rparr>] else [])\<rparr>)"

definition MakeSecretVolumeMount :: "LocalObjectReference option \<Rightarrow> string \<Rightarrow> VolumeMount" where
  "MakeSecretVolumeMount secretRef mountPath =
     (case secretRef of
        None \<Rightarrow> zero_VolumeMount
      | Some ref \<Rightarrow> \<lparr>vm_Name = volumeNameFromSecretRef ref, vm_ReadOnly = True, vm_MountPath = mountPath\<rparr>)"

section \<open>Lemmas\<close>

text \<open>What \<open>GetModuleJobByKernel\<close> makes of the answer to its list request.\<close>

definition job_lookup :: "env \<Rightarrow> string \<Rightarrow> string \<Rightarrow> string \<Rightarrow> Owner \<Rightarrow> error + Job list \<Rightarrow> Job res" where
  "job_lookup L modName targetKernel jobType owner answer =
     (case answer of
        Inl e \<Rightarrow> Err (Errorf ''failed to get module %s, jobs by kernel %s: %v''
          [AS modName, AS targetKernel, AE (Errorf ''could not list jobs: %v'' [AE e])])
      | Inr jobs \<Rightarrow>
          (case filterJobsByOwner L jobs owner of
             [] \<Rightarrow> Err ErrNoMatchingJob
           | [job] \<Rightarrow> Ok job
           | owned \<Rightarrow> Err (Errorf ''expected 0 or 1 %s job, got %d'' [AS jobType, AI (int (length owned))])))"

lemma GetModuleJobByKernel_run [go_simps]:
  "GetModuleJobByKernel L modName namespace k jobType owner s =
     (job_lookup L modName k jobType owner
        (cl_ListJobs L (history s) namespace (moduleKernelLabels modName k jobType)),
      s\<lparr>history := history s @ [Read (ListJobs namespace (moduleKernelLabels modName k jobType))]\<rparr>)"
  by (auto simp: GetModuleJobByKernel_def getJobs_def job_lookup_def Let_def go_simps
      split: sum.split list.split)

lemma job_lookup_Ok_iff:
  "job_lookup L modName k jobType owner answer = Ok job \<longleftrightarrow>
     (\<exists>jobs. answer = Inr jobs \<and> filterJobsByOwner L jobs owner = [job])"
  by (auto simp: job_lookup_def split: sum.split list.split)

lemma job_lookup_not_Panic [simp]: "job_lookup L modName k jobType owner answer \<noteq> Panic"
  by (auto simp: job_lookup_def split: sum.split list.split)

lemma job_lookup_none_iff:
  "job_lookup L modName k jobType owner answer = Err ErrNoMatchingJob \<longleftrightarrow>
     (\<exists>jobs. answer = Inr jobs \<and> filterJobsByOwner L jobs owner = [])"
  by (auto simp: job_lookup_def split: sum.split list.split)

lemma GetModuleJobs_run [go_simps]:
  "GetModuleJobs L modName namespace jobType owner s =
     (case cl_ListJobs L (history s) namespace (moduleLabels modName jobType) of
        Inl e \<Rightarrow> Err (Errorf ''failed to get jobs for module %s, namespace %s: %v''
          [AS modName, AS namespace, AE (Errorf ''could not list jobs: %v'' [AE e])])
      | Inr jobs \<Rightarrow> Ok (filterJobsByOwner L jobs owner),
      s\<lparr>history := history s @ [Read (ListJobs namespace (moduleLabels modName jobType))]\<rparr>)"
  by (simp add: GetModuleJobs_def getJobs_def go_simps split: sum.split)

lemma IsJobChanged_not_Panic [simp]: "IsJobChanged j1 j2 \<noteq> Panic"
  by (simp add: IsJobChanged_def)

lemma GetJobStatus_not_Panic [simp]: "GetJobStatus j \<noteq> Panic"
  by (simp add: GetJobStatus_def)

lemma GetJobStatus_completed_iff: "GetJobStatus job = Ok StatusCompleted \<longleftrightarrow> job_Succeeded job = 1"
  by (simp add: GetJobStatus_def status_defs)

lemma emits_GetModuleJobByKernel [emits_rules]:
  "(\<And>r. F (Read r)) \<Longrightarrow> emits F (GetModuleJobByKernel L n ns k jt owner)"
  unfolding GetModuleJobByKernel_def getJobs_def Let_def by (intro emits_rules)

lemma emits_GetModuleJobs [emits_rules]:
  "(\<And>r. F (Read r)) \<Longrightarrow> emits F (GetModuleJobs L n ns jt owner)"
  unfolding GetModuleJobs_def getJobs_def by (intro emits_rules)

lemma emits_create_Job [emits_rules]: "F (Write (CreateJob j)) \<Longrightarrow> emits F (create_Job L j)"
  unfolding create_Job_def by (intro emits_rules)

lemma emits_delete_Job [emits_rules]: "F (Write (DeleteJob j)) \<Longrightarrow> emits F (delete_Job L j)"
  unfolding delete_Job_def by (intro emits_rules)

text \<open>The job labels select by Module, kernel and kind of job.\<close>

lemma mget_moduleKernelLabels [simp]:
  "mget (moduleKernelLabels n k jt) ModuleNameLabel = n"
  "mget (moduleKernelLabels n k jt) JobType = jt"
  "mget (moduleKernelLabels n k jt) TargetKernelTarget = k"
  by (simp_all add: moduleKernelLabels_def moduleLabels_def)

subsection \<open>Synchronising a job with its template\<close>

text \<open>
  The two job managers share the shape of their \<open>Sync\<close> once the template is made; \<open>sync_job\<close> is that
  shape, with the two error texts in which they differ.
\<close>

definition sync_job :: "env \<Rightarrow> string \<Rightarrow> string \<Rightarrow> string \<Rightarrow> ModuleLoaderData \<Rightarrow> Owner \<Rightarrow> Job \<Rightarrow> (op_state, string) go" where
  "sync_job L jobType getting creating mld owner jobTemplate =
     attempt (GetModuleJobByKernel L (mld_Name mld) (mld_Namespace mld) (mld_KernelVersion mld) jobType owner)
       (\<lambda>r. case r of
          Inl e \<Rightarrow>
            if e \<noteq> ErrNoMatchingJob then raise (Errorf getting [AE e])
            else check (create_Job L jobTemplate) (\<lambda>e. Errorf creating [AE e]) (\<lambda>_. ret StatusCreated)
        | Inr job \<Rightarrow>
            check (pure_go (IsJobChanged job jobTemplate))
              (\<lambda>e. Errorf ''could not determine if job has changed: %v'' [AE e])
              (\<lambda>changed.
                 if changed then attempt (delete_Job L job) (\<lambda>_. ret StatusInProgress)
                 else bind_go (pure_go (GetJobStatus job)) ret))"

definition job_labels_of :: "string \<Rightarrow> ModuleLoaderData \<Rightarrow> smap" where
  "job_labels_of jobType mld = moduleKernelLabels (mld_Name mld) (mld_KernelVersion mld) jobType"

text \<open>
  The outcome of \<open>sync_job\<close> as a specification: nothing owned is there and the template is created; or
  the one owned job is outdated and gets deleted; or it is current and its status is reported.
\<close>

definition sync_outcome ::
  "env \<Rightarrow> Job \<Rightarrow> Owner \<Rightarrow> Job list \<Rightarrow> write_call list \<Rightarrow> string res \<Rightarrow> bool" where
  "sync_outcome L tmpl owner jobs ws r \<longleftrightarrow>
     (case filterJobsByOwner L jobs owner of
        [] \<Rightarrow> ws = [CreateJob tmpl] \<and> (r = Ok StatusCreated \<or> (\<exists>e. r = Err e))
      | [job] \<Rightarrow>
          if om_Annotations (job_Meta job) = None then ws = [] \<and> (\<exists>e. r = Err e)
          else if mget (annotations job) JobHashAnnotation \<noteq> mget (annotations tmpl) JobHashAnnotation
          then ws = [DeleteJob job] \<and> r = Ok StatusInProgress
          else ws = [] \<and> r = GetJobStatus job
      | _ \<Rightarrow> ws = [] \<and> (\<exists>e. r = Err e))"

lemma sync_job_run:
  assumes "sync_job L jobType f1 f2 mld owner tmpl s = (r, t)"
    and "cl_ListJobs L (history s) (mld_Namespace mld) (job_labels_of jobType mld) = answer"
  shows "\<exists>ws. history t = history s @ Read (ListJobs (mld_Namespace mld) (job_labels_of jobType mld)) # map Write ws \<and>
     r \<noteq> Panic \<and>
     (case answer of
        Inl e \<Rightarrow> ws = [] \<and> (\<exists>e. r = Err e)
      | Inr jobs \<Rightarrow> sync_outcome L tmpl owner jobs ws r)"
proof (cases answer)
  case (Inl e)
  with assms show ?thesis
    by (auto simp: sync_job_def job_labels_of_def job_lookup_def go_simps)
next
  case (Inr jobs)
  let ?s1 = "s\<lparr>history := history s @ [Read (ListJobs (mld_Namespace mld) (job_labels_of jobType mld))]\<rparr>"
  consider "filterJobsByOwner L jobs owner = []"
    | job where "filterJobsByOwner L jobs owner = [job]"
    | j1 j2 js where "filterJobsByOwner L jobs owner = j1 # j2 # js"
    by (metis list.exhaust)
  then show ?thesis
  proof cases
    case 1
    then have run: "check (create_Job L tmpl) (\<lambda>e. Errorf f2 [AE e]) (\<lambda>_. ret StatusCreated) ?s1 = (r, t)"
      using assms Inr by (simp add: sync_job_def job_labels_of_def job_lookup_def go_simps)
    then show ?thesis
      using Inr 1
      by (cases "cl_Write L (history ?s1) (CreateJob tmpl)")
        (auto simp: create_Job_def go_simps sync_outcome_def intro!: exI [of _ "[CreateJob tmpl]"])
  next
    case (2 job)
    then show ?thesis
      using assms Inr
      by (cases "cl_Write L (history ?s1) (DeleteJob job)"; cases "GetJobStatus job";
          cases "om_Annotations (job_Meta job) = None";
          cases "mget (annotations job) JobHashAnnotation = mget (annotations tmpl) JobHashAnnotation")
        (auto simp: sync_job_def job_labels_of_def job_lookup_def IsJobChanged_def delete_Job_def
          go_simps sync_outcome_def intro: exI [of _ "[DeleteJob job]"] exI [of _ "[]"])
  next
    case (3 j1 j2 js)
    with assms Inr show ?thesis
      by (auto simp: sync_job_def job_labels_of_def job_lookup_def go_simps sync_outcome_def)
  qed
qed

subsection \<open>Collecting finished jobs\<close>

text \<open>
  The loop both job managers end their garbage collection with.
\<close>

definition gc_job_body :: "env \<Rightarrow> Job \<Rightarrow> string list \<Rightarrow> (op_state, string list) go" where
  "gc_job_body L job deleteNames =
     (if job_Succeeded job = 1
      then check (delete_Job L job)
        (\<lambda>e. Errorf ''failed to delete build job %s: %v'' [AS (om_Name (job_Meta job)), AE e])
        (\<lambda>_. ret (deleteNames @ [om_Name (job_Meta job)]))
      else ret deleteNames)"

lemma gc_job_loop:
  assumes "loop jobs (gc_job_body L) deleted s = (r, t)"
  shows "r \<noteq> Panic \<and> (\<exists>dels rest. filter (\<lambda>j. job_Succeeded j = 1) jobs = dels @ rest \<and>
     history t = history s @ map (\<lambda>j. Write (DeleteJob j)) dels \<and>
     (\<forall>names. r = Ok names \<longrightarrow> rest = [] \<and> names = deleted @ map (\<lambda>j. om_Name (job_Meta j)) dels))"
  using assms
proof (induction jobs arbitrary: deleted s)
  case Nil
  then show ?case by (auto simp: ret_run)
next
  case (Cons x xs)
  show ?case
  proof (cases "job_Succeeded x = 1")
    case False
    then have "loop xs (gc_job_body L) deleted s = (r, t)"
      using Cons.prems by (simp add: gc_job_body_def [of L x] bind_go_run ret_run)
    with Cons.IH False show ?thesis by auto
  next
    case succeeded: True
    let ?s1 = "s\<lparr>history := history s @ [Write (DeleteJob x)]\<rparr>"
    show ?thesis
    proof (cases "cl_Write L (history s) (DeleteJob x)")
      case (Inl e)
      with Cons.prems succeeded have "t = ?s1" "\<exists>e'. r = Err e'"
        by (auto simp: gc_job_body_def [of L x] delete_Job_def go_simps)
      with succeeded show ?thesis
        by (intro conjI exI [of _ "[x]"] exI [of _ "filter (\<lambda>j. job_Succeeded j = 1) xs"]) auto
    next
      case (Inr u)
      with Cons.prems succeeded have "loop xs (gc_job_body L) (deleted @ [om_Name (job_Meta x)]) ?s1 = (r, t)"
        by (simp add: gc_job_body_def [of L x] delete_Job_def go_simps)
      from Cons.IH [OF this] obtain dels rest where
        "r \<noteq> Panic" "filter (\<lambda>j. job_Succeeded j = 1) xs = dels @ rest"
        "history t = history ?s1 @ map (\<lambda>j. Write (DeleteJob j)) dels"
        "\<forall>names. r = Ok names \<longrightarrow> rest = [] \<and>
           names = (deleted @ [om_Name (job_Meta x)]) @ map (\<lambda>j. om_Name (job_Meta j)) dels"
        by blast
      with succeeded show ?thesis
        by (intro conjI exI [of _ "x # dels"] exI [of _ rest]) auto
    qed
  qed
qed

text \<open>What garbage collection of the jobs of one kind promises.\<close>

definition collects_finished ::
  "env \<Rightarrow> string \<Rightarrow> (string \<Rightarrow> string \<Rightarrow> Owner \<Rightarrow> (op_state, string list) go) \<Rightarrow> bool" where
  "collects_finished L jobType gc \<longleftrightarrow> (\<forall>modName namespace owner s r t.
     gc modName namespace owner s = (r, t) \<longrightarrow>
     r \<noteq> Panic \<and> (\<exists>dels.
       history t = history s @ Read (ListJobs namespace (moduleLabels modName jobType)) # map (\<lambda>j. Write (DeleteJob j)) dels \<and>
       (\<forall>j \<in> set dels. job_Succeeded j = 1 \<and> IsControlledBy L (om_OwnerReferences (job_Meta j)) owner \<and>
          (\<exists>jobs. cl_ListJobs L (history s) namespace (moduleLabels modName jobType) = Inr jobs \<and> j \<in> set jobs)) \<and>
       (\<forall>names. r = Ok names \<longrightarrow>
          (\<exists>jobs. cl_ListJobs L (history s) namespace (moduleLabels modName jobType) = Inr jobs \<and>
             dels = filter (\<lambda>j. job_Succeeded j = 1) (filterJobsByOwner L jobs owner) \<and>
             names = map (\<lambda>j. om_Name (job_Meta j)) dels))))"

lemma collects_finishedI:
  assumes gc: "\<And>modName namespace owner. gc modName namespace owner =
     check (GetModuleJobs L modName namespace jobType owner) (w modName) (\<lambda>jobs. loop jobs (gc_job_body L) [])"
  shows "collects_finished L jobType gc"
  unfolding collects_finished_def
proof (intro allI impI)
  fix modName namespace owner s r t
  assume run: "gc modName namespace owner s = (r, t)"
  let ?h = "history s @ [Read (ListJobs namespace (moduleLabels modName jobType))]"
  let ?answer = "cl_ListJobs L (history s) namespace (moduleLabels modName jobType)"
  show "r \<noteq> Panic \<and> (\<exists>dels.
       history t = history s @ Read (ListJobs namespace (moduleLabels modName jobType)) # map (\<lambda>j. Write (DeleteJob j)) dels \<and>
       (\<forall>j \<in> set dels. job_Succeeded j = 1 \<and> IsControlledBy L (om_OwnerReferences (job_Meta j)) owner \<and>
          (\<exists>jobs. ?answer = Inr jobs \<and> j \<in> set jobs)) \<and>
       (\<forall>names. r = Ok names \<longrightarrow> (\<exists>jobs. ?answer = Inr jobs \<and>
             dels = filter (\<lambda>j. job_Succeeded j = 1) (filterJobsByOwner L jobs owner) \<and>
             names = map (\<lambda>j. om_Name (job_Meta j)) dels)))"
  proof (cases ?answer)
    case (Inl e)
    with run show ?thesis by (auto simp: gc go_simps)
  next
    case (Inr jobs)
    with run have "loop (filterJobsByOwner L jobs owner) (gc_job_body L) [] (s\<lparr>history := ?h\<rparr>) = (r, t)"
      by (simp add: gc go_simps)
    from gc_job_loop [OF this] obtain dels rest where
      d: "r \<noteq> Panic" "filter (\<lambda>j. job_Succeeded j = 1) (filterJobsByOwner L jobs owner) = dels @ rest"
      "history t = ?h @ map (\<lambda>j. Write (DeleteJob j)) dels"
      "\<forall>names. r = Ok names \<longrightarrow> rest = [] \<and> names = map (\<lambda>j. om_Name (job_Meta j)) dels"
      by auto
    have "set dels \<subseteq> set (filter (\<lambda>j. job_Succeeded j = 1) (filterJobsByOwner L jobs owner))"
      by (simp add: d(2))
    then have "\<forall>j \<in> set dels. job_Succeeded j = 1 \<and> IsControlledBy L (om_OwnerReferences (job_Meta j)) owner \<and> j \<in> set jobs"
      by (auto simp: filterJobsByOwner_def)
    with d Inr show ?thesis by (intro conjI exI [of _ dels]) auto
  qed
qed

end
