(* ===== verification/Job_Manager.thy ===== *)
theory Job_Manager
  imports Job_Helper
begin

text \<open>
  The interface the controllers see of a job manager (\<open>build.Manager\<close> in \<open>internal/build/manager.go\<close>,
  \<open>sign.SignManager\<close> in \<open>internal/sign/manager.go\<close>): \<open>ShouldSync\<close>, \<open>Sync\<close> and
  \<open>GarbageCollect\<close>, with the laws the controllers rely on.  The theories of the two managers interpret
  the locale on their models.
\<close>

text \<open>
  A job of the given kind for the given kernel has succeeded, and it is not outdated: some list
  request answered with exactly one job owned by \<open>owner\<close>, which has succeeded and carries the hash of
  a template that was made right before.
\<close>

definition job_completed ::
  "env \<Rightarrow> string \<Rightarrow> (Job \<Rightarrow> history \<Rightarrow> bool) \<Rightarrow> ModuleLoaderData \<Rightarrow> Owner \<Rightarrow> history \<Rightarrow> bool" where
  "job_completed L jobType made mld owner h \<longleftrightarrow> (\<exists>h1 h2 jobs job tmpl.
     h = h1 @ Read (ListJobs (mld_Namespace mld) (job_labels_of jobType mld)) # h2 \<and>
     cl_ListJobs L h1 (mld_Namespace mld) (job_labels_of jobType mld) = Inr jobs \<and>
     filterJobsByOwner L jobs owner = [job] \<and> job_Succeeded job = 1 \<and>
     made tmpl h1 \<and>
     mget (annotations job) JobHashAnnotation = mget (annotations tmpl) JobHashAnnotation)"

lemma job_completedI:
  assumes "cl_ListJobs L h1 (mld_Namespace mld) (job_labels_of jobType mld) = Inr jobs"
    and "filterJobsByOwner L jobs owner = [job]" and "job_Succeeded job = 1" and "made tmpl h1"
    and "mget (annotations job) JobHashAnnotation = mget (annotations tmpl) JobHashAnnotation"
  shows "job_completed L jobType made mld owner
    (h1 @ Read (ListJobs (mld_Namespace mld) (job_labels_of jobType mld)) # h2)"
  using assms unfolding job_completed_def by blast

lemma job_completed_append:
  "job_completed L jobType made mld owner h \<Longrightarrow> job_completed L jobType made mld owner (h @ h')"
  unfolding job_completed_def by fastforce

text \<open>A job was on a list the server has answered with.\<close>

definition job_listed :: "env \<Rightarrow> history \<Rightarrow> Job \<Rightarrow> bool" where
  "job_listed L h j \<longleftrightarrow> (\<exists>h1 h2 ns labels jobs. h = h1 @ Read (ListJobs ns labels) # h2 \<and>
     cl_ListJobs L h1 ns labels = Inr jobs \<and> j \<in> set jobs)"

lemma job_listedI:
  "cl_ListJobs L h1 ns labels = Inr jobs \<Longrightarrow> j \<in> set jobs \<Longrightarrow> job_listed L (h1 @ Read (ListJobs ns labels) # h2) j"
  unfolding job_listed_def by blast

text \<open>What a synchronisation may do to the cluster.\<close>

definition job_event :: "env \<Rightarrow> string \<Rightarrow> ModuleLoaderData \<Rightarrow> Owner \<Rightarrow> history \<Rightarrow> event \<Rightarrow> bool" where
  "job_event L jobType mld owner h e =
     (case e of
        Read _ \<Rightarrow> True
      | Write (CreateJob j) \<Rightarrow> om_Labels (job_Meta j) = job_labels_of jobType mld \<and>
          om_Namespace (job_Meta j) = mld_Namespace mld \<and>
          SetControllerReference L owner [] = Inr (om_OwnerReferences (job_Meta j))
      | Write (DeleteJob j) \<Rightarrow> IsControlledBy L (om_OwnerReferences (job_Meta j)) owner \<and> job_listed L h j
      | Write _ \<Rightarrow> False)"

lemma job_event_read [simp]: "job_event L jobType mld owner h (Read r)"
  by (simp add: job_event_def)

lemma job_event_of_read: "is_read e \<Longrightarrow> job_event L jobType mld owner h e"
  by (auto simp: is_read_def split: event.splits)

text \<open>What garbage collection of jobs may do: delete finished jobs of the owner that were on a list.\<close>

definition collect_event :: "env \<Rightarrow> Owner \<Rightarrow> history \<Rightarrow> event \<Rightarrow> bool" where
  "collect_event L owner h e \<longleftrightarrow> is_read e \<or> (\<exists>j. e = Write (DeleteJob j) \<and> job_Succeeded j = 1 \<and>
     IsControlledBy L (om_OwnerReferences (job_Meta j)) owner \<and> job_listed L h j)"

text \<open>
  The outcome of one synchronisation: read requests, of which the last lists the jobs of the kernel
  and the one before it completes the making of the template; then what \<open>sync_outcome\<close> says.  If the
  template cannot be made, there is no write at all.
\<close>

definition sync_law ::
  "env \<Rightarrow> string \<Rightarrow> (Job \<Rightarrow> history \<Rightarrow> bool) \<Rightarrow> ModuleLoaderData \<Rightarrow> Owner \<Rightarrow> op_state \<Rightarrow> string res \<Rightarrow> op_state \<Rightarrow> bool" where
  "sync_law L jobType made mld owner s r t \<longleftrightarrow>
     (\<exists>rs. list_all is_read rs \<and>
       (history t = history s @ rs \<and> (r = Panic \<or> (\<exists>e. r = Err e)) \<or>
        (\<exists>ws jobs tmpl.
           history t = history s @ rs @ Read (ListJobs (mld_Namespace mld) (job_labels_of jobType mld)) # map Write ws \<and>
           cl_ListJobs L (history s @ rs) (mld_Namespace mld) (job_labels_of jobType mld) = Inr jobs \<and>
           made tmpl (history s @ rs) \<and> sync_outcome L tmpl owner jobs ws r)))"

locale job_manager =
  fixes L :: env
    and ShouldSync :: "ModuleLoaderData \<Rightarrow> (op_state, bool) go"
    and Sync :: "ModuleLoaderData \<Rightarrow> string \<Rightarrow> bool \<Rightarrow> Owner \<Rightarrow> (op_state, string) go"
    and Collect :: "string \<Rightarrow> string \<Rightarrow> Owner \<Rightarrow> (op_state, string list) go"
    and jobType :: string
    and needed :: "ModuleLoaderData \<Rightarrow> bool"
    and target :: "ModuleLoaderData \<Rightarrow> string"
    and made :: "ModuleLoaderData \<Rightarrow> string \<Rightarrow> bool \<Rightarrow> Owner \<Rightarrow> Job \<Rightarrow> history \<Rightarrow> bool"
  assumes ShouldSync_guar: "guar (\<lambda>_. True) (\<lambda>_. is_read) (ShouldSync mld)
        (\<lambda>b h. \<not> b \<longrightarrow> \<not> needed mld \<or> manifest_seen L (target mld) h) (\<lambda>_ _. True)"
    and Sync_law: "Sync mld img push owner s = (r, t) \<Longrightarrow> sync_law L jobType (made mld img push owner) mld owner s r t"
    and made_meta: "made mld img push owner tmpl h \<Longrightarrow>
        om_Labels (job_Meta tmpl) = job_labels_of jobType mld \<and> om_Namespace (job_Meta tmpl) = mld_Namespace mld \<and>
        SetControllerReference L owner [] = Inr (om_OwnerReferences (job_Meta tmpl))"
    and Collect_law: "collects_finished L jobType Collect"
begin

lemma Sync_cases:
  assumes "Sync mld img push owner s = (r, t)"
  obtains (failed) rs where "list_all is_read rs" and "history t = history s @ rs" and "r = Panic \<or> (\<exists>e. r = Err e)"
  | (listed) rs ws jobs tmpl where "list_all is_read rs"
      and "history t = history s @ rs @ Read (ListJobs (mld_Namespace mld) (job_labels_of jobType mld)) # map Write ws"
      and "cl_ListJobs L (history s @ rs) (mld_Namespace mld) (job_labels_of jobType mld) = Inr jobs"
      and "made mld img push owner tmpl (history s @ rs)"
      and "sync_outcome L tmpl owner jobs ws r"
  using Sync_law [OF assms] unfolding sync_law_def by blast

lemma outcome_single_write:
  assumes "sync_outcome L tmpl owner jobs ws r"
  shows "ws = [] \<or> ws = [CreateJob tmpl] \<or> (\<exists>j. ws = [DeleteJob j] \<and> filterJobsByOwner L jobs owner = [j])"
  using assms by (auto simp: sync_outcome_def split: list.splits if_splits)

lemma outcome_completed:
  assumes "sync_outcome L tmpl owner jobs ws (Ok StatusCompleted)"
  obtains job where "filterJobsByOwner L jobs owner = [job]" and "job_Succeeded job = 1" and "ws = []"
    and "mget (annotations job) JobHashAnnotation = mget (annotations tmpl) JobHashAnnotation"
  using assms
  by (auto simp: sync_outcome_def GetJobStatus_completed_iff [symmetric] status_defs split: list.splits if_splits)

text \<open>A synchronisation writes at most once, and reports completion without writing.\<close>

lemma Sync_at_most_one_write:
  assumes "Sync mld img push owner s = (r, t)"
  shows "\<exists>evs. history t = history s @ evs \<and> length (writes evs) \<le> 1 \<and>
    (r = Ok StatusCompleted \<longrightarrow> writes evs = [])"
  using assms
proof (cases rule: Sync_cases)
  case (failed rs)
  then show ?thesis by (auto simp: writes_of_reads)
next
  case (listed rs ws jobs tmpl)
  have ws: "writes (map Write ws) = ws" by (induction ws) auto
  have "length ws \<le> 1" using outcome_single_write [OF listed(5)] by auto
  moreover have "ws = []" if ok: "r = Ok StatusCompleted"
    by (rule outcome_completed [OF listed(5) [unfolded ok]])
  ultimately show ?thesis using listed(1,2) ws by (auto simp: writes_of_reads)
qed

lemma guar_Sync:
  "guar (\<lambda>_. True) (job_event L jobType mld owner) (Sync mld img push owner)
     (\<lambda>st h. st = StatusCompleted \<longrightarrow> job_completed L jobType (made mld img push owner) mld owner h) (\<lambda>_ _. True)"
  unfolding guar_def
proof (intro allI impI)
  fix s r t
  assume "Sync mld img push owner s = (r, t)"
  then show "(\<exists>evs. history t = history s @ evs \<and> trace_ok (job_event L jobType mld owner) (history s) evs) \<and>
    (case r of Ok a \<Rightarrow> a = StatusCompleted \<longrightarrow> job_completed L jobType (made mld img push owner) mld owner (history t)
     | Err e \<Rightarrow> True | Panic \<Rightarrow> True)"
  proof (cases rule: Sync_cases)
    case (failed rs)
    then show ?thesis by (auto simp: trace_ok_reads [OF failed(1)])
  next
    case (listed rs ws jobs tmpl)
    have "trace_ok (job_event L jobType mld owner)
        ((history s @ rs) @ [Read (ListJobs (mld_Namespace mld) (job_labels_of jobType mld))]) (map Write ws)"
      using outcome_single_write [OF listed(5)] made_meta [OF listed(4)] job_listedI [OF listed(3), of _ "[]"]
      by (auto simp: job_event_def filterJobsByOwner_def filter_eq_Cons_iff)
    moreover have "trace_ok (job_event L jobType mld owner) (history s) rs" by (rule trace_ok_reads [OF listed(1)]) simp
    moreover have "job_completed L jobType (made mld img push owner) mld owner (history t)" if ok: "r = Ok StatusCompleted"
    proof -
      obtain job where "filterJobsByOwner L jobs owner = [job]" "job_Succeeded job = 1"
        "mget (annotations job) JobHashAnnotation = mget (annotations tmpl) JobHashAnnotation"
        by (rule outcome_completed [OF listed(5) [unfolded ok]])
      from job_completedI [where made = "made mld img push owner", OF listed(3) this(1,2) listed(4) this(3)] show ?thesis
        using listed(2) by simp
    qed
    ultimately show ?thesis
      using listed(2) by (auto split: res.split)
  qed
qed

lemma emits_ShouldSync: "(\<And>r. F (Read r)) \<Longrightarrow> emits F (ShouldSync mld)"
  unfolding emits_def
  by (rule guar_weaken [OF ShouldSync_guar]) (auto simp: is_read_def split: event.splits)

lemma emits_Sync: "(\<And>h e. job_event L jobType mld owner h e \<Longrightarrow> F e) \<Longrightarrow> emits F (Sync mld img push owner)"
  unfolding emits_def by (rule guar_weaken [OF guar_Sync]) auto

lemma guar_Collect:
  "guar (\<lambda>_. True) (collect_event L owner) (Collect modName namespace owner) (\<lambda>_ _. True) (\<lambda>_ _. True)"
  unfolding guar_def
proof (intro allI impI)
  fix s r t
  assume "Collect modName namespace owner s = (r, t)"
  then obtain dels where
    t: "history t = history s @ Read (ListJobs namespace (moduleLabels modName jobType)) # map (\<lambda>j. Write (DeleteJob j)) dels"
    and dels: "\<forall>j \<in> set dels. job_Succeeded j = 1 \<and> IsControlledBy L (om_OwnerReferences (job_Meta j)) owner \<and>
      (\<exists>jobs. cl_ListJobs L (history s) namespace (moduleLabels modName jobType) = Inr jobs \<and> j \<in> set jobs)"
    using Collect_law unfolding collects_finished_def by metis
  let ?h = "history s @ [Read (ListJobs namespace (moduleLabels modName jobType))]"
  have "trace_ok (collect_event L owner) ?h (map (\<lambda>j. Write (DeleteJob j)) dels)"
    unfolding trace_ok_nth
  proof (intro allI impI)
    fix xs e ys
    assume "map (\<lambda>j. Write (DeleteJob j)) dels = xs @ e # ys"
    then obtain j where "e = Write (DeleteJob j)" "j \<in> set dels"
      by (metis (no_types, lifting) imageE in_set_conv_decomp list.set_map)
    with dels show "collect_event L owner (?h @ xs) e"
      by (auto simp: collect_event_def intro: job_listedI)
  qed
  with t show "(\<exists>evs. history t = history s @ evs \<and> trace_ok (collect_event L owner) (history s) evs) \<and>
      (case r of Ok a \<Rightarrow> True | Err e \<Rightarrow> True | Panic \<Rightarrow> True)"
    by (auto simp: collect_event_def split: res.split)
qed

lemma emits_Collect:
  assumes "\<And>r. F (Read r)" and "\<And>j. job_Succeeded j = 1 \<Longrightarrow>
    IsControlledBy L (om_OwnerReferences (job_Meta j)) owner \<Longrightarrow> F (Write (DeleteJob j))"
  shows "emits F (Collect modName namespace owner)"
  unfolding emits_def
  by (rule guar_weaken [OF guar_Collect]) (use assms in \<open>auto simp: collect_event_def is_read_def split: event.splits\<close>)

end

end
