(* ===== verification/Build_Job.thy ===== *)
theory Build_Job
  imports Job_Manager
begin

text \<open>
  \<open>internal/build/job/maker.go\<close> and \<open>internal/build/job/manager.go\<close>: the Job that builds an image in
  the cluster with Kaniko, and the manager that keeps it in step with the Module.  The manager is
  an instance of the interface \<open>job_manager\<close>.
\<close>

section \<open>The job template\<close>

definition dockerfileVolumeName :: string where
  "dockerfileVolumeName = ''dockerfile''"

definition dockerfileVolume :: "string \<Rightarrow> LocalObjectReference option \<Rightarrow> Volume res" where
  "dockerfileVolume name dockerfileConfigMap =
     check_res (deref dockerfileConfigMap) (\<lambda>e. e)
       (\<lambda>cm. Ok \<lparr>vol_Name = name,
          vol_Source = ConfigMapSource (lor_Name cm) [\<lparr>kp_Key = DockerfileCMKey, kp_Path = ''Dockerfile''\<rparr>]\<rparr>)"

definition dockerfileVolumeMount :: "string \<Rightarrow> VolumeMount" where
  "dockerfileVolumeMount name = \<lparr>vm_Name = name, vm_ReadOnly = True, vm_MountPath = ''/workspace''\<rparr>"

definition makeImagePullSecretVolume :: "LocalObjectReference option \<Rightarrow> Volume" where
  "makeImagePullSecretVolume secretRef =
     (case secretRef of
        None \<Rightarrow> zero_Volume
      | Some ref \<Rightarrow> \<lparr>vol_Name = volumeNameFromSecretRef ref,
          vol_Source = SecretSource (lor_Name ref) [\<lparr>kp_Key = ''.dockerconfigjson'', kp_Path = ''config.json''\<rparr>]\<rparr>)"

definition makeImagePullSecretVolumeMount :: "LocalObjectReference option \<Rightarrow> VolumeMount" where
  "makeImagePullSecretVolumeMount secretRef =
     (case secretRef of
        None \<Rightarrow> zero_VolumeMount
      | Some ref \<Rightarrow> \<lparr>vm_Name = volumeNameFromSecretRef ref, vm_ReadOnly = True, vm_MountPath = ''/kaniko/.docker''\<rparr>)"

definition makeBuildSecretVolumes :: "LocalObjectReference list \<Rightarrow> Volume list" where
  "makeBuildSecretVolumes secretRefs =
     map (\<lambda>ref. \<lparr>vol_Name = volumeNameFromSecretRef ref, vol_Source = SecretSource (lor_Name ref) []\<rparr>) secretRefs"

definition makeBuildSecretVolumeMounts :: "LocalObjectReference list \<Rightarrow> VolumeMount list" where
  "makeBuildSecretVolumeMounts secretRefs =
     map (\<lambda>ref. \<lparr>vm_Name = volumeNameFromSecretRef ref, vm_ReadOnly = True,
       vm_MountPath = ''/run/secrets/'' @ lor_Name ref\<rparr>) secretRefs"

definition volumes :: "LocalObjectReference option \<Rightarrow> Build \<Rightarrow> Volume list res" where
  "volumes imageRepoSecret buildConfig =
     check_res (dockerfileVolume dockerfileVolumeName (build_DockerfileConfigMap buildConfig)) (\<lambda>e. e)
       (\<lambda>v. Ok ([v]
          @ (if imageRepoSecret \<noteq> None then [makeImagePullSecretVolume imageRepoSecret] else [])
          @ makeBuildSecretVolumes (build_Secrets buildConfig)))"

definition volumeMounts :: "LocalObjectReference option \<Rightarrow> Build \<Rightarrow> VolumeMount list" where
  "volumeMounts imageRepoSecret buildConfig =
     [dockerfileVolumeMount dockerfileVolumeName]
     @ (if imageRepoSecret \<noteq> None then [makeImagePullSecretVolumeMount imageRepoSecret] else [])
     @ makeBuildSecretVolumeMounts (build_Secrets buildConfig)"

text \<open>The registry options are read only when the image is pushed.\<close>

definition containerArgs :: "Build \<Rightarrow> string \<Rightarrow> string \<Rightarrow> TLSOptions option \<Rightarrow> bool \<Rightarrow> string list res" where
  "containerArgs buildConfig targetKernel containerImage registryTLS pushImage =
     (let buildArgs = ApplyBuildArgOverrides (build_BuildArgs buildConfig)
            [\<lparr>ba_Name = ''KERNEL_VERSION'', ba_Value = targetKernel\<rparr>];
          args = (if pushImage then [''--destination'', containerImage] else [''--no-push''])
            @ concat (map (\<lambda>ba. [''--build-arg'', ba_Name ba @ ''='' @ ba_Value ba]) buildArgs)
            @ (if tls_Insecure (build_BaseImageRegistryTLS buildConfig) then [''--insecure-pull''] else [])
            @ (if tls_InsecureSkipTLSVerify (build_BaseImageRegistryTLS buildConfig)
               then [''--skip-tls-verify-pull''] else [])
      in if pushImage
         then check_res (deref registryTLS) (\<lambda>e. e) (\<lambda>tls. Ok (args
             @ (if tls_Insecure tls then [''--insecure''] else [])
             @ (if tls_InsecureSkipTLSVerify tls then [''--skip-tls-verify''] else [])))
         else Ok args)"

definition kaniko_image :: "env \<Rightarrow> Build \<Rightarrow> string" where
  "kaniko_image L buildConfig =
     (let kanikoImage = Getenv L ''RELATED_IMAGES_BUILD'' in
      case build_KanikoParams buildConfig of
        None \<Rightarrow> kanikoImage
      | Some params \<Rightarrow>
          if kaniko_Tag params = '''' then kanikoImage
          else (case IndexAny kanikoImage ''@:'' of None \<Rightarrow> kanikoImage | Some idx \<Rightarrow> take idx kanikoImage)
               @ '':'' @ kaniko_Tag params)"

definition specTemplate ::
  "env \<Rightarrow> ModuleLoaderData \<Rightarrow> Build \<Rightarrow> string \<Rightarrow> TLSOptions option \<Rightarrow> bool \<Rightarrow> PodTemplateSpec res" where
  "specTemplate L mld buildConfig containerImage registryTLS pushImage =
     check_res (containerArgs buildConfig (mld_KernelVersion mld) containerImage registryTLS pushImage) (\<lambda>e. e) (\<lambda>args.
     check_res (volumes (mld_ImageRepoSecret mld) buildConfig) (\<lambda>e. e) (\<lambda>vols.
     Ok (zero_PodTemplateSpec\<lparr>pt_Spec := zero_PodSpec\<lparr>
       ps_Containers := [zero_Container\<lparr>
         c_Args := args,
         c_Name := ''kaniko'',
         c_Image := kaniko_image L buildConfig,
         c_VolumeMounts := volumeMounts (mld_ImageRepoSecret mld) buildConfig\<rparr>],
       ps_NodeSelector := mld_Selector mld,
       ps_RestartPolicy := ''Never'',
       ps_Volumes := vols\<rparr>\<rparr>)))"

definition getHashValue :: "env \<Rightarrow> PodTemplateSpec \<Rightarrow> string \<Rightarrow> (64 word) res" where
  "getHashValue L podTemplate dockerfile =
     check_res (of_sum (HashBuild L dockerfile podTemplate))
       (\<lambda>e. Errorf ''could not hash job's spec template and dockefile: %v'' [AE e]) Ok"

definition getHashAnnotationValue :: "env \<Rightarrow> string \<Rightarrow> string \<Rightarrow> PodTemplateSpec \<Rightarrow> (op_state, 64 word) go" where
  "getHashAnnotationValue L configMapName namespace podTemplate =
     (let namespacedName = \<lparr>nn_Namespace = namespace, nn_Name = configMapName\<rparr> in
      check (call (Read (GetConfigMap namespacedName)) (\<lambda>h. cl_GetConfigMap L h namespacedName))
        (\<lambda>e. Errorf ''failed to get dockerfile ConfigMap %s: %v'' [AS configMapName, AE e])
        (\<lambda>dockerfileCM.
          case map_of (cm_Data dockerfileCM) DockerfileCMKey of
            None \<Rightarrow> raise (Errorf ''invalid Dockerfile ConfigMap %s format, %s key is missing''
              [AS configMapName, AS DockerfileCMKey])
          | Some data \<Rightarrow> pure_go (getHashValue L podTemplate data)))"

text \<open>The final \<open>controllerutil.SetControllerReference(owner, job, scheme)\<close> of both makers.\<close>

definition job_with_owner :: "env \<Rightarrow> Owner \<Rightarrow> Job \<Rightarrow> (op_state, Job) go" where
  "job_with_owner L owner job =
     check (pure_go (of_sum (SetControllerReference L owner (om_OwnerReferences (job_Meta job)))))
       (\<lambda>e. Errorf ''could not set the owner reference: %v'' [AE e])
       (\<lambda>refs. ret (job\<lparr>job_Meta := (job_Meta job)\<lparr>om_OwnerReferences := refs\<rparr>\<rparr>))"

definition BuildMakeJobTemplate :: "env \<Rightarrow> ModuleLoaderData \<Rightarrow> Owner \<Rightarrow> bool \<Rightarrow> (op_state, Job) go" where
  "BuildMakeJobTemplate L mld owner pushImage =
     (let containerImage = (if ShouldBeSigned mld
            then IntermediateImageName (mld_Name mld) (mld_Namespace mld) (mld_ContainerImage mld)
            else mld_ContainerImage mld)
      in bind_go (pure_go (deref (mld_Build mld))) (\<lambda>buildConfig.
         bind_go (pure_go (specTemplate L mld buildConfig containerImage (mld_RegistryTLS mld) pushImage)) (\<lambda>specTemplate.
         bind_go (pure_go (deref (build_DockerfileConfigMap buildConfig))) (\<lambda>dockerfileConfigMap.
         check (getHashAnnotationValue L (lor_Name dockerfileConfigMap) (mld_Namespace mld) specTemplate)
           (\<lambda>e. Errorf ''could not hash job's definitions: %v'' [AE e])
           (\<lambda>specTemplateHash. job_with_owner L owner \<lparr>
              job_Meta = zero_ObjectMeta\<lparr>
                om_GenerateName := mld_Name mld @ ''-build-'',
                om_Namespace := mld_Namespace mld,
                om_Labels := JobLabels (mld_Name mld) (mld_KernelVersion mld) JobTypeBuild,
                om_Annotations := Some [(JobHashAnnotation, show_nat (unat specTemplateHash))]\<rparr>,
              job_Completions = Some 1,
              job_BackoffLimit = Some 0,
              job_Template = specTemplate,
              job_Succeeded = 0, job_Active = 0, job_Failed = 0\<rparr>)))))"

lemmas build_make_defs = BuildMakeJobTemplate_def specTemplate_def containerArgs_def volumes_def
  dockerfileVolume_def getHashAnnotationValue_def getHashValue_def job_with_owner_def ShouldBeSigned_def

section \<open>The manager\<close>

definition BuildGarbageCollect :: "env \<Rightarrow> string \<Rightarrow> string \<Rightarrow> Owner \<Rightarrow> (op_state, string list) go" where
  "BuildGarbageCollect L modName namespace owner =
     check (GetModuleJobs L modName namespace JobTypeBuild owner)
       (\<lambda>e. Errorf ''failed to get build jobs for module %s: %v'' [AS modName, AE e])
       (\<lambda>jobs. loop jobs (gc_job_body L) [])"

definition BuildShouldSync :: "env \<Rightarrow> ModuleLoaderData \<Rightarrow> (op_state, bool) go" where
  "BuildShouldSync L mld =
     (if \<not> ShouldBeBuilt mld then ret False
      else let targetImage = (if ShouldBeSigned mld
             then IntermediateImageName (mld_Name mld) (mld_Namespace mld) (mld_ContainerImage mld)
             else mld_ContainerImage mld)
      in check (ImageExists L mld (mld_Namespace mld) targetImage)
        (\<lambda>e. Wrapf ''failed to check existence of image %s: %w'' [AS targetImage] e)
        (\<lambda>exists. ret (\<not> exists)))"

definition BuildSync :: "env \<Rightarrow> ModuleLoaderData \<Rightarrow> bool \<Rightarrow> Owner \<Rightarrow> (op_state, string) go" where
  "BuildSync L mld pushImage owner =
     check (BuildMakeJobTemplate L mld owner pushImage)
       (\<lambda>e. Errorf ''could not make Job template: %v'' [AE e])
       (\<lambda>jobTemplate.
     attempt (GetModuleJobByKernel L (mld_Name mld) (mld_Namespace mld) (mld_KernelVersion mld) JobTypeBuild owner)
       (\<lambda>r. case r of
          Inl e \<Rightarrow>
            if e \<noteq> ErrNoMatchingJob then raise (Errorf ''error getting the build: %v'' [AE e])
            else check (create_Job L jobTemplate) (\<lambda>e. Errorf ''could not create Job: %v'' [AE e])
              (\<lambda>_. ret StatusCreated)
        | Inr job \<Rightarrow>
            check (pure_go (IsJobChanged job jobTemplate))
              (\<lambda>e. Errorf ''could not determine if job has changed: %v'' [AE e])
              (\<lambda>changed.
                 if changed then attempt (delete_Job L job) (\<lambda>_. ret StatusInProgress)
                 else bind_go (pure_go (GetJobStatus job)) ret)))"

section \<open>Lemmas\<close>

definition build_target :: "ModuleLoaderData \<Rightarrow> string" where
  "build_target mld = (if ShouldBeSigned mld
     then IntermediateImageName (mld_Name mld) (mld_Namespace mld) (mld_ContainerImage mld)
     else mld_ContainerImage mld)"

text \<open>A template made by the maker, the history standing right after it was made.\<close>

definition build_made :: "env \<Rightarrow> ModuleLoaderData \<Rightarrow> string \<Rightarrow> bool \<Rightarrow> Owner \<Rightarrow> Job \<Rightarrow> history \<Rightarrow> bool" where
  "build_made L mld img pushImage owner tmpl h \<longleftrightarrow>
     (\<exists>s0 s1. BuildMakeJobTemplate L mld owner pushImage s0 = (Ok tmpl, s1) \<and> history s1 = h)"

lemma emits_job_with_owner [emits_rules]: "emits F (job_with_owner L owner job)"
  unfolding job_with_owner_def by (intro emits_rules)

lemma emits_BuildMakeJobTemplate [emits_rules]:
  "(\<And>r. F (Read r)) \<Longrightarrow> emits F (BuildMakeJobTemplate L mld owner push)"
  unfolding BuildMakeJobTemplate_def getHashAnnotationValue_def Let_def by (intro emits_rules)

lemma BuildSync_alt:
  "BuildSync L mld push owner =
     check (BuildMakeJobTemplate L mld owner push) (\<lambda>e. Errorf ''could not make Job template: %v'' [AE e])
       (sync_job L JobTypeBuild ''error getting the build: %v'' ''could not create Job: %v'' mld owner)"
  by (simp add: BuildSync_def sync_job_def [abs_def])

text \<open>
  From the shape of \<open>Sync\<close> to the law of the interface, for either manager: a maker that only reads,
  then \<open>sync_job\<close>.
\<close>

lemma sync_lawI:
  assumes run: "check mk w (sync_job L jobType f1 f2 mld owner) s = (r, t)"
    and reads: "emits is_read mk"
    and made: "\<And>tmpl s1. mk s = (Ok tmpl, s1) \<Longrightarrow> made tmpl (history s1)"
  shows "sync_law L jobType made mld owner s r t"
proof -
  obtain r0 s1 where mk: "mk s = (r0, s1)" by fastforce
  obtain rs where rs: "history s1 = history s @ rs" "list_all is_read rs"
    using emitsE [OF reads mk] by metis
  show ?thesis
  proof (cases r0)
    case (Ok tmpl)
    with run mk have sj: "sync_job L jobType f1 f2 mld owner tmpl s1 = (r, t)" by (simp add: check_run)
    let ?answer = "cl_ListJobs L (history s1) (mld_Namespace mld) (job_labels_of jobType mld)"
    obtain ws where ws: "history t = history s1 @ Read (ListJobs (mld_Namespace mld) (job_labels_of jobType mld)) # map Write ws"
      and outcome: "case ?answer of Inl e \<Rightarrow> ws = [] \<and> (\<exists>e. r = Err e) | Inr jobs \<Rightarrow> sync_outcome L tmpl owner jobs ws r"
      using sync_job_run [OF sj refl] by blast
    show ?thesis
    proof (cases ?answer)
      case (Inl e)
      with ws outcome rs show ?thesis
        unfolding sync_law_def
        by (intro exI [of _ "rs @ [Read (ListJobs (mld_Namespace mld) (job_labels_of jobType mld))]"]) auto
    next
      case (Inr jobs)
      with ws outcome rs made [OF mk [unfolded Ok]] show ?thesis
        unfolding sync_law_def by (intro exI [of _ rs] conjI disjI2) auto
    qed
  qed (use run mk rs in \<open>auto simp: check_run sync_law_def\<close>)
qed

lemma BuildMake_meta:
  assumes "BuildMakeJobTemplate L mld owner push s = (Ok tmpl, t)"
  shows "om_Labels (job_Meta tmpl) = job_labels_of JobTypeBuild mld \<and> om_Namespace (job_Meta tmpl) = mld_Namespace mld \<and>
     SetControllerReference L owner [] = Inr (om_OwnerReferences (job_Meta tmpl))"
  using assms
  by (auto simp: BuildMakeJobTemplate_def job_with_owner_def go_simps job_labels_of_def JobLabels_def
      zero_ObjectMeta_def Let_def split: prod.splits res.splits)

lemma BuildShouldSync_guar:
  "guar (\<lambda>_. True) (\<lambda>_. is_read) (BuildShouldSync L mld)
     (\<lambda>b h. \<not> b \<longrightarrow> \<not> ShouldBeBuilt mld \<or> manifest_seen L (build_target mld) h) (\<lambda>_ _. True)"
proof (cases "ShouldBeBuilt mld")
  case True
  have "guar (\<lambda>_. True) (\<lambda>_. is_read)
     (check (ImageExists L mld (mld_Namespace mld) (build_target mld)) w (\<lambda>exists. ret (\<not> exists)))
     (\<lambda>b h. \<not> b \<longrightarrow> manifest_seen L (build_target mld) h) (\<lambda>_ _. True)" for w
    by (rule guar_check [OF guar_ImageExists]) (auto intro: guar_ret)
  with True show ?thesis
    by (auto simp: BuildShouldSync_def build_target_def [symmetric] Let_def intro: guar_weaken)
next
  case False
  then show ?thesis by (auto simp: BuildShouldSync_def intro: guar_ret)
qed

interpretation build_jobs: job_manager L "BuildShouldSync L" "\<lambda>mld img. BuildSync L mld" "BuildGarbageCollect L"
  JobTypeBuild ShouldBeBuilt build_target "build_made L" for L
proof unfold_locales
  show "guar (\<lambda>_. True) (\<lambda>_. is_read) (BuildShouldSync L mld)
     (\<lambda>b h. \<not> b \<longrightarrow> \<not> ShouldBeBuilt mld \<or> manifest_seen L (build_target mld) h) (\<lambda>_ _. True)" for mld
    by (rule BuildShouldSync_guar)
  show "sync_law L JobTypeBuild (build_made L mld img push owner) mld owner s r t"
    if "BuildSync L mld push owner s = (r, t)" for mld img push owner s r t
    using that unfolding BuildSync_alt
    by (rule sync_lawI) (auto intro!: emits_rules simp: build_made_def)
  show "om_Labels (job_Meta tmpl) = job_labels_of JobTypeBuild mld \<and> om_Namespace (job_Meta tmpl) = mld_Namespace mld \<and>
      SetControllerReference L owner [] = Inr (om_OwnerReferences (job_Meta tmpl))"
    if "build_made L mld img push owner tmpl h" for mld img push owner tmpl h
    using that BuildMake_meta unfolding build_made_def by blast
  show "collects_finished L JobTypeBuild (BuildGarbageCollect L)"
    by (rule collects_finishedI) (simp add: BuildGarbageCollect_def)
qed

lemma kernel_version_arg:
  assumes "last_override ovs n = Some ov"
  shows "ov \<in> set (ApplyBuildArgOverrides args ovs)"
proof -
  have "ov \<in> set (filter (\<lambda>a. ba_Name a = n) (ApplyBuildArgOverrides args ovs))"
    using ApplyBuildArgOverrides_lookup [of n args ovs] assms by (simp add: set_replicate_conv_if)
  then show ?thesis by simp
qed

lemma not_destination: "''--destination'' \<noteq> name @ CHR ''='' # value"
proof
  assume "''--destination'' = name @ CHR ''='' # value"
  then have "CHR ''='' \<in> set ''--destination''" by (metis in_set_conv_decomp)
  then show False by simp
qed

lemma containerArgs_shape:
  assumes "containerArgs b k img tls push = Ok args"
  shows "\<exists>flags. args = (if push then [''--destination'', img] else [''--no-push''])
      @ concat (map (\<lambda>ba. [''--build-arg'', ba_Name ba @ ''='' @ ba_Value ba])
          (ApplyBuildArgOverrides (build_BuildArgs b) [\<lparr>ba_Name = ''KERNEL_VERSION'', ba_Value = k\<rparr>])) @ flags \<and>
    set flags \<subseteq> {''--insecure-pull'', ''--skip-tls-verify-pull'', ''--insecure'', ''--skip-tls-verify''}"
proof (cases push)
  case True
  with assms obtain x where "tls = Some x" by (cases tls) (auto simp: containerArgs_def Let_def)
  with True assms show ?thesis by (auto simp: containerArgs_def Let_def)
next
  case False
  with assms show ?thesis by (auto simp: containerArgs_def Let_def)
qed

lemma containerArgs_contents:
  assumes "containerArgs b k img tls push = Ok args"
    and "\<lparr>ba_Name = ''KERNEL_VERSION'', ba_Value = k\<rparr> \<in> set (ApplyBuildArgOverrides (build_BuildArgs b)
      [\<lparr>ba_Name = ''KERNEL_VERSION'', ba_Value = k\<rparr>])"
  shows "''--destination'' \<in> set args \<longleftrightarrow> push"
    and "push \<longrightarrow> take 2 args = [''--destination'', img]"
    and "''KERNEL_VERSION='' @ k \<in> set args"
proof -
  obtain flags where args: "args = (if push then [''--destination'', img] else [''--no-push''])
      @ concat (map (\<lambda>ba. [''--build-arg'', ba_Name ba @ ''='' @ ba_Value ba])
          (ApplyBuildArgOverrides (build_BuildArgs b) [\<lparr>ba_Name = ''KERNEL_VERSION'', ba_Value = k\<rparr>])) @ flags"
    and flags: "set flags \<subseteq> {''--insecure-pull'', ''--skip-tls-verify-pull'', ''--insecure'', ''--skip-tls-verify''}"
    using containerArgs_shape [OF assms(1)] by blast
  have "''--destination'' \<notin> set flags" using flags by auto
  then show "''--destination'' \<in> set args \<longleftrightarrow> push" by (auto simp: args not_destination)
  show "push \<longrightarrow> take 2 args = [''--destination'', img]" by (simp add: args)
  show "''KERNEL_VERSION='' @ k \<in> set args" using assms(2) by (force simp: args)
qed

section \<open>Properties\<close>

text \<open>
  C36. The template of the build job: it is labelled with the Module, the kernel and the kind of job, it
  pushes to the final image (or to the intermediate one if the image is to be signed afterwards) when
  pushing is asked for and pushes nowhere otherwise, the build sees the kernel version it is for, every
  volume mounted is defined, and its annotation is the hash of the pod and of the Dockerfile that the
  ConfigMap held at that moment.
\<close>

theorem BuildMakeJobTemplate_wf:
  assumes "BuildMakeJobTemplate L mld owner push s = (Ok job, t)"
  shows "\<exists>b cm data hash c df. mld_Build mld = Some b \<and> build_DockerfileConfigMap b = Some df \<and>
     history t = history s @ [Read (GetConfigMap \<lparr>nn_Namespace = mld_Namespace mld, nn_Name = lor_Name df\<rparr>)] \<and>
     cl_GetConfigMap L (history s) \<lparr>nn_Namespace = mld_Namespace mld, nn_Name = lor_Name df\<rparr> = Inr cm \<and>
     map_of (cm_Data cm) DockerfileCMKey = Some data \<and> HashBuild L data (job_Template job) = Inr hash \<and>
     mget (annotations job) JobHashAnnotation = show_nat (unat hash) \<and>
     om_Labels (job_Meta job) = job_labels_of JobTypeBuild mld \<and>
     ps_Containers (pt_Spec (job_Template job)) = [c] \<and>
     (''--destination'' \<in> set (c_Args c) \<longleftrightarrow> push) \<and>
     (push \<longrightarrow> take 2 (c_Args c) = [''--destination'', build_target mld]) \<and>
     ''KERNEL_VERSION='' @ mld_KernelVersion mld \<in> set (c_Args c) \<and>
     mounts_ok (pt_Spec (job_Template job))"
proof -
  obtain b where b: "mld_Build mld = Some b"
    using assms by (cases "mld_Build mld") (auto simp: BuildMakeJobTemplate_def go_simps)
  obtain pt where pt: "specTemplate L mld b (build_target mld) (mld_RegistryTLS mld) push = Ok pt"
    using assms b
    by (cases "specTemplate L mld b (build_target mld) (mld_RegistryTLS mld) push")
      (auto simp: BuildMakeJobTemplate_def build_target_def [symmetric] go_simps)
  obtain args vols where args: "containerArgs b (mld_KernelVersion mld) (build_target mld) (mld_RegistryTLS mld) push = Ok args"
    and vols: "volumes (mld_ImageRepoSecret mld) b = Ok vols"
    and spec: "ps_Containers (pt_Spec pt) = [zero_Container\<lparr>c_Args := args, c_Name := ''kaniko'',
         c_Image := kaniko_image L b, c_VolumeMounts := volumeMounts (mld_ImageRepoSecret mld) b\<rparr>]"
      "ps_Volumes (pt_Spec pt) = vols"
    using pt by (auto simp: specTemplate_def check_res_Ok_iff)
  obtain df where df: "build_DockerfileConfigMap b = Some df"
    using vols by (cases "build_DockerfileConfigMap b") (auto simp: volumes_def dockerfileVolume_def)
  let ?nn = "\<lparr>nn_Namespace = mld_Namespace mld, nn_Name = lor_Name df\<rparr>"
  obtain cm data hash refs where cm: "cl_GetConfigMap L (history s) ?nn = Inr cm"
    "map_of (cm_Data cm) DockerfileCMKey = Some data" "HashBuild L data pt = Inr hash"
    and t: "t = s\<lparr>history := history s @ [Read (GetConfigMap ?nn)]\<rparr>"
    and job: "job_Template job = pt" "om_Labels (job_Meta job) = job_labels_of JobTypeBuild mld"
      "om_Annotations (job_Meta job) = Some [(JobHashAnnotation, show_nat (unat hash))]"
    using assms b pt df
    by (auto simp: BuildMakeJobTemplate_def build_target_def [symmetric] getHashAnnotationValue_def
        getHashValue_def job_with_owner_def job_labels_of_def JobLabels_def Let_def go_simps
        check_res_Ok_iff split: sum.splits option.splits prod.splits res.splits)
  let ?kv = "\<lparr>ba_Name = ''KERNEL_VERSION'', ba_Value = mld_KernelVersion mld\<rparr>"
  have "last_override [?kv] ''KERNEL_VERSION'' = Some ?kv" by (simp add: last_override_def)
  from kernel_version_arg [OF this] have kernel_arg: "?kv \<in> set (ApplyBuildArgOverrides (build_BuildArgs b) [?kv])" .
  have "''--destination'' \<in> set args \<longleftrightarrow> push" "push \<longrightarrow> take 2 args = [''--destination'', build_target mld]"
    "''KERNEL_VERSION='' @ mld_KernelVersion mld \<in> set args"
    using containerArgs_contents [OF args kernel_arg] by auto
  moreover have "mounts_ok (pt_Spec pt)"
    using vols spec df
    by (auto simp: mounts_ok_def volumes_def volumeMounts_def dockerfileVolume_def dockerfileVolumeMount_def
        makeImagePullSecretVolume_def makeImagePullSecretVolumeMount_def makeBuildSecretVolumes_def
        makeBuildSecretVolumeMounts_def check_res_Ok_iff image_image split: option.splits)
  ultimately show ?thesis
    using b df cm t job spec by (auto simp: annotations_def)
qed

theorem BuildMakeJobTemplate_wf_witness:
  "\<exists>job t. BuildMakeJobTemplate (job_cluster []) (sample_mld (Some sample_build) None) sample_owner True fresh_state = (Ok job, t) \<and>
     mget (annotations job) JobHashAnnotation = show_nat 7 \<and> mounts_ok (pt_Spec (job_Template job))"
proof -
  obtain job t where run: "BuildMakeJobTemplate (job_cluster []) (sample_mld (Some sample_build) None) sample_owner True fresh_state = (Ok job, t)"
    by (simp add: build_make_defs Let_def go_simps
        job_cluster_def sample_defs label_defs)
  from BuildMakeJobTemplate_wf [OF run]
  have "mget (annotations job) JobHashAnnotation = show_nat 7" "mounts_ok (pt_Spec (job_Template job))"
    by (auto simp: job_cluster_def empty_cluster_def)
  with run show ?thesis by blast
qed

text \<open>
  C24. One synchronisation of the build job.  It fails without having written anything, or it has made
  a template, listed the jobs of this Module, kernel and kind, and then, looking at those the owner
  controls: with none it creates the job of the template; with one that carries another hash it deletes
  that one, and reports it in progress even if the deletion fails; with one that carries the same hash
  it reports that job's status; with more than one, or one without annotations, it fails.
\<close>

theorem BuildSync_outcome:
  assumes "BuildSync L mld push owner s = (r, t)"
  shows "\<exists>rs. list_all is_read rs \<and>
     (history t = history s @ rs \<and> (r = Panic \<or> (\<exists>e. r = Err e)) \<or>
      (\<exists>ws jobs tmpl.
         history t = history s @ rs @ Read (ListJobs (mld_Namespace mld) (job_labels_of JobTypeBuild mld)) # map Write ws \<and>
         cl_ListJobs L (history s @ rs) (mld_Namespace mld) (job_labels_of JobTypeBuild mld) = Inr jobs \<and>
         (\<exists>s0 s1. BuildMakeJobTemplate L mld owner push s0 = (Ok tmpl, s1) \<and> history s1 = history s @ rs) \<and>
         (case filterJobsByOwner L jobs owner of
            [] \<Rightarrow> ws = [CreateJob tmpl] \<and> (r = Ok StatusCreated \<or> (\<exists>e. r = Err e))
          | [job] \<Rightarrow>
              if om_Annotations (job_Meta job) = None then ws = [] \<and> (\<exists>e. r = Err e)
              else if mget (annotations job) JobHashAnnotation \<noteq> mget (annotations tmpl) JobHashAnnotation
              then ws = [DeleteJob job] \<and> r = Ok StatusInProgress
              else ws = [] \<and> r = GetJobStatus job
          | _ \<Rightarrow> ws = [] \<and> (\<exists>e. r = Err e))))"
  using build_jobs.Sync_law [OF assms] unfolding sync_law_def build_made_def sync_outcome_def .

theorem BuildSync_outcome_witness:
  "\<exists>t. BuildSync (job_cluster [sample_job ''j'' ''7'' 1]) (sample_mld (Some sample_build) None) True sample_owner fresh_state =
      (Ok StatusCompleted, t) \<and> writes (history t) = []"
proof -
  let ?L = "job_cluster [sample_job ''j'' ''7'' 1]"
  let ?mld = "sample_mld (Some sample_build) None"
  have hash: "show_nat 7 = ''7''" by code_simp
  obtain t where run: "BuildSync ?L ?mld True sample_owner fresh_state = (Ok StatusCompleted, t)"
    by (simp add: BuildSync_def build_make_defs
        job_lookup_def filterJobsByOwner_def IsJobChanged_def annotations_def GetJobStatus_def
        Let_def go_simps job_cluster_def sample_defs zero_ObjectMeta_def hash label_defs)
  have "filterJobsByOwner ?L [sample_job ''j'' ''7'' 1] sample_owner = [sample_job ''j'' ''7'' 1]"
    by (simp add: filterJobsByOwner_def job_cluster_def sample_defs zero_ObjectMeta_def)
  moreover have "cl_ListJobs ?L h n l = Inr [sample_job ''j'' ''7'' 1]" for h n l
    by (simp add: job_cluster_def)
  ultimately have "writes (history t) = []"
    using BuildSync_outcome [OF run]
    by (auto simp: fresh_state_def writes_of_reads status_defs split: if_splits)
  with run show ?thesis by blast
qed

end
