(* ===== verification/Sign_Job.thy ===== *)
theory Sign_Job
  imports Build_Job
begin

text \<open>
  \<open>internal/sign/job/signer.go\<close> and \<open>internal/sign/job/manager.go\<close>: the Job that signs the kernel
  modules of an image, and its manager, the other instance of \<open>job_manager\<close>.
\<close>

section \<open>The job template\<close>

definition getSecretData :: "env \<Rightarrow> string \<Rightarrow> string \<Rightarrow> string \<Rightarrow> (op_state, string) go" where
  "getSecretData L secretName secretDataKey namespace =
     (let namespacedName = \<lparr>nn_Namespace = namespace, nn_Name = secretName\<rparr> in
      check (call (Read (GetSecret namespacedName)) (\<lambda>h. cl_GetSecret L h namespacedName))
        (\<lambda>e. Errorf ''failed to get Secret %s: %v'' [AS secretName, AE e])
        (\<lambda>secret. case map_of (sec_Data secret) secretDataKey of
            None \<Rightarrow> raise (Errorf ''invalid Secret %s format, %s key is missing'' [AS secretName, AS secretDataKey])
          | Some data \<Rightarrow> ret data))"

definition sign_getHashValue :: "env \<Rightarrow> PodTemplateSpec \<Rightarrow> string \<Rightarrow> string \<Rightarrow> (64 word) res" where
  "sign_getHashValue L podTemplate publicKeyData privateKeyData =
     check_res (of_sum (HashSign L privateKeyData publicKeyData podTemplate))
       (\<lambda>e. Errorf ''could not hash job's spec template and dockefile: %v'' [AE e]) Ok"

definition sign_getHashAnnotationValue ::
  "env \<Rightarrow> string \<Rightarrow> string \<Rightarrow> string \<Rightarrow> PodTemplateSpec \<Rightarrow> (op_state, 64 word) go" where
  "sign_getHashAnnotationValue L privateSecret publicSecret namespace podTemplate =
     check (getSecretData L privateSecret PrivateSignDataKey namespace)
       (\<lambda>e. Errorf ''failed to get private secret %s for signing: %v'' [AS privateSecret, AE e])
       (\<lambda>privateKeyData.
     check (getSecretData L publicSecret PublicSignDataKey namespace)
       (\<lambda>e. Errorf ''failed to get public secret %s for signing: %v'' [AS publicSecret, AE e])
       (\<lambda>publicKeyData. pure_go (sign_getHashValue L podTemplate publicKeyData privateKeyData)))"

text \<open>The arguments of the container up to the ones for the secrets.\<close>

definition sign_args :: "ModuleLoaderData \<Rightarrow> Sign \<Rightarrow> string \<Rightarrow> bool \<Rightarrow> string list res" where
  "sign_args mld signConfig imageToSign pushImage =
     check_res
       (if pushImage
        then check_res (deref (mld_RegistryTLS mld)) (\<lambda>e. e) (\<lambda>tls. Ok ([''-signedimage'', mld_ContainerImage mld]
          @ (if tls_Insecure tls then [''--insecure''] else [])
          @ (if tls_InsecureSkipTLSVerify tls then [''--skip-tls-verify''] else [])))
        else Ok [''-no-push'']) (\<lambda>e. e) (\<lambda>push_args.
     check_res
       (if imageToSign \<noteq> '''' then Ok [''-unsignedimage'', imageToSign]
        else if sign_UnsignedImage signConfig \<noteq> '''' then Ok [''-unsignedimage'', sign_UnsignedImage signConfig]
        else Err (Errorf ''no image to sign given'' [])) (\<lambda>e. e) (\<lambda>image_args.
     Ok (push_args @ image_args
       @ [''-key'', ''/signingkey/key.priv'']
       @ [''-cert'', ''/signingcert/public.der'']
       @ (if sign_FilesToSign signConfig \<noteq> [] then [''-filestosign'', Join (sign_FilesToSign signConfig) '':''] else [])
       @ (if tls_Insecure (sign_UnsignedImageRegistryTLS signConfig) then [''--insecure-pull''] else [])
       @ (if tls_InsecureSkipTLSVerify (sign_UnsignedImageRegistryTLS signConfig)
          then [''--skip-tls-verify-pull''] else [])
       @ [''-secretdir'', ''/docker_config/''])))"

definition sign_volumes :: "ModuleLoaderData \<Rightarrow> Sign \<Rightarrow> Volume list" where
  "sign_volumes mld signConfig =
     [MakeSecretVolume (sign_KeySecret signConfig) ''key'' ''key.priv'',
      MakeSecretVolume (sign_CertSecret signConfig) ''cert'' ''public.der'']
     @ (if mld_ImageRepoSecret mld \<noteq> None then [MakeSecretVolume (mld_ImageRepoSecret mld) '''' ''''] else [])"

definition sign_volumeMounts :: "ModuleLoaderData \<Rightarrow> Sign \<Rightarrow> VolumeMount list" where
  "sign_volumeMounts mld signConfig =
     [MakeSecretVolumeMount (sign_CertSecret signConfig) ''/signingcert'',
      MakeSecretVolumeMount (sign_KeySecret signConfig) ''/signingkey'']
     @ (case mld_ImageRepoSecret mld of
          None \<Rightarrow> []
        | Some imageSecret \<Rightarrow> [MakeSecretVolumeMount (Some imageSecret) (''/docker_config/'' @ lor_Name imageSecret)])"

definition SignMakeJobTemplate ::
  "env \<Rightarrow> ModuleLoaderData \<Rightarrow> smap \<Rightarrow> string \<Rightarrow> bool \<Rightarrow> Owner \<Rightarrow> (op_state, Job) go" where
  "SignMakeJobTemplate L mld labels imageToSign pushImage owner =
     bind_go (pure_go (deref (mld_Sign mld))) (\<lambda>signConfig.
     bind_go (pure_go (sign_args mld signConfig imageToSign pushImage)) (\<lambda>args.
     let specTemplate = zero_PodTemplateSpec\<lparr>pt_Spec := zero_PodSpec\<lparr>
           ps_Containers := [zero_Container\<lparr>
             c_Name := ''signimage'',
             c_Image := Getenv L ''RELATED_IMAGES_SIGN'',
             c_Args := args,
             c_VolumeMounts := sign_volumeMounts mld signConfig\<rparr>],
           ps_RestartPolicy := ''Never'',
           ps_Volumes := sign_volumes mld signConfig,
           ps_NodeSelector := mld_Selector mld\<rparr>\<rparr>
     in
     bind_go (pure_go (deref (sign_KeySecret signConfig))) (\<lambda>keySecret.
     bind_go (pure_go (deref (sign_CertSecret signConfig))) (\<lambda>certSecret.
     check (sign_getHashAnnotationValue L (lor_Name keySecret) (lor_Name certSecret) (mld_Namespace mld) specTemplate)
       (\<lambda>e. Errorf ''could not hash job's definitions: %v'' [AE e])
       (\<lambda>specTemplateHash. job_with_owner L owner \<lparr>
          job_Meta = zero_ObjectMeta\<lparr>
            om_GenerateName := mld_Name mld @ ''-sign-'',
            om_Namespace := mld_Namespace mld,
            om_Labels := labels,
            om_Annotations := Some [(JobHashAnnotation, show_nat (unat specTemplateHash))]\<rparr>,
          job_Completions = Some 1,
          job_BackoffLimit = Some 0,
          job_Template = specTemplate,
          job_Succeeded = 0, job_Active = 0, job_Failed = 0\<rparr>)))))"

lemmas sign_make_defs = SignMakeJobTemplate_def sign_args_def sign_getHashAnnotationValue_def getSecretData_def
  sign_getHashValue_def job_with_owner_def

section \<open>The manager\<close>

definition SignGarbageCollect :: "env \<Rightarrow> string \<Rightarrow> string \<Rightarrow> Owner \<Rightarrow> (op_state, string list) go" where
  "SignGarbageCollect L modName namespace owner =
     check (GetModuleJobs L modName namespace JobTypeSign owner)
       (\<lambda>e. Errorf ''failed to get sign jobs for module %s: %v'' [AS modName, AE e])
       (\<lambda>jobs. loop jobs (gc_job_body L) [])"

definition SignShouldSync :: "env \<Rightarrow> ModuleLoaderData \<Rightarrow> (op_state, bool) go" where
  "SignShouldSync L mld =
     (if \<not> ShouldBeSigned mld then ret False
      else check (ImageExists L mld (mld_Namespace mld) (mld_ContainerImage mld))
        (\<lambda>e. Wrapf ''failed to check existence of image %s: %w'' [AS (mld_ContainerImage mld)] e)
        (\<lambda>exists. ret (\<not> exists)))"

definition SignSync :: "env \<Rightarrow> ModuleLoaderData \<Rightarrow> string \<Rightarrow> bool \<Rightarrow> Owner \<Rightarrow> (op_state, string) go" where
  "SignSync L mld imageToSign pushImage owner =
     (let labels = JobLabels (mld_Name mld) (mld_KernelVersion mld) ''sign'' in
      check (SignMakeJobTemplate L mld labels imageToSign pushImage owner)
        (\<lambda>e. Errorf ''could not make Job template: %v'' [AE e])
        (\<lambda>jobTemplate.
      attempt (GetModuleJobByKernel L (mld_Name mld) (mld_Namespace mld) (mld_KernelVersion mld) JobTypeSign owner)
       (\<lambda>r. case r of
          Inl e \<Rightarrow>
            if e \<noteq> ErrNoMatchingJob then raise (Errorf ''error getting the signing job: %v'' [AE e])
            else check (create_Job L jobTemplate) (\<lambda>e. Errorf ''could not create Signing Job: %v'' [AE e])
              (\<lambda>_. ret StatusCreated)
        | Inr job \<Rightarrow>
            check (pure_go (IsJobChanged job jobTemplate))
              (\<lambda>e. Errorf ''could not determine if job has changed: %v'' [AE e])
              (\<lambda>changed.
                 if changed then attempt (delete_Job L job) (\<lambda>_. ret StatusInProgress)
                 else bind_go (pure_go (GetJobStatus job)) ret))))"

section \<open>Lemmas\<close>

definition sign_made :: "env \<Rightarrow> ModuleLoaderData \<Rightarrow> string \<Rightarrow> bool \<Rightarrow> Owner \<Rightarrow> Job \<Rightarrow> history \<Rightarrow> bool" where
  "sign_made L mld img pushImage owner tmpl h \<longleftrightarrow>
     (\<exists>s0 s1. SignMakeJobTemplate L mld (job_labels_of JobTypeSign mld) img pushImage owner s0 = (Ok tmpl, s1) \<and>
        history s1 = h)"

lemma JobLabels_sign: "JobLabels (mld_Name mld) (mld_KernelVersion mld) ''sign'' = job_labels_of JobTypeSign mld"
  by (simp add: JobLabels_def job_labels_of_def JobTypeSign_def)

lemma emits_SignMakeJobTemplate [emits_rules]:
  "(\<And>r. F (Read r)) \<Longrightarrow> emits F (SignMakeJobTemplate L mld labels img push owner)"
  unfolding SignMakeJobTemplate_def sign_getHashAnnotationValue_def getSecretData_def Let_def by (intro emits_rules)

lemma SignSync_alt:
  "SignSync L mld img push owner =
     check (SignMakeJobTemplate L mld (job_labels_of JobTypeSign mld) img push owner)
       (\<lambda>e. Errorf ''could not make Job template: %v'' [AE e])
       (sync_job L JobTypeSign ''error getting the signing job: %v'' ''could not create Signing Job: %v'' mld owner)"
  by (simp add: SignSync_def sync_job_def [abs_def] JobLabels_sign)

lemma SignMake_meta:
  assumes "SignMakeJobTemplate L mld labels img push owner s = (Ok tmpl, t)"
  shows "om_Labels (job_Meta tmpl) = labels \<and> om_Namespace (job_Meta tmpl) = mld_Namespace mld \<and>
     SetControllerReference L owner [] = Inr (om_OwnerReferences (job_Meta tmpl))"
  using assms
  by (auto simp: SignMakeJobTemplate_def job_with_owner_def go_simps zero_ObjectMeta_def Let_def
      split: prod.splits res.splits)

lemma SignShouldSync_guar:
  "guar (\<lambda>_. True) (\<lambda>_. is_read) (SignShouldSync L mld)
     (\<lambda>b h. \<not> b \<longrightarrow> \<not> ShouldBeSigned mld \<or> manifest_seen L (mld_ContainerImage mld) h) (\<lambda>_ _. True)"
proof (cases "ShouldBeSigned mld")
  case True
  have "guar (\<lambda>_. True) (\<lambda>_. is_read)
     (check (ImageExists L mld (mld_Namespace mld) (mld_ContainerImage mld)) w (\<lambda>exists. ret (\<not> exists)))
     (\<lambda>b h. \<not> b \<longrightarrow> manifest_seen L (mld_ContainerImage mld) h) (\<lambda>_ _. True)" for w
    by (rule guar_check [OF guar_ImageExists]) (auto intro: guar_ret)
  with True show ?thesis by (auto simp: SignShouldSync_def intro: guar_weaken)
next
  case False
  then show ?thesis by (auto simp: SignShouldSync_def intro: guar_ret)
qed

interpretation sign_jobs: job_manager L "SignShouldSync L" "SignSync L" "SignGarbageCollect L"
  JobTypeSign ShouldBeSigned mld_ContainerImage "sign_made L" for L
proof unfold_locales
  show "guar (\<lambda>_. True) (\<lambda>_. is_read) (SignShouldSync L mld)
     (\<lambda>b h. \<not> b \<longrightarrow> \<not> ShouldBeSigned mld \<or> manifest_seen L (mld_ContainerImage mld) h) (\<lambda>_ _. True)" for mld
    by (rule SignShouldSync_guar)
  show "sync_law L JobTypeSign (sign_made L mld img push owner) mld owner s r t"
    if "SignSync L mld img push owner s = (r, t)" for mld img push owner s r t
    using that unfolding SignSync_alt
    by (rule sync_lawI) (auto intro!: emits_rules simp: sign_made_def)
  show "om_Labels (job_Meta tmpl) = job_labels_of JobTypeSign mld \<and> om_Namespace (job_Meta tmpl) = mld_Namespace mld \<and>
      SetControllerReference L owner [] = Inr (om_OwnerReferences (job_Meta tmpl))"
    if "sign_made L mld img push owner tmpl h" for mld img push owner tmpl h
    using that SignMake_meta unfolding sign_made_def by blast
  show "collects_finished L JobTypeSign (SignGarbageCollect L)"
    by (rule collects_finishedI) (simp add: SignGarbageCollect_def)
qed

lemma sign_args_shape:
  assumes "sign_args mld sc img push = Ok args"
  shows "\<exists>flags. args = (if push then [''-signedimage'', mld_ContainerImage mld] else [''-no-push'']) @ flags
       @ [''-unsignedimage'', if img \<noteq> '''' then img else sign_UnsignedImage sc]
       @ [''-key'', ''/signingkey/key.priv'', ''-cert'', ''/signingcert/public.der'']
       @ (if sign_FilesToSign sc \<noteq> [] then [''-filestosign'', Join (sign_FilesToSign sc) '':''] else [])
       @ (if tls_Insecure (sign_UnsignedImageRegistryTLS sc) then [''--insecure-pull''] else [])
       @ (if tls_InsecureSkipTLSVerify (sign_UnsignedImageRegistryTLS sc) then [''--skip-tls-verify-pull''] else [])
       @ [''-secretdir'', ''/docker_config/''] \<and>
     set flags \<subseteq> {''--insecure'', ''--skip-tls-verify''} \<and>
     (img \<noteq> '''' \<or> sign_UnsignedImage sc \<noteq> '''')"
proof -
  obtain pa where pa: "(if push then check_res (deref (mld_RegistryTLS mld)) (\<lambda>e. e)
        (\<lambda>tls. Ok ([''-signedimage'', mld_ContainerImage mld]
          @ (if tls_Insecure tls then [''--insecure''] else [])
          @ (if tls_InsecureSkipTLSVerify tls then [''--skip-tls-verify''] else [])))
        else Ok [''-no-push'']) = Ok pa"
    and rest: "args = pa @ [''-unsignedimage'', if img \<noteq> '''' then img else sign_UnsignedImage sc]
       @ [''-key'', ''/signingkey/key.priv'', ''-cert'', ''/signingcert/public.der'']
       @ (if sign_FilesToSign sc \<noteq> [] then [''-filestosign'', Join (sign_FilesToSign sc) '':''] else [])
       @ (if tls_Insecure (sign_UnsignedImageRegistryTLS sc) then [''--insecure-pull''] else [])
       @ (if tls_InsecureSkipTLSVerify (sign_UnsignedImageRegistryTLS sc) then [''--skip-tls-verify-pull''] else [])
       @ [''-secretdir'', ''/docker_config/'']"
    and some_image: "img \<noteq> '''' \<or> sign_UnsignedImage sc \<noteq> ''''"
    using assms unfolding sign_args_def check_res_Ok_iff
    by (cases "img = ''''"; cases "sign_UnsignedImage sc = ''''"; clarsimp split del: if_split)
  from pa have "\<exists>flags. pa = (if push then [''-signedimage'', mld_ContainerImage mld] else [''-no-push'']) @ flags \<and>
     set flags \<subseteq> {''--insecure'', ''--skip-tls-verify''}"
    by (auto simp: check_res_Ok_iff split: if_splits)
  with rest some_image show ?thesis by auto
qed

lemma SignMake_Ok:
  assumes "SignMakeJobTemplate L mld labels img push owner s = (Ok job, t)"
  obtains sc args c key cert where "mld_Sign mld = Some sc" and "sign_args mld sc img push = Ok args"
    and "sign_KeySecret sc = Some key" and "sign_CertSecret sc = Some cert"
    and "ps_Containers (pt_Spec (job_Template job)) = [c]" and "c_Args c = args"
    and "c_VolumeMounts c = sign_volumeMounts mld sc"
    and "ps_Volumes (pt_Spec (job_Template job)) = sign_volumes mld sc"
proof -
  obtain sc where sc: "mld_Sign mld = Some sc"
    using assms by (cases "mld_Sign mld") (auto simp: SignMakeJobTemplate_def go_simps)
  obtain args where args: "sign_args mld sc img push = Ok args"
    using assms sc by (cases "sign_args mld sc img push") (auto simp: SignMakeJobTemplate_def go_simps)
  obtain key where key: "sign_KeySecret sc = Some key"
    using assms sc args by (cases "sign_KeySecret sc") (auto simp: SignMakeJobTemplate_def Let_def go_simps)
  obtain cert where cert: "sign_CertSecret sc = Some cert"
    using assms sc args key by (cases "sign_CertSecret sc") (auto simp: SignMakeJobTemplate_def Let_def go_simps)
  show ?thesis
    using assms sc args key cert
    by (auto simp: SignMakeJobTemplate_def Let_def go_simps job_with_owner_def
        split: prod.splits res.splits intro!: that)
qed

section \<open>Properties\<close>

text \<open>
  The arguments of the signing job: it takes the image it is told to sign, and the unsigned image of
  the Module only if it is told none; it pushes to the image of the Module exactly when pushing is asked
  for; the list of files reaches it in a form from which \<open>signimage\<close> gets the same list back, provided
  no file name contains a colon; every volume mounted is defined.
\<close>

theorem SignMakeJobTemplate_wf:
  assumes "SignMakeJobTemplate L mld labels img push owner s = (Ok job, t)"
  shows "\<exists>sc c pre post files. mld_Sign mld = Some sc \<and>
     ps_Containers (pt_Spec (job_Template job)) = [c] \<and>
     c_Args c = pre @ [''-unsignedimage'', if img \<noteq> '''' then img else sign_UnsignedImage sc] @ post \<and>
     (img \<noteq> '''' \<or> sign_UnsignedImage sc \<noteq> '''') \<and>
     hd (c_Args c) = (if push then ''-signedimage'' else ''-no-push'') \<and>
     (push \<longrightarrow> c_Args c ! 1 = mld_ContainerImage mld) \<and>
     (sign_FilesToSign sc \<noteq> [] \<longrightarrow> take 2 (drop 4 post) = [''-filestosign'', files] \<and>
        ((\<forall>f \<in> set (sign_FilesToSign sc). CHR '':'' \<notin> set f) \<longrightarrow>
          split_by (\<lambda>c. c = CHR '':'') files = sign_FilesToSign sc)) \<and>
     mounts_ok (pt_Spec (job_Template job))"
proof -
  obtain sc args c key cert where sc: "mld_Sign mld = Some sc" and args: "sign_args mld sc img push = Ok args"
    and secrets: "sign_KeySecret sc = Some key" "sign_CertSecret sc = Some cert"
    and c: "ps_Containers (pt_Spec (job_Template job)) = [c]" "c_Args c = args"
      "c_VolumeMounts c = sign_volumeMounts mld sc" "ps_Volumes (pt_Spec (job_Template job)) = sign_volumes mld sc"
    by (rule SignMake_Ok [OF assms])
  let ?pre = "if push then [''-signedimage'', mld_ContainerImage mld] else [''-no-push'']"
  let ?post = "[''-key'', ''/signingkey/key.priv'', ''-cert'', ''/signingcert/public.der'']
       @ (if sign_FilesToSign sc \<noteq> [] then [''-filestosign'', Join (sign_FilesToSign sc) '':''] else [])
       @ (if tls_Insecure (sign_UnsignedImageRegistryTLS sc) then [''--insecure-pull''] else [])
       @ (if tls_InsecureSkipTLSVerify (sign_UnsignedImageRegistryTLS sc) then [''--skip-tls-verify-pull''] else [])
       @ [''-secretdir'', ''/docker_config/'']"
  obtain flags where shape: "args = (?pre @ flags)
       @ [''-unsignedimage'', if img \<noteq> '''' then img else sign_UnsignedImage sc] @ ?post"
    and "img \<noteq> '''' \<or> sign_UnsignedImage sc \<noteq> ''''"
    using sign_args_shape [OF args] by auto
  moreover have "hd args = (if push then ''-signedimage'' else ''-no-push'')"
    "push \<longrightarrow> args ! 1 = mld_ContainerImage mld"
    by (simp_all add: shape)
  moreover have "mounts_ok (pt_Spec (job_Template job))"
    using c secrets
    by (auto simp: mounts_ok_def sign_volumes_def sign_volumeMounts_def MakeSecretVolume_def
        MakeSecretVolumeMount_def split: option.splits)
  moreover have "split_by (\<lambda>c. c = CHR '':'') (Join (sign_FilesToSign sc) '':'') = sign_FilesToSign sc"
    if "sign_FilesToSign sc \<noteq> []" "\<forall>f \<in> set (sign_FilesToSign sc). CHR '':'' \<notin> set f"
    using that by (intro split_by_Join) auto
  ultimately show ?thesis
    using sc c(1,2)
    by (intro exI [of _ sc] exI [of _ c] exI [of _ "?pre @ flags"] exI [of _ ?post]
        exI [of _ "Join (sign_FilesToSign sc) '':''"]) simp
qed

theorem SignMakeJobTemplate_wf_witness:
  "\<exists>job t. SignMakeJobTemplate (job_cluster []) (sample_mld None (Some (sample_sign [''/a.ko'', ''/b.ko'']))) []
       ''reg/img:tmp'' True sample_owner fresh_state = (Ok job, t) \<and>
     mounts_ok (pt_Spec (job_Template job)) \<and>
     split_by (\<lambda>c. c = CHR '':'') ''/a.ko:/b.ko'' = [''/a.ko'', ''/b.ko'']"
proof -
  obtain job t where run: "SignMakeJobTemplate (job_cluster []) (sample_mld None (Some (sample_sign [''/a.ko'', ''/b.ko'']))) []
       ''reg/img:tmp'' True sample_owner fresh_state = (Ok job, t)"
    by (simp add: sign_make_defs Let_def go_simps job_cluster_def sample_defs label_defs)
  from SignMakeJobTemplate_wf [OF run] have "mounts_ok (pt_Spec (job_Template job))"
    by (elim exE conjE)
  with run show ?thesis by simp
qed

text \<open>
  C35. Garbage collection of jobs, for both kinds: after one list request it deletes listed jobs that have
  succeeded and that the owner controls, and nothing else; if it does not fail, it has deleted all of
  those that were listed and returns their names.  A running or failed job is never deleted by it.
\<close>

theorem job_GarbageCollect_finished:
  "collects_finished L JobTypeBuild (BuildGarbageCollect L) \<and>
   collects_finished L JobTypeSign (SignGarbageCollect L)"
  using build_jobs.Collect_law sign_jobs.Collect_law by blast

end
