(* ===== verification/Status_Updater.thy ===== *)
theory Status_Updater
  imports Sign_Job
begin

text \<open>
  \<open>internal/metrics/metrics.go\<close> and \<open>internal/statusupdater/statusupdater.go\<close>: the Prometheus gauges,
  and the status of Modules, ManagedClusterModules and PreflightValidations.  The counters of a
  status are 32-bit integers and wrap around.
\<close>

section \<open>Gauges\<close>

definition ModuleLoaderStage :: string where
  "ModuleLoaderStage = ''module-loader''"

definition DevicePluginStage :: string where
  "DevicePluginStage = ''device-plugin''"

definition BuildStage :: string where
  "BuildStage = ''build''"

definition SignStage :: string where
  "SignStage = ''sign''"

definition set_gauges :: "(metrics \<Rightarrow> metrics) \<Rightarrow> (op_state, unit) go" where
  "set_gauges f = (\<lambda>s. (Ok (), s\<lparr>gauges := f (gauges s)\<rparr>))"

definition SetExistingKMMOModules :: "nat \<Rightarrow> (op_state, unit) go" where
  "SetExistingKMMOModules value = set_gauges (\<lambda>g. g\<lparr>kmmoResourcesNum := value\<rparr>)"

definition SetCompletedStage :: "string \<Rightarrow> string \<Rightarrow> string \<Rightarrow> string \<Rightarrow> bool \<Rightarrow> (op_state, unit) go" where
  "SetCompletedStage kmmoName kmmoNamespace kernelVersion stage completed =
     set_gauges (\<lambda>g. g\<lparr>kmmoCompletedStage :=
       mput (kmmoCompletedStage g) (kmmoName, kmmoNamespace, kernelVersion, stage) completed\<rparr>)"

section \<open>The status of a Module\<close>

definition update_metric :: "Module \<Rightarrow> string \<times> DaemonSet \<Rightarrow> unit \<Rightarrow> (op_state, unit) go" where
  "update_metric m kv _ =
     (let kernelVersion = fst kv; ds = snd kv;
          stage = (if IsDevicePluginKernelVersion kernelVersion then DevicePluginStage else ModuleLoaderStage)
      in SetCompletedStage (om_Name (mod_Meta m)) (om_Namespace (mod_Meta m)) kernelVersion stage
           (ds_DesiredNumberScheduled ds = ds_NumberAvailable ds))"

definition updateMetrics :: "env \<Rightarrow> Module \<Rightarrow> ds_map \<Rightarrow> (op_state, unit) go" where
  "updateMetrics L m dsByKernelVersion =
     loop (range_map (range_order L RangeUpdateMetrics) dsByKernelVersion) (update_metric m) ()"

fun count_available :: "(string \<times> DaemonSet) list \<Rightarrow> i32 \<times> i32 \<Rightarrow> i32 \<times> i32" where
  "count_available [] acc = acc"
| "count_available ((kernelVersion, ds) # rest) (numAvailableDevicePlugin, numAvailableKernelModule) =
     (if IsDevicePluginKernelVersion kernelVersion
      then count_available rest (numAvailableDevicePlugin + ds_NumberAvailable ds, numAvailableKernelModule)
      else count_available rest (numAvailableDevicePlugin, numAvailableKernelModule + ds_NumberAvailable ds))"

definition module_status :: "env \<Rightarrow> Module \<Rightarrow> Node list \<Rightarrow> Node list \<Rightarrow> ds_map \<Rightarrow> ModuleStatus" where
  "module_status L m kernelMappingNodes targetedNodes dsByKernelVersion =
     (let nodesMatchingSelectorNumber = of_nat (length targetedNodes) :: i32;
          numDesired = of_nat (length kernelMappingNodes) :: i32;
          (numAvailableDevicePlugin, numAvailableKernelModule) =
            count_available (range_map (range_order L RangeStatusUpdate) dsByKernelVersion) (0, 0)
      in \<lparr>st_DevicePlugin =
            (if spec_DevicePlugin (mod_Spec m) \<noteq> None
             then \<lparr>dst_NodesMatchingSelectorNumber = nodesMatchingSelectorNumber,
                dst_DesiredNumber = numDesired, dst_AvailableNumber = numAvailableDevicePlugin\<rparr>
             else st_DevicePlugin (mod_Status m)),
          st_ModuleLoader =
            \<lparr>dst_NodesMatchingSelectorNumber = nodesMatchingSelectorNumber,
              dst_DesiredNumber = numDesired, dst_AvailableNumber = numAvailableKernelModule\<rparr>\<rparr>)"

definition ModuleUpdateStatus ::
  "env \<Rightarrow> Module \<Rightarrow> Node list \<Rightarrow> Node list \<Rightarrow> ds_map \<Rightarrow> (op_state, unit) go" where
  "ModuleUpdateStatus L m kernelMappingNodes targetedNodes dsByKernelVersion =
     (let m' = m\<lparr>mod_Status := module_status L m kernelMappingNodes targetedNodes dsByKernelVersion\<rparr> in
      bind_go (updateMetrics L m' dsByKernelVersion) (\<lambda>_. do_write L (UpdateModuleStatus m')))"

section \<open>The status of a ManagedClusterModule\<close>

definition WorkApplied :: string where
  "WorkApplied = ''Applied''"

definition WorkDegraded :: string where
  "WorkDegraded = ''Degraded''"

fun count_conditions :: "Condition list \<Rightarrow> i32 \<times> i32 \<Rightarrow> i32 \<times> i32" where
  "count_conditions [] acc = acc"
| "count_conditions (c # cs) (numApplied, numDegraded) =
     (if cond_Status c \<noteq> ''True'' then count_conditions cs (numApplied, numDegraded)
      else if cond_Type c = WorkApplied then count_conditions cs (numApplied + 1, numDegraded)
      else if cond_Type c = WorkDegraded then count_conditions cs (numApplied, numDegraded + 1)
      else count_conditions cs (numApplied, numDegraded))"

definition ManagedClusterModuleUpdateStatus ::
  "env \<Rightarrow> ManagedClusterModule \<Rightarrow> ManifestWork list \<Rightarrow> (op_state, unit) go" where
  "ManagedClusterModuleUpdateStatus L mcm ownedManifestWorks =
     (let (numApplied, numDegraded) =
            foldl (\<lambda>acc mw. count_conditions (mw_Conditions mw) acc) (0, 0) ownedManifestWorks
      in do_write L (UpdateManagedClusterModuleStatus (mcm\<lparr>mcm_Status :=
           \<lparr>mcmst_NumberDesired = of_nat (length ownedManifestWorks),
             mcmst_NumberApplied = numApplied, mcmst_NumberDegraded = numDegraded\<rparr>\<rparr>)))"

section \<open>The status of a PreflightValidation\<close>

text \<open>
  The updaters change the object they are given and then send it; the client stores the answer of the
  server in the object, or leaves it as it is and reports an error.  So each returns the object as it
  is afterwards together with the error, if any.  \<open>CRStatuses\<close> is a map that may be \<open>nil\<close>: reading it
  is reading an empty map, writing panics.
\<close>

definition crs :: "PreflightValidation \<Rightarrow> (string \<times> CRStatus) list" where
  "crs pv = (case pv_CRStatuses pv of None \<Rightarrow> [] | Some m \<Rightarrow> m)"

type_synonym pv_result = "PreflightValidation \<times> error option"

definition update_preflight :: "env \<Rightarrow> PreflightValidation \<Rightarrow> (op_state, pv_result) go" where
  "update_preflight L pv =
     attempt (call (Write (UpdatePreflightStatus pv)) (\<lambda>h. cl_UpdatePreflightStatus L h pv))
       (\<lambda>r. case r of Inl e \<Rightarrow> ret (pv, Some e) | Inr stored \<Rightarrow> ret (stored, None))"

definition time_now :: "env \<Rightarrow> (op_state, nat) go" where
  "time_now L = (\<lambda>s. (Ok (Now L (history s)), s))"

definition empty_message :: Message where
  "empty_message = \<lparr>msg_Format = '''', msg_Args = []\<rparr>"

definition PreflightPresetStatuses ::
  "env \<Rightarrow> PreflightValidation \<Rightarrow> string list \<Rightarrow> string list \<Rightarrow> (op_state, pv_result) go" where
  "PreflightPresetStatuses L pv existingModules newModules =
     (let kept = filter (\<lambda>kv. fst kv \<in> set existingModules) (crs pv) in
      if newModules = [] then update_preflight L (pv\<lparr>pv_CRStatuses := map_option (\<lambda>_. kept) (pv_CRStatuses pv)\<rparr>)
      else if pv_CRStatuses pv = None then pure_go Panic
      else bind_go (time_now L) (\<lambda>now.
        update_preflight L (pv\<lparr>pv_CRStatuses := Some (mputs kept (map (\<lambda>moduleName. (moduleName,
          \<lparr>crs_VerificationStatus = VerificationFalse, crs_StatusReason = empty_message,
            crs_VerificationStage = VerificationStageImage, crs_LastTransitionTime = now\<rparr>)) newModules))\<rparr>)))"

definition PreflightSetVerificationStatus ::
  "env \<Rightarrow> PreflightValidation \<Rightarrow> string \<Rightarrow> string \<Rightarrow> Message \<Rightarrow> (op_state, pv_result) go" where
  "PreflightSetVerificationStatus L pv moduleName verificationStatus message =
     (case map_of (crs pv) moduleName of
        None \<Rightarrow> ret (pv, Some (Errorf ''failed to find module status %s in preflight %s''
          [AS moduleName, AS (om_Name (pv_Meta pv))]))
      | Some st \<Rightarrow> bind_go (time_now L) (\<lambda>now.
          update_preflight L (pv\<lparr>pv_CRStatuses := Some (mput (crs pv) moduleName
            (st\<lparr>crs_VerificationStatus := verificationStatus, crs_StatusReason := message,
              crs_LastTransitionTime := now\<rparr>))\<rparr>)))"

definition PreflightSetVerificationStage ::
  "env \<Rightarrow> PreflightValidation \<Rightarrow> string \<Rightarrow> string \<Rightarrow> (op_state, pv_result) go" where
  "PreflightSetVerificationStage L pv moduleName stage =
     (case map_of (crs pv) moduleName of
        None \<Rightarrow> ret (pv, Some (Errorf ''failed to find module status %s in preflight %s''
          [AS moduleName, AS (om_Name (pv_Meta pv))]))
      | Some st \<Rightarrow> bind_go (time_now L) (\<lambda>now.
          update_preflight L (pv\<lparr>pv_CRStatuses := Some (mput (crs pv) moduleName
            (st\<lparr>crs_VerificationStage := stage, crs_LastTransitionTime := now\<rparr>))\<rparr>)))"

section \<open>Lemmas\<close>

lemma set_gauges_run [go_simps]: "set_gauges f s = (Ok (), s\<lparr>gauges := f (gauges s)\<rparr>)"
  by (simp add: set_gauges_def)

lemma guar_set_gauges: "(\<And>h. P h \<Longrightarrow> Q () h) \<Longrightarrow> guar P J (set_gauges f) Q E"
  by (auto simp: guar_def set_gauges_run)

lemma emits_set_gauges [emits_rules]: "emits F (set_gauges f)"
  unfolding emits_def by (rule guar_set_gauges) simp

lemma emits_SetCompletedStage [emits_rules]: "emits F (SetCompletedStage n ns k st b)"
  unfolding SetCompletedStage_def by (intro emits_rules)

lemma emits_SetExistingKMMOModules [emits_rules]: "emits F (SetExistingKMMOModules n)"
  unfolding SetExistingKMMOModules_def by (intro emits_rules)

lemma emits_updateMetrics [emits_rules]: "emits F (updateMetrics L m dss)"
  unfolding updateMetrics_def update_metric_def Let_def by (intro emits_rules)

lemma emits_time_now [emits_rules]: "emits F (time_now L)"
  by (auto simp: emits_iff time_now_def)

lemma emits_update_preflight [emits_rules]:
  "(\<And>pv. F (Write (UpdatePreflightStatus pv))) \<Longrightarrow> emits F (update_preflight L pv)"
  unfolding update_preflight_def by (intro emits_rules)

lemma emits_PreflightSet [emits_rules]:
  assumes "\<And>pv. F (Write (UpdatePreflightStatus pv))"
  shows "emits F (PreflightSetVerificationStatus L pv n st msg)"
    and "emits F (PreflightSetVerificationStage L pv n stage)"
    and "emits F (PreflightPresetStatuses L pv ms ns)"
  unfolding PreflightSetVerificationStatus_def PreflightSetVerificationStage_def PreflightPresetStatuses_def Let_def
  by (intro emits_rules assms)+

lemma emits_ModuleUpdateStatus [emits_rules]:
  "(\<And>m. F (Write (UpdateModuleStatus m))) \<Longrightarrow> emits F (ModuleUpdateStatus L m ns1 ns2 dss)"
  unfolding ModuleUpdateStatus_def Let_def by (intro emits_rules)

lemma updateMetrics_run: "\<exists>g. updateMetrics L m dss s = (Ok (), s\<lparr>gauges := g\<rparr>)"
proof -
  have body: "\<exists>g. update_metric m kv u s = (Ok (), s\<lparr>gauges := g\<rparr>)" for kv u s
    by (auto simp: update_metric_def Let_def SetCompletedStage_def set_gauges_run)
  have "\<exists>g. loop xs (update_metric m) u s = (Ok (), s\<lparr>gauges := g\<rparr>)" for xs u
  proof (induction xs arbitrary: s u)
    case Nil
    then show ?case by (auto simp: ret_run intro: exI [of _ "gauges s"])
  next
    case (Cons x xs)
    obtain g where g: "update_metric m x u s = (Ok (), s\<lparr>gauges := g\<rparr>)" using body by blast
    obtain g' where "loop xs (update_metric m) () (s\<lparr>gauges := g\<rparr>) = (Ok (), s\<lparr>gauges := g, gauges := g'\<rparr>)"
      using Cons by blast
    with g show ?case by (auto simp: bind_go_run)
  qed
  then show ?thesis unfolding updateMetrics_def .
qed

lemma count_available_sums:
  "count_available xs (a, b) =
     (a + sum_list (map (\<lambda>(k, ds). ds_NumberAvailable ds) (filter (\<lambda>(k, ds). k = '''') xs)),
      b + sum_list (map (\<lambda>(k, ds). ds_NumberAvailable ds) (filter (\<lambda>(k, ds). k \<noteq> '''') xs)))"
  by (induction xs "(a, b)" arbitrary: a b rule: count_available.induct)
    (auto simp: IsDevicePluginKernelVersion_def devicePluginKernelVersion_def add.assoc)

lemma range_map_perm:
  assumes "distinct (map fst m)"
  shows "mset (range_map order m) = mset m"
proof -
  have "distinct (range_map order m)" "distinct m"
    using assms by (metis distinct_map distinct_range_keys map_fst_range_map) (use assms in \<open>simp add: distinct_map\<close>)
  with set_range_map [OF assms] show ?thesis using set_eq_iff_mset_eq_distinct by blast
qed

lemma sum_list_perm:
  fixes f :: "'a \<Rightarrow> 'b :: comm_monoid_add"
  assumes "mset xs = mset ys"
  shows "sum_list (map f (filter p xs)) = sum_list (map f (filter p ys))"
proof -
  have "sum_list (map f (filter p zs)) = sum_mset (image_mset f (filter_mset p (mset zs)))" for zs
    by (simp flip: sum_mset_sum_list)
  with assms show ?thesis by simp
qed

section \<open>Properties\<close>

text \<open>
  C38. The status of a Module counts the nodes its selector matches, the nodes with a kernel mapping,
  and the available pods of the DaemonSets it is given, those of the device plugin apart from those of
  the module loaders, whatever the order in which the map of DaemonSets is visited; all modulo the 32
  bits of a counter.  The status is written with one update and nothing else is called.
\<close>

theorem ModuleUpdateStatus_counts:
  assumes "distinct (map fst dsByKernelVersion)"
    and "ModuleUpdateStatus L m nodesWithMapping targetedNodes dsByKernelVersion s = (r, t)"
  shows "\<exists>m'. history t = history s @ [Write (UpdateModuleStatus m')] \<and>
     mod_Spec m' = mod_Spec m \<and> mod_Meta m' = mod_Meta m \<and>
     dst_NodesMatchingSelectorNumber (st_ModuleLoader (mod_Status m')) = of_nat (length targetedNodes) \<and>
     dst_DesiredNumber (st_ModuleLoader (mod_Status m')) = of_nat (length nodesWithMapping) \<and>
     dst_AvailableNumber (st_ModuleLoader (mod_Status m')) =
       sum_list (map (\<lambda>(k, ds). ds_NumberAvailable ds) (filter (\<lambda>(k, ds). k \<noteq> '''') dsByKernelVersion)) \<and>
     (spec_DevicePlugin (mod_Spec m) \<noteq> None \<longrightarrow>
       dst_AvailableNumber (st_DevicePlugin (mod_Status m')) =
         sum_list (map (\<lambda>(k, ds). ds_NumberAvailable ds) (filter (\<lambda>(k, ds). k = '''') dsByKernelVersion))) \<and>
     (spec_DevicePlugin (mod_Spec m) = None \<longrightarrow>
       st_DevicePlugin (mod_Status m') = st_DevicePlugin (mod_Status m))"
proof -
  let ?m' = "m\<lparr>mod_Status := module_status L m nodesWithMapping targetedNodes dsByKernelVersion\<rparr>"
  obtain g where "updateMetrics L ?m' dsByKernelVersion s = (Ok (), s\<lparr>gauges := g\<rparr>)"
    using updateMetrics_run by blast
  with assms(2) have "history t = history s @ [Write (UpdateModuleStatus ?m')]"
    by (auto simp: ModuleUpdateStatus_def Let_def bind_go_run do_write_run)
  then show ?thesis
    using sum_list_perm [OF range_map_perm [OF assms(1), of "range_order L RangeStatusUpdate"]]
    by (auto simp: module_status_def Let_def count_available_sums)
qed

theorem ModuleUpdateStatus_counts_witness:
  "\<exists>r t m'. ModuleUpdateStatus empty_cluster (sample_module []) [] [sample_node ''n'' ''5.4''] [] fresh_state = (r, t) \<and>
     history t = [Write (UpdateModuleStatus m')] \<and>
     dst_NodesMatchingSelectorNumber (st_ModuleLoader (mod_Status m')) = 1"
proof -
  obtain r t where run: "ModuleUpdateStatus empty_cluster (sample_module []) [] [sample_node ''n'' ''5.4''] [] fresh_state = (r, t)"
    by fastforce
  have "distinct (map fst ([] :: ds_map))" by simp
  from ModuleUpdateStatus_counts [OF this run] run show ?thesis by (fastforce simp: fresh_state_def)
qed

end
