(* ===== verification/Module_Reconciler.thy ===== *)
theory Module_Reconciler
  imports Status_Updater
begin

text \<open>
  \<open>controllers/module_reconciler.go\<close>: the controller of the Module resource.  One call of
  \<open>Reconcile\<close> brings the cluster one step closer to what the Module asks for: for every kernel of a
  schedulable node the selector matches, build and sign the image where needed and run the DaemonSet
  that loads the module; then the device plugin, garbage collection and the status.  Logging has no
  counterpart.  The \<open>ctrl.Result\<close> is always empty, so the result is only whether there was an error.
\<close>

section \<open>Nodes and kernels\<close>

definition isNodeSchedulable :: "Node \<Rightarrow> bool" where
  "isNodeSchedulable node \<longleftrightarrow> list_all (\<lambda>taint. taint_Effect taint \<noteq> ''NoSchedule'') (node_Taints node)"

definition getNodesListBySelector :: "env \<Rightarrow> Module \<Rightarrow> (op_state, Node list) go" where
  "getNodesListBySelector L m =
     check (call (Read (ListNodes (spec_Selector (mod_Spec m)))) (\<lambda>h. cl_ListNodes L h (spec_Selector (mod_Spec m))))
       (\<lambda>e. Errorf ''could not list nodes: %v'' [AE e])
       (\<lambda>selectedNodes. ret (filter isNodeSchedulable selectedNodes))"

type_synonym mld_map = "(string \<times> ModuleLoaderData) list"

definition node_kernel :: "Node \<Rightarrow> string" where
  "node_kernel node = TrimSuffix (node_KernelVersion node) ''+''"

fun relevant_loop ::
  "env \<Rightarrow> Module \<Rightarrow> Node list \<Rightarrow> mld_map \<Rightarrow> Node list \<Rightarrow> (mld_map \<times> Node list) res" where
  "relevant_loop L m [] mldMappings nodes = Ok (mldMappings, nodes)"
| "relevant_loop L m (node # rest) mldMappings nodes =
     (let kernelVersion = node_kernel node in
      if map_of mldMappings kernelVersion \<noteq> None then relevant_loop L m rest mldMappings (nodes @ [node])
      else case GetModuleLoaderDataForKernel L m kernelVersion of
          Err e \<Rightarrow> relevant_loop L m rest mldMappings nodes
        | Panic \<Rightarrow> Panic
        | Ok mld \<Rightarrow> relevant_loop L m rest (mput mldMappings kernelVersion mld) (nodes @ [node]))"

definition getRelevantKernelMappingsAndNodes ::
  "env \<Rightarrow> Module \<Rightarrow> Node list \<Rightarrow> (mld_map \<times> Node list) res" where
  "getRelevantKernelMappingsAndNodes L m targetedNodes = relevant_loop L m targetedNodes [] []"

section \<open>Build, signing, DaemonSets\<close>

text \<open>The \<open>switch\<close> on the status of a job, with the gauge it sets.\<close>

definition stage_result :: "ModuleLoaderData \<Rightarrow> string \<Rightarrow> string \<Rightarrow> (op_state, bool) go" where
  "stage_result mld stage status =
     (if status = StatusCreated
      then bind_go (SetCompletedStage (mld_Name mld) (mld_Namespace mld) (mld_KernelVersion mld) stage False)
        (\<lambda>_. ret False)
      else if status = StatusCompleted
      then bind_go (SetCompletedStage (mld_Name mld) (mld_Namespace mld) (mld_KernelVersion mld) stage True)
        (\<lambda>_. ret True)
      else ret False)"

definition handleBuild :: "env \<Rightarrow> ModuleLoaderData \<Rightarrow> (op_state, bool) go" where
  "handleBuild L mld =
     check (BuildShouldSync L mld)
       (\<lambda>e. Wrapf ''could not check if build synchronization is needed: %w'' [] e)
       (\<lambda>shouldSync.
          if \<not> shouldSync then ret True
          else check (BuildSync L mld True (mld_Owner mld))
            (\<lambda>e. Wrapf ''could not synchronize the build: %w'' [] e)
            (\<lambda>buildStatus. stage_result mld BuildStage buildStatus))"

definition handleSigning :: "env \<Rightarrow> ModuleLoaderData \<Rightarrow> (op_state, bool) go" where
  "handleSigning L mld =
     check (SignShouldSync L mld)
       (\<lambda>e. Wrapf ''cound not check if synchronization is needed: %w'' [] e)
       (\<lambda>shouldSync.
          if \<not> shouldSync then ret True
          else let previousImage = (if ShouldBeBuilt mld
                 then IntermediateImageName (mld_Name mld) (mld_Namespace mld) (mld_ContainerImage mld) else '''')
          in check (SignSync L mld previousImage True (mld_Owner mld))
            (\<lambda>e. Wrapf ''could not synchronize the signing: %w'' [] e)
            (\<lambda>signStatus. stage_result mld SignStage signStatus))"

definition get_DaemonSet :: "env \<Rightarrow> NamespacedName \<Rightarrow> (op_state, DaemonSet) go" where
  "get_DaemonSet L nn = call (Read (GetDaemonSet nn)) (\<lambda>h. cl_GetDaemonSet L h nn)"

definition CreateOrPatchDaemonSet ::
  "env \<Rightarrow> DaemonSet \<Rightarrow> (DaemonSet \<Rightarrow> DaemonSet res) \<Rightarrow> (op_state, OperationResult \<times> DaemonSet) go" where
  "CreateOrPatchDaemonSet L ds f =
     CreateOrPatch
       (get_DaemonSet L \<lparr>nn_Namespace = om_Namespace (ds_Meta ds), nn_Name = om_Name (ds_Meta ds)\<rparr>)
       (\<lambda>d. call (Write (CreateDaemonSet d)) (\<lambda>h. cl_CreateDaemonSet L h d))
       (\<lambda>old d. call (Write (PatchDaemonSet old d)) (\<lambda>h. cl_PatchDaemonSet L h old d))
       ds (\<lambda>d. pure_go (f d))"

text \<open>
  The DaemonSet found under the kernel is an object that the map points to: what \<open>CreateOrPatch\<close>
  makes of it is what the map shows afterwards.  A new DaemonSet is not entered into the map.
\<close>

definition handleDriverContainer :: "env \<Rightarrow> ModuleLoaderData \<Rightarrow> ds_map \<Rightarrow> (op_state, ds_map) go" where
  "handleDriverContainer L mld dsByKernelVersion =
     (let existingDS = map_of dsByKernelVersion (mld_KernelVersion mld);
          ds = (case existingDS of
              Some e \<Rightarrow> e
            | None \<Rightarrow> zero_DaemonSet\<lparr>ds_Meta := zero_ObjectMeta\<lparr>om_Namespace := mld_Namespace mld,
                om_GenerateName := mld_Name mld @ ''-''\<rparr>\<rparr>)
      in bind_go (CreateOrPatchDaemonSet L ds (\<lambda>d. SetDriverContainerAsDesired L (Some d) mld))
        (\<lambda>(opRes, ds').
           bind_go (if opRes = OperationResultCreated
                    then SetCompletedStage (mld_Name mld) (mld_Namespace mld) (mld_KernelVersion mld) ModuleLoaderStage False
                    else ret ())
             (\<lambda>_. ret (if existingDS = None then dsByKernelVersion
                       else mput dsByKernelVersion (mld_KernelVersion mld) ds'))))"

definition handleDevicePlugin :: "env \<Rightarrow> Module \<Rightarrow> (op_state, unit) go" where
  "handleDevicePlugin L m =
     (if spec_DevicePlugin (mod_Spec m) = None then ret ()
      else let name = om_Name (mod_Meta m) @ ''-device-plugin'';
               fresh = zero_DaemonSet\<lparr>ds_Meta := zero_ObjectMeta\<lparr>om_Namespace := om_Namespace (mod_Meta m), om_Name := name\<rparr>\<rparr>
      in attempt (get_DaemonSet L \<lparr>nn_Namespace = om_Namespace (mod_Meta m), nn_Name = name\<rparr>) (\<lambda>r.
         bind_go (case r of
              Inr found \<Rightarrow> ret found
            | Inl e \<Rightarrow> if IsNotFound e then ret fresh
                else raise (Wrapf ''failed to get the device plugin daemonset %s/%s: %w''
                  [AS name, AS (om_Namespace (mod_Meta m))] e)) (\<lambda>ds.
         bind_go (CreateOrPatchDaemonSet L ds (\<lambda>d. SetDevicePluginAsDesired L (Some d) m))
           (\<lambda>(opRes, ds').
              if opRes = OperationResultCreated
              then SetCompletedStage (om_Name (mod_Meta m)) (om_Namespace (mod_Meta m)) '''' DevicePluginStage False
              else ret ()))))"

definition garbageCollect :: "env \<Rightarrow> Module \<Rightarrow> mld_map \<Rightarrow> ds_map \<Rightarrow> (op_state, unit) go" where
  "garbageCollect L m mldMappings existingDS =
     (let validKernels = map fst mldMappings in
      check (GarbageCollect L existingDS validKernels)
        (\<lambda>e. Errorf ''could not garbage collect DaemonSets: %v'' [AE e]) (\<lambda>_.
      check (BuildGarbageCollect L (om_Name (mod_Meta m)) (om_Namespace (mod_Meta m)) (owner_of_module m))
        (\<lambda>e. Errorf ''could not garbage collect build objects: %v'' [AE e]) (\<lambda>_.
      check (SignGarbageCollect L (om_Name (mod_Meta m)) (om_Namespace (mod_Meta m)) (owner_of_module m))
        (\<lambda>e. Errorf ''could not garbage collect sign objects: %v'' [AE e]) (\<lambda>_. ret ()))))"

section \<open>Reconcile\<close>

definition setKMMOMetrics :: "env \<Rightarrow> (op_state, unit) go" where
  "setKMMOMetrics L =
     attempt (call (Read ListModules) (\<lambda>h. cl_ListModules L h))
       (\<lambda>r. SetExistingKMMOModules (case r of Inl _ \<Rightarrow> 0 | Inr mods \<Rightarrow> length mods))"

definition getRequestedModule :: "env \<Rightarrow> NamespacedName \<Rightarrow> (op_state, Module) go" where
  "getRequestedModule L namespacedName =
     check (call (Read (GetModule namespacedName)) (\<lambda>h. cl_GetModule L h namespacedName))
       (\<lambda>e. Wrapf ''failed to get the kmmo module %s: %w'' [AS (nn_Name namespacedName)] e) ret"

text \<open>The body of the loop over the kernels.\<close>

definition reconcile_kernel :: "env \<Rightarrow> string \<times> ModuleLoaderData \<Rightarrow> ds_map \<Rightarrow> (op_state, ds_map) go" where
  "reconcile_kernel L kv dsByKernelVersion =
     (let kernelVersion = fst kv; mld = snd kv in
      check (handleBuild L mld)
        (\<lambda>e. Errorf ''failed to handle build for kernel version %s: %v'' [AS kernelVersion, AE e])
        (\<lambda>completedSuccessfully.
          if \<not> completedSuccessfully then ret dsByKernelVersion
          else check (handleSigning L mld)
            (\<lambda>e. Errorf ''failed to handle signing for kernel version %s: %v'' [AS kernelVersion, AE e])
            (\<lambda>completedSuccessfully.
              if \<not> completedSuccessfully then ret dsByKernelVersion
              else check (handleDriverContainer L mld dsByKernelVersion)
                (\<lambda>e. Errorf ''failed to handle driver container for kernel version %s: %v'' [AS kernelVersion, AE e])
                ret)))"

text \<open>The part of \<open>Reconcile\<close> from the list of nodes on.\<close>

definition reconcile_module :: "env \<Rightarrow> Module \<Rightarrow> (op_state, unit) go" where
  "reconcile_module L m =
     check (getNodesListBySelector L m)
       (\<lambda>e. Wrapf ''could get targeted nodes for module %s: %w'' [AS (om_Name (mod_Meta m))] e)
       (\<lambda>targetedNodes.
     check (pure_go (getRelevantKernelMappingsAndNodes L m targetedNodes))
       (\<lambda>e. Wrapf ''could get kernel mappings and nodes for modules %s: %w'' [AS (om_Name (mod_Meta m))] e)
       (\<lambda>(mldMappings, nodesWithMapping).
     check (ModuleDaemonSetsByKernelVersion L (om_Name (mod_Meta m)) (om_Namespace (mod_Meta m)))
       (\<lambda>e. Errorf ''could get DaemonSets for module %s: %v'' [AS (om_Name (mod_Meta m)), AE e])
       (\<lambda>dsByKernelVersion.
     bind_go (loop (range_map (range_order L RangeMldMappings) mldMappings) (reconcile_kernel L) dsByKernelVersion)
       (\<lambda>dsByKernelVersion.
     check (handleDevicePlugin L m)
       (\<lambda>e. Wrapf ''could handle device plugin: %w'' [] e) (\<lambda>_.
     check (garbageCollect L m mldMappings dsByKernelVersion)
       (\<lambda>e. Errorf ''failed to run garbage collection: %v'' [AE e]) (\<lambda>_.
     check (ModuleUpdateStatus L m nodesWithMapping targetedNodes dsByKernelVersion)
       (\<lambda>e. Wrapf ''failed to update status of the module: %w'' [] e) ret))))))"

definition Reconcile :: "env \<Rightarrow> NamespacedName \<Rightarrow> (op_state, unit) go" where
  "Reconcile L req =
     attempt (getRequestedModule L req) (\<lambda>r. case r of
       Inl e \<Rightarrow> if IsNotFound e then ret ()
                else raise (Wrapf ''failed to get the requested %s KMMO CR: %w'' [AS (nn_Name req)] e)
     | Inr m \<Rightarrow> bind_go (setKMMOMetrics L) (\<lambda>_. reconcile_module L m))"

section \<open>What the controller may do\<close>

text \<open>
  The image that a kernel needs is there: it need not be built, or the registry has answered for it,
  or the build job of this very specification has succeeded; and the same for signing.
\<close>

definition build_ready :: "env \<Rightarrow> ModuleLoaderData \<Rightarrow> history \<Rightarrow> bool" where
  "build_ready L mld h \<longleftrightarrow> \<not> ShouldBeBuilt mld \<or> manifest_seen L (build_target mld) h \<or>
     job_completed L JobTypeBuild (build_made L mld '''' True (mld_Owner mld)) mld (mld_Owner mld) h"

definition sign_source :: "ModuleLoaderData \<Rightarrow> string" where
  "sign_source mld = (if ShouldBeBuilt mld
     then IntermediateImageName (mld_Name mld) (mld_Namespace mld) (mld_ContainerImage mld) else '''')"

definition sign_ready :: "env \<Rightarrow> ModuleLoaderData \<Rightarrow> history \<Rightarrow> bool" where
  "sign_ready L mld h \<longleftrightarrow> \<not> ShouldBeSigned mld \<or> manifest_seen L (mld_ContainerImage mld) h \<or>
     job_completed L JobTypeSign (sign_made L mld (sign_source mld) True (mld_Owner mld)) mld (mld_Owner mld) h"

definition ds_role :: "DaemonSet \<Rightarrow> string" where
  "ds_role ds = mget (pt_Labels (ds_Template ds)) DaemonSetRole"

definition driver_ready :: "env \<Rightarrow> Module \<Rightarrow> history \<Rightarrow> DaemonSet \<Rightarrow> bool" where
  "driver_ready L m h ds \<longleftrightarrow> (\<exists>mld. GetModuleLoaderDataForKernel L m (ds_kernel ds) = Ok mld \<and>
     map c_Image (ps_Containers (pt_Spec (ds_Template ds))) = [mld_ContainerImage mld] \<and>
     build_ready L mld h \<and> sign_ready L mld h)"

text \<open>
  A list of the nodes has been answered on which every schedulable node of kernel \<open>k\<close> is one the
  Module has no usable mapping for.
\<close>

definition nodes_listed :: "env \<Rightarrow> Module \<Rightarrow> Node list \<Rightarrow> history \<Rightarrow> bool" where
  "nodes_listed L m nodes h \<longleftrightarrow> (\<exists>h1 h2. h = h1 @ Read (ListNodes (spec_Selector (mod_Spec m))) # h2 \<and>
     cl_ListNodes L h1 (spec_Selector (mod_Spec m)) = Inr nodes)"

definition kernel_unused :: "env \<Rightarrow> Module \<Rightarrow> string \<Rightarrow> history \<Rightarrow> bool" where
  "kernel_unused L m k h \<longleftrightarrow> (\<exists>nodes. nodes_listed L m nodes h \<and>
     (\<forall>n \<in> set nodes. isNodeSchedulable n \<longrightarrow> node_kernel n = k \<longrightarrow>
        (\<exists>e. GetModuleLoaderDataForKernel L m k = Err e)))"

text \<open>
  A DaemonSet the server has answered with: to a request for it, on a list, or as the stored form of
  one that was created or patched.
\<close>

definition ds_known :: "env \<Rightarrow> history \<Rightarrow> DaemonSet \<Rightarrow> bool" where
  "ds_known L h d \<longleftrightarrow> (\<exists>h1 e h2. h = h1 @ e # h2 \<and>
     (case e of
        Read (GetDaemonSet nn) \<Rightarrow> cl_GetDaemonSet L h1 nn = Inr d
      | Read (ListDaemonSets ns sel) \<Rightarrow> (\<exists>dss. cl_ListDaemonSets L h1 ns sel = Inr dss \<and> d \<in> set dss)
      | Write (CreateDaemonSet x) \<Rightarrow> cl_CreateDaemonSet L h1 x = Inr d
      | Write (PatchDaemonSet old x) \<Rightarrow> cl_PatchDaemonSet L h1 old x = Inr d
      | _ \<Rightarrow> False))"

text \<open>
  What the controller makes of a DaemonSet: that of the module loader for a kernel whose image is
  ready, or that of the device plugin.  A new one starts from an empty DaemonSet in the namespace of the
  Module, or from one the server has answered with that has disappeared since.
\<close>

definition wanted_ds :: "env \<Rightarrow> Module \<Rightarrow> history \<Rightarrow> DaemonSet \<Rightarrow> DaemonSet \<Rightarrow> bool" where
  "wanted_ds L m h old ds \<longleftrightarrow>
     ds_role ds = ''device-plugin'' \<and> spec_DevicePlugin (mod_Spec m) \<noteq> None \<and> SetDevicePluginAsDesired L (Some old) m = Ok ds \<or>
     ds_role ds = ''module-loader'' \<and> driver_ready L m h ds \<and>
       (\<exists>mld. GetModuleLoaderDataForKernel L m (ds_kernel ds) = Ok mld \<and> SetDriverContainerAsDesired L (Some old) mld = Ok ds)"

definition blank_ds :: "Module \<Rightarrow> DaemonSet \<Rightarrow> bool" where
  "blank_ds m d \<longleftrightarrow>
     d = zero_DaemonSet\<lparr>ds_Meta := zero_ObjectMeta\<lparr>om_Namespace := om_Namespace (mod_Meta m),
       om_Name := om_Name (mod_Meta m) @ ''-device-plugin''\<rparr>\<rparr> \<or>
     d = zero_DaemonSet\<lparr>ds_Meta := zero_ObjectMeta\<lparr>om_Namespace := om_Namespace (mod_Meta m),
       om_GenerateName := om_Name (mod_Meta m) @ ''-''\<rparr>\<rparr>"

definition module_event :: "env \<Rightarrow> Module \<Rightarrow> history \<Rightarrow> event \<Rightarrow> bool" where
  "module_event L m h e =
     (case e of Read _ \<Rightarrow> True | Write w \<Rightarrow>
       (case w of
          CreateDaemonSet ds \<Rightarrow> (\<exists>old. (blank_ds m old \<or> ds_known L h old) \<and> wanted_ds L m h old ds)
        | PatchDaemonSet old ds \<Rightarrow> ds_known L h old \<and> wanted_ds L m h old ds
        | DeleteDaemonSet ds \<Rightarrow> ds_kernel ds \<noteq> '''' \<and> kernel_unused L m (ds_kernel ds) h \<and> ds_known L h ds
        | CreateJob j \<Rightarrow> mget (om_Labels (job_Meta j)) ModuleNameLabel = om_Name (mod_Meta m) \<and>
            om_Namespace (job_Meta j) = om_Namespace (mod_Meta m) \<and>
            SetControllerReference L (owner_of_module m) [] = Inr (om_OwnerReferences (job_Meta j))
        | DeleteJob j \<Rightarrow> IsControlledBy L (om_OwnerReferences (job_Meta j)) (owner_of_module m) \<and> job_listed L h j
        | UpdateModuleStatus m' \<Rightarrow> mod_Spec m' = mod_Spec m \<and> mod_Meta m' = mod_Meta m
        | _ \<Rightarrow> False))"

text \<open>Which writes are a Module's own business.\<close>

definition own_write :: "env \<Rightarrow> Module \<Rightarrow> write_call \<Rightarrow> bool" where
  "own_write L m w =
     (case w of
         CreateDaemonSet ds \<Rightarrow> ds_role ds = ''device-plugin'' \<or> ds_role ds = ''module-loader''
       | PatchDaemonSet old ds \<Rightarrow> ds_role ds = ''device-plugin'' \<or> ds_role ds = ''module-loader''
       | DeleteDaemonSet ds \<Rightarrow> ds_kernel ds \<noteq> ''''
       | CreateJob j \<Rightarrow> mget (om_Labels (job_Meta j)) ModuleNameLabel = om_Name (mod_Meta m) \<and>
           om_Namespace (job_Meta j) = om_Namespace (mod_Meta m)
       | DeleteJob j \<Rightarrow> IsControlledBy L (om_OwnerReferences (job_Meta j)) (owner_of_module m)
       | UpdateModuleStatus m' \<Rightarrow> mod_Spec m' = mod_Spec m \<and> mod_Meta m' = mod_Meta m
       | _ \<Rightarrow> False)"

section \<open>Lemmas\<close>

lemma module_event_own: "module_event L m h (Write w) \<Longrightarrow> own_write L m w"
  by (cases w) (auto simp: module_event_def own_write_def wanted_ds_def)

lemma module_event_read [simp]: "module_event L m h (Read r)"
  by (simp add: module_event_def)

lemma module_event_DeleteJob [simp]:
  "module_event L m h (Write (DeleteJob j)) \<longleftrightarrow>
     IsControlledBy L (om_OwnerReferences (job_Meta j)) (owner_of_module m) \<and> job_listed L h j"
  by (simp add: module_event_def)

lemma ds_known_append: "ds_known L h d \<Longrightarrow> ds_known L (h @ h') d"
  unfolding ds_known_def by fastforce

lemma ds_known_last:
  "cl_GetDaemonSet L h nn = Inr d \<Longrightarrow> ds_known L (h @ [Read (GetDaemonSet nn)]) d"
  "cl_CreateDaemonSet L h x = Inr d \<Longrightarrow> ds_known L (h @ [Write (CreateDaemonSet x)]) d"
  "cl_PatchDaemonSet L h old x = Inr d \<Longrightarrow> ds_known L (h @ [Write (PatchDaemonSet old x)]) d"
  "cl_ListDaemonSets L h ns sel = Inr dss \<Longrightarrow> d \<in> set dss \<Longrightarrow> ds_known L (h @ [Read (ListDaemonSets ns sel)]) d"
  unfolding ds_known_def by fastforce+

lemma module_event_of_read: "is_read e \<Longrightarrow> module_event L m h e"
  by (auto simp: is_read_def split: event.splits)

lemma build_ready_append: "build_ready L mld h \<Longrightarrow> build_ready L mld (h @ h')"
  unfolding build_ready_def by (auto intro: manifest_seen_append job_completed_append)

lemma sign_ready_append: "sign_ready L mld h \<Longrightarrow> sign_ready L mld (h @ h')"
  unfolding sign_ready_def by (auto intro: manifest_seen_append job_completed_append)

lemma nodes_listed_append: "nodes_listed L m nodes h \<Longrightarrow> nodes_listed L m nodes (h @ h')"
  unfolding nodes_listed_def by fastforce

lemma guar_SetCompletedStage: "(\<And>h. P h \<Longrightarrow> Q () h) \<Longrightarrow> guar P J (SetCompletedStage n ns k st b) Q E"
  unfolding SetCompletedStage_def by (rule guar_set_gauges)

lemma guar_stage_result:
  assumes "\<And>h. P h \<Longrightarrow> Q False h" and "\<And>h. P h \<Longrightarrow> status = StatusCompleted \<Longrightarrow> Q True h"
  shows "guar P J (stage_result mld stage status) Q E"
proof -
  have "guar P J (bind_go (SetCompletedStage n ns k st b) (\<lambda>_. ret c)) Q E" if "\<And>h. P h \<Longrightarrow> Q c h" for n ns k st b c
    by (rule guar_bind_go [where R = "\<lambda>_. P"]) (auto intro: guar_SetCompletedStage guar_ret that)
  with assms show ?thesis
    by (auto simp: stage_result_def intro!: guar_ret)
qed

lemma guar_handleBuild:
  "guar (\<lambda>_. True) (job_event L JobTypeBuild mld (mld_Owner mld)) (handleBuild L mld)
     (\<lambda>b h. b \<longrightarrow> build_ready L mld h) (\<lambda>_ _. True)"
  unfolding handleBuild_def
proof (rule guar_check [where R = "\<lambda>b h. \<not> b \<longrightarrow> build_ready L mld h"])
  show "guar (\<lambda>_. True) (job_event L JobTypeBuild mld (mld_Owner mld)) (BuildShouldSync L mld)
     (\<lambda>b h. \<not> b \<longrightarrow> build_ready L mld h) (\<lambda>_ _. True)"
    by (rule guar_weaken [OF build_jobs.ShouldSync_guar])
      (auto simp: is_read_def build_ready_def split: event.splits)
  show "guar (\<lambda>h. \<not> b \<longrightarrow> build_ready L mld h) (job_event L JobTypeBuild mld (mld_Owner mld))
     (if \<not> b then ret True else check (BuildSync L mld True (mld_Owner mld)) w
        (\<lambda>st. stage_result mld BuildStage st)) (\<lambda>b h. b \<longrightarrow> build_ready L mld h) (\<lambda>_ _. True)" for b w
  proof (cases b)
    case True
    have "guar (\<lambda>_. True) (job_event L JobTypeBuild mld (mld_Owner mld))
        (check (BuildSync L mld True (mld_Owner mld)) w (\<lambda>st. stage_result mld BuildStage st))
        (\<lambda>b h. b \<longrightarrow> build_ready L mld h) (\<lambda>_ _. True)"
      by (rule guar_check [OF build_jobs.guar_Sync [where img = "''''"]])
        (auto intro!: guar_stage_result simp: build_ready_def)
    with True show ?thesis by (auto intro: guar_weaken)
  qed (auto intro: guar_ret)
qed

lemma guar_handleSigning:
  "guar (\<lambda>_. True) (job_event L JobTypeSign mld (mld_Owner mld)) (handleSigning L mld)
     (\<lambda>b h. b \<longrightarrow> sign_ready L mld h) (\<lambda>_ _. True)"
  unfolding handleSigning_def sign_source_def [symmetric] Let_def
proof (rule guar_check [where R = "\<lambda>b h. \<not> b \<longrightarrow> sign_ready L mld h"])
  show "guar (\<lambda>_. True) (job_event L JobTypeSign mld (mld_Owner mld)) (SignShouldSync L mld)
     (\<lambda>b h. \<not> b \<longrightarrow> sign_ready L mld h) (\<lambda>_ _. True)"
    by (rule guar_weaken [OF sign_jobs.ShouldSync_guar])
      (auto simp: is_read_def sign_ready_def split: event.splits)
  show "guar (\<lambda>h. \<not> b \<longrightarrow> sign_ready L mld h) (job_event L JobTypeSign mld (mld_Owner mld))
     (if \<not> b then ret True else check (SignSync L mld (sign_source mld) True (mld_Owner mld)) w
        (\<lambda>st. stage_result mld SignStage st)) (\<lambda>b h. b \<longrightarrow> sign_ready L mld h) (\<lambda>_ _. True)" for b w
  proof (cases b)
    case True
    have "guar (\<lambda>_. True) (job_event L JobTypeSign mld (mld_Owner mld))
        (check (SignSync L mld (sign_source mld) True (mld_Owner mld)) w (\<lambda>st. stage_result mld SignStage st))
        (\<lambda>b h. b \<longrightarrow> sign_ready L mld h) (\<lambda>_ _. True)"
      by (rule guar_check [OF sign_jobs.guar_Sync]) (auto intro!: guar_stage_result simp: sign_ready_def)
    with True show ?thesis by (auto intro: guar_weaken)
  qed (auto intro: guar_ret)
qed

text \<open>Every DaemonSet of the map is one the server has answered with.\<close>

definition dsm_known :: "env \<Rightarrow> ds_map \<Rightarrow> history \<Rightarrow> bool" where
  "dsm_known L dsm h \<longleftrightarrow> (\<forall>(k, d) \<in> set dsm. ds_known L h d)"

lemma dsm_known_append: "dsm_known L dsm h \<Longrightarrow> dsm_known L dsm (h @ h')"
  by (auto simp: dsm_known_def intro: ds_known_append)

lemma dsm_known_mput: "dsm_known L dsm h \<Longrightarrow> ds_known L h d \<Longrightarrow> dsm_known L (mput dsm k d) h"
  unfolding dsm_known_def using set_mput_subset [of dsm k d] by auto

text \<open>Creating or patching a DaemonSet while a fact of the past holds.\<close>

lemma guar_CreateOrPatchDaemonSet:
  assumes I: "\<And>h h'. I h \<Longrightarrow> I (h @ h')" and read: "\<And>h r. J h (Read r)"
    and J: "\<And>d' h. I h \<Longrightarrow> f ds = Ok d' \<Longrightarrow> J h (Write (CreateDaemonSet d'))"
      "\<And>d d' h. I h \<Longrightarrow> ds_known L h d \<Longrightarrow> f d = Ok d' \<Longrightarrow> J h (Write (PatchDaemonSet d d'))"
  shows "guar I J (CreateOrPatchDaemonSet L ds f) (\<lambda>(_, d) h. I h \<and> ds_known L h d) (\<lambda>_. I)"
proof -
  let ?Q = "\<lambda>(_, d) h. I h \<and> ds_known L h d"
  let ?found = "\<lambda>r h. I h \<and> (case r of Inl _ \<Rightarrow> True | Inr found \<Rightarrow> ds_known L h found)"
  have get: "guar I J (get_DaemonSet L nn) (\<lambda>d. ?found (Inr d)) (\<lambda>e. ?found (Inl e))" for nn
    unfolding get_DaemonSet_def by (rule guar_call) (use I read in \<open>auto intro: ds_known_last\<close>)
  have mutate: "guar P J (pure_go (f d)) (\<lambda>d' h. P h \<and> f d = Ok d') (\<lambda>_. I)" if "\<And>h. P h \<Longrightarrow> I h" for d P
    by (rule guar_pure_go) (use that in auto)
  have create: "guar (\<lambda>h. I h \<and> f ds = Ok d') J (bind_go (call (Write (CreateDaemonSet d')) (\<lambda>h. cl_CreateDaemonSet L h d'))
      (\<lambda>o2. ret (OperationResultCreated, o2))) ?Q (\<lambda>_. I)" for d'
    by (rule guar_bind_go [where R = "\<lambda>d h. I h \<and> ds_known L h d"], rule guar_call)
      (use I J(1) in \<open>auto intro: guar_ret ds_known_last\<close>)
  have patch: "guar (\<lambda>h. I h \<and> ds_known L h d \<and> f d = Ok d') J
      (bind_go (call (Write (PatchDaemonSet d d')) (\<lambda>h. cl_PatchDaemonSet L h d d'))
      (\<lambda>o2. ret (OperationResultUpdated, o2))) ?Q (\<lambda>_. I)" for d d'
    by (rule guar_bind_go [where R = "\<lambda>d h. I h \<and> ds_known L h d"], rule guar_call)
      (use I J(2) in \<open>auto intro: guar_ret ds_known_last\<close>)
  show ?thesis
    unfolding CreateOrPatchDaemonSet_def CreateOrPatch_def
  proof (rule guar_attempt [where R = ?found, OF get])
    fix r :: "error + DaemonSet"
    show "guar (?found r) J (case r of
         Inl e \<Rightarrow> if IsNotFound e then bind_go (pure_go (f ds)) (\<lambda>o1. bind_go
             (call (Write (CreateDaemonSet o1)) (\<lambda>h. cl_CreateDaemonSet L h o1)) (\<lambda>o2. ret (OperationResultCreated, o2)))
           else raise e
       | Inr found \<Rightarrow> bind_go (pure_go (f found)) (\<lambda>o1. if o1 = found then ret (OperationResultNone, found)
           else bind_go (call (Write (PatchDaemonSet found o1)) (\<lambda>h. cl_PatchDaemonSet L h found o1))
             (\<lambda>o2. ret (OperationResultUpdated, o2)))) ?Q (\<lambda>_. I)"
    proof (cases r)
      case (Inl e)
      then show ?thesis by (auto intro!: guar_raise guar_bind_go [OF mutate] create)
    next
      case (Inr found)
      then show ?thesis by (auto intro!: guar_ret guar_bind_go [OF mutate] patch)
    qed
  qed
qed

text \<open>The mappings collected from the nodes.\<close>

lemma relevant_loop_Ok:
  assumes "relevant_loop L m nodes M ns = Ok (M', ns')"
    and "\<forall>(k, mld) \<in> set M. GetModuleLoaderDataForKernel L m k = Ok mld" and "distinct (map fst M)"
  shows "(\<forall>(k, mld) \<in> set M'. GetModuleLoaderDataForKernel L m k = Ok mld) \<and> distinct (map fst M') \<and>
    fst ` set M \<subseteq> fst ` set M' \<and>
    (\<forall>n \<in> set nodes. node_kernel n \<in> fst ` set M' \<or> (\<exists>e. GetModuleLoaderDataForKernel L m (node_kernel n) = Err e))"
  using assms
proof (induction nodes arbitrary: M ns)
  case Nil
  then show ?case by auto
next
  case (Cons n nodes)
  show ?case
  proof (cases "map_of M (node_kernel n)")
    case (Some mld)
    then have "node_kernel n \<in> fst ` set M" by (metis fst_conv image_eqI map_of_SomeD)
    moreover have run: "relevant_loop L m nodes M (ns @ [n]) = Ok (M', ns')"
      using Cons.prems(1) Some by (simp add: Let_def)
    note IH = Cons.IH [OF run Cons.prems(2,3)]
    ultimately have "node_kernel n \<in> fst ` set M'" by blast
    with IH show ?thesis by auto
  next
    case None
    show ?thesis
    proof (cases "GetModuleLoaderDataForKernel L m (node_kernel n)")
      case (Ok mld)
      let ?M = "mput M (node_kernel n) mld"
      have "relevant_loop L m nodes ?M (ns @ [n]) = Ok (M', ns')"
        using Cons.prems(1) None Ok by (simp add: Let_def)
      moreover have "\<forall>(k, mld) \<in> set ?M. GetModuleLoaderDataForKernel L m k = Ok mld"
        using Cons.prems(2) Ok set_mput_subset [of M "node_kernel n" mld] by fastforce
      ultimately have IH: "(\<forall>(k, mld) \<in> set M'. GetModuleLoaderDataForKernel L m k = Ok mld) \<and>
          distinct (map fst M') \<and> fst ` set ?M \<subseteq> fst ` set M' \<and>
          (\<forall>n \<in> set nodes. node_kernel n \<in> fst ` set M' \<or>
             (\<exists>e. GetModuleLoaderDataForKernel L m (node_kernel n) = Err e))"
        by (intro Cons.IH distinct_mput Cons.prems(3))
      then show ?thesis by auto
    next
      case (Err e)
      have run: "relevant_loop L m nodes M ns = Ok (M', ns')"
        using Cons.prems(1) None Err by (simp add: Let_def)
      from Cons.IH [OF run Cons.prems(2,3)] Err show ?thesis by auto
    next
      case Panic
      with Cons.prems(1) None show ?thesis by (simp add: Let_def)
    qed
  qed
qed

lemma relevant_Ok:
  assumes "getRelevantKernelMappingsAndNodes L m nodes = Ok (M, ns)"
  shows "\<And>k mld. (k, mld) \<in> set M \<Longrightarrow> GetModuleLoaderDataForKernel L m k = Ok mld"
    and "distinct (map fst M)"
    and "\<And>n. n \<in> set nodes \<Longrightarrow> node_kernel n \<in> fst ` set M \<or>
      (\<exists>e. GetModuleLoaderDataForKernel L m (node_kernel n) = Err e)"
  using relevant_loop_Ok [OF assms [unfolded getRelevantKernelMappingsAndNodes_def]] by auto

text \<open>What a kernel's turn in the loop may call, and what it leaves of the map of DaemonSets.\<close>

lemma job_event_module_event:
  assumes "GetModuleLoaderDataForKernel L m k = Ok mld" and "job_event L jobType mld (mld_Owner mld) h e"
  shows "module_event L m h e"
  using assms(2) GetModuleLoaderData_Ok_fields [OF assms(1)]
  by (auto simp: job_event_def module_event_def job_labels_of_def split: event.splits write_call.splits)

lemma guar_handleDriverContainer:
  assumes mld: "GetModuleLoaderDataForKernel L m k = Ok mld" and I: "\<And>h h'. I h \<Longrightarrow> I (h @ h')"
  shows "guar (\<lambda>h. (build_ready L mld h \<and> sign_ready L mld h) \<and> dsm_known L dsm h \<and> I h) (module_event L m)
     (handleDriverContainer L mld dsm)
     (\<lambda>dsm' h. (dsm' = dsm \<or> (\<exists>d. dsm' = mput dsm k d \<and> ds_known L h d)) \<and> dsm_known L dsm h \<and> I h) (\<lambda>_ _. True)"
proof -
  have k: "mld_KernelVersion mld = k" and name: "mld_Name mld = om_Name (mod_Meta m)" "mld_Namespace mld = om_Namespace (mod_Meta m)"
    using GetModuleLoaderData_Ok_fields [OF mld] by simp_all
  have ok: "wanted_ds L m h d d'"
    if "SetDriverContainerAsDesired L (Some d) mld = Ok d'" "build_ready L mld h" "sign_ready L mld h" for d d' h
    using SetDriver_fields [OF that(1)] mld k that by (auto simp: ds_role_def driver_ready_def wanted_ds_def)
  let ?I = "\<lambda>h. (build_ready L mld h \<and> sign_ready L mld h) \<and> dsm_known L dsm h \<and> I h"
  let ?ds = "case map_of dsm k of Some e \<Rightarrow> e | None \<Rightarrow> zero_DaemonSet\<lparr>ds_Meta := zero_ObjectMeta\<lparr>om_Namespace := mld_Namespace mld,
                om_GenerateName := mld_Name mld @ ''-''\<rparr>\<rparr>"
  have known: "blank_ds m ?ds \<or> ds_known L h ?ds" if "dsm_known L dsm h" for h
    using that map_of_SomeD [of dsm k]
    by (cases "map_of dsm k") (auto simp: blank_ds_def dsm_known_def name)
  have cop: "guar ?I (module_event L m)
      (CreateOrPatchDaemonSet L ?ds (\<lambda>d. SetDriverContainerAsDesired L (Some d) mld)) (\<lambda>(_, d) h. ?I h \<and> ds_known L h d) (\<lambda>_. ?I)"
  proof (rule guar_CreateOrPatchDaemonSet)
    show "module_event L m h (Write (CreateDaemonSet d'))" if "?I h" "SetDriverContainerAsDesired L (Some ?ds) mld = Ok d'" for h d'
      using that ok [OF that(2)] known [of h] unfolding module_event_def by auto
    show "module_event L m h (Write (PatchDaemonSet d d'))" if "?I h" "ds_known L h d" "SetDriverContainerAsDesired L (Some d) mld = Ok d'" for h d d'
      using that ok [OF that(3)] unfolding module_event_def by auto
  qed (auto intro: build_ready_append sign_ready_append dsm_known_append I)
  show ?thesis
    unfolding handleDriverContainer_def Let_def k
    by (rule guar_bind_go [where R = "\<lambda>(_, d) h. ?I h \<and> ds_known L h d"], rule guar_weaken [OF cop])
      (force intro!: guar_bind_go [where R = "\<lambda>_ h. ?I h \<and> ds_known L h _"] guar_SetCompletedStage guar_ret)+
qed

lemma guar_reconcile_kernel:
  assumes mld: "GetModuleLoaderDataForKernel L m k = Ok mld" and I: "\<And>h h'. I h \<Longrightarrow> I (h @ h')"
  shows "guar (\<lambda>h. dsm_known L dsm h \<and> I h) (module_event L m) (reconcile_kernel L (k, mld) dsm)
     (\<lambda>dsm' h. (dsm' = dsm \<or> (\<exists>d. dsm' = mput dsm k d \<and> ds_known L h d)) \<and> dsm_known L dsm h \<and> I h) (\<lambda>_ _. True)"
proof -
  let ?I = "\<lambda>h. dsm_known L dsm h \<and> I h"
  let ?Q = "\<lambda>dsm' h. (dsm' = dsm \<or> (\<exists>d. dsm' = mput dsm k d \<and> ds_known L h d)) \<and> ?I h"
  have build: "guar ?I (module_event L m) (handleBuild L mld)
      (\<lambda>b h. (b \<longrightarrow> build_ready L mld h) \<and> ?I h) (\<lambda>_ _. True)"
    by (rule guar_weaken [OF guar_frame [OF guar_handleBuild, of ?I]]) (auto intro: job_event_module_event [OF mld] I dsm_known_append)
  have sign: "guar (\<lambda>h. build_ready L mld h \<and> ?I h) (module_event L m) (handleSigning L mld)
      (\<lambda>b h. (b \<longrightarrow> sign_ready L mld h) \<and> build_ready L mld h \<and> ?I h) (\<lambda>_ _. True)"
    by (rule guar_weaken [OF guar_frame [OF guar_handleSigning, of "\<lambda>h. build_ready L mld h \<and> ?I h"]])
      (auto intro: job_event_module_event [OF mld] build_ready_append I dsm_known_append)
  have driver: "guar (\<lambda>h. (build_ready L mld h \<and> sign_ready L mld h) \<and> ?I h) (module_event L m)
      (check (handleDriverContainer L mld dsm) w ret) ?Q (\<lambda>_ _. True)" for w
    by (rule guar_check [OF guar_handleDriverContainer [where I = I, OF mld]]) (auto intro: guar_ret I)
  have after_build: "guar (\<lambda>h. build_ready L mld h \<and> ?I h) (module_event L m)
      (check (handleSigning L mld) w (\<lambda>b. if \<not> b then ret dsm else check (handleDriverContainer L mld dsm) w' ret))
      ?Q (\<lambda>_ _. True)" for w w'
    by (rule guar_check [OF sign]) (auto intro!: guar_ret guar_weaken [OF driver])
  show ?thesis
    unfolding reconcile_kernel_def Let_def fst_conv snd_conv
    by (rule guar_check [OF build]) (auto intro!: guar_ret guar_weaken [OF after_build])
qed

text \<open>
  The map of DaemonSets during a run: every DaemonSet is one the server has answered with, and outside
  the kernels of the loop it stands under its own kernel label.
\<close>

definition ds_map_ok :: "env \<Rightarrow> mld_map \<Rightarrow> ds_map \<Rightarrow> history \<Rightarrow> bool" where
  "ds_map_ok L M dsm h \<longleftrightarrow> distinct (map fst dsm) \<and> dsm_known L dsm h \<and>
     (\<forall>(k, ds) \<in> set dsm. k \<notin> fst ` set M \<longrightarrow> ds_kernel ds = k)"

lemma ds_map_ok_append: "ds_map_ok L M dsm h \<Longrightarrow> ds_map_ok L M dsm (h @ h')"
  by (auto simp: ds_map_ok_def intro: dsm_known_append)

lemma ds_map_ok_known: "ds_map_ok L M dsm h \<Longrightarrow> dsm_known L dsm h"
  by (simp add: ds_map_ok_def)

lemma ds_map_ok_mput:
  "ds_map_ok L M dsm h \<Longrightarrow> k \<in> fst ` set M \<Longrightarrow> ds_known L h d \<Longrightarrow> ds_map_ok L M (mput dsm k d) h"
  unfolding ds_map_ok_def using set_mput_subset [of dsm k d] by (auto simp: distinct_mput dsm_known_mput)

lemma ds_map_ok_initial:
  assumes "ModuleDaemonSetsByKernelVersion L name ns s = (Ok dsm, t)"
  shows "ds_map_ok L M dsm (history t)"
proof -
  obtain dsList where "by_kernel dsList [] = Ok dsm"
    and "cl_ListDaemonSets L (history s) ns [(ModuleNameLabel, name)] = Inr dsList"
    and "history t = history s @ [Read (ListDaemonSets ns [(ModuleNameLabel, name)])]"
    using assms by (auto simp: ModuleDaemonSets_run split: sum.splits)
  with by_kernel_Ok [OF this(1)] show ?thesis by (auto simp: ds_map_ok_def dsm_known_def intro!: ds_known_last(4))
qed

lemma guar_ModuleDaemonSets:
  assumes "\<And>h h'. I h \<Longrightarrow> I (h @ h')"
  shows "guar I (module_event L m) (ModuleDaemonSetsByKernelVersion L name ns)
    (\<lambda>dsm h. ds_map_ok L M dsm h \<and> I h) (\<lambda>_ _. True)"
  unfolding guar_def
proof (intro allI impI)
  fix s r t
  assume "I (history s)" and run: "ModuleDaemonSetsByKernelVersion L name ns s = (r, t)"
  moreover have "history t = history s @ [Read (ListDaemonSets ns [(ModuleNameLabel, name)])]"
    using run by (auto simp: ModuleDaemonSets_run)
  ultimately show "(\<exists>evs. history t = history s @ evs \<and> trace_ok (module_event L m) (history s) evs) \<and>
      (case r of Ok dsm \<Rightarrow> ds_map_ok L M dsm (history t) \<and> I (history t) | Err e \<Rightarrow> True | Panic \<Rightarrow> True)"
    using assms ds_map_ok_initial [of L name ns s _ t M] by (auto split: res.split)
qed

lemma guar_kernel_loop:
  assumes M: "\<And>k mld. (k, mld) \<in> set M \<Longrightarrow> GetModuleLoaderDataForKernel L m k = Ok mld"
    and I: "\<And>h h'. I h \<Longrightarrow> I (h @ h')"
  shows "guar (\<lambda>h. ds_map_ok L M dsm h \<and> I h) (module_event L m) (loop (range_map order M) (reconcile_kernel L) dsm)
    (\<lambda>dsm h. ds_map_ok L M dsm h \<and> I h) (\<lambda>_ _. True)"
proof (rule guar_loop [where I = "\<lambda>dsm h. ds_map_ok L M dsm h \<and> I h"])
  fix x dsm
  assume "x \<in> set (range_map order M)"
  then obtain k mld where x: "x = (k, mld)" and "(k, mld) \<in> set M"
    using range_map_memD map_of_SomeD by (metis surj_pair)
  then have "GetModuleLoaderDataForKernel L m k = Ok mld" "k \<in> fst ` set M" using M by force+
  then show "guar (\<lambda>h. ds_map_ok L M dsm h \<and> I h) (module_event L m) (reconcile_kernel L x dsm)
      (\<lambda>dsm h. ds_map_ok L M dsm h \<and> I h) (\<lambda>_ _. True)"
    unfolding x
    by (intro guar_weaken [OF guar_reconcile_kernel [where I = "\<lambda>h. ds_map_ok L M dsm h \<and> I h"]])
      (auto intro: I ds_map_ok_mput ds_map_ok_append simp: ds_map_ok_known)
qed

lemma guar_handleDevicePlugin:
  assumes I: "\<And>h h'. I h \<Longrightarrow> I (h @ h')"
  shows "guar I (module_event L m) (handleDevicePlugin L m) (\<lambda>_. I) (\<lambda>_. I)"
proof (cases "spec_DevicePlugin (mod_Spec m) = None")
  case True
  then show ?thesis by (auto simp: handleDevicePlugin_def intro: guar_ret)
next
  case plugin: False
  let ?I = "\<lambda>ds h. (blank_ds m ds \<or> ds_known L h ds) \<and> I h"
  have ok: "wanted_ds L m h d d'" if "SetDevicePluginAsDesired L (Some d) m = Ok d'" for d d' h
    using that plugin SetDevicePlugin_fields(1) [OF that] by (simp add: wanted_ds_def ds_role_def)
  have cop: "guar (?I ds) (module_event L m)
      (CreateOrPatchDaemonSet L ds (\<lambda>d. SetDevicePluginAsDesired L (Some d) m)) (\<lambda>_. I) (\<lambda>_. I)" for ds
    by (rule guar_weaken [OF guar_CreateOrPatchDaemonSet [where I = "?I ds"]])
      (auto intro: I ds_known_append ok simp: module_event_def)
  have get: "guar I (module_event L m) (get_DaemonSet L nn) (\<lambda>d. ?I d) (\<lambda>_. I)" for nn
    unfolding get_DaemonSet_def by (rule guar_call) (auto intro: I ds_known_last)
  have rest: "guar (?I ds) (module_event L m)
      (bind_go (CreateOrPatchDaemonSet L ds (\<lambda>d. SetDevicePluginAsDesired L (Some d) m)) (\<lambda>(opRes, ds').
         if opRes = OperationResultCreated then SetCompletedStage n ns k st False else ret ())) (\<lambda>_. I) (\<lambda>_. I)" for ds n ns k st
    by (rule guar_bind_go [OF cop]) (auto intro!: guar_SetCompletedStage guar_ret)
  show ?thesis
    unfolding handleDevicePlugin_def Let_def if_not_P [OF plugin]
  proof (rule guar_attempt [where R = "\<lambda>r. case r of Inl _ \<Rightarrow> I | Inr d \<Rightarrow> ?I d"])
    fix r :: "error + DaemonSet"
    let ?fresh = "zero_DaemonSet\<lparr>ds_Meta := zero_ObjectMeta\<lparr>om_Namespace := om_Namespace (mod_Meta m),
        om_Name := om_Name (mod_Meta m) @ ''-device-plugin''\<rparr>\<rparr>"
    have "blank_ds m ?fresh" by (simp add: blank_ds_def)
    then show "guar (case r of Inl _ \<Rightarrow> I | Inr d \<Rightarrow> ?I d) (module_event L m)
      (bind_go (case r of Inr found \<Rightarrow> ret found
         | Inl e \<Rightarrow> if IsNotFound e then ret ?fresh else raise (w e)) (\<lambda>ds.
        bind_go (CreateOrPatchDaemonSet L ds (\<lambda>d. SetDevicePluginAsDesired L (Some d) m)) (\<lambda>(opRes, ds').
         if opRes = OperationResultCreated then SetCompletedStage n ns k st False else ret ()))) (\<lambda>_. I) (\<lambda>_. I)" for w n ns k st
      by (intro guar_bind_go [OF _ rest]) (auto intro!: guar_ret guar_raise split: sum.split)
  qed (use get in auto)
qed

lemma emits_GarbageCollect:
  assumes "\<And>r. F (Read r)"
    and "\<And>k ds. (k, ds) \<in> set dsm \<Longrightarrow> ds_kernel ds \<noteq> '''' \<Longrightarrow> k \<notin> set valid \<Longrightarrow> F (Write (DeleteDaemonSet ds))"
  shows "emits F (GarbageCollect L dsm valid)"
  unfolding GarbageCollect_def
proof (rule emits_loop)
  fix x deleted
  assume "x \<in> set (range_map (range_order L RangeGarbageCollect) dsm)"
  then have mem: "(fst x, snd x) \<in> set dsm" using range_map_memD map_of_SomeD by (metis surjective_pairing)
  show "emits F (gc_ds_body L valid x deleted)"
    unfolding gc_ds_body_def Let_def isDevicePluginDaemonSet_def ds_kernel_def [symmetric]
    by (intro emits_rules) (auto intro: assms(2) [OF mem])
qed

lemma kernel_unusedI:
  assumes "nodes_listed L m nodes h"
    and "getRelevantKernelMappingsAndNodes L m (filter isNodeSchedulable nodes) = Ok (M, ns)"
    and "k \<notin> fst ` set M"
  shows "kernel_unused L m k h"
  using assms(1,3) relevant_Ok(3) [OF assms(2)] unfolding kernel_unused_def by fastforce

lemma guar_garbageCollect:
  assumes M: "getRelevantKernelMappingsAndNodes L m (filter isNodeSchedulable nodes) = Ok (M, ns)"
  shows "guar (\<lambda>h. ds_map_ok L M dsm h \<and> nodes_listed L m nodes h) (module_event L m) (garbageCollect L m M dsm)
    (\<lambda>_. nodes_listed L m nodes) (\<lambda>_ _. True)"
proof -
  let ?I = "\<lambda>h. ds_map_ok L M dsm h \<and> nodes_listed L m nodes h"
  let ?F = "\<lambda>e. is_read e \<or> (\<exists>k ds. e = Write (DeleteDaemonSet ds) \<and> (k, ds) \<in> set dsm \<and> ds_kernel ds \<noteq> '''' \<and> k \<notin> fst ` set M)"
  have I: "?I h \<Longrightarrow> ?I (h @ h')" for h h' by (auto intro: ds_map_ok_append nodes_listed_append)
  have ds: "guar ?I (module_event L m) (GarbageCollect L dsm (map fst M)) (\<lambda>_. ?I) (\<lambda>_ _. True)"
  proof (rule guar_weaken [OF guar_emits [where F = ?F and I = ?I]])
    show "emits ?F (GarbageCollect L dsm (map fst M))" by (rule emits_GarbageCollect) auto
    show "module_event L m h e" if h: "?I h" and e: "?F e" for h e
    proof (cases "is_read e")
      case False
      then obtain k ds where e: "e = Write (DeleteDaemonSet ds)" "(k, ds) \<in> set dsm" "ds_kernel ds \<noteq> ''''" "k \<notin> fst ` set M"
        using e by blast
      moreover from this h have "ds_kernel ds = k" "ds_known L h ds" unfolding ds_map_ok_def dsm_known_def by blast+
      ultimately show ?thesis using kernel_unusedI [OF _ M] h by (simp add: module_event_def)
    qed (rule module_event_of_read)
  qed (use I in auto)
  have jobs: "guar ?I (module_event L m) p (\<lambda>_. ?I) (\<lambda>_ _. True)"
    if "guar (\<lambda>_. True) (collect_event L (owner_of_module m)) p (\<lambda>_ _. True) (\<lambda>_ _. True)" for p :: "(op_state, string list) go"
    by (rule guar_weaken [OF guar_frame [OF that, of ?I]])
      (use I in \<open>auto simp: collect_event_def intro: module_event_of_read\<close>)
  show ?thesis
    unfolding garbageCollect_def Let_def
    by (intro guar_check [OF ds] guar_check [OF jobs] build_jobs.guar_Collect sign_jobs.guar_Collect)
      (auto intro: guar_ret)
qed

lemma guar_ModuleUpdateStatus:
  "guar I (module_event L m) (ModuleUpdateStatus L m n1 n2 dsm) (\<lambda>_ _. True) (\<lambda>_ _. True)"
proof -
  let ?m' = "m\<lparr>mod_Status := module_status L m n1 n2 dsm\<rparr>"
  have "emits (\<lambda>e. e = Write (UpdateModuleStatus ?m')) (ModuleUpdateStatus L m n1 n2 dsm)"
    unfolding ModuleUpdateStatus_def Let_def by (intro emits_rules refl)
  then show ?thesis
    by (rule guar_weaken [OF guar_emits [where I = "\<lambda>_. True"]]) (auto simp: module_event_def)
qed

text \<open>The steps after the mappings of the nodes are known.\<close>

lemma guar_reconcile_rest:
  assumes M: "getRelevantKernelMappingsAndNodes L m (filter isNodeSchedulable nodes) = Ok (M, ns)"
  shows "guar (\<lambda>h. nodes_listed L m nodes h) (module_event L m)
      (check (ModuleDaemonSetsByKernelVersion L (om_Name (mod_Meta m)) (om_Namespace (mod_Meta m))) w1
       (\<lambda>dsm. bind_go (loop (range_map (range_order L RangeMldMappings) M) (reconcile_kernel L) dsm)
       (\<lambda>dsm. check (handleDevicePlugin L m) w2 (\<lambda>_. check (garbageCollect L m M dsm) w3
       (\<lambda>_. check (ModuleUpdateStatus L m ns (filter isNodeSchedulable nodes) dsm) w4 ret)))))
      (\<lambda>_ _. True) (\<lambda>_ _. True)"
proof (rule guar_check [OF guar_ModuleDaemonSets [where M = M]])
  fix dsm
  show "guar (\<lambda>h. ds_map_ok L M dsm h \<and> nodes_listed L m nodes h) (module_event L m)
     (bind_go (loop (range_map (range_order L RangeMldMappings) M) (reconcile_kernel L) dsm)
     (\<lambda>dsm. check (handleDevicePlugin L m) w2 (\<lambda>_. check (garbageCollect L m M dsm) w3
     (\<lambda>_. check (ModuleUpdateStatus L m ns (filter isNodeSchedulable nodes) dsm) w4 ret))))
    (\<lambda>_ _. True) (\<lambda>_ _. True)"
  proof (rule guar_bind_go [OF guar_kernel_loop])
    fix dsm'
    let ?I = "\<lambda>h. ds_map_ok L M dsm' h \<and> nodes_listed L m nodes h"
    show "guar ?I (module_event L m)
       (check (handleDevicePlugin L m) w2 (\<lambda>_. check (garbageCollect L m M dsm') w3
       (\<lambda>_. check (ModuleUpdateStatus L m ns (filter isNodeSchedulable nodes) dsm') w4 ret)))
       (\<lambda>_ _. True) (\<lambda>_ _. True)"
      by (rule guar_check [where R = "\<lambda>_. ?I"])
        (auto intro!: guar_weaken [OF guar_handleDevicePlugin [where I = ?I]] nodes_listed_append ds_map_ok_append
          guar_check [OF guar_garbageCollect [OF M]] guar_check [OF guar_ModuleUpdateStatus] guar_ret)
  qed (use relevant_Ok(1) [OF M] nodes_listed_append in auto)
qed (rule nodes_listed_append)

lemma guar_reconcile_module:
  "guar (\<lambda>_. True) (module_event L m) (reconcile_module L m) (\<lambda>_ _. True) (\<lambda>_ _. True)"
proof -
  have list: "guar (\<lambda>_. True) (module_event L m) (getNodesListBySelector L m)
      (\<lambda>tn h. \<exists>nodes. tn = filter isNodeSchedulable nodes \<and> nodes_listed L m nodes h) (\<lambda>_ _. True)"
    unfolding getNodesListBySelector_def
    by (rule guar_check [where R = "\<lambda>nodes h. nodes_listed L m nodes h"], rule guar_call)
      (auto simp: nodes_listed_def intro!: guar_ret)
  show ?thesis
    unfolding reconcile_module_def
  proof (rule guar_check [OF list])
    fix tn
    show "guar (\<lambda>h. \<exists>nodes. tn = filter isNodeSchedulable nodes \<and> nodes_listed L m nodes h) (module_event L m)
     (check (pure_go (getRelevantKernelMappingsAndNodes L m tn)) w0
       (\<lambda>(M, ns). check (ModuleDaemonSetsByKernelVersion L (om_Name (mod_Meta m)) (om_Namespace (mod_Meta m))) w1
       (\<lambda>dsm. bind_go (loop (range_map (range_order L RangeMldMappings) M) (reconcile_kernel L) dsm)
       (\<lambda>dsm. check (handleDevicePlugin L m) w2 (\<lambda>_. check (garbageCollect L m M dsm) w3
       (\<lambda>_. check (ModuleUpdateStatus L m ns tn dsm) w4 ret)))))) (\<lambda>_ _. True) (\<lambda>_ _. True)" for w0 w1 w2 w3 w4
    proof (rule guar_check [where R = "\<lambda>Mn h. \<exists>nodes. tn = filter isNodeSchedulable nodes \<and> nodes_listed L m nodes h \<and>
        getRelevantKernelMappingsAndNodes L m tn = Ok Mn"])
      fix Mn
      show "guar (\<lambda>h. \<exists>nodes. tn = filter isNodeSchedulable nodes \<and> nodes_listed L m nodes h \<and>
          getRelevantKernelMappingsAndNodes L m tn = Ok Mn) (module_event L m)
        (case Mn of (M, ns) \<Rightarrow> check (ModuleDaemonSetsByKernelVersion L (om_Name (mod_Meta m)) (om_Namespace (mod_Meta m))) w1
       (\<lambda>dsm. bind_go (loop (range_map (range_order L RangeMldMappings) M) (reconcile_kernel L) dsm)
       (\<lambda>dsm. check (handleDevicePlugin L m) w2 (\<lambda>_. check (garbageCollect L m M dsm) w3
       (\<lambda>_. check (ModuleUpdateStatus L m ns tn dsm) w4 ret))))) (\<lambda>_ _. True) (\<lambda>_ _. True)"
        using guar_reconcile_rest by (cases Mn) (auto simp: guar_def; blast)
    qed (auto intro: guar_pure_go)
  qed
qed

lemma getRequestedModule_run:
  "getRequestedModule L req s =
     (case cl_GetModule L (history s) req of
        Inl e \<Rightarrow> Err (Wrapf ''failed to get the kmmo module %s: %w'' [AS (nn_Name req)] e)
      | Inr m \<Rightarrow> Ok m, s\<lparr>history := history s @ [Read (GetModule req)]\<rparr>)"
  by (simp add: getRequestedModule_def go_simps split: sum.split)

lemma guar_reconcile_found:
  "guar (\<lambda>_. True) (module_event L m) (bind_go (setKMMOMetrics L) (\<lambda>_. reconcile_module L m)) (\<lambda>_ _. True) (\<lambda>_ _. True)"
proof (rule guar_bind_go [OF _ guar_reconcile_module])
  have "emits is_read (setKMMOMetrics L)"
    unfolding setKMMOMetrics_def by (intro emits_rules) simp
  then show "guar (\<lambda>_. True) (module_event L m) (setKMMOMetrics L) (\<lambda>_ _. True) (\<lambda>_ _. True)"
    by (rule guar_emits) (auto intro: module_event_of_read)
qed

text \<open>Every run: one request for the Module; if it is there, the rest of the calls are \<open>module_event\<close>s.\<close>

lemma Reconcile_trace:
  assumes "Reconcile L req s = (r, t)"
  shows "\<exists>evs. history t = history s @ Read (GetModule req) # evs \<and>
    (case cl_GetModule L (history s) req of
       Inl e \<Rightarrow> evs = [] \<and> (if IsNotFound e then r = Ok () else (\<exists>e'. r = Err e'))
     | Inr m \<Rightarrow> trace_ok (module_event L m) (history s @ [Read (GetModule req)]) evs)"
proof (cases "cl_GetModule L (history s) req")
  case (Inl e)
  with assms show ?thesis
    by (auto simp: Reconcile_def attempt_run getRequestedModule_run ret_run raise_run split: if_splits)
next
  case (Inr m)
  let ?s1 = "s\<lparr>history := history s @ [Read (GetModule req)]\<rparr>"
  from Inr assms have "bind_go (setKMMOMetrics L) (\<lambda>_. reconcile_module L m) ?s1 = (r, t)"
    by (simp add: Reconcile_def attempt_run getRequestedModule_run)
  then obtain evs where "history t = history ?s1 @ evs" "trace_ok (module_event L m) (history ?s1) evs"
    by (rule guarD [OF guar_reconcile_found TrueI])
  with Inr show ?thesis by auto
qed

lemma Reconcile_write:
  assumes "Reconcile L req s = (r, t)" and "history t = xs @ Write w # ys" and "length (history s) \<le> length xs"
  obtains m where "cl_GetModule L (history s) req = Inr m" and "module_event L m xs (Write w)"
proof -
  obtain evs where evs: "history t = history s @ Read (GetModule req) # evs"
    and cases: "case cl_GetModule L (history s) req of
       Inl e \<Rightarrow> evs = [] \<and> (if IsNotFound e then r = Ok () else (\<exists>e'. r = Err e'))
     | Inr m \<Rightarrow> trace_ok (module_event L m) (history s @ [Read (GetModule req)]) evs"
    using Reconcile_trace [OF assms(1)] by blast
  obtain zs where xs: "xs = history s @ zs" and zs: "zs @ Write w # ys = Read (GetModule req) # evs"
    using assms(2,3) evs by (auto simp: append_eq_append_conv2)
  then obtain zs' where zs': "zs = Read (GetModule req) # zs'" and evs': "evs = zs' @ Write w # ys"
    by (cases zs) auto
  with cases obtain m where m: "cl_GetModule L (history s) req = Inr m"
    and "trace_ok (module_event L m) (history s @ [Read (GetModule req)]) evs"
    by (auto split: sum.splits)
  then have "module_event L m ((history s @ [Read (GetModule req)]) @ zs') (Write w)"
    unfolding trace_ok_nth evs' by blast
  with that m show ?thesis by (simp add: xs zs')
qed

lemma reconcile_module_Ok:
  assumes "reconcile_module L m s = (Ok (), t)"
  obtains n1 n2 dsm s' where "ModuleUpdateStatus L m n1 n2 dsm s' = (Ok (), t)"
  using assms unfolding reconcile_module_def
  by (auto simp: check_run bind_go_run ret_run split: prod.splits res.splits)

text \<open>A run of the controller in the sample cluster, for the examples below.\<close>

lemma sample_mld_run:
  "GetModuleLoaderDataForKernel (module_cluster m dss) (sample_module [sample_mapping None None]) ''5.4.0-gke'' =
     Ok (sample_mld None None)"
  by (simp add: GetModuleLoaderDataForKernel_def prepareModuleLoaderData_def replaceTemplates_def
      KernelComponentsAsEnvVars_eq is_kernel_sep_def Let_def owner_of_module_def module_cluster_def sample_defs)

lemma module_cluster_sel:
  "cl_GetModule (module_cluster m dss) h n = Inr m" "cl_ListModules (module_cluster m dss) h = Inr []"
  "cl_ListNodes (module_cluster m dss) h sel = Inr [sample_node ''n1'' ''5.4.0-gke'']"
  "cl_ListDaemonSets (module_cluster m dss) h ns sel = Inr dss"
  "cl_GetDaemonSet (module_cluster m dss) h n = Inl (NotFound ''daemonset'')"
  "cl_CreateDaemonSet (module_cluster m dss) h d = Inr d" "cl_ListJobs (module_cluster m dss) h ns sel = Inr []"
  "cl_Write (module_cluster m dss) h w = Inr ()" "range_order (module_cluster m dss) site ks = ks"
  by (simp_all add: module_cluster_def empty_cluster_def)

lemma sample_driver:
  "\<exists>ds. SetDriverContainerAsDesired (module_cluster m dss) (Some (zero_DaemonSet\<lparr>ds_Meta := zero_ObjectMeta\<lparr>
     om_Namespace := ''ns'', om_GenerateName := ''mod-''\<rparr>\<rparr>)) (sample_mld None None) = Ok ds"
  by (simp add: SetDriverContainerAsDesired_def Let_def ds_with_owner_def module_cluster_def sample_defs zero_ObjectMeta_def)

lemma sample_reconcile:
  "\<exists>xs ds ys t. Reconcile (module_cluster (sample_module [sample_mapping None None]) []) sample_request fresh_state = (Ok (), t) \<and>
     history t = xs @ Write (CreateDaemonSet ds) # ys \<and> ds_role ds = ''module-loader'' \<and> ds_kernel ds = ''5.4.0-gke''"
proof -
  let ?m = "sample_module [sample_mapping None None]"
  let ?L = "module_cluster ?m []"
  let ?n = "sample_node ''n1'' ''5.4.0-gke''"
  obtain ds where ds: "SetDriverContainerAsDesired ?L (Some (zero_DaemonSet\<lparr>ds_Meta := zero_ObjectMeta\<lparr>
     om_Namespace := ''ns'', om_GenerateName := ''mod-''\<rparr>\<rparr>)) (sample_mld None None) = Ok ds"
    using sample_driver by blast
  have rel: "getRelevantKernelMappingsAndNodes ?L ?m [?n] = Ok ([(''5.4.0-gke'', sample_mld None None)], [?n])"
    using sample_mld_run [of ?m "[]"]
    by (simp add: getRelevantKernelMappingsAndNodes_def node_kernel_def TrimSuffix_def HasSuffix_def
        sample_node_def Let_def)
  have sched: "isNodeSchedulable ?n" by (simp add: isNodeSchedulable_def sample_node_def)
  have mld: "mld_Build (sample_mld None None) = None" "mld_Sign (sample_mld None None) = None"
    "mld_KernelVersion (sample_mld None None) = ''5.4.0-gke''" "mld_Namespace (sample_mld None None) = ''ns''"
    "mld_Name (sample_mld None None) = ''mod''"
    by (simp_all add: sample_mld_def)
  define g where "g s = (gauges s)\<lparr>kmmoCompletedStage := mput (kmmoCompletedStage (gauges s))
     (''mod'', ''ns'', ''5.4.0-gke'', ModuleLoaderStage) False\<rparr>" for s :: op_state
  have kernel: "reconcile_kernel ?L (''5.4.0-gke'', sample_mld None None) [] s =
      (Ok [], s\<lparr>history := history s @ [Read (GetDaemonSet \<lparr>nn_Namespace = ''ns'', nn_Name = ''''\<rparr>), Write (CreateDaemonSet ds)],
        gauges := g s\<rparr>)" for s
    by (simp add: reconcile_kernel_def handleBuild_def handleSigning_def BuildShouldSync_def SignShouldSync_def
        ShouldBeBuilt_def ShouldBeSigned_def handleDriverContainer_def CreateOrPatchDaemonSet_def CreateOrPatch_def
        get_DaemonSet_def SetCompletedStage_def mld ds [unfolded zero_ObjectMeta_def, simplified] Let_def go_simps
        module_cluster_sel g_def zero_ObjectMeta_def)
  have m: "spec_DevicePlugin (mod_Spec ?m) = None" by (simp add: sample_module_def sample_spec_def)
  have "\<exists>t. Reconcile ?L sample_request fresh_state = (Ok (), t) \<and> Write (CreateDaemonSet ds) \<in> set (history t)"
    by (simp add: Reconcile_def getRequestedModule_run setKMMOMetrics_def SetExistingKMMOModules_def
        reconcile_module_def getNodesListBySelector_def rel sched ModuleDaemonSets_run range_map_def range_keys_def
        kernel handleDevicePlugin_def m garbageCollect_def GarbageCollect_def BuildGarbageCollect_def
        SignGarbageCollect_def filterJobsByOwner_def ModuleUpdateStatus_def updateMetrics_def Let_def go_simps
        module_cluster_sel fresh_state_def)
  then obtain xs ys t where "Reconcile ?L sample_request fresh_state = (Ok (), t)"
    and "history t = xs @ Write (CreateDaemonSet ds) # ys" using split_list by fast
  moreover have "ds_role ds = ''module-loader''" "ds_kernel ds = ''5.4.0-gke''"
    using SetDriver_fields [OF ds] by (simp_all add: ds_role_def mld)
  ultimately show ?thesis by blast
qed
lemma sample_gc_reconcile:
  "\<exists>t. Reconcile (module_cluster (sample_module []) [sample_ds ''old'' ''4.0'']) sample_request fresh_state = (Ok (), t) \<and>
     Write (DeleteDaemonSet (sample_ds ''old'' ''4.0'')) \<in> set (history t)"
proof -
  let ?m = "sample_module []"
  let ?L = "module_cluster ?m [sample_ds ''old'' ''4.0'']"
  let ?n = "sample_node ''n1'' ''5.4.0-gke''"
  have "\<exists>e. GetModuleLoaderDataForKernel ?L ?m ''5.4.0-gke'' = Err e"
    by (simp add: GetModuleLoaderDataForKernel_def sample_module_def sample_spec_def)
  then have rel: "getRelevantKernelMappingsAndNodes ?L ?m [?n] = Ok ([], [])"
    by (auto simp: getRelevantKernelMappingsAndNodes_def node_kernel_def TrimSuffix_def HasSuffix_def
        sample_node_def Let_def)
  have sched: "isNodeSchedulable ?n" by (simp add: isNodeSchedulable_def sample_node_def)
  have m: "spec_DevicePlugin (mod_Spec ?m) = None" by (simp add: sample_module_def sample_spec_def)
  have k: "mget (om_Labels (ds_Meta (sample_ds ''old'' ''4.0''))) KernelLabel = ''4.0''"
    by (simp add: sample_ds_def zero_DaemonSet_def label_defs)
  show ?thesis
    by (simp add: Reconcile_def getRequestedModule_run setKMMOMetrics_def SetExistingKMMOModules_def
        reconcile_module_def getNodesListBySelector_def rel sched ModuleDaemonSets_run range_map_def range_keys_def
        handleDevicePlugin_def m garbageCollect_def GarbageCollect_def gc_ds_body_def isDevicePluginDaemonSet_def k
        BuildGarbageCollect_def SignGarbageCollect_def filterJobsByOwner_def ModuleUpdateStatus_def updateMetrics_def
        update_metric_def SetCompletedStage_def Let_def go_simps module_cluster_sel fresh_state_def)
qed

section \<open>Properties\<close>

text \<open>
  C1. No module loader runs before its image is ready.  Whenever a reconciliation creates or patches a
  DaemonSet of the module loader, whatever the cluster and the registry answer: the DaemonSet runs the
  image that the Module gives for the DaemonSet's kernel; and by the calls made before, the image need
  not be built, or the registry has answered for it, or the one build job that the Module controls for
  this kernel carries the hash of the current build specification and has succeeded; and the same for
  signing.
\<close>

theorem Reconcile_loads_only_ready_images:
  assumes "Reconcile L req s = (r, t)" and "history t = xs @ Write w # ys" and "length (history s) \<le> length xs"
    and "w = CreateDaemonSet ds \<or> w = PatchDaemonSet old ds" and "ds_role ds \<noteq> ''device-plugin''"
  shows "\<exists>m mld. cl_GetModule L (history s) req = Inr m \<and>
     GetModuleLoaderDataForKernel L m (ds_kernel ds) = Ok mld \<and>
     map c_Image (ps_Containers (pt_Spec (ds_Template ds))) = [mld_ContainerImage mld] \<and>
     build_ready L mld xs \<and> sign_ready L mld xs"
proof -
  obtain m where m: "cl_GetModule L (history s) req = Inr m" and "module_event L m xs (Write w)"
    by (rule Reconcile_write [OF assms(1-3)])
  then have "driver_ready L m xs ds" using assms(4,5) by (auto simp: module_event_def wanted_ds_def)
  with m show ?thesis unfolding driver_ready_def by auto
qed

theorem Reconcile_loads_only_ready_images_witness:
  "\<exists>t xs ds ys mld. Reconcile (module_cluster (sample_module [sample_mapping None None]) []) sample_request fresh_state = (Ok (), t) \<and>
     history t = xs @ Write (CreateDaemonSet ds) # ys \<and>
     build_ready (module_cluster (sample_module [sample_mapping None None]) []) mld xs"
proof -
  obtain xs ds ys t where run: "Reconcile (module_cluster (sample_module [sample_mapping None None]) []) sample_request fresh_state = (Ok (), t)"
    and h: "history t = xs @ Write (CreateDaemonSet ds) # ys" and role: "ds_role ds = ''module-loader''"
    using sample_reconcile by blast
  have "length (history fresh_state) \<le> length xs" "CreateDaemonSet ds = CreateDaemonSet ds \<or> CreateDaemonSet ds = PatchDaemonSet ds ds"
    "ds_role ds \<noteq> ''device-plugin''"
    by (simp_all add: fresh_state_def role)
  from Reconcile_loads_only_ready_images [OF run h this] run h show ?thesis by auto
qed

text \<open>
  C2. A reconciliation never takes the module away from a node that should have it: whenever it deletes
  a DaemonSet, that DaemonSet carries a kernel label (so it is not the device plugin), and on the list
  of nodes answered before, no schedulable node that the selector matches and that runs this kernel has
  a usable mapping in the Module.
\<close>

theorem Reconcile_deletes_only_stale_DaemonSets:
  assumes "Reconcile L req s = (r, t)" and "history t = xs @ Write (DeleteDaemonSet ds) # ys"
    and "length (history s) \<le> length xs"
  shows "\<exists>m nodes zs zs'. cl_GetModule L (history s) req = Inr m \<and> ds_kernel ds \<noteq> '''' \<and>
     xs = zs @ Read (ListNodes (spec_Selector (mod_Spec m))) # zs' \<and>
     cl_ListNodes L zs (spec_Selector (mod_Spec m)) = Inr nodes \<and>
     (\<forall>n \<in> set nodes. isNodeSchedulable n \<longrightarrow> TrimSuffix (node_KernelVersion n) ''+'' = ds_kernel ds \<longrightarrow>
        (\<exists>e. GetModuleLoaderDataForKernel L m (ds_kernel ds) = Err e))"
proof -
  obtain m where m: "cl_GetModule L (history s) req = Inr m" and "module_event L m xs (Write (DeleteDaemonSet ds))"
    by (rule Reconcile_write [OF assms])
  then have "ds_kernel ds \<noteq> ''''" "kernel_unused L m (ds_kernel ds) xs" by (simp_all add: module_event_def)
  with m show ?thesis unfolding kernel_unused_def nodes_listed_def node_kernel_def by blast
qed

theorem Reconcile_deletes_only_stale_DaemonSets_witness:
  "\<exists>t xs ys. Reconcile (module_cluster (sample_module []) [sample_ds ''old'' ''4.0'']) sample_request fresh_state = (Ok (), t) \<and>
     history t = xs @ Write (DeleteDaemonSet (sample_ds ''old'' ''4.0'')) # ys \<and> ds_kernel (sample_ds ''old'' ''4.0'') \<noteq> ''''"
proof -
  obtain xs ys t where run: "Reconcile (module_cluster (sample_module []) [sample_ds ''old'' ''4.0'']) sample_request fresh_state = (Ok (), t)"
    and h: "history t = xs @ Write (DeleteDaemonSet (sample_ds ''old'' ''4.0'')) # ys"
    using sample_gc_reconcile split_list by fast
  have "length (history fresh_state) \<le> length xs" by (simp add: fresh_state_def)
  from Reconcile_deletes_only_stale_DaemonSets [OF run h this] run h show ?thesis by auto
qed

text \<open>
  What a reconciliation writes at all: DaemonSets of the module loader and of the device plugin,
  jobs labelled with the Module in its namespace, deletions of stale DaemonSets and of jobs the Module
  controls, and the status of the Module itself with its specification untouched.  It never writes to
  nodes, pods or any other resource.  If the Module is not found it writes nothing and reports success.
\<close>

theorem Reconcile_writes_only_its_own:
  assumes "Reconcile L req s = (r, t)"
  shows "\<exists>evs. history t = history s @ evs \<and>
     (case cl_GetModule L (history s) req of
        Inl e \<Rightarrow> writes evs = [] \<and> (IsNotFound e \<longrightarrow> r = Ok ())
      | Inr m \<Rightarrow> \<forall>w \<in> set (writes evs). own_write L m w)"
proof -
  obtain evs where evs: "history t = history s @ Read (GetModule req) # evs"
    and cases: "case cl_GetModule L (history s) req of
       Inl e \<Rightarrow> evs = [] \<and> (if IsNotFound e then r = Ok () else (\<exists>e'. r = Err e'))
     | Inr m \<Rightarrow> trace_ok (module_event L m) (history s @ [Read (GetModule req)]) evs"
    using Reconcile_trace [OF assms] by blast
  show ?thesis
  proof (intro exI conjI)
    show "history t = history s @ (Read (GetModule req) # evs)" by (fact evs)
    show "case cl_GetModule L (history s) req of
        Inl e \<Rightarrow> writes (Read (GetModule req) # evs) = [] \<and> (IsNotFound e \<longrightarrow> r = Ok ())
      | Inr m \<Rightarrow> \<forall>w \<in> set (writes (Read (GetModule req) # evs)). own_write L m w"
    proof (cases "cl_GetModule L (history s) req")
      case (Inr m)
      have "\<exists>h. module_event L m h (Write w)" if "w \<in> set (writes evs)" for w
      proof -
        from that obtain us vs where "evs = us @ Write w # vs" unfolding in_writes_iff by (auto dest: split_list)
        with cases Inr show ?thesis by (auto simp: trace_ok_nth)
      qed
      with Inr show ?thesis
        by (auto intro: module_event_own)
    qed (use cases in \<open>auto split: if_splits\<close>)
  qed
qed

theorem Reconcile_writes_only_its_own_witness:
  "\<exists>t. Reconcile empty_cluster sample_request fresh_state = (Ok (), t) \<and> writes (history t) = []"
proof -
  obtain r t where run: "Reconcile empty_cluster sample_request fresh_state = (r, t)" by fastforce
  from Reconcile_writes_only_its_own [OF run] have "r = Ok ()" "writes (history t) = []"
    by (auto simp: empty_cluster_def fresh_state_def)
  with run show ?thesis by blast
qed

text \<open>
  A reconciliation that reports success has come to its end: its last call is the update of the
  Module's status, and the server has accepted it.
\<close>

theorem Reconcile_success_updates_status:
  assumes "Reconcile L req s = (Ok (), t)" and "cl_GetModule L (history s) req = Inr m"
  shows "\<exists>h m'. history t = h @ [Write (UpdateModuleStatus m')] \<and>
     cl_Write L h (UpdateModuleStatus m') = Inr () \<and> mod_Spec m' = mod_Spec m"
proof -
  obtain s1 where "reconcile_module L m s1 = (Ok (), t)"
    using assms by (auto simp: Reconcile_def attempt_run getRequestedModule_run bind_go_run split: prod.splits res.splits)
  then obtain n1 n2 dsm s' where last: "ModuleUpdateStatus L m n1 n2 dsm s' = (Ok (), t)"
    by (rule reconcile_module_Ok)
  let ?m' = "m\<lparr>mod_Status := module_status L m n1 n2 dsm\<rparr>"
  obtain g where "updateMetrics L ?m' dsm s' = (Ok (), s'\<lparr>gauges := g\<rparr>)" using updateMetrics_run by blast
  with last have "history t = history s' @ [Write (UpdateModuleStatus ?m')] \<and>
      cl_Write L (history s') (UpdateModuleStatus ?m') = Inr () \<and> mod_Spec ?m' = mod_Spec m"
    by (auto simp: ModuleUpdateStatus_def Let_def bind_go_run do_write_run)
  then show ?thesis by blast
qed

theorem Reconcile_success_updates_status_witness:
  "\<exists>t h m'. Reconcile (module_cluster (sample_module [sample_mapping None None]) []) sample_request fresh_state = (Ok (), t) \<and>
     history t = h @ [Write (UpdateModuleStatus m')]"
proof -
  obtain t where run: "Reconcile (module_cluster (sample_module [sample_mapping None None]) []) sample_request fresh_state = (Ok (), t)"
    using sample_reconcile by blast
  from Reconcile_success_updates_status [OF run module_cluster_sel(1)] run show ?thesis by blast
qed

end
