(* ===== verification/Preflight.thy ===== *)
theory Preflight
  imports Status_Updater
begin

text \<open>
  \<open>internal/preflight/preflight.go\<close> and \<open>controllers/preflightvalidation_reconciler.go\<close>: before a
  cluster is upgraded to a kernel, a PreflightValidation asks for every Module whether its image
  for that kernel is there or can be built and signed.  The message of a verdict is a format and its
  arguments; the PreflightValidation is passed along because every status update replaces it.
\<close>

section \<open>Verdicts\<close>

definition VerificationStatusReasonVerified :: string where
  "VerificationStatusReasonVerified =
     ''Verification successful (%s), this Module will not be verified again in this Preflight CR''"

definition owner_of_preflight :: "PreflightValidation \<Rightarrow> Owner" where
  "owner_of_preflight pv = \<lparr>own_Kind = ''PreflightValidation'', own_Meta = pv_Meta pv\<rparr>"

definition message :: "string \<Rightarrow> fmt_arg list \<Rightarrow> Message" where
  "message f as = \<lparr>msg_Format = f, msg_Args = as\<rparr>"

text \<open>The loop over the layers, from the last one to the first.\<close>

fun verify_layers ::
  "env \<Rightarrow> ModuleLoaderData \<Rightarrow> RepoPullConfig \<Rightarrow> string list \<Rightarrow> (op_state, bool \<times> Message) go" where
  "verify_layers L mld repoConfig [] =
     ret (False, message ''image %s does not contain kernel module for kernel %s on any layer''
       [AS (mld_ContainerImage mld), AS (mld_KernelVersion mld)])"
| "verify_layers L mld repoConfig (digest # digests) =
     attempt (GetLayerByDigest L digest repoConfig) (\<lambda>r. case r of
       Inl e \<Rightarrow> ret (False, message ''image %s, layer %s is inaccessible'' [AS (mld_ContainerImage mld), AS digest])
     | Inr layer \<Rightarrow>
         if VerifyModuleExists L layer (mp_DirName (mld_Modprobe mld)) (mld_KernelVersion mld)
              (mp_ModuleName (mld_Modprobe mld) @ ''.ko'')
         then ret (True, message VerificationStatusReasonVerified [AS ''image accessible and verified''])
         else verify_layers L mld repoConfig digests)"

definition verifyImage :: "env \<Rightarrow> ModuleLoaderData \<Rightarrow> (op_state, bool \<times> Message) go" where
  "verifyImage L mld =
     attempt (GetLayersDigests L (mld_ContainerImage mld) (mld_RegistryTLS mld) (NewRegistryAuthGetterFrom mld))
       (\<lambda>r. case r of
          Inl e \<Rightarrow> ret (False, message ''image %s inaccessible or does not exists'' [AS (mld_ContainerImage mld)])
        | Inr (digests, repoConfig) \<Rightarrow> verify_layers L mld repoConfig (rev digests))"

definition verifyBuild :: "env \<Rightarrow> PreflightValidation \<Rightarrow> ModuleLoaderData \<Rightarrow> (op_state, bool \<times> Message) go" where
  "verifyBuild L pv mld =
     attempt (BuildSync L mld (pvs_PushBuiltImage (pv_Spec pv)) (owner_of_preflight pv)) (\<lambda>r. case r of
       Inl e \<Rightarrow> ret (False, message ''Failed to verify build for module %s, kernel version %s, error %s''
         [AS (mld_Name mld), AS (pvs_KernelVersion (pv_Spec pv)), AE e])
     | Inr buildStatus \<Rightarrow>
         if buildStatus = StatusCompleted
         then ret (True, message VerificationStatusReasonVerified
           [AS (''build compiles'' @ (if pvs_PushBuiltImage (pv_Spec pv) then '' and image pushed'' else ''''))])
         else ret (False, message ''Waiting for build verification'' []))"

definition verifySign :: "env \<Rightarrow> PreflightValidation \<Rightarrow> ModuleLoaderData \<Rightarrow> (op_state, bool \<times> Message) go" where
  "verifySign L pv mld =
     (let previousImage = (if ShouldBeBuilt mld
            then IntermediateImageName (mld_Name mld) (mld_Namespace mld) (mld_ContainerImage mld) else '''')
      in attempt (SignSync L mld previousImage (pvs_PushBuiltImage (pv_Spec pv)) (owner_of_preflight pv)) (\<lambda>r. case r of
       Inl e \<Rightarrow> ret (False, message ''Failed to verify signing for module %s, kernel version %s, error %s''
         [AS (mld_Name mld), AS (pvs_KernelVersion (pv_Spec pv)), AE e])
     | Inr signStatus \<Rightarrow>
         if signStatus = StatusCompleted
         then ret (True, message VerificationStatusReasonVerified
           [AS (''sign completes'' @ (if pvs_PushBuiltImage (pv_Spec pv) then '' and image pushed'' else ''''))])
         else ret (False, message ''Waiting for sign verification'' [])))"

text \<open>
  The errors of the stage updates are only logged.  The verdict after the signing step is the one of
  the last step that ran: of the image if neither building nor signing applies.
\<close>

definition PreflightUpgradeCheck ::
  "env \<Rightarrow> PreflightValidation \<Rightarrow> Module \<Rightarrow> (op_state, PreflightValidation \<times> bool \<times> Message) go" where
  "PreflightUpgradeCheck L pv m =
     (let kernelVersion = pvs_KernelVersion (pv_Spec pv) in
      attempt (pure_go (GetModuleLoaderDataForKernel L m kernelVersion)) (\<lambda>r. case r of
        Inl e \<Rightarrow> ret (pv, False, message ''failed to process kernel mapping in the module %s for kernel version %s''
          [AS (om_Name (mod_Meta m)), AS kernelVersion])
      | Inr mld \<Rightarrow>
          bind_go (PreflightSetVerificationStage L pv (mld_Name mld) VerificationStageImage) (\<lambda>(pv1, _).
          bind_go (verifyImage L mld) (\<lambda>(verified, msg).
          if verified then ret (pv1, True, msg)
          else
            bind_go (if ShouldBeBuilt mld
              then bind_go (PreflightSetVerificationStage L pv1 (mld_Name mld) VerificationStageBuild) (\<lambda>(pv2, _).
                   bind_go (verifyBuild L pv2 mld) (\<lambda>(verified, msg). ret (pv2, verified, msg, \<not> verified)))
              else ret (pv1, verified, msg, False)) (\<lambda>(pv2, verified, msg, stop).
            if stop then ret (pv2, False, msg)
            else if ShouldBeSigned mld
              then bind_go (PreflightSetVerificationStage L pv2 (mld_Name mld) VerificationStageSign) (\<lambda>(pv3, _).
                   bind_go (verifySign L pv3 mld) (\<lambda>(verified, msg). ret (pv3, verified, msg)))
              else ret (pv2, verified, msg))))))"

section \<open>The controller\<close>

definition presetModulesStatuses :: "env \<Rightarrow> PreflightValidation \<Rightarrow> Module list \<Rightarrow> (op_state, pv_result) go" where
  "presetModulesStatuses L pv modules =
     (let pv = (if pv_CRStatuses pv = None then pv\<lparr>pv_CRStatuses := Some []\<rparr> else pv);
          existing = filter (\<lambda>m. om_DeletionTimestamp (mod_Meta m) = None) modules;
          existingModulesName = map (\<lambda>m. om_Name (mod_Meta m)) existing;
          newModulesNames = filter (\<lambda>n. map_of (crs pv) n = None) existingModulesName
      in PreflightPresetStatuses L pv existingModulesName newModulesNames)"

text \<open>
  The statuses are pointers: reading the status of a Module that has no entry panics.
\<close>

fun modules_to_check :: "PreflightValidation \<Rightarrow> Module list \<Rightarrow> Module list res" where
  "modules_to_check pv [] = Ok []"
| "modules_to_check pv (m # ms) =
     (if om_DeletionTimestamp (mod_Meta m) \<noteq> None then modules_to_check pv ms
      else case map_of (crs pv) (om_Name (mod_Meta m)) of
          None \<Rightarrow> Panic
        | Some st \<Rightarrow> check_res (modules_to_check pv ms) (\<lambda>e. e)
            (\<lambda>rest. Ok (if crs_VerificationStatus st \<noteq> VerificationTrue then m # rest else rest)))"

definition getModulesToCheck :: "env \<Rightarrow> PreflightValidation \<Rightarrow> (op_state, PreflightValidation \<times> Module list) go" where
  "getModulesToCheck L pv =
     check (call (Read ListModules) (\<lambda>h. cl_ListModules L h))
       (\<lambda>e. Wrapf ''failed to get list of all Modules: %w'' [] e)
       (\<lambda>modulesList.
     bind_go (presetModulesStatuses L pv modulesList) (\<lambda>(pv1, err).
       case err of
         Some e \<Rightarrow> raise (Wrapf ''failed to preset new modules' statuses: %w'' [] e)
       | None \<Rightarrow> bind_go (pure_go (modules_to_check pv1 modulesList)) (\<lambda>ms. ret (pv1, ms))))"

definition updatePreflightStatus ::
  "env \<Rightarrow> PreflightValidation \<Rightarrow> string \<Rightarrow> Message \<Rightarrow> bool \<Rightarrow> (op_state, PreflightValidation) go" where
  "updatePreflightStatus L pv moduleName msg verified =
     (let verificationStatus = (if verified then VerificationTrue else VerificationFalse);
          verificationStage = (if verified then VerificationStageDone else VerificationStageRequeued)
      in bind_go (PreflightSetVerificationStatus L pv moduleName verificationStatus msg) (\<lambda>(pv1, _).
         bind_go (PreflightSetVerificationStage L pv1 moduleName verificationStage) (\<lambda>(pv2, _). ret pv2)))"

definition checkPreflightCompletion :: "env \<Rightarrow> string \<Rightarrow> string \<Rightarrow> (op_state, bool) go" where
  "checkPreflightCompletion L name namespace =
     (let nn = \<lparr>nn_Namespace = namespace, nn_Name = name\<rparr> in
      check (call (Read (GetPreflightValidation nn)) (\<lambda>h. cl_GetPreflightValidation L h nn))
        (\<lambda>e. Wrapf ''failed to get preflight validation object in checkPreflightCompletion: %w'' [] e)
        (\<lambda>pv. ret (list_all (\<lambda>kv. crs_VerificationStatus (snd kv) = VerificationTrue)
           (range_map (range_order L RangeCRStatuses) (crs pv)))))"

definition preflight_body :: "env \<Rightarrow> Module \<Rightarrow> PreflightValidation \<Rightarrow> (op_state, PreflightValidation) go" where
  "preflight_body L m pv =
     bind_go (PreflightUpgradeCheck L pv m) (\<lambda>(pv1, verified, msg).
       updatePreflightStatus L pv1 (om_Name (mod_Meta m)) msg verified)"

definition runPreflightValidation :: "env \<Rightarrow> PreflightValidation \<Rightarrow> (op_state, bool) go" where
  "runPreflightValidation L pv =
     check (getModulesToCheck L pv)
       (\<lambda>e. Wrapf ''failed to get list of modules to check for preflight: %w'' [] e)
       (\<lambda>(pv1, modulesToCheck).
     bind_go (loop modulesToCheck (preflight_body L) pv1)
       (\<lambda>pv2. checkPreflightCompletion L (om_Name (pv_Meta pv2)) (om_Namespace (pv_Meta pv2))))"

definition reconcileRequeueInSeconds :: nat where
  "reconcileRequeueInSeconds = 180"

text \<open>The result is the delay after which the request comes back; \<open>0\<close> is the empty \<open>ctrl.Result\<close>.\<close>

definition PreflightReconcile :: "env \<Rightarrow> NamespacedName \<Rightarrow> (op_state, nat) go" where
  "PreflightReconcile L req =
     attempt (call (Read (GetPreflightValidation req)) (\<lambda>h. cl_GetPreflightValidation L h req)) (\<lambda>r. case r of
       Inl e \<Rightarrow> if IsNotFound e then ret 0 else raise e
     | Inr pv \<Rightarrow> bind_go (runPreflightValidation L pv)
         (\<lambda>reconCompleted. ret (if reconCompleted then 0 else reconcileRequeueInSeconds)))"

section \<open>What the API server is relied on for\<close>

text \<open>
  The status endpoint stores the status it is sent and leaves metadata and specification alone: the
  answer to an accepted update is the object that was sent.
\<close>

definition status_stored :: "env \<Rightarrow> bool" where
  "status_stored L \<longleftrightarrow> (\<forall>h pv pv'. cl_UpdatePreflightStatus L h pv = Inr pv' \<longrightarrow> pv' = pv)"

text \<open>A request for an object is answered with the object of that name and namespace.\<close>

definition pv_key :: "PreflightValidation \<Rightarrow> NamespacedName" where
  "pv_key pv = \<lparr>nn_Namespace = om_Namespace (pv_Meta pv), nn_Name = om_Name (pv_Meta pv)\<rparr>"

definition asked_for :: "env \<Rightarrow> history \<Rightarrow> NamespacedName \<Rightarrow> bool" where
  "asked_for L h req \<longleftrightarrow> (\<forall>pv. cl_GetPreflightValidation L h req = Inr pv \<longrightarrow> pv_key pv = req)"

definition pv_same :: "PreflightValidation \<Rightarrow> PreflightValidation \<Rightarrow> bool" where
  "pv_same pv pv' \<longleftrightarrow> pv_Meta pv' = pv_Meta pv \<and> pv_Spec pv' = pv_Spec pv"

text \<open>A layer of the image has been pulled that contains the module's file for the kernel.\<close>

definition image_verified :: "env \<Rightarrow> ModuleLoaderData \<Rightarrow> history \<Rightarrow> bool" where
  "image_verified L mld h \<longleftrightarrow> manifest_seen L (mld_ContainerImage mld) h \<and> (\<exists>h1 h2 ref opts layer.
     h = h1 @ Read (CranePullLayer ref opts) # h2 \<and> cr_PullLayer L h1 ref opts = Inr layer \<and>
     VerifyModuleExists L layer (mp_DirName (mld_Modprobe mld)) (mld_KernelVersion mld)
       (mp_ModuleName (mld_Modprobe mld) @ ''.ko''))"

definition pf_build_ok :: "env \<Rightarrow> PreflightValidation \<Rightarrow> ModuleLoaderData \<Rightarrow> history \<Rightarrow> bool" where
  "pf_build_ok L pv mld h \<longleftrightarrow> job_completed L JobTypeBuild
     (build_made L mld '''' (pvs_PushBuiltImage (pv_Spec pv)) (owner_of_preflight pv)) mld (owner_of_preflight pv) h"

definition pf_sign_ok :: "env \<Rightarrow> PreflightValidation \<Rightarrow> ModuleLoaderData \<Rightarrow> history \<Rightarrow> bool" where
  "pf_sign_ok L pv mld h \<longleftrightarrow> job_completed L JobTypeSign
     (sign_made L mld (if ShouldBeBuilt mld
         then IntermediateImageName (mld_Name mld) (mld_Namespace mld) (mld_ContainerImage mld) else '''')
       (pvs_PushBuiltImage (pv_Spec pv)) (owner_of_preflight pv)) mld (owner_of_preflight pv) h"

definition preflight_ok :: "env \<Rightarrow> PreflightValidation \<Rightarrow> ModuleLoaderData \<Rightarrow> history \<Rightarrow> bool" where
  "preflight_ok L pv mld h \<longleftrightarrow> image_verified L mld h \<or>
     (ShouldBeBuilt mld \<or> ShouldBeSigned mld) \<and>
     (ShouldBeBuilt mld \<longrightarrow> pf_build_ok L pv mld h) \<and> (ShouldBeSigned mld \<longrightarrow> pf_sign_ok L pv mld h)"

text \<open>
  What a preflight run may call, for Modules from a given set: the status of the PreflightValidation,
  jobs for one of the Modules and the kernel of the PreflightValidation that belong to the latter, and
  deletions of jobs that were on a list and that the PreflightValidation controls.
\<close>

definition preflight_job :: "env \<Rightarrow> PreflightValidation \<Rightarrow> Module set \<Rightarrow> Job \<Rightarrow> bool" where
  "preflight_job L pv M j \<longleftrightarrow> (\<exists>m mld jt. m \<in> M \<and>
     GetModuleLoaderDataForKernel L m (pvs_KernelVersion (pv_Spec pv)) = Ok mld \<and> jt \<in> {JobTypeBuild, JobTypeSign} \<and>
     om_Labels (job_Meta j) = job_labels_of jt mld \<and> om_Namespace (job_Meta j) = mld_Namespace mld \<and>
     SetControllerReference L (owner_of_preflight pv) [] = Inr (om_OwnerReferences (job_Meta j)))"

definition preflight_event :: "env \<Rightarrow> PreflightValidation \<Rightarrow> Module set \<Rightarrow> history \<Rightarrow> event \<Rightarrow> bool" where
  "preflight_event L pv M h e =
     (case e of Read _ \<Rightarrow> True | Write w \<Rightarrow>
       (case w of
          UpdatePreflightStatus pv' \<Rightarrow> pv_same pv pv'
        | CreateJob j \<Rightarrow> preflight_job L pv M j
        | DeleteJob j \<Rightarrow> IsControlledBy L (om_OwnerReferences (job_Meta j)) (owner_of_preflight pv) \<and> job_listed L h j
        | _ \<Rightarrow> False))"

text \<open>The Modules of a whole run are those on a list the server has answered with.\<close>

definition modules_listed :: "env \<Rightarrow> Module list \<Rightarrow> history \<Rightarrow> bool" where
  "modules_listed L ms h \<longleftrightarrow> (\<exists>h1 h2. h = h1 @ Read ListModules # h2 \<and> cl_ListModules L h1 = Inr ms)"

definition preflight_run_event :: "env \<Rightarrow> PreflightValidation \<Rightarrow> history \<Rightarrow> event \<Rightarrow> bool" where
  "preflight_run_event L pv h e \<longleftrightarrow> is_read e \<or> (\<exists>ms. modules_listed L ms h \<and> preflight_event L pv (set ms) h e)"

section \<open>Lemmas\<close>

lemma pv_same_refl [simp]: "pv_same pv pv"
  by (simp add: pv_same_def)

lemma pv_same_update [simp]: "pv_same pv (pv\<lparr>pv_CRStatuses := m\<rparr>)"
  by (simp add: pv_same_def)

lemma pv_same_trans: "pv_same pv pv1 \<Longrightarrow> pv_same pv1 pv2 \<Longrightarrow> pv_same pv pv2"
  by (simp add: pv_same_def)

lemma pv_same_owner: "pv_same pv pv' \<Longrightarrow> owner_of_preflight pv' = owner_of_preflight pv"
  by (simp add: pv_same_def owner_of_preflight_def)

lemma preflight_event_simps [simp]:
  "preflight_event L pv M h (Read r)"
  "preflight_event L pv M h (Write (UpdatePreflightStatus pv')) \<longleftrightarrow> pv_same pv pv'"
  by (simp_all add: preflight_event_def)

lemma preflight_event_of_read: "is_read e \<Longrightarrow> preflight_event L pv M h e"
  by (auto simp: is_read_def split: event.splits)

lemma job_event_preflight:
  assumes "job_event L jt mld (owner_of_preflight pv) h e" and "jt \<in> {JobTypeBuild, JobTypeSign}" and "m \<in> M"
    and "GetModuleLoaderDataForKernel L m (pvs_KernelVersion (pv_Spec pv)) = Ok mld"
  shows "preflight_event L pv M h e"
  using assms by (auto simp: job_event_def preflight_event_def preflight_job_def split: event.splits write_call.splits)

lemma modules_listedI: "cl_ListModules L h = Inr ms \<Longrightarrow> modules_listed L ms (h @ [Read ListModules])"
  unfolding modules_listed_def by blast

lemma modules_listed_append: "modules_listed L ms h \<Longrightarrow> modules_listed L ms (h @ h')"
  unfolding modules_listed_def by fastforce

lemma pv_same_key: "pv_same pv pv' \<Longrightarrow> pv_key pv' = pv_key pv"
  by (simp add: pv_same_def pv_key_def)

lemma pf_append:
  "image_verified L mld h \<Longrightarrow> image_verified L mld (h @ h')"
  "pf_build_ok L pv mld h \<Longrightarrow> pf_build_ok L pv mld (h @ h')"
  "pf_sign_ok L pv mld h \<Longrightarrow> pf_sign_ok L pv mld (h @ h')"
  unfolding image_verified_def pf_build_ok_def pf_sign_ok_def
  by (blast intro: manifest_seen_append job_completed_append append_assoc append_Cons |
      fastforce intro: manifest_seen_append)+

lemma pf_ok_same:
  assumes "pv_same pv pv'"
  shows "pf_build_ok L pv' mld h = pf_build_ok L pv mld h" "pf_sign_ok L pv' mld h = pf_sign_ok L pv mld h"
  using assms pv_same_owner [OF assms] by (simp_all add: pf_build_ok_def pf_sign_ok_def pv_same_def)

lemma guar_update_preflight:
  assumes "status_stored L" and "\<And>h h'. I h \<Longrightarrow> I (h @ h')" and "pv_same pv0 pv"
  shows "guar I (preflight_event L pv0 M) (update_preflight L pv) (\<lambda>(pv', _) h. pv' = pv \<and> I h) (\<lambda>_ _. True)"
  unfolding update_preflight_def
proof (rule guar_attempt [where R = "\<lambda>r h. (case r of Inl _ \<Rightarrow> True | Inr pv' \<Rightarrow> pv' = pv) \<and> I h"])
  show "guar I (preflight_event L pv0 M) (call (Write (UpdatePreflightStatus pv)) (\<lambda>h. cl_UpdatePreflightStatus L h pv))
     (\<lambda>a h. (case Inr a of Inl _ \<Rightarrow> True | Inr pv' \<Rightarrow> pv' = pv) \<and> I h)
     (\<lambda>e h. (case Inl e of Inl _ \<Rightarrow> True | Inr pv' \<Rightarrow> pv' = pv) \<and> I h)"
    by (rule guar_call) (use assms in \<open>auto simp: status_stored_def\<close>)
qed (auto intro: guar_ret split: sum.split)

lemma guar_time_now: "guar I J (time_now L) (\<lambda>_. I) E"
  by (auto simp: guar_def time_now_def)

text \<open>A status updater keeps metadata and specification, and the keys of the statuses.\<close>

lemma guar_SetStage:
  assumes "status_stored L" and "\<And>h h'. I h \<Longrightarrow> I (h @ h')" and "pv_same pv0 pv"
  shows "guar I (preflight_event L pv0 M) (PreflightSetVerificationStage L pv n st)
      (\<lambda>(pv', _) h. pv_same pv0 pv' \<and> I h) (\<lambda>_ _. True)"
    and "guar I (preflight_event L pv0 M) (PreflightSetVerificationStatus L pv n st2 msg)
      (\<lambda>(pv', _) h. pv_same pv0 pv' \<and> I h) (\<lambda>_ _. True)"
proof -
  have upd: "guar I (preflight_event L pv0 M) (bind_go (time_now L) (\<lambda>now. update_preflight L (pv\<lparr>pv_CRStatuses := f now\<rparr>)))
      (\<lambda>(pv', _) h. pv_same pv0 pv' \<and> I h) (\<lambda>_ _. True)" for f
    by (rule guar_bind_go [OF guar_time_now], rule guar_weaken [OF guar_update_preflight [where I = I and ?pv0.0 = pv0]])
      (use assms in \<open>auto simp: pv_same_def\<close>)
  show "guar I (preflight_event L pv0 M) (PreflightSetVerificationStage L pv n st)
      (\<lambda>(pv', _) h. pv_same pv0 pv' \<and> I h) (\<lambda>_ _. True)"
    "guar I (preflight_event L pv0 M) (PreflightSetVerificationStatus L pv n st2 msg)
      (\<lambda>(pv', _) h. pv_same pv0 pv' \<and> I h) (\<lambda>_ _. True)"
    unfolding PreflightSetVerificationStage_def PreflightSetVerificationStatus_def
    using assms(3) by (auto intro!: guar_ret upd split: option.split)
qed

text \<open>The three verdicts.\<close>

lemma image_verifiedI:
  assumes "cr_PullLayer L h1 ref opts = Inr layer" and "manifest_seen L (mld_ContainerImage mld) (h1 @ [Read (CranePullLayer ref opts)])"
    and "VerifyModuleExists L layer (mp_DirName (mld_Modprobe mld)) (mld_KernelVersion mld) (mp_ModuleName (mld_Modprobe mld) @ ''.ko'')"
  shows "image_verified L mld (h1 @ [Read (CranePullLayer ref opts)])"
  using assms unfolding image_verified_def by blast

lemma guar_verify_layers:
  "guar (manifest_seen L (mld_ContainerImage mld)) (\<lambda>_. is_read) (verify_layers L mld cfg ds)
     (\<lambda>(v, _) h. v \<longrightarrow> image_verified L mld h) (\<lambda>_ _. True)"
proof (induction ds)
  case Nil
  then show ?case by (auto intro: guar_ret)
next
  case (Cons d ds)
  let ?ref = "rpc_repo cfg @ ''@'' @ d"
  let ?pulled = "\<lambda>layer h. manifest_seen L (mld_ContainerImage mld) h \<and> (\<exists>h1. h = h1 @ [Read (CranePullLayer ?ref (rpc_authOptions cfg))] \<and>
      cr_PullLayer L h1 ?ref (rpc_authOptions cfg) = Inr layer)"
  have "guar (manifest_seen L (mld_ContainerImage mld)) (\<lambda>_. is_read) (GetLayerByDigest L d cfg)
      (\<lambda>layer. ?pulled layer) (\<lambda>_. manifest_seen L (mld_ContainerImage mld))"
    unfolding GetLayerByDigest_def Let_def by (rule guar_call) (auto intro: manifest_seen_append)
  then show ?case
    unfolding verify_layers.simps
  proof (intro guar_attempt [where R = "\<lambda>r. case r of Inl _ \<Rightarrow> manifest_seen L (mld_ContainerImage mld) | Inr layer \<Rightarrow> ?pulled layer"])
    fix r :: "error + string"
    show "guar (case r of Inl _ \<Rightarrow> manifest_seen L (mld_ContainerImage mld) | Inr layer \<Rightarrow> ?pulled layer) (\<lambda>_. is_read)
      (case r of
         Inl e \<Rightarrow> ret (False, message ''image %s, layer %s is inaccessible'' [AS (mld_ContainerImage mld), AS d])
       | Inr layer \<Rightarrow>
           if VerifyModuleExists L layer (mp_DirName (mld_Modprobe mld)) (mld_KernelVersion mld) (mp_ModuleName (mld_Modprobe mld) @ ''.ko'')
           then ret (True, message VerificationStatusReasonVerified [AS ''image accessible and verified''])
           else verify_layers L mld cfg ds)
      (\<lambda>(v, _) h. v \<longrightarrow> image_verified L mld h) (\<lambda>_ _. True)"
      by (cases r) (auto intro!: guar_ret guar_weaken [OF Cons.IH] intro: image_verifiedI)
  qed simp_all
qed

lemma guar_verifyImage:
  "guar (\<lambda>_. True) (\<lambda>_. is_read) (verifyImage L mld) (\<lambda>(v, _) h. v \<longrightarrow> image_verified L mld h) (\<lambda>_ _. True)"
proof -
  let ?seen = "manifest_seen L (mld_ContainerImage mld)"
  have digests: "guar (\<lambda>_. True) (\<lambda>_. is_read) (GetLayersDigests L (mld_ContainerImage mld) tls auth) (\<lambda>_. ?seen) (\<lambda>_ _. True)" for tls auth
    unfolding GetLayersDigests_def
    by (rule guar_check [OF guar_ImageManifest])
      (auto intro!: guar_check [where R = "\<lambda>_. ?seen"] guar_pure_go guar_ret)
  show ?thesis
    unfolding verifyImage_def
    by (rule guar_attempt [where R = "\<lambda>r. case r of Inl _ \<Rightarrow> \<lambda>_. True | Inr _ \<Rightarrow> ?seen"])
      (auto intro!: guar_ret guar_weaken [OF digests] guar_weaken [OF guar_verify_layers] split: sum.split)
qed

lemma guar_verifyBuild:
  assumes "pv_same pv0 pv" and "m \<in> M"
    and "GetModuleLoaderDataForKernel L m (pvs_KernelVersion (pv_Spec pv0)) = Ok mld"
  shows "guar (\<lambda>_. True) (preflight_event L pv0 M) (verifyBuild L pv mld) (\<lambda>(v, _) h. v \<longrightarrow> pf_build_ok L pv0 mld h) (\<lambda>_ _. True)"
proof -
  have "guar (\<lambda>_. True) (preflight_event L pv0 M) (BuildSync L mld (pvs_PushBuiltImage (pv_Spec pv)) (owner_of_preflight pv))
      (\<lambda>st h. st = StatusCompleted \<longrightarrow> pf_build_ok L pv0 mld h) (\<lambda>_ _. True)"
    by (rule guar_weaken [OF build_jobs.guar_Sync [where img = "''''"]])
      (use assms pv_same_owner [OF assms(1)] in \<open>auto simp: pf_build_ok_def pv_same_def intro: job_event_preflight\<close>)
  then show ?thesis
    unfolding verifyBuild_def
    by (intro guar_attempt [where R = "\<lambda>r h. case r of Inl _ \<Rightarrow> True | Inr st \<Rightarrow> st = StatusCompleted \<longrightarrow> pf_build_ok L pv0 mld h"])
      (auto intro!: guar_ret split: sum.split)
qed

lemma guar_verifySign:
  assumes "pv_same pv0 pv" and "m \<in> M"
    and "GetModuleLoaderDataForKernel L m (pvs_KernelVersion (pv_Spec pv0)) = Ok mld"
  shows "guar (\<lambda>_. True) (preflight_event L pv0 M) (verifySign L pv mld) (\<lambda>(v, _) h. v \<longrightarrow> pf_sign_ok L pv0 mld h) (\<lambda>_ _. True)"
proof -
  have "guar (\<lambda>_. True) (preflight_event L pv0 M) (SignSync L mld (if ShouldBeBuilt mld
         then IntermediateImageName (mld_Name mld) (mld_Namespace mld) (mld_ContainerImage mld) else '''')
        (pvs_PushBuiltImage (pv_Spec pv)) (owner_of_preflight pv))
      (\<lambda>st h. st = StatusCompleted \<longrightarrow> pf_sign_ok L pv0 mld h) (\<lambda>_ _. True)"
    by (rule guar_weaken [OF sign_jobs.guar_Sync])
      (use assms pv_same_owner [OF assms(1)] in \<open>auto simp: pf_sign_ok_def pv_same_def intro: job_event_preflight\<close>)
  then show ?thesis
    unfolding verifySign_def Let_def
    by (intro guar_attempt [where R = "\<lambda>r h. case r of Inl _ \<Rightarrow> True | Inr st \<Rightarrow> st = StatusCompleted \<longrightarrow> pf_sign_ok L pv0 mld h"])
      (auto intro!: guar_ret split: sum.split)
qed

text \<open>The steps of the check: building, if it applies, then signing, if it applies.\<close>

definition pf_build_step :: "env \<Rightarrow> ModuleLoaderData \<Rightarrow> PreflightValidation \<Rightarrow> bool \<Rightarrow> Message \<Rightarrow>
    (op_state, PreflightValidation \<times> bool \<times> Message \<times> bool) go" where
  "pf_build_step L mld pv1 verified msg =
     (if ShouldBeBuilt mld
      then bind_go (PreflightSetVerificationStage L pv1 (mld_Name mld) VerificationStageBuild) (\<lambda>(pv2, _).
           bind_go (verifyBuild L pv2 mld) (\<lambda>(verified, msg). ret (pv2, verified, msg, \<not> verified)))
      else ret (pv1, verified, msg, False))"

definition pf_sign_step :: "env \<Rightarrow> ModuleLoaderData \<Rightarrow> PreflightValidation \<Rightarrow> bool \<Rightarrow> Message \<Rightarrow>
    (op_state, PreflightValidation \<times> bool \<times> Message) go" where
  "pf_sign_step L mld pv2 verified msg =
     (if ShouldBeSigned mld
      then bind_go (PreflightSetVerificationStage L pv2 (mld_Name mld) VerificationStageSign) (\<lambda>(pv3, _).
           bind_go (verifySign L pv3 mld) (\<lambda>(verified, msg). ret (pv3, verified, msg)))
      else ret (pv2, verified, msg))"

lemma guar_pf_build_step:
  assumes st: "status_stored L" and pv: "pv_same pv0 pv1" and m: "m \<in> M"
    and mld: "GetModuleLoaderDataForKernel L m (pvs_KernelVersion (pv_Spec pv0)) = Ok mld"
  shows "guar (\<lambda>_. True) (preflight_event L pv0 M) (pf_build_step L mld pv1 verified msg)
    (\<lambda>(pv2, v, _, stop) h. pv_same pv0 pv2 \<and> (ShouldBeBuilt mld \<longrightarrow> (v \<longleftrightarrow> \<not> stop) \<and> (v \<longrightarrow> pf_build_ok L pv0 mld h)) \<and>
       (\<not> ShouldBeBuilt mld \<longrightarrow> v = verified \<and> \<not> stop)) (\<lambda>_ _. True)"
proof (cases "ShouldBeBuilt mld")
  case False
  then show ?thesis using pv by (auto simp: pf_build_step_def intro!: guar_ret)
next
  case built: True
  have verify: "guar (\<lambda>h. pv_same pv0 pv2) (preflight_event L pv0 M)
      (bind_go (verifyBuild L pv2 mld) (\<lambda>(verified, msg). ret (pv2, verified, msg, \<not> verified)))
      (\<lambda>(pv2, v, _, stop) h. pv_same pv0 pv2 \<and> (ShouldBeBuilt mld \<longrightarrow> (v \<longleftrightarrow> \<not> stop) \<and> (v \<longrightarrow> pf_build_ok L pv0 mld h)) \<and>
       (\<not> ShouldBeBuilt mld \<longrightarrow> v = verified \<and> \<not> stop)) (\<lambda>_ _. True)" for pv2
  proof (cases "pv_same pv0 pv2")
    case True
    with built show ?thesis
      by (intro guar_bind_go [where R = "\<lambda>(v, _) h. v \<longrightarrow> pf_build_ok L pv0 mld h"]
          guar_weaken [OF guar_verifyBuild [OF True m mld]]) (auto intro!: guar_ret)
  qed (simp add: guar_def)
  from built show ?thesis
    unfolding pf_build_step_def
    by (auto intro!: guar_bind_go [where R = "\<lambda>(pv2, _) h. pv_same pv0 pv2"]
        guar_weaken [OF guar_SetStage(1) [OF st _ pv, where I = "\<lambda>_. True"]] guar_weaken [OF verify])
qed

lemma guar_pf_sign_step:
  assumes st: "status_stored L" and pv: "pv_same pv0 pv2" and m: "m \<in> M"
    and mld: "GetModuleLoaderDataForKernel L m (pvs_KernelVersion (pv_Spec pv0)) = Ok mld" and I: "\<And>h h'. I h \<Longrightarrow> I (h @ h')"
  shows "guar I (preflight_event L pv0 M) (pf_sign_step L mld pv2 verified msg)
    (\<lambda>(pv3, v, _) h. (pv_same pv0 pv3 \<and> (ShouldBeSigned mld \<longrightarrow> v \<longrightarrow> pf_sign_ok L pv0 mld h) \<and>
       (\<not> ShouldBeSigned mld \<longrightarrow> v = verified)) \<and> I h) (\<lambda>_ _. True)"
proof (cases "ShouldBeSigned mld")
  case False
  then show ?thesis using pv by (auto simp: pf_sign_step_def intro!: guar_ret)
next
  case signed: True
  have verify: "guar (\<lambda>h. pv_same pv0 pv3 \<and> I h) (preflight_event L pv0 M)
      (bind_go (verifySign L pv3 mld) (\<lambda>(verified, msg). ret (pv3, verified, msg)))
      (\<lambda>(pv3, v, _) h. (pv_same pv0 pv3 \<and> (ShouldBeSigned mld \<longrightarrow> v \<longrightarrow> pf_sign_ok L pv0 mld h) \<and>
       (\<not> ShouldBeSigned mld \<longrightarrow> v = verified)) \<and> I h) (\<lambda>_ _. True)" for pv3
  proof (cases "pv_same pv0 pv3")
    case True
    with signed show ?thesis
      by (intro guar_bind_go [where R = "\<lambda>(v, _) h. (v \<longrightarrow> pf_sign_ok L pv0 mld h) \<and> I h"]
          guar_weaken [OF guar_frame [OF guar_verifySign [OF True m mld], of I]]) (auto intro!: guar_ret I)
  qed (simp add: guar_def)
  from signed show ?thesis
    unfolding pf_sign_step_def
    by (auto intro!: guar_bind_go [where R = "\<lambda>(pv3, _) h. pv_same pv0 pv3 \<and> I h"]
        guar_weaken [OF guar_SetStage(1) [OF st _ pv, where I = I]] guar_weaken [OF verify] I)
qed

lemma guar_pf_last:
  assumes st: "status_stored L" and m: "m \<in> M" and mld: "GetModuleLoaderDataForKernel L m (pvs_KernelVersion (pv_Spec pv0)) = Ok mld"
  shows "guar (\<lambda>h. pv_same pv0 pv2 \<and> (ShouldBeBuilt mld \<longrightarrow> (v \<longleftrightarrow> \<not> stop) \<and> (v \<longrightarrow> pf_build_ok L pv0 mld h)) \<and>
       (\<not> ShouldBeBuilt mld \<longrightarrow> v = False \<and> \<not> stop)) (preflight_event L pv0 M)
      (if stop then ret (pv2, False, msg) else pf_sign_step L mld pv2 v msg)
      (\<lambda>(pv', v, _) h. pv_same pv0 pv' \<and>
       (v \<longrightarrow> (\<exists>mld. GetModuleLoaderDataForKernel L m (pvs_KernelVersion (pv_Spec pv0)) = Ok mld \<and> preflight_ok L pv0 mld h)))
      (\<lambda>_ _. True)"
proof (cases "pv_same pv0 pv2 \<and> \<not> stop \<and> v = ShouldBeBuilt mld")
  case True
  then show ?thesis
    by (auto intro!: guar_weaken [OF guar_pf_sign_step [OF st _ m mld, of pv2 "\<lambda>h. ShouldBeBuilt mld \<longrightarrow> pf_build_ok L pv0 mld h"]]
        simp: pf_append preflight_ok_def mld)
next
  case False
  then show ?thesis by (auto simp: guar_def ret_run)
qed

lemma guar_PreflightUpgradeCheck:
  assumes st: "status_stored L" and pv: "pv_same pv0 pv" and m: "m \<in> M"
  shows "guar (\<lambda>_. True) (preflight_event L pv0 M) (PreflightUpgradeCheck L pv m)
    (\<lambda>(pv', v, _) h. pv_same pv0 pv' \<and>
       (v \<longrightarrow> (\<exists>mld. GetModuleLoaderDataForKernel L m (pvs_KernelVersion (pv_Spec pv0)) = Ok mld \<and> preflight_ok L pv0 mld h)))
    (\<lambda>_ _. True)"
proof -
  let ?k = "pvs_KernelVersion (pv_Spec pv0)"
  let ?Q = "\<lambda>(pv', v, _) h. pv_same pv0 pv' \<and>
       (v \<longrightarrow> (\<exists>mld. GetModuleLoaderDataForKernel L m ?k = Ok mld \<and> preflight_ok L pv0 mld h))"
  have k: "pvs_KernelVersion (pv_Spec pv) = ?k" using pv by (simp add: pv_same_def)
  have steps: "guar (\<lambda>_. True) (preflight_event L pv0 M)
      (bind_go (pf_build_step L mld pv1 False msg) (\<lambda>(pv2, v, msg, stop).
         if stop then ret (pv2, False, msg) else pf_sign_step L mld pv2 v msg)) ?Q (\<lambda>_ _. True)"
    if mld: "GetModuleLoaderDataForKernel L m ?k = Ok mld" and "pv_same pv0 pv1" for mld pv1 msg
    by (rule guar_bind_go [OF guar_pf_build_step [OF st that(2) m mld]]) (auto intro!: guar_weaken [OF guar_pf_last [OF st m mld]])
  have checked: "guar (\<lambda>h. pv_same pv0 pv1) (preflight_event L pv0 M)
      (bind_go (verifyImage L mld) (\<lambda>(verified, msg). if verified then ret (pv1, True, msg)
         else bind_go (pf_build_step L mld pv1 verified msg) (\<lambda>(pv2, v, msg, stop).
           if stop then ret (pv2, False, msg) else pf_sign_step L mld pv2 v msg))) ?Q (\<lambda>_ _. True)"
    if mld: "GetModuleLoaderDataForKernel L m ?k = Ok mld" for mld pv1
  proof (cases "pv_same pv0 pv1")
    case True
    then show ?thesis
      by (intro guar_bind_go [where R = "\<lambda>(v, _) h. v \<longrightarrow> image_verified L mld h"]
          guar_weaken [OF guar_verifyImage [of L mld]])
        (auto intro!: guar_ret guar_weaken [OF steps [OF mld True]] preflight_event_of_read simp: mld preflight_ok_def)
  qed (simp add: guar_def)
  have run: "guar (\<lambda>_. GetModuleLoaderDataForKernel L m ?k = Ok mld) (preflight_event L pv0 M)
      (bind_go (PreflightSetVerificationStage L pv (mld_Name mld) VerificationStageImage) (\<lambda>(pv1, _).
         bind_go (verifyImage L mld) (\<lambda>(verified, msg). if verified then ret (pv1, True, msg)
         else bind_go (pf_build_step L mld pv1 verified msg) (\<lambda>(pv2, v, msg, stop).
           if stop then ret (pv2, False, msg) else pf_sign_step L mld pv2 v msg)))) ?Q (\<lambda>_ _. True)" for mld
  proof (cases "GetModuleLoaderDataForKernel L m ?k = Ok mld")
    case True
    show ?thesis
      by (rule guar_bind_go [where R = "\<lambda>(pv1, _) h. pv_same pv0 pv1"],
          rule guar_weaken [OF guar_SetStage(1) [OF st _ pv, where I = "\<lambda>_. True"]])
        (auto intro!: checked [OF True])
  qed (simp add: guar_def)
  show ?thesis
    unfolding PreflightUpgradeCheck_def Let_def k pf_build_step_def [symmetric] pf_sign_step_def [symmetric]
    by (rule guar_attempt [where R = "\<lambda>r _. case r of Inl _ \<Rightarrow> True | Inr mld \<Rightarrow> GetModuleLoaderDataForKernel L m ?k = Ok mld"])
      (use pv in \<open>auto intro!: guar_pure_go guar_ret run split: sum.split\<close>)
qed

subsection \<open>The controller\<close>

lemma guar_preset:
  assumes "status_stored L"
  shows "guar (\<lambda>_. True) (preflight_event L pv M) (presetModulesStatuses L pv ms) (\<lambda>(pv', _) _. pv_same pv pv') (\<lambda>_ _. True)"
proof -
  have upd: "guar (\<lambda>_. True) (preflight_event L pv M) (update_preflight L pv1) (\<lambda>(pv', _) _. pv_same pv pv') (\<lambda>_ _. True)"
    if "pv_same pv pv1" for pv1
    by (rule guar_weaken [OF guar_update_preflight [OF assms _ that, where I = "\<lambda>_. True"]]) (use that in auto)
  have upd': "guar (\<lambda>_. True) (preflight_event L pv M) (bind_go (time_now L) (\<lambda>now. update_preflight L (pv1 now)))
      (\<lambda>(pv', _) _. pv_same pv pv') (\<lambda>_ _. True)" if "\<And>now. pv_same pv (pv1 now)" for pv1
    by (rule guar_bind_go [where R = "\<lambda>_ _. True"]) (auto intro: guar_time_now upd that)
  show ?thesis
    unfolding presetModulesStatuses_def PreflightPresetStatuses_def Let_def
    by (auto intro!: upd upd' guar_pure_go)
qed

lemma modules_to_check_subset: "modules_to_check pv ms = Ok xs \<Longrightarrow> set xs \<subseteq> set ms"
  by (induction ms arbitrary: xs) (auto simp: check_res_Ok_iff split: if_splits option.splits)

lemma preflight_event_run:
  "modules_listed L ms h \<Longrightarrow> preflight_event L pv (set ms) h e \<Longrightarrow> preflight_run_event L pv h e"
  unfolding preflight_run_event_def by blast

text \<open>Once the Modules are listed, calls permitted for them are permitted for the run.\<close>

lemma guar_run_event:
  assumes "guar P (preflight_event L pv (set ms)) m Q E"
  shows "guar (\<lambda>h. P h \<and> modules_listed L ms h \<and> n < length h) (preflight_run_event L pv) m
    (\<lambda>a h. Q a h \<and> modules_listed L ms h \<and> n < length h) E"
  by (rule guar_weaken [OF guar_frame_calls [OF assms, of "\<lambda>h. modules_listed L ms h \<and> n < length h"]])
    (auto intro: modules_listed_append preflight_event_run)

lemma guar_getModulesToCheck:
  assumes "status_stored L"
  shows "guar (\<lambda>h. length h = n) (preflight_run_event L pv) (getModulesToCheck L pv)
    (\<lambda>(pv', xs) h. pv_same pv pv' \<and> (\<exists>ms. set xs \<subseteq> set ms \<and> modules_listed L ms h \<and> n < length h)) (\<lambda>_ _. True)"
proof -
  let ?Q = "\<lambda>(pv', xs) h. pv_same pv pv' \<and> (\<exists>ms. set xs \<subseteq> set ms \<and> modules_listed L ms h \<and> n < length h)"
  have tail: "guar (\<lambda>h. pv_same pv pv1 \<and> modules_listed L ms h \<and> n < length h) (preflight_run_event L pv) (case err of
         Some e \<Rightarrow> raise (w e)
       | None \<Rightarrow> bind_go (pure_go (modules_to_check pv1 ms)) (\<lambda>xs. ret (pv1, xs))) ?Q (\<lambda>_ _. True)" for pv1 err ms w
    by (cases err) (auto intro!: guar_raise guar_ret guar_pure_go
        guar_bind_go [where R = "\<lambda>xs h. pv_same pv pv1 \<and> modules_listed L ms h \<and> n < length h \<and> modules_to_check pv1 ms = Ok xs"]
        dest: modules_to_check_subset)
  have after: "guar (\<lambda>h. modules_listed L ms h \<and> n < length h) (preflight_run_event L pv)
      (bind_go (presetModulesStatuses L pv ms) (\<lambda>(pv1, err). case err of
         Some e \<Rightarrow> raise (w e)
       | None \<Rightarrow> bind_go (pure_go (modules_to_check pv1 ms)) (\<lambda>xs. ret (pv1, xs)))) ?Q (\<lambda>_ _. True)" for ms w
    by (rule guar_bind_go [where R = "\<lambda>(pv1, _) h. pv_same pv pv1 \<and> modules_listed L ms h \<and> n < length h"],
        rule guar_weaken [OF guar_run_event [OF guar_preset [OF assms]]])
      (auto intro!: tail)
  show ?thesis
    unfolding getModulesToCheck_def
    by (rule guar_check [where R = "\<lambda>ms h. modules_listed L ms h \<and> n < length h"], rule guar_call)
      (auto intro: after modules_listedI simp: preflight_run_event_def)
qed

lemma guar_preflight_body:
  assumes st: "status_stored L" and pv: "pv_same pv0 pv" and m: "m \<in> M"
  shows "guar (\<lambda>_. True) (preflight_event L pv0 M) (preflight_body L m pv) (\<lambda>pv' _. pv_same pv0 pv') (\<lambda>_ _. True)"
proof -
  have update: "guar (\<lambda>_. pv_same pv0 pv1) (preflight_event L pv0 M) (updatePreflightStatus L pv1 n msg v)
      (\<lambda>pv' _. pv_same pv0 pv') (\<lambda>_ _. True)" for pv1 n msg v
  proof (cases "pv_same pv0 pv1")
    case True
    have stage: "guar (\<lambda>_. pv_same pv0 pv2) (preflight_event L pv0 M)
        (bind_go (PreflightSetVerificationStage L pv2 n stage) (\<lambda>(pv3, _). ret pv3)) (\<lambda>pv' _. pv_same pv0 pv') (\<lambda>_ _. True)" for pv2 stage
    proof (cases "pv_same pv0 pv2")
      case True
      then show ?thesis
        by (intro guar_bind_go [where R = "\<lambda>(pv3, _) _. pv_same pv0 pv3"]
            guar_weaken [OF guar_SetStage(1) [OF st _ True, where I = "\<lambda>_. True"]]) (auto intro!: guar_ret)
    qed (simp add: guar_def)
    show ?thesis
      unfolding updatePreflightStatus_def Let_def
      by (intro guar_bind_go [where R = "\<lambda>(pv2, _) _. pv_same pv0 pv2"]
          guar_weaken [OF guar_SetStage(2) [OF st _ True, where I = "\<lambda>_. True"]]) (auto intro!: stage)
  qed (simp add: guar_def)
  show ?thesis
    unfolding preflight_body_def
    by (rule guar_bind_go [where R = "\<lambda>(pv1, _) _. pv_same pv0 pv1"], rule guar_weaken [OF guar_PreflightUpgradeCheck [OF st pv m]])
      (auto intro!: update)
qed

text \<open>The last call asked for the PreflightValidation again, and the verdict is about that answer.\<close>

definition reread :: "env \<Rightarrow> NamespacedName \<Rightarrow> nat \<Rightarrow> bool \<Rightarrow> history \<Rightarrow> bool" where
  "reread L nn n b h \<longleftrightarrow> (\<exists>h0 pv'. n < length h0 \<and> h = h0 @ [Read (GetPreflightValidation nn)] \<and>
     cl_GetPreflightValidation L h0 nn = Inr pv' \<and>
     (b \<longleftrightarrow> list_all (\<lambda>kv. crs_VerificationStatus (snd kv) = VerificationTrue)
        (range_map (range_order L RangeCRStatuses) (crs pv'))))"

lemma guar_runPreflight:
  assumes st: "status_stored L"
  shows "guar (\<lambda>h. length h = n) (preflight_run_event L pv) (runPreflightValidation L pv)
    (reread L (pv_key pv) n) (\<lambda>_ _. True)"
proof -
  have step: "guar (\<lambda>_. pv_same pv pv1) (preflight_event L pv (set ms)) (preflight_body L m pv1)
      (\<lambda>pv2 _. pv_same pv pv2) (\<lambda>_ _. True)" if "m \<in> set ms" for m ms pv1
  proof (cases "pv_same pv pv1")
    case True
    with that show ?thesis by (intro guar_weaken [OF guar_preflight_body [OF st True]]) auto
  qed (simp add: guar_def)
  have loop: "guar (\<lambda>_. pv_same pv pv1) (preflight_event L pv (set ms)) (loop xs (preflight_body L) pv1)
      (\<lambda>pv2 _. pv_same pv pv2) (\<lambda>_ _. True)" if "set xs \<subseteq> set ms" for ms xs pv1
    by (rule guar_loop [where I = "\<lambda>pv1 _. pv_same pv pv1"]) (use that step in blast)
  have completion: "guar (\<lambda>h. pv_same pv pv2 \<and> n < length h) (preflight_run_event L pv)
      (checkPreflightCompletion L (om_Name (pv_Meta pv2)) (om_Namespace (pv_Meta pv2))) (reread L (pv_key pv) n) (\<lambda>_ _. True)" for pv2
  proof (cases "pv_same pv pv2")
    case True
    have key: "\<lparr>nn_Namespace = om_Namespace (pv_Meta pv2), nn_Name = om_Name (pv_Meta pv2)\<rparr> = pv_key pv"
      using pv_same_key [OF True] by (simp add: pv_key_def)
    show ?thesis
      unfolding checkPreflightCompletion_def Let_def key
      by (rule guar_check [where R = "\<lambda>pv' h. \<exists>h0. n < length h0 \<and> h = h0 @ [Read (GetPreflightValidation (pv_key pv))] \<and>
          cl_GetPreflightValidation L h0 (pv_key pv) = Inr pv'"], rule guar_call)
        (auto intro!: guar_ret simp: preflight_run_event_def reread_def)
  qed (simp add: guar_def)
  have rest: "guar (\<lambda>h. pv_same pv pv1 \<and> (\<exists>ms. set xs \<subseteq> set ms \<and> modules_listed L ms h \<and> n < length h)) (preflight_run_event L pv)
      (bind_go (loop xs (preflight_body L) pv1)
        (\<lambda>pv2. checkPreflightCompletion L (om_Name (pv_Meta pv2)) (om_Namespace (pv_Meta pv2)))) (reread L (pv_key pv) n) (\<lambda>_ _. True)" for pv1 xs
  proof -
    have "guar (\<lambda>h. pv_same pv pv1 \<and> modules_listed L ms h \<and> n < length h) (preflight_run_event L pv) (bind_go (loop xs (preflight_body L) pv1)
        (\<lambda>pv2. checkPreflightCompletion L (om_Name (pv_Meta pv2)) (om_Namespace (pv_Meta pv2)))) (reread L (pv_key pv) n) (\<lambda>_ _. True)"
      if "set xs \<subseteq> set ms" for ms
      by (rule guar_bind_go [where R = "\<lambda>pv2 h. pv_same pv pv2 \<and> n < length h"],
          rule guar_weaken [OF guar_run_event [OF loop [OF that]]])
        (auto intro!: completion)
    then show ?thesis unfolding guar_def by blast
  qed
  show ?thesis
    unfolding runPreflightValidation_def
    by (rule guar_check [OF guar_getModulesToCheck [OF st]]) (use rest in auto)
qed

text \<open>The calls of a run once the PreflightValidation is known.\<close>

lemma PreflightReconcile_trace:
  assumes "status_stored L" and "PreflightReconcile L req s = (r, t)"
    and "cl_GetPreflightValidation L (history s) req = Inr pv"
  obtains evs where "history t = history s @ Read (GetPreflightValidation req) # evs"
    and "trace_ok (preflight_run_event L pv) (history s @ [Read (GetPreflightValidation req)]) evs"
    and "\<And>d. r = Ok d \<Longrightarrow> \<exists>b. d = (if b then 0 else 180) \<and> reread L (pv_key pv) (length (history s)) b (history t)"
proof -
  let ?s1 = "s\<lparr>history := history s @ [Read (GetPreflightValidation req)]\<rparr>"
  obtain r1 t1 where run1: "runPreflightValidation L pv ?s1 = (r1, t1)" by fastforce
  have "bind_go (runPreflightValidation L pv) (\<lambda>c. ret (if c then 0 else reconcileRequeueInSeconds)) ?s1 = (r, t)"
    using assms(2,3) by (simp add: PreflightReconcile_def attempt_run call_run)
  then have "t1 = t \<and> (\<forall>d. r = Ok d \<longrightarrow> (\<exists>b. r1 = Ok b \<and> d = (if b then 0 else 180)))"
    unfolding bind_go_run run1 by (cases r1) (auto simp: ret_run reconcileRequeueInSeconds_def)
  with run1 have run: "runPreflightValidation L pv ?s1 = (r1, t)"
    and r: "\<And>d. r = Ok d \<Longrightarrow> \<exists>b. r1 = Ok b \<and> d = (if b then 0 else 180)" by auto
  obtain evs where evs: "history t = history ?s1 @ evs" "trace_ok (preflight_run_event L pv) (history ?s1) evs"
    and post: "case r1 of Ok b \<Rightarrow> reread L (pv_key pv) (length (history ?s1)) b (history t) | Err e \<Rightarrow> True | Panic \<Rightarrow> True"
    by (rule guarD [OF guar_runPreflight [OF assms(1)] refl run])
  have shorter: "reread L nn (Suc n) b h \<Longrightarrow> reread L nn n b h" for nn n b h
    unfolding reread_def by (metis Suc_lessD)
  show ?thesis
  proof (rule that [of evs])
    show "\<exists>b. d = (if b then 0 else 180) \<and> reread L (pv_key pv) (length (history s)) b (history t)" if "r = Ok d" for d
    proof -
      from r [OF that] obtain b where b: "r1 = Ok b" "d = (if b then 0 else 180)" by blast
      with post have "reread L (pv_key pv) (Suc (length (history s))) b (history t)" by simp
      with b shorter show ?thesis by blast
    qed
  qed (use evs in simp_all)
qed

lemma modules_to_check_Ok:
  assumes "\<forall>m \<in> set ms. om_DeletionTimestamp (mod_Meta m) = None \<longrightarrow> map_of (crs pv) (om_Name (mod_Meta m)) \<noteq> None"
  shows "modules_to_check pv ms = Ok (filter (\<lambda>m. om_DeletionTimestamp (mod_Meta m) = None \<and>
     crs_VerificationStatus (the (map_of (crs pv) (om_Name (mod_Meta m)))) \<noteq> VerificationTrue) ms)"
  using assms by (induction ms) (auto split: option.splits)

text \<open>The statuses the controller sends before it checks anything.\<close>

definition live_names :: "Module list \<Rightarrow> string list" where
  "live_names ms = map (\<lambda>m. om_Name (mod_Meta m)) (filter (\<lambda>m. om_DeletionTimestamp (mod_Meta m) = None) ms)"

definition fresh_status :: "nat \<Rightarrow> CRStatus" where
  "fresh_status now = \<lparr>crs_VerificationStatus = VerificationFalse, crs_StatusReason = empty_message,
     crs_VerificationStage = VerificationStageImage, crs_LastTransitionTime = now\<rparr>"

definition preset_pv :: "PreflightValidation \<Rightarrow> Module list \<Rightarrow> nat \<Rightarrow> PreflightValidation" where
  "preset_pv pv ms now = pv\<lparr>pv_CRStatuses := Some (mputs (filter (\<lambda>kv. fst kv \<in> set (live_names ms)) (crs pv))
     (map (\<lambda>n. (n, fresh_status now)) (filter (\<lambda>n. map_of (crs pv) n = None) (live_names ms))))\<rparr>"

lemma crs_Some [simp]: "crs (pv\<lparr>pv_CRStatuses := Some m\<rparr>) = m"
  by (simp add: crs_def)

lemma preset_run:
  "\<exists>now. presetModulesStatuses L pv ms s =
     (Ok (case cl_UpdatePreflightStatus L (history s) (preset_pv pv ms now) of
            Inl e \<Rightarrow> (preset_pv pv ms now, Some e) | Inr stored \<Rightarrow> (stored, None)),
      s\<lparr>history := history s @ [Write (UpdatePreflightStatus (preset_pv pv ms now))]\<rparr>)"
proof -
  have upd: "update_preflight L x s = (Ok (case cl_UpdatePreflightStatus L (history s) x of
      Inl e \<Rightarrow> (x, Some e) | Inr stored \<Rightarrow> (stored, None)), s\<lparr>history := history s @ [Write (UpdatePreflightStatus x)]\<rparr>)" for x
    by (auto simp: update_preflight_def go_simps split: sum.split)
  let ?pv = "if pv_CRStatuses pv = None then pv\<lparr>pv_CRStatuses := Some []\<rparr> else pv"
  let ?new = "filter (\<lambda>n. map_of (crs pv) n = None) (live_names ms)"
  have crs_pv: "crs ?pv = crs pv" "pv_CRStatuses ?pv = Some (crs pv)" by (auto simp: crs_def)
  have pv: "?pv\<lparr>pv_CRStatuses := x\<rparr> = pv\<lparr>pv_CRStatuses := x\<rparr>" for x by simp
  have eq: "presetModulesStatuses L pv ms = PreflightPresetStatuses L ?pv (live_names ms) ?new"
    unfolding presetModulesStatuses_def Let_def live_names_def [symmetric] crs_pv ..
  show ?thesis
  proof (cases "?new = []")
    case True
    then have "presetModulesStatuses L pv ms = update_preflight L (preset_pv pv ms 0)"
      unfolding eq PreflightPresetStatuses_def preset_pv_def Let_def crs_pv pv by simp
    with upd show ?thesis by metis
  next
    case False
    then have "presetModulesStatuses L pv ms = bind_go (time_now L) (\<lambda>now. update_preflight L (preset_pv pv ms now))"
      unfolding eq PreflightPresetStatuses_def preset_pv_def Let_def crs_pv pv fresh_status_def by simp
    then have "presetModulesStatuses L pv ms s = update_preflight L (preset_pv pv ms (Now L (history s))) s"
      by (simp add: bind_go_run time_now_def)
    with upd show ?thesis by metis
  qed
qed

lemma map_of_mputs_const:
  "map_of (mputs m (map (\<lambda>n. (n, c)) ns)) k = (if k \<in> set ns then Some c else map_of m k)"
  by (induction ns arbitrary: m) auto

lemma map_of_filter_keys:
  "map_of (filter (\<lambda>kv. P (fst kv)) m) k = (if P k then map_of m k else None)"
  by (induction m) auto

lemma map_of_preset:
  "map_of (crs (preset_pv pv ms now)) n =
     (if n \<in> set (live_names ms) then Some (case map_of (crs pv) n of Some st \<Rightarrow> st | None \<Rightarrow> fresh_status now) else None)"
  unfolding preset_pv_def crs_Some map_of_mputs_const map_of_filter_keys [of "\<lambda>n. n \<in> set (live_names ms)"]
  by (auto split: option.split)

text \<open>The writes among the events a run may cause.\<close>

lemma preflight_run_event_Write:
  assumes "preflight_run_event L pv h (Write w)"
  obtains (status) pv' where "w = UpdatePreflightStatus pv'" and "pv_Meta pv' = pv_Meta pv" and "pv_Spec pv' = pv_Spec pv"
  | (create) j ms where "w = CreateJob j" and "modules_listed L ms h" and "preflight_job L pv (set ms) j"
  | (delete) j where "w = DeleteJob j" and "IsControlledBy L (om_OwnerReferences (job_Meta j)) (owner_of_preflight pv)"
      and "job_listed L h j"
  using assms by (cases w) (auto simp: preflight_run_event_def preflight_event_def pv_same_def)

text \<open>A cluster with one Module whose image holds the module file for the new kernel.\<close>

definition sample_pv :: PreflightValidation where
  "sample_pv = \<lparr>pv_Meta = sample_meta ''pv'', pv_Spec = \<lparr>pvs_KernelVersion = ''5.4.0-gke'', pvs_PushBuiltImage = False\<rparr>,
     pv_CRStatuses = None\<rparr>"

definition verified_pv :: "nat \<Rightarrow> PreflightValidation" where
  "verified_pv now = sample_pv\<lparr>pv_CRStatuses := Some [(''mod'',
     \<lparr>crs_VerificationStatus = VerificationTrue, crs_StatusReason = message VerificationStatusReasonVerified [],
       crs_VerificationStage = VerificationStageDone, crs_LastTransitionTime = now\<rparr>)]\<rparr>"

definition preflight_cluster :: "PreflightValidation \<Rightarrow> env" where
  "preflight_cluster pv = (registry_with ''reg/img:1'')\<lparr>
     cl_GetPreflightValidation := (\<lambda>_ _. Inr pv),
     cl_ListModules := (\<lambda>_. Inr [sample_module [sample_mapping None None]]),
     UnmarshalManifest := (\<lambda>_. Inr [\<lparr>dg_Algorithm = ''sha256'', dg_Hex = ''d1''\<rparr>]),
     cr_PullLayer := (\<lambda>_ ref _. Inr ref),
     LayerHeaders := (\<lambda>_. [Inr ''opt/lib/modules/5.4.0-gke/kmod.ko''])\<rparr>"

lemma status_stored_preflight_cluster: "status_stored (preflight_cluster pv)"
  by (simp add: status_stored_def preflight_cluster_def registry_with_def empty_cluster_def)

lemma sample_mld_preflight:
  "GetModuleLoaderDataForKernel (preflight_cluster pv) (sample_module [sample_mapping None None]) ''5.4.0-gke'' =
     Ok (sample_mld None None)"
  by (simp add: GetModuleLoaderDataForKernel_def prepareModuleLoaderData_def replaceTemplates_def
      KernelComponentsAsEnvVars_eq is_kernel_sep_def Let_def owner_of_module_def preflight_cluster_def
      registry_with_def sample_defs)

lemma sample_layer: "VerifyModuleExists (preflight_cluster pv) layer ''/opt'' ''5.4.0-gke'' ''kmod.ko''"
  by (simp add: VerifyModuleExists_def Let_def modulesLocationPath_def TrimPrefix_def HasPrefix_def preflight_cluster_def) code_simp

lemma sample_preflight_check:
  "\<exists>pv' msg t. PreflightUpgradeCheck (preflight_cluster sample_pv) sample_pv (sample_module [sample_mapping None None]) fresh_state =
     (Ok (pv', True, msg), t)"
proof -
  have stage: "\<exists>e. PreflightSetVerificationStage (preflight_cluster sample_pv) sample_pv n st s = (Ok (sample_pv, Some e), s)"
    for n st and s :: op_state
    by (simp add: PreflightSetVerificationStage_def crs_def sample_pv_def go_simps)
  obtain msg t where "verifyImage (preflight_cluster sample_pv) (sample_mld None None) fresh_state = (Ok (True, msg), t)"
    using sample_layer [of sample_pv]
    by (simp add: verifyImage_def GetLayersDigests_def getImageManifest_def getPullOptions_def image_repo_def
        getLayersDigestsFromManifestStream_def GetLayerByDigest_def NewRegistryAuthGetterFrom_def
        tls_options_def getManifestStreamFromImage_def crane_Manifest_def HasPrefix_def Let_def go_simps
        registry_with_def sample_defs preflight_cluster_def)
  moreover obtain e where "PreflightSetVerificationStage (preflight_cluster sample_pv) sample_pv ''mod'' VerificationStageImage fresh_state =
      (Ok (sample_pv, Some e), fresh_state)"
    using stage by blast
  moreover have "mld_Name (sample_mld None None) = ''mod''" "pvs_KernelVersion (pv_Spec sample_pv) = ''5.4.0-gke''"
    by (simp_all add: sample_mld_def sample_pv_def)
  ultimately show ?thesis using sample_mld_preflight [of sample_pv]
    by (simp add: PreflightUpgradeCheck_def go_simps)
qed

section \<open>Properties\<close>

text \<open>
  C16. A positive preflight verdict is earned.  If the check of a Module for the new kernel says
  verified, then the Module has a mapping for the kernel and either a layer pulled from the registry
  contains the module's file under the directory of that kernel, or the Module is to be built or
  signed, and each of the two that applies was carried out by a job that belongs to this
  PreflightValidation, is the only such job, has succeeded, and was made from the current
  specification.
\<close>

theorem PreflightUpgradeCheck_sound:
  assumes "status_stored L" and "PreflightUpgradeCheck L pv m s = (Ok (pv', True, msg), t)"
  shows "\<exists>mld. GetModuleLoaderDataForKernel L m (pvs_KernelVersion (pv_Spec pv)) = Ok mld \<and>
     (image_verified L mld (history t) \<or>
      (ShouldBeBuilt mld \<or> ShouldBeSigned mld) \<and>
      (ShouldBeBuilt mld \<longrightarrow> pf_build_ok L pv mld (history t)) \<and>
      (ShouldBeSigned mld \<longrightarrow> pf_sign_ok L pv mld (history t)))"
  by (rule guarD [OF guar_PreflightUpgradeCheck [OF assms(1) pv_same_refl UNIV_I] TrueI assms(2)])
    (auto simp: preflight_ok_def)

theorem PreflightUpgradeCheck_sound_witness:
  "\<exists>pv' msg t mld. PreflightUpgradeCheck (preflight_cluster sample_pv) sample_pv (sample_module [sample_mapping None None]) fresh_state =
       (Ok (pv', True, msg), t) \<and> image_verified (preflight_cluster sample_pv) mld (history t)"
proof -
  let ?m = "sample_module [sample_mapping None None]"
  obtain pv' msg t where run: "PreflightUpgradeCheck (preflight_cluster sample_pv) sample_pv ?m fresh_state = (Ok (pv', True, msg), t)"
    using sample_preflight_check by blast
  from PreflightUpgradeCheck_sound [OF status_stored_preflight_cluster run] sample_mld_preflight [of sample_pv]
  have "image_verified (preflight_cluster sample_pv) (sample_mld None None) (history t)"
    by (simp add: sample_pv_def ShouldBeBuilt_def ShouldBeSigned_def sample_mld_def)
  with run show ?thesis by blast
qed

text \<open>
  A preflight run never touches what runs on the nodes: beside reading, it updates the status of the
  PreflightValidation it was called for, creates jobs for Modules on the list it was answered and for
  the kernel of the PreflightValidation, and deletes listed jobs that this PreflightValidation controls.
\<close>

theorem PreflightReconcile_writes:
  assumes "status_stored L" and "PreflightReconcile L req s = (r, t)"
    and "history t = xs @ Write w # ys" and "length (history s) \<le> length xs"
  shows "\<exists>pv. cl_GetPreflightValidation L (history s) req = Inr pv \<and>
     (case w of
        UpdatePreflightStatus pv' \<Rightarrow> pv_Meta pv' = pv_Meta pv \<and> pv_Spec pv' = pv_Spec pv
      | CreateJob j \<Rightarrow> (\<exists>ms. modules_listed L ms xs \<and> preflight_job L pv (set ms) j)
      | DeleteJob j \<Rightarrow> IsControlledBy L (om_OwnerReferences (job_Meta j)) (owner_of_preflight pv) \<and> job_listed L xs j
      | _ \<Rightarrow> False)"
proof (cases "cl_GetPreflightValidation L (history s) req")
  case (Inl e)
  with assms show ?thesis
    by (auto simp: PreflightReconcile_def go_simps append_eq_append_conv2 Cons_eq_append_conv split: if_splits)
next
  case (Inr pv)
  obtain evs where evs: "history t = history s @ Read (GetPreflightValidation req) # evs"
    and ok: "trace_ok (preflight_run_event L pv) (history s @ [Read (GetPreflightValidation req)]) evs"
    by (rule PreflightReconcile_trace [OF assms(1,2) Inr])
  obtain zs where "xs = history s @ zs" and "zs @ Write w # ys = Read (GetPreflightValidation req) # evs"
    using assms(3,4) evs by (auto simp: append_eq_append_conv2)
  then obtain zs' where "xs = (history s @ [Read (GetPreflightValidation req)]) @ zs'" "evs = zs' @ Write w # ys"
    by (cases zs) auto
  with ok have "preflight_run_event L pv xs (Write w)" unfolding trace_ok_nth by blast
  then show ?thesis using Inr by (cases rule: preflight_run_event_Write) auto
qed

text \<open>
  C37. Which Modules are checked, and with which statuses the run starts: the statuses sent to the server
  are those of exactly the Modules that exist and are not being deleted; a Module that had a status
  keeps it, a new one starts unverified at the image stage; and the Modules to check are those that are
  not verified yet, so a verified Module is never checked again.  No entry is missing when the list is
  made, so this part cannot panic.
\<close>

theorem getModulesToCheck_statuses:
  assumes "status_stored L" and "getModulesToCheck L pv s = (r, t)"
  shows "r \<noteq> Panic \<and> (\<forall>pv' ms. r = Ok (pv', ms) \<longrightarrow>
     (\<exists>mods now. cl_ListModules L (history s) = Inr mods \<and>
        (\<forall>n. map_of (crs pv') n =
           (if \<exists>m \<in> set mods. om_DeletionTimestamp (mod_Meta m) = None \<and> om_Name (mod_Meta m) = n
            then Some (case map_of (crs pv) n of Some st \<Rightarrow> st | None \<Rightarrow> fresh_status now) else None)) \<and>
        ms = filter (\<lambda>m. om_DeletionTimestamp (mod_Meta m) = None \<and>
           crs_VerificationStatus (the (map_of (crs pv') (om_Name (mod_Meta m)))) \<noteq> VerificationTrue) mods))"
proof (cases "cl_ListModules L (history s)")
  case (Inl e)
  with assms(2) show ?thesis by (auto simp: getModulesToCheck_def go_simps)
next
  case (Inr mods)
  let ?s1 = "s\<lparr>history := history s @ [Read ListModules]\<rparr>"
  obtain now where run: "presetModulesStatuses L pv mods ?s1 =
     (Ok (case cl_UpdatePreflightStatus L (history ?s1) (preset_pv pv mods now) of
            Inl e \<Rightarrow> (preset_pv pv mods now, Some e) | Inr stored \<Rightarrow> (stored, None)),
      ?s1\<lparr>history := history ?s1 @ [Write (UpdatePreflightStatus (preset_pv pv mods now))]\<rparr>)"
    using preset_run by blast
  have live: "n \<in> set (live_names mods) \<longleftrightarrow>
      (\<exists>m \<in> set mods. om_DeletionTimestamp (mod_Meta m) = None \<and> om_Name (mod_Meta m) = n)" for n
    by (auto simp: live_names_def)
  have ms: "modules_to_check (preset_pv pv mods now) mods = Ok (filter (\<lambda>m. om_DeletionTimestamp (mod_Meta m) = None \<and>
     crs_VerificationStatus (the (map_of (crs (preset_pv pv mods now)) (om_Name (mod_Meta m)))) \<noteq> VerificationTrue) mods)"
    by (rule modules_to_check_Ok) (auto simp: map_of_preset live)
  show ?thesis
  proof (cases "cl_UpdatePreflightStatus L (history ?s1) (preset_pv pv mods now)")
    case (Inl e)
    with run Inr assms(2) show ?thesis by (auto simp: getModulesToCheck_def go_simps)
  next
    case stored: (Inr pv2)
    then have "pv2 = preset_pv pv mods now" using assms(1) unfolding status_stored_def by blast
    with stored run Inr assms(2) ms have "r = Ok (preset_pv pv mods now, filter (\<lambda>m. om_DeletionTimestamp (mod_Meta m) = None \<and>
        crs_VerificationStatus (the (map_of (crs (preset_pv pv mods now)) (om_Name (mod_Meta m)))) \<noteq> VerificationTrue) mods)"
      by (auto simp: getModulesToCheck_def go_simps)
    then show ?thesis using Inr by (auto simp: map_of_preset live)
  qed
qed

theorem getModulesToCheck_statuses_witness:
  "\<exists>pv' t. getModulesToCheck (preflight_cluster sample_pv) sample_pv fresh_state =
       (Ok (pv', [sample_module [sample_mapping None None]]), t) \<and>
     map_of (crs pv') ''mod'' \<noteq> None \<and> map_of (crs pv') ''other'' = None"
proof -
  let ?m = "sample_module [sample_mapping None None]"
  obtain r t where run: "getModulesToCheck (preflight_cluster sample_pv) sample_pv fresh_state = (r, t)" by fastforce
  obtain pv' ms where r: "r = Ok (pv', ms)"
    using run by (auto simp: getModulesToCheck_def presetModulesStatuses_def PreflightPresetStatuses_def update_preflight_def
      crs_def Let_def time_now_def preflight_cluster_def registry_with_def sample_pv_def sample_defs zero_ObjectMeta_def go_simps)
  have m: "om_DeletionTimestamp (mod_Meta ?m) = None" "om_Name (mod_Meta ?m) = ''mod''"
    by (simp_all add: sample_module_def sample_meta_def zero_ObjectMeta_def)
  have list: "cl_ListModules (preflight_cluster sample_pv) h = Inr [?m]" for h
    by (simp add: preflight_cluster_def)
  have none: "map_of (crs sample_pv) n = None" for n by (simp add: crs_def sample_pv_def)
  obtain now where st: "\<forall>n. map_of (crs pv') n = (if \<exists>m \<in> set [?m]. om_DeletionTimestamp (mod_Meta m) = None \<and>
        om_Name (mod_Meta m) = n then Some (case map_of (crs sample_pv) n of Some st \<Rightarrow> st | None \<Rightarrow> fresh_status now) else None)"
    and ms: "ms = filter (\<lambda>m. om_DeletionTimestamp (mod_Meta m) = None \<and>
           crs_VerificationStatus (the (map_of (crs pv') (om_Name (mod_Meta m)))) \<noteq> VerificationTrue) [?m]"
    using getModulesToCheck_statuses [OF status_stored_preflight_cluster run] unfolding r list by blast
  have "map_of (crs pv') ''mod'' = Some (fresh_status now)" "map_of (crs pv') ''other'' = None"
    using st m none by auto
  moreover from this ms m have "ms = [?m]"
    by (simp add: fresh_status_def VerificationFalse_def VerificationTrue_def)
  ultimately show ?thesis using run r by auto
qed

text \<open>
  C26. A preflight run is over exactly when everything is verified.  A run without an error answers
  without asking to be called again if the PreflightValidation is gone; otherwise its last call asks
  again for the PreflightValidation of the request, and it ends for good exactly if the statuses in that
  answer are all \<open>True\<close>, and comes back after 180 seconds exactly if one of them is not.  This relies on
  the server for two things: a request for an object is answered with the object of that name and
  namespace, and a status update changes neither.
\<close>

theorem PreflightReconcile_completion:
  assumes "status_stored L" and "asked_for L (history s) req" and "PreflightReconcile L req s = (Ok d, t)"
  shows "(\<exists>e. cl_GetPreflightValidation L (history s) req = Inl e \<and> IsNotFound e \<and> d = 0 \<and>
       history t = history s @ [Read (GetPreflightValidation req)]) \<or>
     (\<exists>h pv. history t = h @ [Read (GetPreflightValidation req)] \<and> length (history s) < length h \<and>
        cl_GetPreflightValidation L h req = Inr pv \<and>
        (distinct (map fst (crs pv)) \<longrightarrow>
          (d = 0 \<and> (\<forall>(n, st) \<in> set (crs pv). crs_VerificationStatus st = VerificationTrue) \<or>
           d = 180 \<and> (\<exists>(n, st) \<in> set (crs pv). crs_VerificationStatus st \<noteq> VerificationTrue))))"
proof (cases "cl_GetPreflightValidation L (history s) req")
  case (Inl e)
  with assms(3) show ?thesis by (auto simp: PreflightReconcile_def go_simps split: if_splits)
next
  case (Inr pv)
  with assms(2) have key: "pv_key pv = req" by (simp add: asked_for_def)
  obtain b h pv' where d: "d = (if b then 0 else 180)" and h: "history t = h @ [Read (GetPreflightValidation req)]"
    and pv': "cl_GetPreflightValidation L h req = Inr pv'"
    and b: "b \<longleftrightarrow> list_all (\<lambda>kv. crs_VerificationStatus (snd kv) = VerificationTrue)
        (range_map (range_order L RangeCRStatuses) (crs pv'))"
    and len: "length (history s) < length h"
    by (rule PreflightReconcile_trace [OF assms(1,3) Inr]) (auto simp: key reread_def)
  have "b \<longleftrightarrow> (\<forall>(n, st) \<in> set (crs pv'). crs_VerificationStatus st = VerificationTrue)" if "distinct (map fst (crs pv'))"
    using set_range_map [OF that] by (auto simp: b list_all_iff)
  with h pv' d len show ?thesis by (intro disjI2 exI conjI) auto
qed

theorem PreflightReconcile_completion_witness:
  "\<exists>t h. PreflightReconcile (preflight_cluster (verified_pv 3)) (pv_key sample_pv) fresh_state = (Ok 0, t) \<and>
     history t = h @ [Read (GetPreflightValidation (pv_key sample_pv))] \<and> h \<noteq> []"
proof -
  let ?L = "preflight_cluster (verified_pv 3)"
  obtain t where run: "PreflightReconcile ?L (pv_key sample_pv) fresh_state = (Ok 0, t)"
    by (simp add: PreflightReconcile_def runPreflightValidation_def getModulesToCheck_def presetModulesStatuses_def
      PreflightPresetStatuses_def update_preflight_def checkPreflightCompletion_def range_map_def range_keys_def
      crs_def Let_def preflight_cluster_def registry_with_def verified_pv_def sample_pv_def sample_defs zero_ObjectMeta_def go_simps)
  have "asked_for ?L (history fresh_state) (pv_key sample_pv)"
    by (simp add: asked_for_def preflight_cluster_def verified_pv_def pv_key_def sample_pv_def)
  moreover have "cl_GetPreflightValidation ?L h req = Inr (verified_pv 3)" for h req by (simp add: preflight_cluster_def)
  ultimately show ?thesis
    using PreflightReconcile_completion [OF status_stored_preflight_cluster _ run] run by (auto simp: fresh_state_def)
qed

end
