(* ===== verification/Node_Labels.thy ===== *)
theory Node_Labels
  imports Daemon_Set Samples
begin

text \<open>
  The three controllers that publish what runs on the nodes:
  \<open>controllers/pod_node_module_reconciler.go\<close> labels a node while a pod of a Module is ready on it,
  \<open>controllers/node_kernel_reconciler.go\<close> labels a node with its kernel version, and
  \<open>controllers/node_kernel_clusterclaim.go\<close> publishes the kernel versions of a cluster to the hub.
  A patch is the pair of the object before and after.
\<close>

section \<open>Nodes and the pods of a Module\<close>

definition set_node_label :: "string \<Rightarrow> string \<Rightarrow> Node \<Rightarrow> Node" where
  "set_node_label k v n = n\<lparr>node_Meta := (node_Meta n)\<lparr>om_Labels := mput (om_Labels (node_Meta n)) k v\<rparr>\<rparr>"

definition del_node_label :: "string \<Rightarrow> Node \<Rightarrow> Node" where
  "del_node_label k n = n\<lparr>node_Meta := (node_Meta n)\<lparr>om_Labels := mdel (om_Labels (node_Meta n)) k\<rparr>\<rparr>"

definition addLabel :: "env \<Rightarrow> string \<Rightarrow> string \<Rightarrow> (op_state, unit) go" where
  "addLabel L nodeName labelName =
     check (call (Read (GetNode nodeName)) (\<lambda>h. cl_GetNode L h nodeName))
       (\<lambda>e. Errorf ''could not get node %s: %v'' [AS nodeName, AE e])
       (\<lambda>node. do_write L (PatchNode node (set_node_label labelName '''' node)))"

definition deleteLabel :: "env \<Rightarrow> string \<Rightarrow> string \<Rightarrow> (op_state, unit) go" where
  "deleteLabel L nodeName labelName =
     check (call (Read (GetNode nodeName)) (\<lambda>h. cl_GetNode L h nodeName))
       (\<lambda>e. Errorf ''could not get node %s: %v'' [AS nodeName, AE e])
       (\<lambda>node. do_write L (PatchNode node (del_node_label labelName node)))"

definition without_finalizer :: "env \<Rightarrow> Pod \<Rightarrow> Pod" where
  "without_finalizer L pod = pod\<lparr>pod_Meta := (pod_Meta pod)\<lparr>om_Finalizers :=
     RemoveFinalizer L (om_Finalizers (pod_Meta pod)) NodeLabelerFinalizer\<rparr>\<rparr>"

definition deleteFinalizer :: "env \<Rightarrow> Pod \<Rightarrow> (op_state, unit) go" where
  "deleteFinalizer L pod = do_write L (PatchPod pod (without_finalizer L pod))"

definition PodReconcile :: "env \<Rightarrow> NamespacedName \<Rightarrow> (op_state, unit) go" where
  "PodReconcile L req =
     attempt (call (Read (GetPod req)) (\<lambda>h. cl_GetPod L h req)) (\<lambda>r. case r of
       Inl e \<Rightarrow>
         if IsNotFound e then ret ()
         else raise (Errorf ''could not get pod %s: %v'' [AS (nn_Namespace req), AS (nn_Name req), AE e])
     | Inr pod \<Rightarrow>
         let nodeName = pod_NodeName pod in
         case map_of (om_Labels (pod_Meta pod)) ModuleNameLabel of
           None \<Rightarrow> raise (Errorf ''pod %s has no %q label''
             [AS (nn_Namespace req), AS (nn_Name req), AS ModuleNameLabel])
         | Some moduleName \<Rightarrow>
             let labelName = GetNodeLabelFromPod pod moduleName in
             if \<not> IsPodReady L pod \<or> om_DeletionTimestamp (pod_Meta pod) \<noteq> None
             then
               check (deleteLabel L nodeName labelName)
                 (\<lambda>e. Errorf ''could not unlabel node %s: %v'' [AS nodeName, AE e])
                 (\<lambda>_.
               if om_DeletionTimestamp (pod_Meta pod) \<noteq> None
               then attempt (deleteFinalizer L pod) (\<lambda>r. case r of
                   Inl e \<Rightarrow> if IsNotFound e then ret ()
                     else raise (Errorf ''could not delete the pod finalizer: %v'' [AE e])
                 | Inr _ \<Rightarrow> ret ())
               else ret ())
             else
               check (addLabel L nodeName labelName)
                 (\<lambda>e. Errorf ''could not label node %s with %q: %v'' [AS nodeName, AS labelName, AE e])
                 (\<lambda>_. ret ()))"

section \<open>The kernel version of a node\<close>

definition NodeKernelReconcile :: "env \<Rightarrow> string \<Rightarrow> NamespacedName \<Rightarrow> (op_state, unit) go" where
  "NodeKernelReconcile L labelName req =
     check (call (Read (GetNode (nn_Name req))) (\<lambda>h. cl_GetNode L h (nn_Name req)))
       (\<lambda>e. Errorf ''could not get node: %v'' [AE e])
       (\<lambda>node.
     let kernelVersion = TrimSuffix (node_KernelVersion node) ''+'' in
     check (do_write L (PatchNode node (set_node_label labelName kernelVersion node)))
       (\<lambda>e. Errorf ''could not patch the node: %v'' [AE e])
       (\<lambda>_. ret ()))"

section \<open>The kernel versions of a cluster\<close>

text \<open>The list request without a selector is the one with an empty selector.\<close>

definition kernels_slice :: "env \<Rightarrow> Node list \<Rightarrow> string list" where
  "kernels_slice L nodes =
     (let kernelsMap = mputs [] (map (\<lambda>n. (node_KernelVersion n, ())) nodes)
      in sort (range_keys (range_order L RangeKernels) kernelsMap))"

definition ClusterClaimReconcile :: "env \<Rightarrow> (op_state, unit) go" where
  "ClusterClaimReconcile L =
     check (call (Read (ListNodes [])) (\<lambda>h. cl_ListNodes L h []))
       (\<lambda>e. Errorf ''could not list nodes: %v'' [AE e])
       (\<lambda>nodeList.
     let kernelsSlice = kernels_slice L nodeList;
         name = KernelVersionsClusterClaimName
     in bind_go (CreateOrPatch
          (call (Read (GetClusterClaim name)) (\<lambda>h. cl_GetClusterClaim L h name))
          (\<lambda>cc. bind_go (do_write L (CreateClusterClaim cc)) (\<lambda>_. ret cc))
          (\<lambda>old cc. bind_go (do_write L (PatchClusterClaim old cc)) (\<lambda>_. ret cc))
          \<lparr>cc_Name = name, cc_Value = ''''\<rparr>
          (\<lambda>cc. ret (cc\<lparr>cc_Value := Join kernelsSlice ''\<newline>''\<rparr>)))
        (\<lambda>_. ret ()))"

section \<open>Lemmas\<close>

lemma node_label_lookup [simp]:
  "map_of (om_Labels (node_Meta (set_node_label k v n))) x =
     (if x = k then Some v else map_of (om_Labels (node_Meta n)) x)"
  "map_of (om_Labels (node_Meta (del_node_label k n))) x =
     (if x = k then None else map_of (om_Labels (node_Meta n)) x)"
  by (simp_all add: set_node_label_def del_node_label_def map_of_mdel)

lemma node_label_kernel [simp]:
  "node_KernelVersion (set_node_label k v n) = node_KernelVersion n"
  "om_Name (node_Meta (set_node_label k v n)) = om_Name (node_Meta n)"
  by (simp_all add: set_node_label_def)

text \<open>Two nodes that differ at most in their labels.\<close>

definition same_but_labels :: "Node \<Rightarrow> Node \<Rightarrow> bool" where
  "same_but_labels n n' \<longleftrightarrow> n' = n\<lparr>node_Meta := (node_Meta n)\<lparr>om_Labels := om_Labels (node_Meta n')\<rparr>\<rparr>"

lemma same_but_labels_simps [simp]:
  "same_but_labels n (set_node_label k v n)" "same_but_labels n (del_node_label k n)"
  by (simp_all add: same_but_labels_def set_node_label_def del_node_label_def)

lemma fst_set_mputs: "fst ` set (mputs m kvs) = fst ` set m \<union> fst ` set kvs"
proof (induction kvs arbitrary: m)
  case (Cons kv kvs)
  show ?case unfolding mputs_def by (cases kv) (use Cons [of "mput m (fst kv) (snd kv)"] in \<open>simp flip: mputs_def\<close>)
qed simp

lemma cc_Value_update_iff: "cc\<lparr>cc_Value := v\<rparr> = cc \<longleftrightarrow> cc_Value (cc :: ClusterClaim) = v"
  by (cases cc) auto

text \<open>Whatever order the map is visited in, the slice is the sorted list of the different kernels.\<close>

lemma kernels_slice_eq: "kernels_slice L nodes = sorted_list_of_set (node_KernelVersion ` set nodes)"
proof (rule sorted_distinct_set_unique)
  let ?m = "mputs [] (map (\<lambda>n. (node_KernelVersion n, ())) nodes)"
  have "distinct (map fst ?m)" by (rule distinct_mputs) simp
  then show "distinct (kernels_slice L nodes)" by (simp add: kernels_slice_def Let_def)
  show "set (kernels_slice L nodes) = set (sorted_list_of_set (node_KernelVersion ` set nodes))"
    by (simp add: kernels_slice_def Let_def fst_set_mputs image_image)
qed (simp_all add: kernels_slice_def Let_def)

text \<open>A cluster with a node and a pod of the Module \<open>mod\<close> on it, for closed examples.\<close>

definition loader_pod :: "nat option \<Rightarrow> Pod" where
  "loader_pod deletion = \<lparr>pod_Meta = (sample_meta ''pod'')\<lparr>om_Labels := [(ModuleNameLabel, ''mod''), (KernelLabel, ''5.4.0-gke'')],
       om_Finalizers := [NodeLabelerFinalizer], om_DeletionTimestamp := deletion\<rparr>,
     pod_NodeName = ''n1'', pod_Conditions = [\<lparr>cond_Type = ''Ready'', cond_Status = ''True''\<rparr>]\<rparr>"

definition node_cluster :: "Pod \<Rightarrow> env" where
  "node_cluster pod = empty_cluster\<lparr>
     cl_GetPod := (\<lambda>_ _. Inr pod),
     cl_GetNode := (\<lambda>_ n. Inr (sample_node n ''5.4.0-gke+'')),
     cl_ListNodes := (\<lambda>_ _. Inr [sample_node ''n1'' ''5.4.0'', sample_node ''n2'' ''4.18.0'', sample_node ''n3'' ''5.4.0''])\<rparr>"

section \<open>Properties\<close>

text \<open>
  C23. The label of a Module on a node follows the pod.  For a pod of the Module on a node that can be
  read, the first write is a patch of exactly that node that changes labels only: the label the pod
  stands for is set if the pod is ready and not being deleted, and removed otherwise, and no other
  label changes.  Without the node, or without the Module label on the pod, nothing is written and the
  run fails; a pod that is gone is no error.
\<close>

theorem PodReconcile_label_follows_pod:
  assumes "PodReconcile L req s = (r, t)"
  shows "\<exists>evs. history t = history s @ evs \<and>
     (case cl_GetPod L (history s) req of
        Inl e \<Rightarrow> writes evs = [] \<and> (r = Ok () \<longleftrightarrow> IsNotFound e)
      | Inr pod \<Rightarrow>
         (case map_of (om_Labels (pod_Meta pod)) ModuleNameLabel of
            None \<Rightarrow> writes evs = [] \<and> r \<noteq> Ok ()
          | Some m \<Rightarrow>
             (case cl_GetNode L (history s @ [Read (GetPod req)]) (pod_NodeName pod) of
                Inl e \<Rightarrow> writes evs = [] \<and> r \<noteq> Ok ()
              | Inr node \<Rightarrow> \<exists>node' ws. writes evs = PatchNode node node' # ws \<and> same_but_labels node node' \<and>
                  (\<forall>k. map_of (om_Labels (node_Meta node')) k =
                    (if k = GetNodeLabelFromPod pod m
                     then if IsPodReady L pod \<and> om_DeletionTimestamp (pod_Meta pod) = None then Some '''' else None
                     else map_of (om_Labels (node_Meta node)) k)) \<and>
                  (ws \<noteq> [] \<longrightarrow> ws = [PatchPod pod (without_finalizer L pod)]))))"
  using assms
  by (auto simp: PodReconcile_def addLabel_def deleteLabel_def deleteFinalizer_def Let_def go_simps of_sum_def
      split: sum.splits option.splits if_splits)

theorem PodReconcile_label_follows_pod_witness:
  "\<exists>r t node' ws. PodReconcile (node_cluster (loader_pod None)) sample_request fresh_state = (r, t) \<and>
     writes (history t) = PatchNode (sample_node ''n1'' ''5.4.0-gke+'') node' # ws \<and>
     map_of (om_Labels (node_Meta node')) (getDriverContainerNodeLabel ''mod'') = Some ''''"
proof -
  obtain r t where run: "PodReconcile (node_cluster (loader_pod None)) sample_request fresh_state = (r, t)" by fastforce
  have env: "cl_GetPod (node_cluster (loader_pod None)) h req = Inr (loader_pod None)"
    "cl_GetNode (node_cluster (loader_pod None)) h n = Inr (sample_node n ''5.4.0-gke+'')"
    "map_of (om_Labels (pod_Meta (loader_pod None))) ModuleNameLabel = Some ''mod''"
    "pod_NodeName (loader_pod None) = ''n1''" "om_DeletionTimestamp (pod_Meta (loader_pod None)) = None"
    "IsPodReady (node_cluster (loader_pod None)) (loader_pod None)"
    "GetNodeLabelFromPod (loader_pod None) ''mod'' = getDriverContainerNodeLabel ''mod''" for h req n
    by (simp_all add: node_cluster_def loader_pod_def empty_cluster_def GetNodeLabelFromPod_def label_defs
        devicePluginKernelVersion_def)
  from PodReconcile_label_follows_pod [OF run] run show ?thesis by (auto simp: env fresh_state_def)
qed

text \<open>
  C22. A pod leaves only after its own node has lost the label.  Whenever a run patches a pod, the pod is
  the one the request asked for, its deletion was requested, and the patch only takes the finalizer
  off; and the call just before is a patch, accepted by the server, of the node the pod runs on, as
  the server answered it in this run, which takes away the label the pod stands for and changes
  nothing else of the node.  So a pod that is not being deleted never loses its finalizer.  A run for
  a pod under deletion succeeds only if its last call is the removal of the finalizer and the server
  accepted it or the pod is already gone.
\<close>

theorem PodReconcile_finalizer_after_label:
  assumes "PodReconcile L req s = (r, t)"
  shows "(\<forall>xs p p' ys. history t = xs @ Write (PatchPod p p') # ys \<and> length (history s) \<le> length xs \<longrightarrow>
       cl_GetPod L (history s) req = Inr p \<and> om_DeletionTimestamp (pod_Meta p) \<noteq> None \<and> p' = without_finalizer L p \<and>
       (\<exists>m node node' h. map_of (om_Labels (pod_Meta p)) ModuleNameLabel = Some m \<and>
         cl_GetNode L (history s @ [Read (GetPod req)]) (pod_NodeName p) = Inr node \<and>
         h = history s @ [Read (GetPod req), Read (GetNode (pod_NodeName p))] \<and>
         xs = h @ [Write (PatchNode node node')] \<and> cl_Write L h (PatchNode node node') = Inr () \<and>
         same_but_labels node node' \<and>
         (\<forall>k. map_of (om_Labels (node_Meta node')) k =
           (if k = GetNodeLabelFromPod p m then None else map_of (om_Labels (node_Meta node)) k)))) \<and>
     (\<forall>pod. cl_GetPod L (history s) req = Inr pod \<and> om_DeletionTimestamp (pod_Meta pod) \<noteq> None \<and> r = Ok () \<longrightarrow>
       (\<exists>h w. history t = h @ [Write w] \<and> w = PatchPod pod (without_finalizer L pod) \<and>
         (case cl_Write L h w of Inl e \<Rightarrow> IsNotFound e | Inr _ \<Rightarrow> True)))"
  using assms
  by (auto simp: PodReconcile_def addLabel_def deleteLabel_def deleteFinalizer_def Let_def go_simps of_sum_def
      append_eq_append_conv2 append_eq_Cons_conv Cons_eq_append_conv
      split: sum.splits option.splits if_splits)

theorem PodReconcile_finalizer_after_label_witness:
  "\<exists>t h node'. PodReconcile (node_cluster (loader_pod (Some 5))) sample_request fresh_state = (Ok (), t) \<and>
     history t = h @ [Write (PatchNode (sample_node ''n1'' ''5.4.0-gke+'') node'),
       Write (PatchPod (loader_pod (Some 5)) (without_finalizer (node_cluster (loader_pod (Some 5))) (loader_pod (Some 5))))] \<and>
     map_of (om_Labels (node_Meta node')) (getDriverContainerNodeLabel ''mod'') = None"
proof -
  let ?L = "node_cluster (loader_pod (Some 5))" and ?pod = "loader_pod (Some 5)"
  have env: "cl_GetPod ?L h req = Inr ?pod" "cl_GetNode ?L h n = Inr (sample_node n ''5.4.0-gke+'')"
    "om_DeletionTimestamp (pod_Meta ?pod) = Some 5" "pod_NodeName ?pod = ''n1''"
    "map_of (om_Labels (pod_Meta ?pod)) ModuleNameLabel = Some ''mod''"
    "GetNodeLabelFromPod ?pod ''mod'' = getDriverContainerNodeLabel ''mod''" for h req n
    by (simp_all add: node_cluster_def loader_pod_def empty_cluster_def GetNodeLabelFromPod_def label_defs
        devicePluginKernelVersion_def)
  obtain t where run: "PodReconcile ?L sample_request fresh_state = (Ok (), t)"
    by (simp add: PodReconcile_def deleteLabel_def deleteFinalizer_def node_cluster_def loader_pod_def
        empty_cluster_def Let_def go_simps)
  note rule = PodReconcile_finalizer_after_label [OF run]
  obtain h where last: "history t = h @ Write (PatchPod ?pod (without_finalizer ?L ?pod)) # []"
    using rule [THEN conjunct2, rule_format, of ?pod] env(1,3) by auto
  have "length (history fresh_state) \<le> length h" by (simp add: fresh_state_def)
  with rule [THEN conjunct1, rule_format, of h ?pod "without_finalizer ?L ?pod" "[]"] last
  obtain m node node' h' where "map_of (om_Labels (pod_Meta ?pod)) ModuleNameLabel = Some m"
    "cl_GetNode ?L (history fresh_state @ [Read (GetPod sample_request)]) (pod_NodeName ?pod) = Inr node"
    "h = h' @ [Write (PatchNode node node')]"
    "map_of (om_Labels (node_Meta node')) (GetNodeLabelFromPod ?pod m) = None" by auto
  with last run show ?thesis by (auto simp: env)
qed

text \<open>
  A node is labelled with its kernel version.  If the node can be read, the only write is a patch
  of that node which sets the label to the kernel version without a trailing plus sign and changes
  nothing else; the run succeeds exactly if the server accepts it.
\<close>

theorem NodeKernelReconcile_labels:
  assumes "NodeKernelReconcile L labelName req s = (r, t)"
  shows "(\<exists>e. cl_GetNode L (history s) (nn_Name req) = Inl e \<and> r \<noteq> Ok () \<and>
       history t = history s @ [Read (GetNode (nn_Name req))]) \<or>
     (\<exists>node node'. cl_GetNode L (history s) (nn_Name req) = Inr node \<and>
       history t = history s @ [Read (GetNode (nn_Name req)), Write (PatchNode node node')] \<and>
       same_but_labels node node' \<and>
       (\<forall>k. map_of (om_Labels (node_Meta node')) k =
         (if k = labelName then Some (TrimSuffix (node_KernelVersion node) ''+'') else map_of (om_Labels (node_Meta node)) k)) \<and>
       (r = Ok () \<longleftrightarrow> cl_Write L (history s @ [Read (GetNode (nn_Name req))]) (PatchNode node node') = Inr ()))"
  using assms
  by (auto simp: NodeKernelReconcile_def Let_def go_simps of_sum_def split: sum.splits)

theorem NodeKernelReconcile_labels_witness:
  "\<exists>t node'. NodeKernelReconcile (node_cluster (loader_pod None)) KernelLabel \<lparr>nn_Namespace = '''', nn_Name = ''n1''\<rparr> fresh_state = (Ok (), t) \<and>
     writes (history t) = [PatchNode (sample_node ''n1'' ''5.4.0-gke+'') node'] \<and>
     map_of (om_Labels (node_Meta node')) KernelLabel = Some ''5.4.0-gke''"
proof -
  let ?L = "node_cluster (loader_pod None)"
  obtain r t where run: "NodeKernelReconcile ?L KernelLabel \<lparr>nn_Namespace = '''', nn_Name = ''n1''\<rparr> fresh_state = (r, t)" by fastforce
  have env: "cl_GetNode ?L h n = Inr (sample_node n ''5.4.0-gke+'')" "cl_Write ?L h w = Inr ()"
    "TrimSuffix (node_KernelVersion (sample_node n ''5.4.0-gke+'')) ''+'' = ''5.4.0-gke''" for h n w
    by (simp_all add: node_cluster_def empty_cluster_def sample_node_def TrimSuffix_def HasSuffix_def)
  from NodeKernelReconcile_labels [OF run] run show ?thesis by (auto simp: env fresh_state_def)
qed

text \<open>
  The cluster claim is canonical.  After the nodes are listed, the claim gets the sorted list of
  their different kernel versions, whatever the order of the nodes and of the map; a claim that
  already has this value is not written, so the controller does not trigger itself.
\<close>

theorem ClusterClaimReconcile_canonical:
  assumes "ClusterClaimReconcile L s = (r, t)" and "cl_ListNodes L (history s) [] = Inr nodes"
  shows "let value = Join (sorted_list_of_set (node_KernelVersion ` set nodes)) ''\<newline>'';
         name = KernelVersionsClusterClaimName;
         h1 = history s @ [Read (ListNodes [])];
         h2 = h1 @ [Read (GetClusterClaim name)]
     in \<exists>evs. history t = h2 @ evs \<and>
       (case cl_GetClusterClaim L h1 name of
          Inl e \<Rightarrow> if IsNotFound e
            then let w = CreateClusterClaim \<lparr>cc_Name = name, cc_Value = value\<rparr>
              in evs = [Write w] \<and> r = of_sum (cl_Write L h2 w)
            else evs = [] \<and> r = Err e
        | Inr cc \<Rightarrow> if cc_Value cc = value then evs = [] \<and> r = Ok ()
            else let w = PatchClusterClaim cc (cc\<lparr>cc_Value := value\<rparr>)
              in evs = [Write w] \<and> r = of_sum (cl_Write L h2 w))"
  using assms
  by (auto simp: ClusterClaimReconcile_def CreateOrPatch_def Let_def go_simps kernels_slice_eq of_sum_def
      cc_Value_update_iff split: sum.splits if_splits)

theorem ClusterClaimReconcile_canonical_witness:
  "\<exists>r t. ClusterClaimReconcile (node_cluster (loader_pod None)) fresh_state = (r, t) \<and>
     writes (history t) = [CreateClusterClaim \<lparr>cc_Name = KernelVersionsClusterClaimName, cc_Value = ''4.18.0\<newline>5.4.0''\<rparr>]"
proof -
  let ?L = "node_cluster (loader_pod None)"
  obtain r t where run: "ClusterClaimReconcile ?L fresh_state = (r, t)" by fastforce
  have env: "cl_ListNodes ?L h sel = Inr [sample_node ''n1'' ''5.4.0'', sample_node ''n2'' ''4.18.0'', sample_node ''n3'' ''5.4.0'']"
    "cl_GetClusterClaim ?L h nm = Inl (NotFound ''clusterclaim'')" for h sel nm
    by (simp_all add: node_cluster_def empty_cluster_def)
  have "sorted_list_of_set (node_KernelVersion ` set [sample_node ''n1'' ''5.4.0'', sample_node ''n2'' ''4.18.0'', sample_node ''n3'' ''5.4.0'']) =
      [''4.18.0'', ''5.4.0'']"
    by (simp add: sample_node_def) (code_simp)?
  with ClusterClaimReconcile_canonical [OF run env(1)] run show ?thesis
    by (auto simp: env fresh_state_def Let_def)
qed

end
