(* ===== verification/Event_Filter.thy ===== *)
theory Event_Filter
  imports Node_Labels
begin

text \<open>
  \<open>internal/filter/filter.go\<close>: which events of the watched objects lead to a reconciliation, and which
  requests an event stands for.  A predicate answers for the four kinds of events; converting an object
  to the wrong type without a test panics.  The combinators of controller-runtime are modelled by
  their documentation: \<open>predicate.Funcs\<close> lets every kind of event pass that it has no function for,
  \<open>NewPredicateFuncs\<close> looks at the object, for an update at the new one, \<open>And\<close> and \<open>Or\<close> ask their
  arguments in turn.
\<close>

section \<open>Events and predicates\<close>

datatype client_Object =
    ONode Node
  | OPod Pod
  | OModule Module
  | OManagedCluster ManagedCluster
  | OClusterClaim ClusterClaim

fun obj_Meta :: "client_Object \<Rightarrow> ObjectMeta" where
  "obj_Meta (ONode n) = node_Meta n"
| "obj_Meta (OPod p) = pod_Meta p"
| "obj_Meta (OModule m) = mod_Meta m"
| "obj_Meta (OManagedCluster c) = mc_Meta c"
| "obj_Meta (OClusterClaim c) = zero_ObjectMeta\<lparr>om_Name := cc_Name c\<rparr>"

datatype obj_event =
    CreateEvent client_Object
  | UpdateEvent client_Object client_Object
  | DeleteEvent client_Object
  | GenericEvent client_Object

type_synonym obj_predicate = "obj_event \<Rightarrow> bool res"

fun event_object :: "obj_event \<Rightarrow> client_Object" where
  "event_object (CreateEvent x) = x"
| "event_object (UpdateEvent x y) = y"
| "event_object (DeleteEvent x) = x"
| "event_object (GenericEvent x) = x"

definition NewPredicateFuncs :: "(client_Object \<Rightarrow> bool res) \<Rightarrow> obj_predicate" where
  "NewPredicateFuncs f e = f (event_object e)"

fun UpdateFunc :: "(client_Object \<Rightarrow> client_Object \<Rightarrow> bool) \<Rightarrow> obj_predicate" where
  "UpdateFunc f (UpdateEvent x y) = Ok (f x y)"
| "UpdateFunc f _ = Ok True"

fun predicate_And :: "obj_predicate list \<Rightarrow> obj_predicate" where
  "predicate_And [] e = Ok True"
| "predicate_And (p # ps) e = check_res (p e) (\<lambda>x. x) (\<lambda>b. if b then predicate_And ps e else Ok False)"

fun predicate_Or :: "obj_predicate list \<Rightarrow> obj_predicate" where
  "predicate_Or [] e = Ok False"
| "predicate_Or (p # ps) e = check_res (p e) (\<lambda>x. x) (\<lambda>b. if b then Ok True else predicate_Or ps e)"

definition LabelChangedPredicate :: "env \<Rightarrow> obj_predicate" where
  "LabelChangedPredicate L = UpdateFunc (\<lambda>x y. LabelsChanged L (om_Labels (obj_Meta x)) (om_Labels (obj_Meta y)))"

section \<open>The predicates of the controllers\<close>

definition HasLabel :: "string \<Rightarrow> obj_predicate" where
  "HasLabel label = NewPredicateFuncs (\<lambda>x. Ok (mget (om_Labels (obj_Meta x)) label \<noteq> ''''))"

fun skipDeletions :: obj_predicate where
  "skipDeletions (DeleteEvent _) = Ok False"
| "skipDeletions _ = Ok True"

fun clusterClaim :: "string \<Rightarrow> ClusterClaim list \<Rightarrow> ClusterClaim option" where
  "clusterClaim name [] = None"
| "clusterClaim name (c # cs) = (if cc_Name c = name then Some c else clusterClaim name cs)"

definition claim_changed :: "client_Object \<Rightarrow> client_Object \<Rightarrow> bool" where
  "claim_changed x y =
     (case (x, y) of
        (OManagedCluster oldManagedCluster, OManagedCluster newManagedCluster) \<Rightarrow>
          (case clusterClaim KernelVersionsClusterClaimName (mc_ClusterClaims newManagedCluster) of
             None \<Rightarrow> False
           | Some newClusterClaim \<Rightarrow>
               clusterClaim KernelVersionsClusterClaimName (mc_ClusterClaims oldManagedCluster) \<noteq> Some newClusterClaim)
      | _ \<Rightarrow> False)"

definition kmmClusterClaimChanged :: obj_predicate where
  "kmmClusterClaimChanged = UpdateFunc claim_changed"

definition ModuleReconcilerNodePredicate :: "env \<Rightarrow> string \<Rightarrow> obj_predicate" where
  "ModuleReconcilerNodePredicate L kernelLabel =
     predicate_And [skipDeletions, HasLabel kernelLabel, LabelChangedPredicate L]"

definition labelMismatch :: "string \<Rightarrow> client_Object \<Rightarrow> bool res" where
  "labelMismatch labelName x =
     (case x of ONode n \<Rightarrow> Ok (mget (om_Labels (node_Meta n)) labelName \<noteq> node_KernelVersion n) | _ \<Rightarrow> Panic)"

definition NodeKernelReconcilerPredicate :: "string \<Rightarrow> obj_predicate" where
  "NodeKernelReconcilerPredicate labelName =
     predicate_And [skipDeletions, NewPredicateFuncs (labelMismatch labelName)]"

definition NodeUpdateKernelChangedPredicate :: obj_predicate where
  "NodeUpdateKernelChangedPredicate = UpdateFunc (\<lambda>x y.
     case (x, y) of
       (ONode oldNode, ONode newNode) \<Rightarrow> node_KernelVersion oldNode \<noteq> node_KernelVersion newNode
     | _ \<Rightarrow> False)"

definition ManagedClusterModuleReconcilerManagedClusterPredicate :: "env \<Rightarrow> obj_predicate" where
  "ManagedClusterModuleReconcilerManagedClusterPredicate L =
     predicate_Or [LabelChangedPredicate L, kmmClusterClaimChanged]"

definition DeletingPredicate :: obj_predicate where
  "DeletingPredicate = NewPredicateFuncs (\<lambda>x. Ok (om_DeletionTimestamp (obj_Meta x) \<noteq> None))"

definition PodHasSpecNodeName :: obj_predicate where
  "PodHasSpecNodeName = NewPredicateFuncs (\<lambda>x. Ok (case x of OPod p \<Rightarrow> pod_NodeName p \<noteq> '''' | _ \<Rightarrow> False))"

definition PodReadinessChangedPredicate :: "env \<Rightarrow> obj_predicate" where
  "PodReadinessChangedPredicate L = UpdateFunc (\<lambda>x y.
     case (x, y) of
       (OPod oldPod, OPod newPod) \<Rightarrow> IsPodReady L oldPod \<noteq> IsPodReady L newPod
     | _ \<Rightarrow> True)"

text \<open>The event filter that \<open>SetupWithManager\<close> of the pod controller installs.\<close>

definition pod_predicate :: "env \<Rightarrow> obj_predicate" where
  "pod_predicate L = predicate_And
     [predicate_Or [PodReadinessChangedPredicate L, DeletingPredicate], HasLabel ModuleNameLabel, PodHasSpecNodeName]"

section \<open>From events to requests\<close>

text \<open>
  The requirements of a selector are added one by one, in the order of the range loop; an invalid one
  ends the search with the requests found so far.
\<close>

fun add_requirements :: "env \<Rightarrow> (string \<times> string) list \<Rightarrow> smap \<Rightarrow> smap option" where
  "add_requirements L [] sel = Some sel"
| "add_requirements L ((k, v) # kvs) sel =
     (case NewRequirement L k v of Inl e \<Rightarrow> None | Inr _ \<Rightarrow> add_requirements L kvs (sel @ [(k, v)]))"

fun matching_requests ::
  "env \<Rightarrow> smap \<Rightarrow> (NamespacedName \<times> smap) list \<Rightarrow> NamespacedName list \<Rightarrow> NamespacedName list" where
  "matching_requests L labelsSet [] reqs = reqs"
| "matching_requests L labelsSet ((nsn, selector) # mods) reqs =
     (case add_requirements L (range_map (range_order L (RangeSelector nsn)) selector) [] of
        None \<Rightarrow> reqs
      | Some sel \<Rightarrow>
          if \<not> SelectorMatches L sel labelsSet then matching_requests L labelsSet mods reqs
          else matching_requests L labelsSet mods (reqs @ [nsn]))"

definition FindModulesForNode :: "env \<Rightarrow> client_Object \<Rightarrow> (op_state, NamespacedName list) go" where
  "FindModulesForNode L node =
     attempt (call (Read ListModules) (\<lambda>h. cl_ListModules L h)) (\<lambda>r. case r of
       Inl e \<Rightarrow> ret []
     | Inr mods \<Rightarrow> ret (matching_requests L (om_Labels (obj_Meta node))
         (map (\<lambda>m. (\<lparr>nn_Namespace = om_Namespace (mod_Meta m), nn_Name = om_Name (mod_Meta m)\<rparr>,
                spec_Selector (mod_Spec m))) mods) []))"

definition FindManagedClusterModulesForCluster :: "env \<Rightarrow> client_Object \<Rightarrow> (op_state, NamespacedName list) go" where
  "FindManagedClusterModulesForCluster L cluster =
     attempt (call (Read ListManagedClusterModules) (\<lambda>h. cl_ListManagedClusterModules L h)) (\<lambda>r. case r of
       Inl e \<Rightarrow> ret []
     | Inr mods \<Rightarrow> ret (matching_requests L (om_Labels (obj_Meta cluster))
         (map (\<lambda>m. (\<lparr>nn_Namespace = '''', nn_Name = om_Name (mcm_Meta m)\<rparr>, mcms_Selector (mcm_Spec m))) mods) []))"

definition EnqueueAllPreflightValidations :: "env \<Rightarrow> client_Object \<Rightarrow> (op_state, NamespacedName list) go" where
  "EnqueueAllPreflightValidations L md =
     attempt (call (Read ListPreflightValidations) (\<lambda>h. cl_ListPreflightValidations L h)) (\<lambda>r. case r of
       Inl e \<Rightarrow> ret []
     | Inr preflights \<Rightarrow> ret (map (\<lambda>p. \<lparr>nn_Namespace = om_Namespace (pv_Meta p), nn_Name = om_Name (pv_Meta p)\<rparr>)
         (filter (\<lambda>p. om_DeletionTimestamp (pv_Meta p) = None) preflights)))"

section \<open>What the label library is relied on for\<close>

text \<open>A selector of equality requirements matches the labels that have all of them.\<close>

definition selector_law :: "env \<Rightarrow> bool" where
  "selector_law L \<longleftrightarrow> (\<forall>reqs ls. SelectorMatches L reqs ls \<longleftrightarrow> (\<forall>(k, v) \<in> set reqs. map_of ls k = Some v))"

definition valid_selector :: "env \<Rightarrow> smap \<Rightarrow> bool" where
  "valid_selector L sel \<longleftrightarrow> (\<forall>(k, v) \<in> set sel. \<not> isl (NewRequirement L k v))"

section \<open>Lemmas\<close>

lemma add_requirements_eq:
  "add_requirements L kvs sel = (if valid_selector L kvs then Some (sel @ kvs) else None)"
proof (induction kvs arbitrary: sel)
  case (Cons kv kvs)
  obtain k v where kv: "kv = (k, v)" by fastforce
  show ?case
    by (cases "NewRequirement L k v") (simp_all add: kv Cons.IH valid_selector_def)
qed (simp add: valid_selector_def)

lemma valid_range_map:
  "distinct (map fst sel) \<Longrightarrow> valid_selector L (range_map order sel) = valid_selector L sel"
  by (simp add: valid_selector_def set_range_map)

lemma matching_requests_eq:
  assumes "selector_law L" and "\<forall>(nsn, sel) \<in> set mods. distinct (map fst sel)"
  shows "matching_requests L ls mods reqs = reqs @ map fst (filter (\<lambda>(nsn, sel). \<forall>(k, v) \<in> set sel. map_of ls k = Some v)
     (takeWhile (\<lambda>(nsn, sel). valid_selector L sel) mods))"
  using assms(2)
proof (induction mods arbitrary: reqs)
  case (Cons x mods)
  obtain nsn sel where x: "x = (nsn, sel)" by fastforce
  have d: "distinct (map fst sel)" using Cons.prems x by simp
  have m: "SelectorMatches L (range_map order sel) ls \<longleftrightarrow> (\<forall>(k, v) \<in> set sel. map_of ls k = Some v)" for order
    using assms(1) set_range_map [OF d] by (simp add: selector_law_def)
  show ?case
    using Cons by (simp add: x add_requirements_eq valid_range_map [OF d] m)
qed simp

lemma pod_predicate_update:
  "pod_predicate L (UpdateEvent (OPod p) (OPod q)) =
     Ok ((IsPodReady L p \<noteq> IsPodReady L q \<or> om_DeletionTimestamp (pod_Meta q) \<noteq> None) \<and>
       mget (om_Labels (pod_Meta q)) ModuleNameLabel \<noteq> '''' \<and> pod_NodeName q \<noteq> '''')"
  by (simp add: pod_predicate_def PodReadinessChangedPredicate_def DeletingPredicate_def HasLabel_def
      PodHasSpecNodeName_def NewPredicateFuncs_def)

section \<open>Properties\<close>

text \<open>
  C32. Which Modules a change of a node concerns: the Modules whose selector the node's labels satisfy,
  in the order of the list, up to the first Module whose selector is not valid.  So with valid
  selectors no Module is forgotten, and a Module with an invalid selector hides all those after it.
\<close>

theorem FindModulesForNode_requests:
  assumes "selector_law L" and "cl_ListModules L (history s) = Inr mods"
    and "\<forall>m \<in> set mods. distinct (map fst (spec_Selector (mod_Spec m)))"
  shows "fst (FindModulesForNode L (ONode n) s) =
     Ok (map (\<lambda>m. \<lparr>nn_Namespace = om_Namespace (mod_Meta m), nn_Name = om_Name (mod_Meta m)\<rparr>)
       (filter (\<lambda>m. \<forall>(k, v) \<in> set (spec_Selector (mod_Spec m)). map_of (om_Labels (node_Meta n)) k = Some v)
         (takeWhile (\<lambda>m. valid_selector L (spec_Selector (mod_Spec m))) mods)))"
proof -
  let ?f = "\<lambda>m. (\<lparr>nn_Namespace = om_Namespace (mod_Meta m), nn_Name = om_Name (mod_Meta m)\<rparr>, spec_Selector (mod_Spec m))"
  have "\<forall>(nsn, sel) \<in> set (map ?f mods). distinct (map fst sel)" using assms(3) by auto
  from matching_requests_eq [OF assms(1) this] show ?thesis
    using assms(2) by (simp add: FindModulesForNode_def go_simps takeWhile_map filter_map comp_def)
qed

theorem FindModulesForNode_requests_witness:
  "fst (FindModulesForNode (empty_cluster\<lparr>cl_ListModules := (\<lambda>_. Inr [sample_module []])\<rparr>) (ONode (sample_node ''n1'' ''5.4.0'')) fresh_state) =
     Ok [\<lparr>nn_Namespace = ''ns'', nn_Name = ''mod''\<rparr>]"
proof -
  let ?L = "empty_cluster\<lparr>cl_ListModules := (\<lambda>_. Inr [sample_module []])\<rparr>"
  have law: "selector_law ?L" by (simp add: selector_law_def empty_cluster_def list_all_iff)
  have list: "cl_ListModules ?L (history fresh_state) = Inr [sample_module []]" by simp
  have "\<forall>m \<in> set [sample_module []]. distinct (map fst (spec_Selector (mod_Spec m)))"
    by (simp add: sample_module_def sample_spec_def)
  from FindModulesForNode_requests [OF law list this, of "sample_node ''n1'' ''5.4.0''"] show ?thesis
    by (simp add: valid_selector_def sample_module_def sample_spec_def sample_meta_def sample_node_def empty_cluster_def)
qed

text \<open>
  C33. The pod controller misses no transition: if a pod of a Module on a node changes between a state
  that calls for the label and one that does not, the update event passes the filter.  This relies
  on a request for deletion never being taken back.
\<close>

theorem pod_predicate_misses_nothing:
  assumes "mget (om_Labels (pod_Meta q)) ModuleNameLabel \<noteq> ''''" and "pod_NodeName q \<noteq> ''''"
    and "om_DeletionTimestamp (pod_Meta p) \<noteq> None \<Longrightarrow> om_DeletionTimestamp (pod_Meta q) \<noteq> None"
    and "(IsPodReady L p \<and> om_DeletionTimestamp (pod_Meta p) = None) \<noteq> (IsPodReady L q \<and> om_DeletionTimestamp (pod_Meta q) = None)"
  shows "pod_predicate L (UpdateEvent (OPod p) (OPod q)) = Ok True"
  using assms by (auto simp: pod_predicate_update)

theorem pod_predicate_misses_nothing_witness:
  "pod_predicate empty_cluster (UpdateEvent (OPod (loader_pod None)) (OPod (loader_pod (Some 5)))) = Ok True"
  by (rule pod_predicate_misses_nothing)
    (simp_all add: loader_pod_def empty_cluster_def label_defs)

text \<open>
  C40. The kernel label settles only for kernels without a plus sign: after the controller has labelled a
  node, the event of that update passes the controller's own filter again exactly when the kernel
  version of the node ends in a plus sign, because the filter compares the label with the untrimmed
  version.
\<close>

theorem NodeKernel_label_settles:
  assumes "NodeKernelReconcile L labelName req s = (Ok (), t)"
  shows "\<exists>node node'. last (history t) = Write (PatchNode node node') \<and>
     NodeKernelReconcilerPredicate labelName (UpdateEvent (ONode node) (ONode node')) =
       Ok (HasSuffix (node_KernelVersion node) ''+'')"
proof -
  have trim: "TrimSuffix v ''+'' \<noteq> v \<longleftrightarrow> HasSuffix v ''+''" for v
    by (auto simp: TrimSuffix_def HasSuffix_def dest: arg_cong [of _ _ length])
  obtain node where "last (history t) = Write (PatchNode node (set_node_label labelName (TrimSuffix (node_KernelVersion node) ''+'') node))"
    using assms by (auto simp: NodeKernelReconcile_def Let_def go_simps of_sum_def split: sum.splits)
  moreover have "NodeKernelReconcilerPredicate labelName
      (UpdateEvent (ONode node) (ONode (set_node_label labelName (TrimSuffix (node_KernelVersion node) ''+'') node))) =
      Ok (HasSuffix (node_KernelVersion node) ''+'')"
    by (auto simp: NodeKernelReconcilerPredicate_def labelMismatch_def NewPredicateFuncs_def mget_def trim)
  ultimately show ?thesis by blast
qed

theorem NodeKernel_label_settles_witness:
  "\<exists>t node node'. NodeKernelReconcile (node_cluster (loader_pod None)) KernelLabel \<lparr>nn_Namespace = '''', nn_Name = ''n1''\<rparr> fresh_state = (Ok (), t) \<and>
     last (history t) = Write (PatchNode node node') \<and>
     NodeKernelReconcilerPredicate KernelLabel (UpdateEvent (ONode node) (ONode node')) = Ok (HasSuffix (node_KernelVersion node) ''+'')"
proof -
  obtain t where run: "NodeKernelReconcile (node_cluster (loader_pod None)) KernelLabel \<lparr>nn_Namespace = '''', nn_Name = ''n1''\<rparr> fresh_state = (Ok (), t)"
    by (simp add: NodeKernelReconcile_def node_cluster_def empty_cluster_def Let_def go_simps)
  from NodeKernel_label_settles [OF run] run show ?thesis by blast
qed

end
