(* ===== verification/Hub.thy ===== *)
theory Hub
  imports Status_Updater Event_Filter
begin

text \<open>
  The hub side: \<open>internal/cluster/cluster.go\<close> builds and signs on the hub for the kernels of a managed
  cluster, \<open>internal/manifestwork/manifestwork.go\<close> packs the Module into a ManifestWork for the cluster
  (the spoke), and \<open>controllers/hub/managedclustermodule_reconciler.go\<close> does both for every selected
  cluster.

  A Go struct passed by value shares the arrays behind its slices.  The array of kernel mappings of
  the ManagedClusterModule is therefore kept apart, as a store that \<open>SetManifestWorkAsDesired\<close> writes to
  and that later iterations read: \<open>in_store\<close> runs code that does not touch it, \<open>with_store\<close> starts with
  a given content and returns the content at the end.
\<close>

section \<open>A store for the shared array\<close>

definition in_store :: "('s, 'a) go \<Rightarrow> ('s \<times> 'x, 'a) go" where
  "in_store m = (\<lambda>(s, x). case m s of (r, t) \<Rightarrow> (r, (t, x)))"

definition with_store :: "('s \<times> 'x, 'a) go \<Rightarrow> 'x \<Rightarrow> ('s, (error + 'a) \<times> 'x) go" where
  "with_store m x = (\<lambda>s. case m (s, x) of
      (Ok a, (t, y)) \<Rightarrow> (Ok (Inr a, y), t)
    | (Err e, (t, y)) \<Rightarrow> (Ok (Inl e, y), t)
    | (Panic, (t, y)) \<Rightarrow> (Panic, t))"

definition spec_mappings :: "ModuleSpec \<Rightarrow> KernelMapping list" where
  "spec_mappings sp = mlc_KernelMappings (ml_Container (spec_ModuleLoader sp))"

definition set_container :: "(ModuleLoaderContainerSpec \<Rightarrow> ModuleLoaderContainerSpec) \<Rightarrow> ModuleSpec \<Rightarrow> ModuleSpec" where
  "set_container f sp = sp\<lparr>spec_ModuleLoader := (spec_ModuleLoader sp)\<lparr>ml_Container := f (ml_Container (spec_ModuleLoader sp))\<rparr>\<rparr>"

text \<open>The ManagedClusterModule as it reads when the array has the given content.\<close>

definition with_mappings :: "ManagedClusterModule \<Rightarrow> KernelMapping list \<Rightarrow> ManagedClusterModule" where
  "with_mappings mcm a = mcm\<lparr>mcm_Spec := (mcm_Spec mcm)\<lparr>mcms_ModuleSpec :=
     set_container (\<lambda>c. c\<lparr>mlc_KernelMappings := a\<rparr>) (mcms_ModuleSpec (mcm_Spec mcm))\<rparr>\<rparr>"

section \<open>Building and signing for a cluster\<close>

definition owner_of_mcm :: "ManagedClusterModule \<Rightarrow> Owner" where
  "owner_of_mcm mcm = \<lparr>own_Kind = ''ManagedClusterModule'', own_Meta = mcm_Meta mcm\<rparr>"

definition RequestedManagedClusterModule :: "env \<Rightarrow> NamespacedName \<Rightarrow> (op_state, ManagedClusterModule) go" where
  "RequestedManagedClusterModule L nn =
     check (call (Read (GetManagedClusterModule nn)) (\<lambda>h. cl_GetManagedClusterModule L h nn))
       (\<lambda>e. Wrapf ''failed to get the ManagedClusterModule %s: %w'' [AS (nn_Namespace nn), AS (nn_Name nn)] e) ret"

definition SelectedManagedClusters :: "env \<Rightarrow> ManagedClusterModule \<Rightarrow> (op_state, ManagedCluster list) go" where
  "SelectedManagedClusters L mcm =
     (let sel = mcms_Selector (mcm_Spec mcm) in
      call (Read (ListManagedClusters sel)) (\<lambda>h. cl_ListManagedClusters L h sel))"

fun claim_kernels :: "ClusterClaim list \<Rightarrow> string list res" where
  "claim_kernels [] = Err (Errorf ''KMM ClusterClaim not found'' [])"
| "claim_kernels (c # cs) =
     (if cc_Name c \<noteq> KernelVersionsClusterClaimName then claim_kernels cs
      else Ok (split_by (\<lambda>x. x = CHR 0x0A) (cc_Value c)))"

definition kernelVersions :: "ManagedCluster \<Rightarrow> string list res" where
  "kernelVersions cluster = claim_kernels (mc_ClusterClaims cluster)"

fun mappings_loop ::
  "env \<Rightarrow> Module \<Rightarrow> string list \<Rightarrow> (string \<times> ModuleLoaderData) list \<Rightarrow> (string \<times> ModuleLoaderData) list res" where
  "mappings_loop L m [] mldMappings = Ok mldMappings"
| "mappings_loop L m (kv # kvs) mldMappings =
     (let kernelVersion = TrimSuffix kv ''+'' in
      if map_of mldMappings kernelVersion \<noteq> None then mappings_loop L m kvs mldMappings
      else case GetModuleLoaderDataForKernel L m kernelVersion of
          Ok mld \<Rightarrow> mappings_loop L m kvs (mput mldMappings kernelVersion mld)
        | Err e \<Rightarrow> mappings_loop L m kvs mldMappings
        | Panic \<Rightarrow> Panic)"

definition kernelMappingsByKernelVersion ::
  "env \<Rightarrow> Module \<Rightarrow> ManagedCluster \<Rightarrow> (string \<times> ModuleLoaderData) list res" where
  "kernelMappingsByKernelVersion L m cluster =
     check_res (kernelVersions cluster) (\<lambda>e. e) (\<lambda>ks. mappings_loop L m ks [])"

definition cluster_build :: "env \<Rightarrow> ModuleLoaderData \<Rightarrow> Owner \<Rightarrow> (op_state, bool) go" where
  "cluster_build L mld owner =
     check (BuildShouldSync L mld)
       (\<lambda>e. Errorf ''could not check if build synchronization is needed: %v'' [AE e])
       (\<lambda>shouldSync.
          if \<not> shouldSync then ret True
          else check (BuildSync L mld True owner)
            (\<lambda>e. Wrapf ''could not synchronize the build: %w'' [] e)
            (\<lambda>buildStatus. ret (buildStatus = StatusCompleted)))"

definition previous_image :: "ModuleLoaderData \<Rightarrow> string" where
  "previous_image mld = (if ShouldBeBuilt mld
     then IntermediateImageName (mld_Name mld) (mld_Namespace mld) (mld_ContainerImage mld) else '''')"

definition cluster_sign :: "env \<Rightarrow> ModuleLoaderData \<Rightarrow> Owner \<Rightarrow> (op_state, bool) go" where
  "cluster_sign L mld owner =
     check (SignShouldSync L mld)
       (\<lambda>e. Errorf ''could not check if signing synchronization is needed: %v'' [AE e])
       (\<lambda>shouldSync.
          if \<not> shouldSync then ret True
          else check (SignSync L mld (previous_image mld) True owner)
            (\<lambda>e. Wrapf ''could not synchronize the signing: %w'' [] e)
            (\<lambda>signStatus. ret (signStatus = StatusCompleted)))"

text \<open>The Module that is built for, in the namespace of the operator.\<close>

definition zero_ModuleStatus :: ModuleStatus where
  "zero_ModuleStatus = (let z = \<lparr>dst_NodesMatchingSelectorNumber = 0, dst_DesiredNumber = 0, dst_AvailableNumber = 0\<rparr>
     in \<lparr>st_DevicePlugin = z, st_ModuleLoader = z\<rparr>)"

definition hub_module :: "string \<Rightarrow> ManagedClusterModule \<Rightarrow> Module" where
  "hub_module namespace mcm = \<lparr>mod_Meta = zero_ObjectMeta\<lparr>om_Name := om_Name (mcm_Meta mcm), om_Namespace := namespace\<rparr>,
     mod_Spec = mcms_ModuleSpec (mcm_Spec mcm), mod_Status = zero_ModuleStatus\<rparr>"

definition build_and_sign_kernel ::
  "env \<Rightarrow> Owner \<Rightarrow> string \<times> ModuleLoaderData \<Rightarrow> bool \<Rightarrow> (op_state, bool) go" where
  "build_and_sign_kernel L owner kv completedSuccessfully =
     bind_go (cluster_build L (snd kv) owner) (\<lambda>buildCompleted.
       if \<not> buildCompleted then ret False
       else bind_go (cluster_sign L (snd kv) owner) (\<lambda>signCompleted.
         if \<not> signCompleted then ret False else ret completedSuccessfully))"

definition BuildAndSign :: "env \<Rightarrow> string \<Rightarrow> ManagedClusterModule \<Rightarrow> ManagedCluster \<Rightarrow> (op_state, bool) go" where
  "BuildAndSign L namespace mcm cluster =
     bind_go (pure_go (kernelMappingsByKernelVersion L (hub_module namespace mcm) cluster)) (\<lambda>mldMappings.
       if mldMappings = [] then ret False
       else loop (range_map (range_order L (RangeClusterMappings (om_Name (mc_Meta cluster)))) mldMappings)
         (build_and_sign_kernel L (owner_of_mcm mcm)) True)"

definition GarbageCollectBuilds :: "env \<Rightarrow> string \<Rightarrow> ManagedClusterModule \<Rightarrow> (op_state, string list) go" where
  "GarbageCollectBuilds L namespace mcm = BuildGarbageCollect L (om_Name (mcm_Meta mcm)) namespace (owner_of_mcm mcm)"

section \<open>ManifestWorks\<close>

definition moduleStatusJSONPaths :: "(string \<times> string) list" where
  "moduleStatusJSONPaths = [
     (''devicePlugin.availableNumber'', ''.status.devicePlugin.availableNumber''),
     (''devicePlugin.desiredNumber'', ''.status.devicePlugin.desiredNumber''),
     (''devicePlugin.nodesMatchingSelectorNumber'', ''.status.devicePlugin.nodesMatchingSelectorNumber''),
     (''moduleLoader.availableNumber'', ''.status.moduleLoader.availableNumber''),
     (''moduleLoader.desiredNumber'', ''.status.moduleLoader.desiredNumber''),
     (''moduleLoader.nodesMatchingSelectorNumber'', ''.status.moduleLoader.nodesMatchingSelectorNumber'')]"

definition clear_mapping :: "KernelMapping \<Rightarrow> KernelMapping" where
  "clear_mapping km = km\<lparr>km_Build := None, km_Sign := None\<rparr>"

definition spoke_module :: "ManagedClusterModule \<Rightarrow> KernelMapping list \<Rightarrow> Module" where
  "spoke_module mcm kernelMappings = \<lparr>
     mod_Meta = zero_ObjectMeta\<lparr>om_Name := om_Name (mcm_Meta mcm), om_Namespace := mcms_SpokeNamespace (mcm_Spec mcm)\<rparr>,
     mod_Spec = set_container (\<lambda>c. c\<lparr>mlc_Build := None, mlc_Sign := None, mlc_KernelMappings := kernelMappings\<rparr>)
       (mcms_ModuleSpec (mcm_Spec mcm)),
     mod_Status = zero_ModuleStatus\<rparr>"

definition manifest_of :: "ManagedClusterModule \<Rightarrow> KernelMapping list \<Rightarrow> ManifestWork \<Rightarrow> ManifestWork" where
  "manifest_of mcm kernelMappings mw = (let m = spoke_module mcm kernelMappings in mw\<lparr>
     mw_Meta := (mw_Meta mw)\<lparr>om_Labels := [(ManagedClusterModuleNameLabel, om_Name (mcm_Meta mcm))]\<rparr>,
     mw_Manifests := [m],
     mw_ManifestConfigs := [(\<lparr>ri_Group = ''kmm.sigs.x-k8s.io'', ri_Resource = ''modules'',
       ri_Name = om_Name (mod_Meta m), ri_Namespace = om_Namespace (mod_Meta m)\<rparr>, moduleStatusJSONPaths)]\<rparr>)"

text \<open>The loop clears \<open>build\<close> and \<open>sign\<close> in the array that \<open>mcm\<close> shares with the caller's object.\<close>

definition SetManifestWorkAsDesired ::
  "env \<Rightarrow> ManifestWork option \<Rightarrow> ManagedClusterModule \<Rightarrow> (op_state \<times> KernelMapping list, ManifestWork) go" where
  "SetManifestWorkAsDesired L mw mcm = (\<lambda>(s, a).
     case mw of
       None \<Rightarrow> (Err (Errorf ''mw cannot be nil'' []), (s, a))
     | Some mw \<Rightarrow>
         let kernelMappings = map clear_mapping a;
             mw1 = manifest_of mcm kernelMappings mw
         in (case SetControllerReference L (owner_of_mcm mcm) (om_OwnerReferences (mw_Meta mw1)) of
               Inl e \<Rightarrow> Err e
             | Inr refs \<Rightarrow> Ok (mw1\<lparr>mw_Meta := (mw_Meta mw1)\<lparr>om_OwnerReferences := refs\<rparr>\<rparr>),
             (s, kernelMappings)))"

definition getOwnedManifestWorks :: "env \<Rightarrow> ManagedClusterModule \<Rightarrow> (op_state, ManifestWork list) go" where
  "getOwnedManifestWorks L mcm =
     (let selector = [(ManagedClusterModuleNameLabel, om_Name (mcm_Meta mcm))]
      in call (Read (ListManifestWorks selector)) (\<lambda>h. cl_ListManifestWorks L h selector))"

definition GetOwnedManifestWorks :: "env \<Rightarrow> ManagedClusterModule \<Rightarrow> (op_state, ManifestWork list) go" where
  "GetOwnedManifestWorks L mcm = getOwnedManifestWorks L mcm"

definition gc_manifestwork :: "env \<Rightarrow> string list \<Rightarrow> ManifestWork \<Rightarrow> unit \<Rightarrow> (op_state, unit) go" where
  "gc_manifestwork L clusterNames mw _ =
     (if om_Namespace (mw_Meta mw) \<in> set clusterNames then ret ()
      else check (do_write L (DeleteManifestWork mw))
        (\<lambda>e. Wrapf ''failed to delete ManifestWork %s/%s: %w'' [AS (om_Namespace (mw_Meta mw)), AS (om_Name (mw_Meta mw))] e)
        (\<lambda>_. ret ()))"

definition ManifestWorkGarbageCollect ::
  "env \<Rightarrow> ManagedCluster list \<Rightarrow> ManagedClusterModule \<Rightarrow> (op_state, unit) go" where
  "ManifestWorkGarbageCollect L clusters mcm =
     check (getOwnedManifestWorks L mcm) (\<lambda>e. Wrapf ''failed to get owned ManifestWorks: %w'' [] e)
       (\<lambda>manifestWorks. loop manifestWorks (gc_manifestwork L (map (\<lambda>c. om_Name (mc_Meta c)) clusters)) ())"

section \<open>The controller\<close>

definition zero_ManifestWork :: ManifestWork where
  "zero_ManifestWork = \<lparr>mw_Meta = zero_ObjectMeta, mw_Manifests = [], mw_ManifestConfigs = [], mw_Conditions = []\<rparr>"

definition empty_manifestwork :: "ManagedClusterModule \<Rightarrow> ManagedCluster \<Rightarrow> ManifestWork" where
  "empty_manifestwork mcm cluster = zero_ManifestWork\<lparr>mw_Meta := zero_ObjectMeta\<lparr>
     om_Name := om_Name (mcm_Meta mcm), om_Namespace := om_Name (mc_Meta cluster)\<rparr>\<rparr>"

definition reconcile_manifestwork ::
  "env \<Rightarrow> ManagedClusterModule \<Rightarrow> ManagedCluster \<Rightarrow> KernelMapping list \<Rightarrow> (op_state, KernelMapping list) go" where
  "reconcile_manifestwork L mcm cluster a =
     (let mw = empty_manifestwork mcm cluster;
          nn = \<lparr>nn_Namespace = om_Name (mc_Meta cluster), nn_Name = om_Name (mcm_Meta mcm)\<rparr>
      in bind_go (with_store (CreateOrPatch
           (in_store (call (Read (GetManifestWork nn)) (\<lambda>h. cl_GetManifestWork L h nn)))
           (\<lambda>w. in_store (bind_go (do_write L (CreateManifestWork w)) (\<lambda>_. ret w)))
           (\<lambda>old w. in_store (bind_go (do_write L (PatchManifestWork old w)) (\<lambda>_. ret w)))
           mw (\<lambda>w. SetManifestWorkAsDesired L (Some w) mcm)) a)
         (\<lambda>(_, b). ret b))"

text \<open>
  One iteration over the clusters; every error is logged and ends only this iteration.  The result is the
  content of the array of mappings for the next one.
\<close>

definition reconcile_cluster ::
  "env \<Rightarrow> string \<Rightarrow> ManagedClusterModule \<Rightarrow> ManagedCluster \<Rightarrow> KernelMapping list \<Rightarrow> (op_state, KernelMapping list) go" where
  "reconcile_cluster L namespace mcm cluster a =
     attempt (BuildAndSign L namespace (with_mappings mcm a) cluster) (\<lambda>r. case r of
       Inl e \<Rightarrow> ret a
     | Inr completedSuccessfully \<Rightarrow>
         if \<not> completedSuccessfully then ret a else reconcile_manifestwork L mcm cluster a)"

text \<open>The run once the ManagedClusterModule and the clusters have been read.\<close>

definition reconcile_mcm :: "env \<Rightarrow> string \<Rightarrow> ManagedClusterModule \<Rightarrow> ManagedCluster list \<Rightarrow> (op_state, unit) go" where
  "reconcile_mcm L namespace mcm clusters =
     bind_go (loop clusters (reconcile_cluster L namespace mcm) (spec_mappings (mcms_ModuleSpec (mcm_Spec mcm)))) (\<lambda>a.
         check (ManifestWorkGarbageCollect L clusters mcm)
           (\<lambda>e. Errorf ''failed to garbage collect ManifestWorks with no matching cluster selector: %v'' [AE e]) (\<lambda>_.
         check (GarbageCollectBuilds L namespace mcm)
           (\<lambda>e. Errorf ''failed to garbage collect build objects: %v'' [AE e]) (\<lambda>_.
         check (GetOwnedManifestWorks L mcm)
           (\<lambda>e. Errorf ''failed to fetch owned ManifestWorks of the ManagedClusterModule: %v'' [AE e]) (\<lambda>ownedManifestWorks.
         check (ManagedClusterModuleUpdateStatus L (with_mappings mcm a) ownedManifestWorks)
           (\<lambda>e. Errorf ''failed to update status of the ManagedClusterModule: %v'' [AE e]) ret))))"

definition HubReconcile :: "env \<Rightarrow> string \<Rightarrow> NamespacedName \<Rightarrow> (op_state, unit) go" where
  "HubReconcile L namespace req =
     attempt (RequestedManagedClusterModule L req) (\<lambda>r. case r of
       Inl e \<Rightarrow> if IsNotFound e then ret () else raise (Errorf ''failed to get the requested CR: %v'' [AE e])
     | Inr mcm \<Rightarrow>
         check (SelectedManagedClusters L mcm)
           (\<lambda>e. Errorf ''failed to get selected clusters: %v'' [AE e]) (\<lambda>clusters. reconcile_mcm L namespace mcm clusters))"

section \<open>What the hub promises\<close>

text \<open>The image of a kernel is there, for an owner of the jobs.\<close>

definition images_ready :: "env \<Rightarrow> Owner \<Rightarrow> ModuleLoaderData \<Rightarrow> history \<Rightarrow> bool" where
  "images_ready L owner mld h \<longleftrightarrow>
     (\<not> ShouldBeBuilt mld \<or> manifest_seen L (build_target mld) h \<or>
       job_completed L JobTypeBuild (build_made L mld '''' True owner) mld owner h) \<and>
     (\<not> ShouldBeSigned mld \<or> manifest_seen L (mld_ContainerImage mld) h \<or>
       job_completed L JobTypeSign (sign_made L mld (previous_image mld) True owner) mld owner h)"

text \<open>
  The cluster has published its kernels, at least one has a mapping, and the images of all that have one
  are there.
\<close>

definition cluster_ready ::
  "env \<Rightarrow> string \<Rightarrow> ManagedClusterModule \<Rightarrow> ManagedCluster \<Rightarrow> history \<Rightarrow> bool" where
  "cluster_ready L namespace mcm cluster h \<longleftrightarrow> (\<exists>ks. kernelVersions cluster = Ok ks \<and>
     (\<exists>k \<in> set ks. \<exists>mld. GetModuleLoaderDataForKernel L (hub_module namespace mcm) (TrimSuffix k ''+'') = Ok mld) \<and>
     (\<forall>k \<in> set ks. \<forall>mld. GetModuleLoaderDataForKernel L (hub_module namespace mcm) (TrimSuffix k ''+'') = Ok mld \<longrightarrow>
        images_ready L (owner_of_mcm mcm) mld h))"

text \<open>
  A ManifestWork has been prepared since the history had length \<open>n\<close>: one was asked for, and the answer was
  the object or that there is none, so that it was filled in.
\<close>

definition mw_prepared :: "env \<Rightarrow> nat \<Rightarrow> history \<Rightarrow> bool" where
  "mw_prepared L n h \<longleftrightarrow> (\<exists>h1 nn h2. h = h1 @ Read (GetManifestWork nn) # h2 \<and> n \<le> length h1 \<and>
     (case cl_GetManifestWork L h1 nn of Inl e \<Rightarrow> IsNotFound e | Inr _ \<Rightarrow> True))"

definition mw_key :: "ManifestWork \<Rightarrow> NamespacedName" where
  "mw_key mw = \<lparr>nn_Namespace = om_Namespace (mw_Meta mw), nn_Name = om_Name (mw_Meta mw)\<rparr>"

text \<open>A ManifestWork as the hub sends it to a cluster.\<close>

definition shipped :: "ManagedClusterModule \<Rightarrow> ManifestWork \<Rightarrow> bool" where
  "shipped mcm mw \<longleftrightarrow> om_Labels (mw_Meta mw) = [(ManagedClusterModuleNameLabel, om_Name (mcm_Meta mcm))] \<and>
     (\<exists>m. mw_Manifests mw = [m] \<and> om_Name (mod_Meta m) = om_Name (mcm_Meta mcm) \<and>
        om_Namespace (mod_Meta m) = mcms_SpokeNamespace (mcm_Spec mcm) \<and>
        m = spoke_module mcm (map clear_mapping (spec_mappings (mcms_ModuleSpec (mcm_Spec mcm)))))"

text \<open>
  Shipping to a cluster.  The call before asked for the ManifestWork of that cluster, and the write is
  about this ManifestWork.  The array of mappings by which the images are judged holds the mappings as
  they are stored, or the cleared ones, and the latter only if a ManifestWork of another cluster was
  prepared earlier in the run, which is what clears them.
\<close>

definition ship_ok ::
  "env \<Rightarrow> string \<Rightarrow> ManagedClusterModule \<Rightarrow> ManagedCluster list \<Rightarrow> nat \<Rightarrow> history \<Rightarrow> write_call \<Rightarrow> bool" where
  "ship_ok L namespace mcm clusters n h w \<longleftrightarrow> (\<exists>c a h0 nn. c \<in> set clusters \<and>
     nn = \<lparr>nn_Namespace = om_Name (mc_Meta c), nn_Name = om_Name (mcm_Meta mcm)\<rparr> \<and>
     h = h0 @ [Read (GetManifestWork nn)] \<and>
     (case w of
        CreateManifestWork mw \<Rightarrow> mw_key mw = nn
      | PatchManifestWork old mw \<Rightarrow> cl_GetManifestWork L h0 nn = Inr old \<and> mw_key mw = mw_key old
      | _ \<Rightarrow> False) \<and>
     (a = spec_mappings (mcms_ModuleSpec (mcm_Spec mcm)) \<or>
      a = map clear_mapping (spec_mappings (mcms_ModuleSpec (mcm_Spec mcm))) \<and> mw_prepared L n h0) \<and>
     cluster_ready L namespace (with_mappings mcm a) c h0)"

definition hub_event ::
  "env \<Rightarrow> string \<Rightarrow> ManagedClusterModule \<Rightarrow> ManagedCluster list \<Rightarrow> nat \<Rightarrow> history \<Rightarrow> event \<Rightarrow> bool" where
  "hub_event L namespace mcm clusters n h e =
     (case e of Read _ \<Rightarrow> True | Write w \<Rightarrow>
        (case w of
           CreateManifestWork mw \<Rightarrow> shipped mcm mw \<and> ship_ok L namespace mcm clusters n h w
         | PatchManifestWork old mw \<Rightarrow> shipped mcm mw \<and> ship_ok L namespace mcm clusters n h w
         | DeleteManifestWork mw \<Rightarrow> om_Namespace (mw_Meta mw) \<notin> (\<lambda>c. om_Name (mc_Meta c)) ` set clusters
         | CreateJob j \<Rightarrow> SetControllerReference L (owner_of_mcm mcm) [] = Inr (om_OwnerReferences (job_Meta j))
         | DeleteJob j \<Rightarrow> IsControlledBy L (om_OwnerReferences (job_Meta j)) (owner_of_mcm mcm)
         | UpdateManagedClusterModuleStatus mcm' \<Rightarrow> mcm_Meta mcm' = mcm_Meta mcm
         | _ \<Rightarrow> False))"

section \<open>Lemmas\<close>

lemma mw_prepared_append: "mw_prepared L n h \<Longrightarrow> mw_prepared L n (h @ h')"
  unfolding mw_prepared_def by fastforce

lemma mw_preparedI:
  assumes "n \<le> length h" and "case cl_GetManifestWork L h nn of Inl e \<Rightarrow> IsNotFound e | Inr _ \<Rightarrow> True"
  shows "mw_prepared L n (h @ Read (GetManifestWork nn) # h')"
  unfolding mw_prepared_def using assms by blast

lemma with_mappings_simps [simp]:
  "mcm_Meta (with_mappings mcm a) = mcm_Meta mcm"
  "owner_of_mcm (with_mappings mcm a) = owner_of_mcm mcm"
  "spec_mappings (mcms_ModuleSpec (mcm_Spec (with_mappings mcm a))) = a"
  by (simp_all add: with_mappings_def owner_of_mcm_def spec_mappings_def set_container_def)

lemma clear_mapping_idem [simp]: "clear_mapping (clear_mapping km) = clear_mapping km"
  by (simp add: clear_mapping_def)

lemma map_clear_idem [simp]: "map clear_mapping (map clear_mapping a) = map clear_mapping a"
  by simp

lemma images_ready_append: "images_ready L owner mld h \<Longrightarrow> images_ready L owner mld (h @ h')"
  unfolding images_ready_def by (auto intro: manifest_seen_append job_completed_append)

lemma cluster_ready_append: "cluster_ready L ns mcm c h \<Longrightarrow> cluster_ready L ns mcm c (h @ h')"
  unfolding cluster_ready_def by (blast intro: images_ready_append)

text \<open>The mappings found are those of the kernels that have one.\<close>

lemma mappings_loop_Ok:
  assumes "mappings_loop L m ks acc = Ok out" and "distinct (map fst acc)"
    and "\<And>k mld. map_of acc k = Some mld \<Longrightarrow> GetModuleLoaderDataForKernel L m k = Ok mld"
  shows "distinct (map fst out) \<and>
    (\<forall>k mld. map_of out k = Some mld \<longleftrightarrow> map_of acc k = Some mld \<or>
      k \<in> (\<lambda>k. TrimSuffix k ''+'') ` set ks \<and> GetModuleLoaderDataForKernel L m k = Ok mld)"
  using assms
proof (induction ks arbitrary: acc)
  case (Cons kv ks)
  let ?k = "TrimSuffix kv ''+''"
  consider (seen) mld where "map_of acc ?k = Some mld"
    | (found) mld where "map_of acc ?k = None" "GetModuleLoaderDataForKernel L m ?k = Ok mld"
    | (missing) e where "map_of acc ?k = None" "GetModuleLoaderDataForKernel L m ?k = Err e"
    using Cons.prems(1) by (cases "map_of acc ?k"; cases "GetModuleLoaderDataForKernel L m ?k") auto
  then show ?case
  proof cases
    case seen
    then have "mappings_loop L m ks acc = Ok out" using Cons.prems(1) by simp
    from Cons.IH [OF this Cons.prems(2,3)] seen Cons.prems(3) [OF seen] show ?thesis
      by (auto simp del: map_of_eq_Some_iff)
  next
    case found
    then have "mappings_loop L m ks (mput acc ?k mld) = Ok out" using Cons.prems(1) by simp
    moreover have "GetModuleLoaderDataForKernel L m k = Ok d" if "map_of (mput acc ?k mld) k = Some d" for k d
      using that found(2) Cons.prems(3) by (auto split: if_splits)
    ultimately have "distinct (map fst out) \<and> (\<forall>k d. map_of out k = Some d \<longleftrightarrow> map_of (mput acc ?k mld) k = Some d \<or>
        k \<in> (\<lambda>k. TrimSuffix k ''+'') ` set ks \<and> GetModuleLoaderDataForKernel L m k = Ok d)"
      using Cons.IH [OF _ distinct_mput [OF Cons.prems(2)]] by blast
    with found show ?thesis by (auto simp del: map_of_eq_Some_iff split: if_splits)
  next
    case missing
    then have "mappings_loop L m ks acc = Ok out" using Cons.prems(1) by simp
    from Cons.IH [OF this Cons.prems(2,3)] missing show ?thesis
      by (auto simp del: map_of_eq_Some_iff)
  qed
qed auto

lemma guar_cluster_build:
  "guar (\<lambda>_. True) (job_event L JobTypeBuild mld owner) (cluster_build L mld owner)
     (\<lambda>b h. b \<longrightarrow> \<not> ShouldBeBuilt mld \<or> manifest_seen L (build_target mld) h \<or>
       job_completed L JobTypeBuild (build_made L mld '''' True owner) mld owner h) (\<lambda>_ _. True)"
  (is "guar _ ?J _ (\<lambda>b h. b \<longrightarrow> ?R h) _")
  unfolding cluster_build_def
proof (rule guar_check [where R = "\<lambda>b h. \<not> b \<longrightarrow> ?R h"])
  show "guar (\<lambda>_. True) ?J (BuildShouldSync L mld) (\<lambda>b h. \<not> b \<longrightarrow> ?R h) (\<lambda>_ _. True)"
    by (rule guar_weaken [OF build_jobs.ShouldSync_guar]) (auto simp: is_read_def split: event.splits)
  show "guar (\<lambda>h. \<not> b \<longrightarrow> ?R h) ?J (if \<not> b then ret True else check (BuildSync L mld True owner) w
     (\<lambda>st. ret (st = StatusCompleted))) (\<lambda>b h. b \<longrightarrow> ?R h) (\<lambda>_ _. True)" for b w
  proof (cases b)
    case True
    have "guar (\<lambda>_. True) ?J (check (BuildSync L mld True owner) w (\<lambda>st. ret (st = StatusCompleted)))
        (\<lambda>b h. b \<longrightarrow> ?R h) (\<lambda>_ _. True)"
      by (rule guar_check [OF build_jobs.guar_Sync [where img = "''''"]]) (auto intro: guar_ret)
    with True show ?thesis by (auto intro: guar_weaken)
  qed (auto intro: guar_ret)
qed

lemma guar_cluster_sign:
  "guar (\<lambda>_. True) (job_event L JobTypeSign mld owner) (cluster_sign L mld owner)
     (\<lambda>b h. b \<longrightarrow> \<not> ShouldBeSigned mld \<or> manifest_seen L (mld_ContainerImage mld) h \<or>
       job_completed L JobTypeSign (sign_made L mld (previous_image mld) True owner) mld owner h) (\<lambda>_ _. True)"
  (is "guar _ ?J _ (\<lambda>b h. b \<longrightarrow> ?R h) _")
  unfolding cluster_sign_def
proof (rule guar_check [where R = "\<lambda>b h. \<not> b \<longrightarrow> ?R h"])
  show "guar (\<lambda>_. True) ?J (SignShouldSync L mld) (\<lambda>b h. \<not> b \<longrightarrow> ?R h) (\<lambda>_ _. True)"
    by (rule guar_weaken [OF sign_jobs.ShouldSync_guar]) (auto simp: is_read_def split: event.splits)
  show "guar (\<lambda>h. \<not> b \<longrightarrow> ?R h) ?J (if \<not> b then ret True else check (SignSync L mld (previous_image mld) True owner) w
     (\<lambda>st. ret (st = StatusCompleted))) (\<lambda>b h. b \<longrightarrow> ?R h) (\<lambda>_ _. True)" for b w
  proof (cases b)
    case True
    have "guar (\<lambda>_. True) ?J (check (SignSync L mld (previous_image mld) True owner) w (\<lambda>st. ret (st = StatusCompleted)))
        (\<lambda>b h. b \<longrightarrow> ?R h) (\<lambda>_ _. True)"
      by (rule guar_check [OF sign_jobs.guar_Sync]) (auto intro: guar_ret)
    with True show ?thesis by (auto intro: guar_weaken)
  qed (auto intro: guar_ret)
qed

lemma kernelMappings_Ok:
  assumes "kernelMappingsByKernelVersion L m c = Ok out"
  obtains ks where "kernelVersions c = Ok ks" and "distinct (map fst out)"
    and "\<And>k mld. (k, mld) \<in> set out \<longleftrightarrow>
      k \<in> (\<lambda>k. TrimSuffix k ''+'') ` set ks \<and> GetModuleLoaderDataForKernel L m k = Ok mld"
proof -
  obtain ks where ks: "kernelVersions c = Ok ks" and out: "mappings_loop L m ks [] = Ok out"
    using assms by (auto simp: kernelMappingsByKernelVersion_def check_res_Ok_iff)
  from mappings_loop_Ok [OF out] show ?thesis by (intro that [OF ks]) auto
qed

lemma guar_build_and_sign_kernel:
  assumes "\<And>h h'. I h \<Longrightarrow> I (h @ h')"
    and "\<And>jt h e. job_event L jt (snd kv) owner h e \<Longrightarrow> J h e"
  shows "guar (\<lambda>h. b \<longrightarrow> I h) J (build_and_sign_kernel L owner kv b)
     (\<lambda>r h. r \<longrightarrow> b \<and> images_ready L owner (snd kv) h \<and> I h) (\<lambda>_ _. True)"
proof -
  let ?B = "\<lambda>h. \<not> ShouldBeBuilt (snd kv) \<or> manifest_seen L (build_target (snd kv)) h \<or>
       job_completed L JobTypeBuild (build_made L (snd kv) '''' True owner) (snd kv) owner h"
  have B: "?B h \<Longrightarrow> ?B (h @ h')" for h h' by (auto intro: manifest_seen_append job_completed_append)
  have sign: "guar (\<lambda>h. ?B h \<and> (b \<longrightarrow> I h)) J (cluster_sign L (snd kv) owner)
      (\<lambda>r h. (r \<longrightarrow> images_ready L owner (snd kv) h) \<and> (b \<longrightarrow> I h)) (\<lambda>_ _. True)"
    by (rule guar_weaken [OF guar_frame [OF guar_cluster_sign, of "\<lambda>h. ?B h \<and> (b \<longrightarrow> I h)"]])
      (use assms B in \<open>auto simp: images_ready_def\<close>)
  have tail: "guar (\<lambda>h. (bc \<longrightarrow> ?B h) \<and> (b \<longrightarrow> I h)) J
      (if \<not> bc then ret False else bind_go (cluster_sign L (snd kv) owner) (\<lambda>sc. if \<not> sc then ret False else ret b))
      (\<lambda>r h. r \<longrightarrow> b \<and> images_ready L owner (snd kv) h \<and> I h) (\<lambda>_ _. True)" for bc
  proof (cases bc)
    case True
    have "guar (\<lambda>h. ?B h \<and> (b \<longrightarrow> I h)) J
      (bind_go (cluster_sign L (snd kv) owner) (\<lambda>sc. if \<not> sc then ret False else ret b))
      (\<lambda>r h. r \<longrightarrow> b \<and> images_ready L owner (snd kv) h \<and> I h) (\<lambda>_ _. True)"
      by (rule guar_bind_go [OF sign]) (auto intro!: guar_ret)
    with True show ?thesis by (auto elim: guar_weaken)
  qed (auto intro: guar_ret)
  have "guar (\<lambda>h. b \<longrightarrow> I h) J (cluster_build L (snd kv) owner)
      (\<lambda>r h. (r \<longrightarrow> ?B h) \<and> (b \<longrightarrow> I h)) (\<lambda>_ _. True)"
    by (rule guar_weaken [OF guar_frame [OF guar_cluster_build, of "\<lambda>h. b \<longrightarrow> I h"]]) (use assms in auto)
  then show ?thesis unfolding build_and_sign_kernel_def by (rule guar_bind_go) (rule tail)
qed

text \<open>Building and signing writes jobs only, and a positive answer means that all images are there.\<close>

lemma hub_event_simps [simp]:
  "hub_event L ns mcm cs n h (Read r)"
  "hub_event L ns mcm cs n h (Write (DeleteJob j)) \<longleftrightarrow> IsControlledBy L (om_OwnerReferences (job_Meta j)) (owner_of_mcm mcm)"
  "hub_event L ns mcm cs n h (Write (DeleteManifestWork mw)) \<longleftrightarrow> om_Namespace (mw_Meta mw) \<notin> (\<lambda>c. om_Name (mc_Meta c)) ` set cs"
  "hub_event L ns mcm cs n h (Write (UpdateManagedClusterModuleStatus mcm')) \<longleftrightarrow> mcm_Meta mcm' = mcm_Meta mcm"
  "hub_event L ns mcm cs n h (Write (CreateManifestWork mw)) \<longleftrightarrow> shipped mcm mw \<and> ship_ok L ns mcm cs n h (CreateManifestWork mw)"
  "hub_event L ns mcm cs n h (Write (PatchManifestWork old mw)) \<longleftrightarrow> shipped mcm mw \<and> ship_ok L ns mcm cs n h (PatchManifestWork old mw)"
  by (simp_all add: hub_event_def)

lemma job_event_hub: "job_event L jt mld (owner_of_mcm mcm) h e \<Longrightarrow> hub_event L ns mcm cs n h e"
  by (auto simp: job_event_def hub_event_def split: event.splits write_call.splits)

lemma guar_BuildAndSign:
  "guar (\<lambda>_. True) (\<lambda>h e. \<exists>jt mld. job_event L jt mld (owner_of_mcm mcm) h e) (BuildAndSign L ns mcm c)
     (\<lambda>r h. r \<longrightarrow> cluster_ready L ns mcm c h) (\<lambda>_ _. True)"
  (is "guar _ ?J _ _ _")
proof -
  let ?ready = "\<lambda>vs h. \<forall>kv \<in> set vs. images_ready L (owner_of_mcm mcm) (snd kv) h"
  have ready: "?ready vs h \<Longrightarrow> ?ready vs (h @ h')" for vs h h' by (blast intro: images_ready_append)
  have step: "guar (\<lambda>h. b \<longrightarrow> ?ready vs h) ?J (build_and_sign_kernel L (owner_of_mcm mcm) kv b)
      (\<lambda>r h. r \<longrightarrow> ?ready (vs @ [kv]) h) (\<lambda>_ _. True)" for b vs kv
    by (rule guar_weaken [OF guar_build_and_sign_kernel [where I = "?ready vs"]]) (auto intro: images_ready_append)
  have loop: "guar (\<lambda>_. True) ?J (loop xs (build_and_sign_kernel L (owner_of_mcm mcm)) True)
      (\<lambda>r h. r \<longrightarrow> ?ready xs h) (\<lambda>_ _. True)" for xs
    using guar_loop_prefix [where I = "\<lambda>vs b h. b \<longrightarrow> ?ready vs h" and vs = "[]" and xs = xs and a = True
        and J = ?J and E = "\<lambda>_ _. True" and body = "build_and_sign_kernel L (owner_of_mcm mcm)"] step by simp
  show ?thesis unfolding BuildAndSign_def
  proof (rule guar_bind_go [where R = "\<lambda>out _. kernelMappingsByKernelVersion L (hub_module ns mcm) c = Ok out"])
    show "guar (\<lambda>_. kernelMappingsByKernelVersion L (hub_module ns mcm) c = Ok out) ?J
      (if out = [] then ret False else loop (range_map order out) (build_and_sign_kernel L (owner_of_mcm mcm)) True)
      (\<lambda>r h. r \<longrightarrow> cluster_ready L ns mcm c h) (\<lambda>_ _. True)" for out order
    proof (cases "out \<noteq> [] \<and> kernelMappingsByKernelVersion L (hub_module ns mcm) c = Ok out")
      case True
      then obtain ks where ks: "kernelVersions c = Ok ks" "distinct (map fst out)"
        and out: "\<And>k mld. (k, mld) \<in> set out \<longleftrightarrow>
          k \<in> (\<lambda>k. TrimSuffix k ''+'') ` set ks \<and> GetModuleLoaderDataForKernel L (hub_module ns mcm) k = Ok mld"
        using kernelMappings_Ok by metis
      obtain k mld where some: "(k, mld) \<in> set out" using True by (metis last_in_set surj_pair)
      have "cluster_ready L ns mcm c h" if ready: "?ready out h" for h
        unfolding cluster_ready_def
      proof (intro exI conjI ballI allI impI)
        show "kernelVersions c = Ok ks" by (rule ks(1))
        show "\<exists>k \<in> set ks. \<exists>mld. GetModuleLoaderDataForKernel L (hub_module ns mcm) (TrimSuffix k ''+'') = Ok mld"
          using some by (auto simp: out)
        show "images_ready L (owner_of_mcm mcm) mld h" if "k \<in> set ks"
          and "GetModuleLoaderDataForKernel L (hub_module ns mcm) (TrimSuffix k ''+'') = Ok mld" for k mld
          using ready that out [of "TrimSuffix k ''+''" mld] by fastforce
      qed
      then have "cluster_ready L ns mcm c h" if "?ready (range_map order out) h" for h
        using that set_range_map [OF ks(2)] by simp
      with True show ?thesis by (auto intro: guar_weaken [OF loop])
    qed (auto simp: guar_def ret_run)
  qed (auto intro: guar_pure_go)
qed

text \<open>Creating or patching the ManifestWork of a cluster, run to the end.\<close>

definition manifest_refs :: "env \<Rightarrow> ManagedClusterModule \<Rightarrow> KernelMapping list \<Rightarrow> ManifestWork \<Rightarrow> error + ManifestWork" where
  "manifest_refs L mcm a mw = (let mw1 = manifest_of mcm (map clear_mapping a) mw in
     case SetControllerReference L (owner_of_mcm mcm) (om_OwnerReferences (mw_Meta mw1)) of
       Inl e \<Rightarrow> Inl e | Inr refs \<Rightarrow> Inr (mw1\<lparr>mw_Meta := (mw_Meta mw1)\<lparr>om_OwnerReferences := refs\<rparr>\<rparr>))"

lemma SetManifestWorkAsDesired_run:
  "SetManifestWorkAsDesired L (Some mw) mcm (s, a) = (of_sum (manifest_refs L mcm a mw), (s, map clear_mapping a))"
  by (simp add: SetManifestWorkAsDesired_def manifest_refs_def Let_def of_sum_def split: sum.split)

lemma in_store_run [go_simps]: "in_store m (s, x) = (case m s of (r, t) \<Rightarrow> (r, (t, x)))"
  by (simp add: in_store_def)

lemma reconcile_manifestwork_run:
  fixes mcm c defines "nn \<equiv> \<lparr>nn_Namespace = om_Name (mc_Meta c), nn_Name = om_Name (mcm_Meta mcm)\<rparr>"
  shows "\<exists>evs b. reconcile_manifestwork L mcm c a s =
      (Ok b, s\<lparr>history := history s @ Read (GetManifestWork nn) # evs\<rparr>) \<and>
     (b = a \<or> b = map clear_mapping a \<and> (case cl_GetManifestWork L (history s) nn of Inl e \<Rightarrow> IsNotFound e | Inr _ \<Rightarrow> True)) \<and>
     (evs = [] \<or>
      (\<exists>mw'. manifest_refs L mcm a (empty_manifestwork mcm c) = Inr mw' \<and> evs = [Write (CreateManifestWork mw')]) \<or>
      (\<exists>mw mw'. cl_GetManifestWork L (history s) nn = Inr mw \<and> manifest_refs L mcm a mw = Inr mw' \<and>
        evs = [Write (PatchManifestWork mw mw')]))"
  unfolding reconcile_manifestwork_def Let_def nn_def [symmetric]
  by (auto simp: with_store_def CreateOrPatch_def go_simps SetManifestWorkAsDesired_run of_sum_def
      split: sum.splits)

lemma manifest_refs_key: "manifest_refs L mcm a mw = Inr mw' \<Longrightarrow> mw_key mw' = mw_key mw"
  by (auto simp: manifest_refs_def manifest_of_def mw_key_def Let_def split: sum.splits)

lemma empty_manifestwork_key:
  "mw_key (empty_manifestwork mcm c) = \<lparr>nn_Namespace = om_Name (mc_Meta c), nn_Name = om_Name (mcm_Meta mcm)\<rparr>"
  by (simp add: empty_manifestwork_def mw_key_def)

lemma shipped_manifest:
  assumes "manifest_refs L mcm a mw = Inr mw'"
    and "map clear_mapping a = map clear_mapping (spec_mappings (mcms_ModuleSpec (mcm_Spec mcm)))"
  shows "shipped mcm mw'"
  using assms by (auto simp: shipped_def manifest_refs_def manifest_of_def spoke_module_def Let_def split: sum.splits)

text \<open>
  One cluster: the array holds the original mappings or the cleared ones, and the latter only after a
  ManifestWork has been prepared.
\<close>

definition array_ok :: "env \<Rightarrow> ManagedClusterModule \<Rightarrow> nat \<Rightarrow> KernelMapping list \<Rightarrow> history \<Rightarrow> bool" where
  "array_ok L mcm n a h \<longleftrightarrow> n \<le> length h \<and>
     (a = spec_mappings (mcms_ModuleSpec (mcm_Spec mcm)) \<or>
      a = map clear_mapping (spec_mappings (mcms_ModuleSpec (mcm_Spec mcm))) \<and> mw_prepared L n h)"

lemma array_ok_append: "array_ok L mcm n a h \<Longrightarrow> array_ok L mcm n a (h @ h')"
  by (auto simp: array_ok_def intro: mw_prepared_append)

lemma map_clear_mapping_twice [simp]: "map clear_mapping (map clear_mapping a) = map clear_mapping a"
  by (simp add: clear_mapping_def)

lemma guar_reconcile_manifestwork:
  assumes "c \<in> set cs"
  shows "guar (\<lambda>h. array_ok L mcm n a h \<and> cluster_ready L ns (with_mappings mcm a) c h)
     (hub_event L ns mcm cs n) (reconcile_manifestwork L mcm c a) (array_ok L mcm n) (\<lambda>_ _. True)"
  unfolding guar_def
proof (intro allI impI, elim conjE)
  fix s :: op_state and r t
  let ?nn = "\<lparr>nn_Namespace = om_Name (mc_Meta c), nn_Name = om_Name (mcm_Meta mcm)\<rparr>"
  let ?h = "history s @ [Read (GetManifestWork ?nn)]"
  assume a: "array_ok L mcm n a (history s)" and ready: "cluster_ready L ns (with_mappings mcm a) c (history s)"
    and run: "reconcile_manifestwork L mcm c a s = (r, t)"
  have clear: "map clear_mapping a = map clear_mapping (spec_mappings (mcms_ModuleSpec (mcm_Spec mcm)))"
    using a by (auto simp: array_ok_def)
  obtain evs b where t: "history t = ?h @ evs" and r: "r = Ok b"
    and b: "b = a \<or> b = map clear_mapping a \<and> (case cl_GetManifestWork L (history s) ?nn of Inl e \<Rightarrow> IsNotFound e | Inr _ \<Rightarrow> True)"
    and evs: "evs = [] \<or>
      (\<exists>mw'. manifest_refs L mcm a (empty_manifestwork mcm c) = Inr mw' \<and> evs = [Write (CreateManifestWork mw')]) \<or>
      (\<exists>mw mw'. cl_GetManifestWork L (history s) ?nn = Inr mw \<and> manifest_refs L mcm a mw = Inr mw' \<and>
        evs = [Write (PatchManifestWork mw mw')])"
    using reconcile_manifestwork_run [of L mcm c a s] run by auto
  have ship: "ship_ok L ns mcm cs n ?h w" if "case w of CreateManifestWork mw \<Rightarrow> mw_key mw = ?nn
      | PatchManifestWork old mw \<Rightarrow> cl_GetManifestWork L (history s) ?nn = Inr old \<and> mw_key mw = mw_key old | _ \<Rightarrow> False" for w
    unfolding ship_ok_def using that assms ready a
    by (intro exI [of _ c] exI [of _ a] exI [of _ "history s"] exI [of _ ?nn]) (auto simp: array_ok_def)
  have "array_ok L mcm n b (history t)"
    using a b by (auto simp: array_ok_def t intro: mw_preparedI mw_prepared_append)
  moreover have "trace_ok (hub_event L ns mcm cs n) (history s) (Read (GetManifestWork ?nn) # evs)"
    using evs
    by (auto simp: manifest_refs_key empty_manifestwork_key intro!: ship shipped_manifest [OF _ clear])
  ultimately show "(\<exists>evs. history t = history s @ evs \<and> trace_ok (hub_event L ns mcm cs n) (history s) evs) \<and>
      (case r of Ok a \<Rightarrow> array_ok L mcm n a (history t) | Err e \<Rightarrow> True | Panic \<Rightarrow> True)"
    using t r by (intro conjI exI [of _ "Read (GetManifestWork ?nn) # evs"]) simp_all
qed

lemma guar_reconcile_cluster:
  assumes "c \<in> set cs"
  shows "guar (array_ok L mcm n a) (hub_event L ns mcm cs n) (reconcile_cluster L ns mcm c a) (array_ok L mcm n) (\<lambda>_ _. True)"
  unfolding reconcile_cluster_def
proof (rule guar_attempt [where R = "\<lambda>r h. (r = Inr True \<longrightarrow> cluster_ready L ns (with_mappings mcm a) c h) \<and> array_ok L mcm n a h"])
  show "guar (array_ok L mcm n a) (hub_event L ns mcm cs n) (BuildAndSign L ns (with_mappings mcm a) c)
     (\<lambda>r h. (Inr r = Inr True \<longrightarrow> cluster_ready L ns (with_mappings mcm a) c h) \<and> array_ok L mcm n a h)
     (\<lambda>e h. (Inl e = Inr True \<longrightarrow> cluster_ready L ns (with_mappings mcm a) c h) \<and> array_ok L mcm n a h)"
    by (rule guar_weaken [OF guar_frame [OF guar_BuildAndSign [of L "with_mappings mcm a" ns c], of "array_ok L mcm n a"]])
      (auto intro: array_ok_append job_event_hub)
  show "guar (\<lambda>h. (r = Inr True \<longrightarrow> cluster_ready L ns (with_mappings mcm a) c h) \<and> array_ok L mcm n a h) (hub_event L ns mcm cs n)
     (case r of Inl e \<Rightarrow> ret a | Inr done \<Rightarrow> if \<not> done then ret a else reconcile_manifestwork L mcm c a)
     (array_ok L mcm n) (\<lambda>_ _. True)" for r
  proof (cases "r = Inr True")
    case True
    then show ?thesis by (auto intro: guar_weaken [OF guar_reconcile_manifestwork [OF assms]])
  qed (auto intro: guar_ret split: sum.split)
qed

lemma emits_HubGarbageCollect [emits_rules]:
  assumes "\<And>r. F (Read r)"
    and "\<And>mw. om_Namespace (mw_Meta mw) \<notin> (\<lambda>c. om_Name (mc_Meta c)) ` set cs \<Longrightarrow> F (Write (DeleteManifestWork mw))"
  shows "emits F (ManifestWorkGarbageCollect L cs mcm)"
  unfolding ManifestWorkGarbageCollect_def getOwnedManifestWorks_def gc_manifestwork_def Let_def
  by (intro emits_rules assms) auto

lemma guar_reconcile_mcm:
  "guar (\<lambda>h. n \<le> length h) (hub_event L ns mcm cs n) (reconcile_mcm L ns mcm cs) (\<lambda>_ _. True) (\<lambda>_ _. True)"
  unfolding reconcile_mcm_def
proof (rule guar_bind_go [where R = "\<lambda>_ _. True"])
  show "guar (\<lambda>h. n \<le> length h) (hub_event L ns mcm cs n)
     (loop cs (reconcile_cluster L ns mcm) (spec_mappings (mcms_ModuleSpec (mcm_Spec mcm)))) (\<lambda>_ _. True) (\<lambda>_ _. True)"
    by (rule guar_weaken [OF guar_loop [where I = "array_ok L mcm n", OF guar_reconcile_cluster]])
      (auto simp: array_ok_def)
  let ?F = "\<lambda>e. \<forall>h. hub_event L ns mcm cs n h e"
  have "emits ?F (check (ManifestWorkGarbageCollect L cs mcm) w1 (\<lambda>_. check (GarbageCollectBuilds L ns mcm) w2 (\<lambda>_.
     check (GetOwnedManifestWorks L mcm) w3 (\<lambda>mws.
     check (ManagedClusterModuleUpdateStatus L (with_mappings mcm a) mws) w4 ret))))" for a w1 w2 w3 w4
    unfolding GarbageCollectBuilds_def GetOwnedManifestWorks_def getOwnedManifestWorks_def
      ManagedClusterModuleUpdateStatus_def Let_def case_prod_beta
    by (intro emits_rules build_jobs.emits_Collect) auto
  then show "guar (\<lambda>_. True) (hub_event L ns mcm cs n) (check (ManifestWorkGarbageCollect L cs mcm) w1 (\<lambda>_.
     check (GarbageCollectBuilds L ns mcm) w2 (\<lambda>_. check (GetOwnedManifestWorks L mcm) w3 (\<lambda>mws.
     check (ManagedClusterModuleUpdateStatus L (with_mappings mcm a) mws) w4 ret)))) (\<lambda>_ _. True) (\<lambda>_ _. True)" for a w1 w2 w3 w4
    by (rule guar_emits) auto
qed

lemma HubReconcile_run:
  "HubReconcile L ns req s = (case cl_GetManagedClusterModule L (history s) req of
     Inl e \<Rightarrow> (if IsNotFound e then Ok () else Err (Errorf ''failed to get the requested CR: %v'' [AE (Wrapf
         ''failed to get the ManagedClusterModule %s: %w'' [AS (nn_Namespace req), AS (nn_Name req)] e)]),
       s\<lparr>history := history s @ [Read (GetManagedClusterModule req)]\<rparr>)
   | Inr mcm \<Rightarrow>
      let sel = mcms_Selector (mcm_Spec mcm);
          h1 = history s @ [Read (GetManagedClusterModule req)];
          s2 = s\<lparr>history := h1 @ [Read (ListManagedClusters sel)]\<rparr>
      in case cl_ListManagedClusters L h1 sel of
           Inl e \<Rightarrow> (Err (Errorf ''failed to get selected clusters: %v'' [AE e]), s2)
         | Inr clusters \<Rightarrow> reconcile_mcm L ns mcm clusters s2)"
  by (simp add: HubReconcile_def RequestedManagedClusterModule_def SelectedManagedClusters_def Let_def go_simps split: sum.split)

text \<open>With cleared mappings and no build or sign section in the Module, no kernel needs either.\<close>

lemma GetModuleLoaderData_no_build:
  assumes "GetModuleLoaderDataForKernel L m k = Ok mld"
    and "mlc_Build (ml_Container (spec_ModuleLoader (mod_Spec m))) = None"
    and "mlc_Sign (ml_Container (spec_ModuleLoader (mod_Spec m))) = None"
    and "\<forall>km \<in> set (spec_mappings (mod_Spec m)). km_Build km = None \<and> km_Sign km = None"
  shows "\<not> ShouldBeBuilt mld" "\<not> ShouldBeSigned mld"
proof -
  obtain mapping mld0 where "findKernelMapping L (mlc_KernelMappings (ml_Container (spec_ModuleLoader (mod_Spec m)))) k = Ok mapping"
    and prep: "prepareModuleLoaderData L mapping m k = Ok mld0" and repl: "replaceTemplates L mld0 = Ok mld"
    using assms(1) by (auto simp: GetModuleLoaderData_Ok_iff)
  then have "km_Build mapping = None" "km_Sign mapping = None"
    using assms(4) by (auto simp: findKernelMapping_Ok_iff spec_mappings_def)
  with prep assms(2,3) have "mld_Build mld0 = None" "mld_Sign mld0 = None"
    by (auto simp: prepareModuleLoaderData_def Let_def)
  with repl show "\<not> ShouldBeBuilt mld" "\<not> ShouldBeSigned mld"
    by (auto simp: replaceTemplates_Ok_iff ShouldBeBuilt_def ShouldBeSigned_def)
qed

lemma nothing_to_build_run:
  assumes "\<not> ShouldBeBuilt (snd kv)" and "\<not> ShouldBeSigned (snd kv)"
  shows "build_and_sign_kernel L owner kv b s = (Ok b, s)"
  using assms
  by (simp add: build_and_sign_kernel_def cluster_build_def cluster_sign_def BuildShouldSync_def SignShouldSync_def go_simps)

lemma nothing_to_build_loop:
  assumes "\<forall>kv \<in> set kvs. \<not> ShouldBeBuilt (snd kv) \<and> \<not> ShouldBeSigned (snd kv)"
  shows "loop kvs (build_and_sign_kernel L owner) b s = (Ok b, s)"
  using assms by (induction kvs) (auto simp: go_simps nothing_to_build_run)

lemma claim_kernels_clusterClaim:
  "claim_kernels cs = (case clusterClaim KernelVersionsClusterClaimName cs of
     None \<Rightarrow> Err (Errorf ''KMM ClusterClaim not found'' []) | Some c \<Rightarrow> Ok (split_by (\<lambda>x. x = CHR 0x0A) (cc_Value c)))"
  by (induction cs) auto

lemma hub_event_Write:
  assumes "hub_event L ns mcm cs n h (Write w)"
  obtains (ship) mw where "w = CreateManifestWork mw \<or> (\<exists>old. w = PatchManifestWork old mw)" and "shipped mcm mw"
  | (delete) mw where "w = DeleteManifestWork mw" and "om_Namespace (mw_Meta mw) \<notin> (\<lambda>c. om_Name (mc_Meta c)) ` set cs"
  | (create) j where "w = CreateJob j"
  | (collect) j where "w = DeleteJob j" and "IsControlledBy L (om_OwnerReferences (job_Meta j)) (owner_of_mcm mcm)"
  | (status) mcm' where "w = UpdateManagedClusterModuleStatus mcm'" and "mcm_Meta mcm' = mcm_Meta mcm"
  using assms by (cases w) (simp_all add: hub_event_def)

text \<open>All the calls of a run, once the ManagedClusterModule and the clusters are known.\<close>

lemma HubReconcile_trace:
  assumes "HubReconcile L ns req s = (r, t)" and "cl_GetManagedClusterModule L (history s) req = Inr mcm"
  defines "h1 \<equiv> history s @ [Read (GetManagedClusterModule req)]"
    and "sel \<equiv> mcms_Selector (mcm_Spec mcm)"
  obtains (none) "history t = h1 @ [Read (ListManagedClusters sel)]"
  | (run) cs evs where "cl_ListManagedClusters L h1 sel = Inr cs"
      and "history t = h1 @ Read (ListManagedClusters sel) # evs"
      and "trace_ok (hub_event L ns mcm cs (length (history s))) (h1 @ [Read (ListManagedClusters sel)]) evs"
proof (cases "cl_ListManagedClusters L h1 sel")
  case (Inl e)
  with assms show ?thesis by (intro none) (auto simp: HubReconcile_run Let_def)
next
  case (Inr cs)
  let ?s2 = "s\<lparr>history := h1 @ [Read (ListManagedClusters sel)]\<rparr>"
  have m: "reconcile_mcm L ns mcm cs ?s2 = (r, t)"
    using assms Inr by (simp add: HubReconcile_run Let_def)
  have n: "length (history s) \<le> length (history ?s2)" by (simp add: h1_def)
  show ?thesis
    by (rule guarD [OF guar_reconcile_mcm [of "length (history s)"] n m]) (use Inr in \<open>auto intro: run\<close>)
qed

lemma write_position:
  assumes "h @ rs @ evs = xs @ Write w # ys" and "length h \<le> length xs" and "list_all is_read rs"
  obtains zs where "xs = h @ rs @ zs" and "evs = zs @ Write w # ys"
proof -
  have "length (h @ rs) \<le> length xs"
  proof (rule ccontr)
    assume less: "\<not> length (h @ rs) \<le> length xs"
    have "(h @ rs @ evs) ! length xs = Write w" using assms(1) by simp
    then have "rs ! (length xs - length h) = Write w" using less assms(2) by (auto simp: nth_append split: if_splits)
    with assms(2,3) less show False by (metis is_read_simps(2) length_append linorder_not_le list_all_length nat_diff_split_asm
        add.commute less_diff_conv2)
  qed
  then show ?thesis using assms(1) by (auto simp: append_eq_append_conv2 intro: that)
qed

text \<open>A hub with one ManagedClusterModule and the given clusters, for closed examples.\<close>

definition sample_mcm :: "KernelMapping list \<Rightarrow> ManagedClusterModule" where
  "sample_mcm mappings = \<lparr>mcm_Meta = sample_meta ''mod'',
     mcm_Spec = \<lparr>mcms_ModuleSpec = sample_spec mappings, mcms_SpokeNamespace = ''spoke-ns'', mcms_Selector = [(''env'', ''prod'')]\<rparr>,
     mcm_Status = \<lparr>mcmst_NumberDesired = 0, mcmst_NumberApplied = 0, mcmst_NumberDegraded = 0\<rparr>\<rparr>"

definition sample_cluster :: "string \<Rightarrow> ManagedCluster" where
  "sample_cluster name = \<lparr>mc_Meta = sample_meta name,
     mc_ClusterClaims = [\<lparr>cc_Name = KernelVersionsClusterClaimName, cc_Value = ''5.4.0-gke''\<rparr>]\<rparr>"

definition hub_env :: "ManagedClusterModule \<Rightarrow> ManagedCluster list \<Rightarrow> ManifestWork list \<Rightarrow> env" where
  "hub_env mcm clusters works = empty_cluster\<lparr>
     cl_GetManagedClusterModule := (\<lambda>_ _. Inr mcm),
     cl_ListManagedClusters := (\<lambda>_ _. Inr clusters),
     cl_ListManifestWorks := (\<lambda>_ _. Inr works)\<rparr>"

lemma hub_env_sel [simp]:
  "cl_GetManagedClusterModule (hub_env mcm cs mws) h nn = Inr mcm"
  "cl_ListManagedClusters (hub_env mcm cs mws) h sel = Inr cs"
  "cl_ListManifestWorks (hub_env mcm cs mws) h sel = Inr mws"
  "cl_GetManifestWork (hub_env mcm cs mws) h nn = Inl (NotFound ''manifestwork'')"
  "cl_Write (hub_env mcm cs mws) h w = Inr ()"
  "cl_ListJobs (hub_env mcm cs mws) h n l = Inr []"
  "SetControllerReference (hub_env mcm cs mws) o1 rs = Inr (rs @ [\<lparr>or_Kind = own_Kind o1, or_Name = om_Name (own_Meta o1),
       or_UID = om_UID (own_Meta o1), or_Controller = True\<rparr>])"
  by (simp_all add: hub_env_def empty_cluster_def)

lemma SetManifestWorkAsDesired_run_skips:
  assumes "SetManifestWorkAsDesired L (Some mw) mcm (s0, a) = (r0, (s1, b))"
    and "mlc_Build (ml_Container (spec_ModuleLoader (mcms_ModuleSpec (mcm_Spec mcm)))) = None"
    and "mlc_Sign (ml_Container (spec_ModuleLoader (mcms_ModuleSpec (mcm_Spec mcm)))) = None"
    and "kernelMappingsByKernelVersion L (hub_module ns (with_mappings mcm b)) c = Ok out" and "out \<noteq> []"
  shows "BuildAndSign L ns (with_mappings mcm b) c s = (Ok True, s)"
proof -
  have b: "b = map clear_mapping a" using assms(1) by (simp add: SetManifestWorkAsDesired_run)
  let ?m = "hub_module ns (with_mappings mcm b)"
  have spec: "mlc_Build (ml_Container (spec_ModuleLoader (mod_Spec ?m))) = None"
    "mlc_Sign (ml_Container (spec_ModuleLoader (mod_Spec ?m))) = None"
    "\<forall>km \<in> set (spec_mappings (mod_Spec ?m)). km_Build km = None \<and> km_Sign km = None"
    using assms(2,3) by (simp_all add: hub_module_def with_mappings_def set_container_def spec_mappings_def b clear_mapping_def)
  obtain ks where d: "distinct (map fst out)"
    and out: "\<And>k mld. (k, mld) \<in> set out \<longleftrightarrow>
      k \<in> (\<lambda>k. TrimSuffix k ''+'') ` set ks \<and> GetModuleLoaderDataForKernel L ?m k = Ok mld"
    using kernelMappings_Ok [OF assms(4)] by metis
  have "\<forall>kv \<in> set (range_map order out). \<not> ShouldBeBuilt (snd kv) \<and> \<not> ShouldBeSigned (snd kv)" for order
    using out GetModuleLoaderData_no_build [OF _ spec] by (auto simp: set_range_map [OF d])
  from nothing_to_build_loop [OF this] show ?thesis
    using assms(4,5) by (simp add: BuildAndSign_def go_simps)
qed

lemma sample_hub_mappings:
  assumes "mapping = sample_mapping b None"
  shows "\<exists>out. kernelMappingsByKernelVersion (hub_env mcm cs mws) (hub_module ''kmm'' (with_mappings (sample_mcm a) [mapping])) (sample_cluster n) = Ok out \<and> out \<noteq> []"
  using assms by (simp add: kernelMappingsByKernelVersion_def kernelVersions_def sample_cluster_def TrimSuffix_def HasSuffix_def
      GetModuleLoaderDataForKernel_def prepareModuleLoaderData_def replaceTemplates_def KernelComponentsAsEnvVars_eq
      is_kernel_sep_def Let_def owner_of_module_def hub_module_def with_mappings_def set_container_def sample_mcm_def
      hub_env_def GetRelevantBuild_def sample_defs)

lemma sample_hub_run:
  "\<exists>t xs mw ys. HubReconcile (hub_env (sample_mcm [sample_mapping None None]) [sample_cluster ''c1''] []) ''kmm'' sample_request fresh_state = (Ok (), t) \<and>
     history t = xs @ Write (CreateManifestWork mw) # ys \<and>
     xs = [Read (GetManagedClusterModule sample_request), Read (ListManagedClusters (mcms_Selector (mcm_Spec (sample_mcm [sample_mapping None None])))),
       Read (GetManifestWork \<lparr>nn_Namespace = ''c1'', nn_Name = ''mod''\<rparr>)]"
proof -
  let ?mcm = "sample_mcm [sample_mapping None None]"
  let ?L = "hub_env ?mcm [sample_cluster ''c1''] []"
  have a: "spec_mappings (mcms_ModuleSpec (mcm_Spec ?mcm)) = [sample_mapping None None]"
    by (simp add: sample_mcm_def spec_mappings_def sample_spec_def)
  obtain out where out: "kernelMappingsByKernelVersion ?L (hub_module ''kmm'' (with_mappings ?mcm [sample_mapping None None])) (sample_cluster ''c1'') = Ok out"
    "out \<noteq> []"
    using sample_hub_mappings [OF refl, of ?mcm] by blast
  have clear: "map clear_mapping [sample_mapping None None] = [sample_mapping None None]"
    by (simp add: clear_mapping_def sample_mapping_def)
  have "SetManifestWorkAsDesired ?L (Some zero_ManifestWork) ?mcm (fresh_state, [sample_mapping None None]) =
      (of_sum (manifest_refs ?L ?mcm [sample_mapping None None] zero_ManifestWork), (fresh_state, [sample_mapping None None]))"
    by (subst SetManifestWorkAsDesired_run) (simp only: clear)
  then have built: "BuildAndSign ?L ''kmm'' (with_mappings ?mcm [sample_mapping None None]) (sample_cluster ''c1'') s = (Ok True, s)" for s
    by (rule SetManifestWorkAsDesired_run_skips [OF _ _ _ out]) (simp_all add: sample_mcm_def sample_spec_def)
  obtain mw where mw: "reconcile_manifestwork ?L ?mcm (sample_cluster ''c1'') [sample_mapping None None] s =
      (Ok [sample_mapping None None], s\<lparr>history := history s @
        [Read (GetManifestWork \<lparr>nn_Namespace = ''c1'', nn_Name = ''mod''\<rparr>), Write (CreateManifestWork mw)]\<rparr>)" for s
    by (simp add: reconcile_manifestwork_def Let_def with_store_def CreateOrPatch_def go_simps SetManifestWorkAsDesired_run
        manifest_refs_def clear_mapping_def sample_mapping_def sample_cluster_def sample_mcm_def sample_meta_def)
  have cluster: "reconcile_cluster ?L ''kmm'' ?mcm (sample_cluster ''c1'') [sample_mapping None None] s =
      (Ok [sample_mapping None None], s\<lparr>history := history s @
        [Read (GetManifestWork \<lparr>nn_Namespace = ''c1'', nn_Name = ''mod''\<rparr>), Write (CreateManifestWork mw)]\<rparr>)" for s
    by (simp add: reconcile_cluster_def attempt_run built mw)
  obtain ys t where run: "HubReconcile ?L ''kmm'' sample_request fresh_state = (Ok (), t)"
    and h: "history t = [Read (GetManagedClusterModule sample_request), Read (ListManagedClusters (mcms_Selector (mcm_Spec ?mcm))),
      Read (GetManifestWork \<lparr>nn_Namespace = ''c1'', nn_Name = ''mod''\<rparr>)] @ Write (CreateManifestWork mw) # ys"
    by (simp add: HubReconcile_run reconcile_mcm_def a cluster ManifestWorkGarbageCollect_def fresh_state_def
        getOwnedManifestWorks_def GetOwnedManifestWorks_def GarbageCollectBuilds_def BuildGarbageCollect_def
        GetModuleJobs_def getJobs_def filterJobsByOwner_def ManagedClusterModuleUpdateStatus_def Let_def go_simps)
  with run h show ?thesis by blast
qed

section \<open>Properties\<close>

text \<open>
  C15. What the hub sends and touches.  Every ManifestWork it creates or patches carries exactly one Module,
  named like the ManagedClusterModule and in the namespace asked for, without any build or sign
  section, in the Module or in any of its kernel mappings; apart from that a run deletes
  ManifestWorks and jobs, creates jobs and updates the status.  Jobs are deleted only if the
  ManagedClusterModule controls them.  If the ManagedClusterModule is not found, nothing is written and
  the run succeeds.
\<close>

theorem HubReconcile_ships_no_build_section:
  assumes "HubReconcile L ns req s = (r, t)"
  shows "\<exists>evs. history t = history s @ evs \<and>
     (case cl_GetManagedClusterModule L (history s) req of
        Inl e \<Rightarrow> writes evs = [] \<and> (r = Ok () \<longleftrightarrow> IsNotFound e)
      | Inr mcm \<Rightarrow> \<forall>w \<in> set (writes evs).
          (\<exists>mw m. (w = CreateManifestWork mw \<or> (\<exists>old. w = PatchManifestWork old mw)) \<and> mw_Manifests mw = [m] \<and>
             om_Name (mod_Meta m) = om_Name (mcm_Meta mcm) \<and>
             om_Namespace (mod_Meta m) = mcms_SpokeNamespace (mcm_Spec mcm) \<and>
             mlc_Build (ml_Container (spec_ModuleLoader (mod_Spec m))) = None \<and>
             mlc_Sign (ml_Container (spec_ModuleLoader (mod_Spec m))) = None \<and>
             (\<forall>km \<in> set (spec_mappings (mod_Spec m)). km_Build km = None \<and> km_Sign km = None)) \<or>
          (\<exists>mw. w = DeleteManifestWork mw) \<or> (\<exists>j. w = CreateJob j) \<or>
          (\<exists>j. w = DeleteJob j \<and> IsControlledBy L (om_OwnerReferences (job_Meta j)) (owner_of_mcm mcm)) \<or>
          (\<exists>mcm'. w = UpdateManagedClusterModuleStatus mcm' \<and> mcm_Meta mcm' = mcm_Meta mcm))"
  (is "\<exists>evs. _ \<and> (case _ of Inl e \<Rightarrow> _ e evs | Inr mcm \<Rightarrow> \<forall>w \<in> set (writes evs). ?P mcm w)")
proof (cases "cl_GetManagedClusterModule L (history s) req")
  case (Inl e)
  with assms show ?thesis by (auto simp: HubReconcile_run)
next
  case (Inr mcm)
  have stripped: "\<exists>m. mw_Manifests mw = [m] \<and> om_Name (mod_Meta m) = om_Name (mcm_Meta mcm) \<and>
      om_Namespace (mod_Meta m) = mcms_SpokeNamespace (mcm_Spec mcm) \<and>
      mlc_Build (ml_Container (spec_ModuleLoader (mod_Spec m))) = None \<and>
      mlc_Sign (ml_Container (spec_ModuleLoader (mod_Spec m))) = None \<and>
      (\<forall>km \<in> set (spec_mappings (mod_Spec m)). km_Build km = None \<and> km_Sign km = None)" if "shipped mcm mw" for mw
    using that by (auto simp: shipped_def spoke_module_def set_container_def spec_mappings_def clear_mapping_def)
  have only: "?P mcm w" if "hub_event L ns mcm cs n h (Write w)" for cs n h w
    using that by (cases rule: hub_event_Write) (blast dest: stripped)+
  show ?thesis
  proof (cases rule: HubReconcile_trace [OF assms Inr, case_names none run])
    case none
    then show ?thesis by (simp add: Inr)
  next
    case (run cs evs)
    have "\<exists>h. hub_event L ns mcm cs (length (history s)) h (Write w)" if w: "w \<in> set (writes evs)" for w
    proof -
      obtain xs ys where "evs = xs @ Write w # ys" using w by (auto simp: in_writes_iff dest: split_list)
      with run(3) show ?thesis by auto
    qed
    then have "\<forall>w \<in> set (writes evs). ?P mcm w" by (metis only)
    then show ?thesis using run(2) Inr
      by (intro exI [of _ "Read (GetManagedClusterModule req) # Read (ListManagedClusters (mcms_Selector (mcm_Spec mcm))) # evs"]) simp
  qed
qed

theorem HubReconcile_ships_no_build_section_witness:
  "\<exists>t. HubReconcile empty_cluster ''kmm'' sample_request fresh_state = (Ok (), t) \<and> writes (history t) = []"
proof -
  obtain r t where run: "HubReconcile empty_cluster ''kmm'' sample_request fresh_state = (r, t)" by fastforce
  from HubReconcile_ships_no_build_section [OF run] run show ?thesis
    by (auto simp: empty_cluster_def fresh_state_def)
qed

text \<open>
  C14. The hub ships only what is ready.  When it creates or patches a ManifestWork, the call before asked for
  the ManifestWork of a selected cluster, and the write is about that ManifestWork: a new one has that
  name and the namespace of the cluster, a patched one is the one that was answered, name and namespace
  unchanged.  The cluster has published its kernels, one of them at least has a mapping, and for
  every kernel with a mapping the image is there: it need not be built (signed), or the registry has
  answered for it, or the job of the ManagedClusterModule for this very specification has succeeded.
  This is judged by the mappings \<open>a\<close>: those of the ManagedClusterModule as it was read or, only if a
  ManifestWork was prepared earlier in the same run, the same mappings without their build and sign
  sections.  So for the first cluster of a run it is about the mappings as they are stored; for the later
  ones only the build and sign sections of the Module itself count, with the effect shown for
  \<open>SetManifestWorkAsDesired\<close> below.
\<close>

theorem HubReconcile_ships_ready_images:
  assumes "HubReconcile L ns req s = (r, t)" and "history t = xs @ Write w # ys"
    and "length (history s) \<le> length xs" and "w = CreateManifestWork mw \<or> w = PatchManifestWork old mw"
  shows "\<exists>mcm cs c a h nn. cl_GetManagedClusterModule L (history s) req = Inr mcm \<and>
     cl_ListManagedClusters L (history s @ [Read (GetManagedClusterModule req)]) (mcms_Selector (mcm_Spec mcm)) = Inr cs \<and>
     c \<in> set cs \<and> nn = \<lparr>nn_Namespace = om_Name (mc_Meta c), nn_Name = om_Name (mcm_Meta mcm)\<rparr> \<and>
     xs = h @ [Read (GetManifestWork nn)] \<and>
     (case w of
        CreateManifestWork mw \<Rightarrow> mw_key mw = nn
      | PatchManifestWork old mw \<Rightarrow> cl_GetManifestWork L h nn = Inr old \<and> mw_key mw = mw_key old
      | _ \<Rightarrow> False) \<and>
     (a = spec_mappings (mcms_ModuleSpec (mcm_Spec mcm)) \<or>
      a = map clear_mapping (spec_mappings (mcms_ModuleSpec (mcm_Spec mcm))) \<and> mw_prepared L (length (history s)) h) \<and>
     cluster_ready L ns (with_mappings mcm a) c h"
proof -
  obtain mcm where mcm: "cl_GetManagedClusterModule L (history s) req = Inr mcm"
    using assms(1-3) write_position [of "history s" "[Read (GetManagedClusterModule req)]" "[]" xs w ys]
    by (auto simp: HubReconcile_run split: sum.splits)
  let ?rs = "[Read (GetManagedClusterModule req), Read (ListManagedClusters (mcms_Selector (mcm_Spec mcm)))]"
  show ?thesis
  proof (cases rule: HubReconcile_trace [OF assms(1) mcm, case_names none run])
    case none
    with assms(2,3) write_position [of "history s" ?rs "[]" xs w ys] show ?thesis by auto
  next
    case (run cs evs)
    obtain zs where xs: "xs = history s @ ?rs @ zs" and evs: "evs = zs @ Write w # ys"
      by (rule write_position [of "history s" ?rs evs xs w ys]) (use run(2) assms(2,3) in auto)
    have "hub_event L ns mcm cs (length (history s)) xs (Write w)"
      using run(3) evs xs by simp
    then have "ship_ok L ns mcm cs (length (history s)) xs w" using assms(4) by auto
    with mcm run(1) show ?thesis unfolding ship_ok_def by blast
  qed
qed

theorem HubReconcile_ships_ready_images_witness:
  "\<exists>t xs mw ys c h. HubReconcile (hub_env (sample_mcm [sample_mapping None None]) [sample_cluster ''c1''] []) ''kmm'' sample_request fresh_state = (Ok (), t) \<and>
     history t = xs @ Write (CreateManifestWork mw) # ys \<and> mw_key mw = \<lparr>nn_Namespace = ''c1'', nn_Name = ''mod''\<rparr> \<and>
     cluster_ready (hub_env (sample_mcm [sample_mapping None None]) [sample_cluster ''c1''] []) ''kmm''
       (with_mappings (sample_mcm [sample_mapping None None]) (spec_mappings (mcms_ModuleSpec (mcm_Spec (sample_mcm [sample_mapping None None]))))) c h"
proof -
  let ?mcm = "sample_mcm [sample_mapping None None]"
  let ?L = "hub_env ?mcm [sample_cluster ''c1''] []"
  obtain t xs mw ys where run: "HubReconcile ?L ''kmm'' sample_request fresh_state = (Ok (), t)"
    and h: "history t = xs @ Write (CreateManifestWork mw) # ys"
    and xs: "xs = [Read (GetManagedClusterModule sample_request), Read (ListManagedClusters (mcms_Selector (mcm_Spec ?mcm))),
       Read (GetManifestWork \<lparr>nn_Namespace = ''c1'', nn_Name = ''mod''\<rparr>)]"
    using sample_hub_run by blast
  have get: "cl_GetManagedClusterModule ?L k req = Inr ?mcm" for k req by (simp add: hub_env_def)
  have first: "\<not> mw_prepared ?L n (butlast xs)" for n
    by (auto simp: xs mw_prepared_def Cons_eq_append_conv)
  have "length (history fresh_state) \<le> length xs" "CreateManifestWork mw = CreateManifestWork mw \<or> CreateManifestWork mw = PatchManifestWork mw mw"
    by (simp_all add: fresh_state_def)
  from HubReconcile_ships_ready_images [OF run h this] obtain c a h0 nn where h0: "xs = h0 @ [Read (GetManifestWork nn)]"
    and key: "mw_key mw = nn"
    and a: "a = spec_mappings (mcms_ModuleSpec (mcm_Spec ?mcm)) \<or> mw_prepared ?L (length (history fresh_state)) h0"
    and ready: "cluster_ready ?L ''kmm'' (with_mappings ?mcm a) c h0"
    unfolding get by auto
  have "butlast xs = h0" "last xs = Read (GetManifestWork nn)" by (simp_all add: h0)
  with first have nn: "nn = \<lparr>nn_Namespace = ''c1'', nn_Name = ''mod''\<rparr>" and "\<not> mw_prepared ?L (length (history fresh_state)) h0"
    by (simp_all add: xs)
  with a have "a = spec_mappings (mcms_ModuleSpec (mcm_Spec ?mcm))" by blast
  with run h key ready show ?thesis unfolding nn by blast
qed

text \<open>
  C29. The sections that are cleared are lost for the clusters that follow.  After the ManifestWork of one
  cluster has been made, the array of mappings the next iteration reads has no build and sign sections;
  so if the Module itself has none either, the next clusters are neither built nor signed for: no call
  is made at all, and the answer is that everything is completed as soon as one kernel has a mapping.
\<close>

theorem SetManifestWorkAsDesired_skips_later_builds:
  assumes "SetManifestWorkAsDesired L (Some mw) mcm (s0, a) = (r0, (s1, b))"
    and "mlc_Build (ml_Container (spec_ModuleLoader (mcms_ModuleSpec (mcm_Spec mcm)))) = None"
    and "mlc_Sign (ml_Container (spec_ModuleLoader (mcms_ModuleSpec (mcm_Spec mcm)))) = None"
    and "kernelMappingsByKernelVersion L (hub_module ns (with_mappings mcm b)) c = Ok out" and "out \<noteq> []"
  shows "BuildAndSign L ns (with_mappings mcm b) c s = (Ok True, s)"
  by (rule SetManifestWorkAsDesired_run_skips [OF assms])

theorem SetManifestWorkAsDesired_skips_later_builds_witness:
  "\<exists>b. snd (snd (SetManifestWorkAsDesired (hub_env (sample_mcm []) [] []) (Some zero_ManifestWork) (sample_mcm [sample_mapping (Some sample_build) None])
       (fresh_state, [sample_mapping (Some sample_build) None]))) = b \<and>
     BuildAndSign (hub_env (sample_mcm []) [] []) ''kmm'' (with_mappings (sample_mcm [sample_mapping (Some sample_build) None]) b) (sample_cluster ''c2'') fresh_state =
       (Ok True, fresh_state)"
proof -
  let ?mcm = "sample_mcm [sample_mapping (Some sample_build) None]"
  let ?L = "hub_env (sample_mcm []) [] []"
  have b: "map clear_mapping [sample_mapping (Some sample_build) None] = [sample_mapping None None]"
    by (simp add: clear_mapping_def sample_mapping_def)
  have run: "SetManifestWorkAsDesired L (Some zero_ManifestWork) ?mcm (fresh_state, [sample_mapping (Some sample_build) None]) =
      (of_sum (manifest_refs L ?mcm [sample_mapping (Some sample_build) None] zero_ManifestWork), (fresh_state, [sample_mapping None None]))" for L
    by (subst SetManifestWorkAsDesired_run) (simp only: b)
  obtain out where out: "kernelMappingsByKernelVersion ?L (hub_module ''kmm'' (with_mappings ?mcm [sample_mapping None None])) (sample_cluster ''c2'') = Ok out"
    "out \<noteq> []"
    using sample_hub_mappings [OF refl] by blast
  have "BuildAndSign ?L ''kmm'' (with_mappings ?mcm [sample_mapping None None]) (sample_cluster ''c2'') fresh_state = (Ok True, fresh_state)"
    by (rule SetManifestWorkAsDesired_skips_later_builds [OF run _ _ out]) (simp_all add: sample_mcm_def sample_spec_def)
  then show ?thesis by (simp add: run)
qed

text \<open>
  Which ManifestWorks the hub takes back: of those labelled with the ManagedClusterModule, exactly the
  ones in the namespaces of clusters that are not selected any more, in the order of the list, up to
  the first deletion that fails.
\<close>

theorem ManifestWorkGarbageCollect_exact:
  assumes "ManifestWorkGarbageCollect L cs mcm s = (r, t)"
    and "cl_ListManifestWorks L (history s) [(ManagedClusterModuleNameLabel, om_Name (mcm_Meta mcm))] = Inr mws"
  shows "\<exists>dels rest. filter (\<lambda>mw. om_Namespace (mw_Meta mw) \<notin> (\<lambda>c. om_Name (mc_Meta c)) ` set cs) mws = dels @ rest \<and>
     history t = history s @ Read (ListManifestWorks [(ManagedClusterModuleNameLabel, om_Name (mcm_Meta mcm))]) #
       map (\<lambda>mw. Write (DeleteManifestWork mw)) dels \<and>
     (rest = [] \<and> r = Ok () \<or> (\<exists>e. r = Err e))"
proof -
  let ?keep = "\<lambda>mw. om_Namespace (mw_Meta mw) \<notin> (\<lambda>c. om_Name (mc_Meta c)) ` set cs"
  have "\<exists>dels rest. filter ?keep mws = dels @ rest \<and> history t' = history s' @ map (\<lambda>mw. Write (DeleteManifestWork mw)) dels \<and>
      (rest = [] \<and> r' = Ok () \<or> (\<exists>e. r' = Err e))"
    if "loop mws (gc_manifestwork L (map (\<lambda>c. om_Name (mc_Meta c)) cs)) u s' = (r', t')" for s' r' t' u
    using that
  proof (induction mws arbitrary: s' u)
    case (Cons mw mws)
    consider (keep) "\<not> ?keep mw" | (fail) e where "?keep mw" "cl_Write L (history s') (DeleteManifestWork mw) = Inl e"
      | (del) "?keep mw" "cl_Write L (history s') (DeleteManifestWork mw) = Inr ()"
      by (cases "cl_Write L (history s') (DeleteManifestWork mw)") auto
    then show ?case
    proof cases
      case keep
      with Cons show ?thesis by (simp add: gc_manifestwork_def go_simps)
    next
      case fail
      with Cons.prems show ?thesis
        by (intro exI [of _ "[mw]"] exI [of _ "filter ?keep mws"]) (auto simp: gc_manifestwork_def go_simps)
    next
      case del
      then have "gc_manifestwork L (map (\<lambda>c. om_Name (mc_Meta c)) cs) mw u s' =
          (Ok (), s'\<lparr>history := history s' @ [Write (DeleteManifestWork mw)]\<rparr>)"
        by (simp add: gc_manifestwork_def go_simps)
      with Cons.prems have "loop mws (gc_manifestwork L (map (\<lambda>c. om_Name (mc_Meta c)) cs)) ()
          (s'\<lparr>history := history s' @ [Write (DeleteManifestWork mw)]\<rparr>) = (r', t')"
        by (simp add: bind_go_run)
      from Cons.IH [OF this] obtain dels rest where "filter ?keep mws = dels @ rest"
        "history t' = history s' @ Write (DeleteManifestWork mw) # map (\<lambda>mw. Write (DeleteManifestWork mw)) dels"
        "rest = [] \<and> r' = Ok () \<or> (\<exists>e. r' = Err e)" by auto
      with del show ?thesis by (intro exI [of _ "mw # dels"] exI [of _ rest]) simp
    qed
  qed (simp add: go_simps)
  from this [of "()" "s\<lparr>history := history s @ [Read (ListManifestWorks [(ManagedClusterModuleNameLabel, om_Name (mcm_Meta mcm))])]\<rparr>" r t]
  show ?thesis using assms
    by (simp add: ManifestWorkGarbageCollect_def getOwnedManifestWorks_def Let_def go_simps)
qed

theorem ManifestWorkGarbageCollect_exact_witness:
  "\<exists>t. ManifestWorkGarbageCollect (hub_env (sample_mcm []) [] [zero_ManifestWork]) [sample_cluster ''c1''] (sample_mcm []) fresh_state = (Ok (), t) \<and>
     writes (history t) = [DeleteManifestWork zero_ManifestWork]"
proof -
  let ?L = "hub_env (sample_mcm []) [] [zero_ManifestWork]"
  have ns: "om_Namespace (mw_Meta zero_ManifestWork) = ''''" "om_Name (mc_Meta (sample_cluster ''c1'')) = ''c1''"
    by (simp_all add: zero_ManifestWork_def zero_ObjectMeta_def sample_cluster_def sample_meta_def)
  obtain t where run: "ManifestWorkGarbageCollect ?L [sample_cluster ''c1''] (sample_mcm []) fresh_state = (Ok (), t)"
    by (simp add: ManifestWorkGarbageCollect_def getOwnedManifestWorks_def gc_manifestwork_def ns Let_def go_simps)
  from ManifestWorkGarbageCollect_exact [OF run hub_env_sel(3)] run show ?thesis
    by (auto simp: ns fresh_state_def)
qed

text \<open>
  C28. The kernels of a spoke arrive at the hub: if the first cluster claim of the KMM name holds the value
  that the spoke's controller publishes for its nodes, of which there is at least one and whose kernel
  versions are single lines, the hub reads back the sorted list of their different kernel versions.
\<close>

theorem kernelVersions_roundtrip:
  assumes "nodes \<noteq> []" and "\<forall>n \<in> set nodes. CHR 0x0A \<notin> set (node_KernelVersion n)"
    and "clusterClaim KernelVersionsClusterClaimName (mc_ClusterClaims cluster) =
      Some \<lparr>cc_Name = KernelVersionsClusterClaimName, cc_Value = Join (kernels_slice L nodes) ''\<newline>''\<rparr>"
  shows "kernelVersions cluster = Ok (sorted_list_of_set (node_KernelVersion ` set nodes))"
proof -
  have "split_by (\<lambda>c. c = CHR 0x0A) (Join (kernels_slice L nodes) [CHR 0x0A]) = kernels_slice L nodes"
    by (rule split_by_Join) (use assms(1,2) in \<open>auto simp: kernels_slice_eq\<close>)
  with assms(3) show ?thesis
    by (simp add: kernelVersions_def claim_kernels_clusterClaim kernels_slice_eq)
qed

theorem kernelVersions_roundtrip_witness:
  "kernelVersions \<lparr>mc_Meta = sample_meta ''c1'', mc_ClusterClaims = [\<lparr>cc_Name = KernelVersionsClusterClaimName,
      cc_Value = Join (kernels_slice empty_cluster [sample_node ''n1'' ''5.4.0'']) ''\<newline>''\<rparr>]\<rparr> = Ok [''5.4.0'']"
proof -
  let ?c = "\<lparr>mc_Meta = sample_meta ''c1'', mc_ClusterClaims = [\<lparr>cc_Name = KernelVersionsClusterClaimName,
      cc_Value = Join (kernels_slice empty_cluster [sample_node ''n1'' ''5.4.0'']) ''\<newline>''\<rparr>]\<rparr>"
  have "kernelVersions ?c = Ok (sorted_list_of_set (node_KernelVersion ` set [sample_node ''n1'' ''5.4.0'']))"
    by (rule kernelVersions_roundtrip [where L = empty_cluster]) (simp_all add: sample_node_def)
  then show ?thesis by (simp add: sample_node_def)
qed

text \<open>
  A change of the kernels of a cluster is not missed: if the hub would read other kernels from the new
  object than from the old one, the update passes the filter.
\<close>

theorem kernel_change_passes_filter:
  assumes "kernelVersions new = Ok ks" and "kernelVersions old \<noteq> Ok ks"
  shows "ManagedClusterModuleReconcilerManagedClusterPredicate L (UpdateEvent (OManagedCluster old) (OManagedCluster new)) = Ok True"
  using assms
  by (auto simp: ManagedClusterModuleReconcilerManagedClusterPredicate_def LabelChangedPredicate_def kmmClusterClaimChanged_def
      claim_changed_def kernelVersions_def claim_kernels_clusterClaim split: option.splits)

theorem kernel_change_passes_filter_witness:
  "ManagedClusterModuleReconcilerManagedClusterPredicate empty_cluster
     (UpdateEvent (OManagedCluster \<lparr>mc_Meta = sample_meta ''c1'', mc_ClusterClaims = []\<rparr>) (OManagedCluster (sample_cluster ''c1''))) = Ok True"
  by (rule kernel_change_passes_filter [where ks = "[''5.4.0-gke'']"]) (simp_all add: kernelVersions_def sample_cluster_def)

end
