(* ===== verification/Operator_Life.thy ===== *)
theory Operator_Life
  imports Module_Reconciler Preflight Hub
begin

text \<open>
  The controllers side by side.  Each controller is called with requests again and again; a run may
  succeed, fail or panic, and the next request may be for any controller and any object.  The locale
  \<open>reconciler\<close> is the contract of one controller towards the cluster: it first asks for the object of
  the request, does nothing more if it does not get it, and otherwise makes only calls it is permitted
  to make for that object.  The controllers interpret it, and what holds of every run becomes an
  invariant of the life of the operator.
\<close>

section \<open>The contract of a controller\<close>

text \<open>The object was answered to some request before.\<close>

definition obtained ::
  "(history \<Rightarrow> NamespacedName \<Rightarrow> error + 'o) \<Rightarrow> (NamespacedName \<Rightarrow> read_call) \<Rightarrow> history \<Rightarrow> 'o \<Rightarrow> bool" where
  "obtained get get_call h x \<longleftrightarrow> (\<exists>h0 req h1. h = h0 @ Read (get_call req) # h1 \<and> get h0 req = Inr x)"

locale reconciler =
  fixes relied :: bool
    and get :: "history \<Rightarrow> NamespacedName \<Rightarrow> error + 'o"
    and get_call :: "NamespacedName \<Rightarrow> read_call"
    and reconcile :: "NamespacedName \<Rightarrow> (op_state, 'r) go"
    and permitted :: "'o \<Rightarrow> history \<Rightarrow> event \<Rightarrow> bool"
  assumes calls: "relied \<Longrightarrow> reconcile req s = (r, t) \<Longrightarrow>
    \<exists>evs. history t = history s @ Read (get_call req) # evs \<and>
      (case get (history s) req of
         Inl e \<Rightarrow> writes evs = []
       | Inr x \<Rightarrow> trace_ok (permitted x) (history s @ [Read (get_call req)]) evs)"
    and reads_permitted: "permitted x h (Read c)"
begin

lemma guar_reconcile:
  assumes relied
  shows "guar (\<lambda>_. True) (\<lambda>h e. is_read e \<or> (\<exists>x. obtained get get_call h x \<and> permitted x h e)) (reconcile req) (\<lambda>_ _. True) (\<lambda>_ _. True)"
  unfolding guar_def
proof (intro allI impI)
  fix s r t
  assume "reconcile req s = (r, t)"
  then obtain evs where evs: "history t = history s @ Read (get_call req) # evs"
    and ok: "case get (history s) req of Inl e \<Rightarrow> writes evs = []
       | Inr x \<Rightarrow> trace_ok (permitted x) (history s @ [Read (get_call req)]) evs"
    using calls [OF assms] by blast
  let ?J = "\<lambda>h e. is_read e \<or> (\<exists>x. obtained get get_call h x \<and> permitted x h e)"
  have "trace_ok ?J (history s @ [Read (get_call req)]) evs"
  proof (cases "get (history s) req")
    case (Inl e)
    with ok have "\<forall>w. Write w \<notin> set evs" by (simp add: in_writes_iff [symmetric])
    then show ?thesis by (auto simp: trace_ok_nth is_read_def split: event.splits)
  next
    case (Inr x)
    with ok have "trace_ok (permitted x) (history s @ [Read (get_call req)]) evs" by simp
    moreover have "obtained get get_call ((history s @ [Read (get_call req)]) @ zs) x" for zs
      using Inr unfolding obtained_def by fastforce
    ultimately show ?thesis unfolding trace_ok_nth by blast
  qed
  with evs show "(\<exists>evs. history t = history s @ evs \<and> trace_ok ?J (history s) evs) \<and>
      (case r of Ok a \<Rightarrow> True | Err e \<Rightarrow> True | Panic \<Rightarrow> True)"
    by (auto split: res.split)
qed

end

section \<open>The controllers of the operator\<close>

text \<open>
  What the pod controller may call: a patch of the labels of the node the pod runs on, right after the
  server has answered with that node, which sets the label the pod stands for if the pod is ready and not
  being deleted and removes it otherwise; or the removal of the finalizer right after such a patch was
  accepted.
\<close>

definition pod_node_patch :: "env \<Rightarrow> Pod \<Rightarrow> history \<Rightarrow> Node \<Rightarrow> Node \<Rightarrow> bool" where
  "pod_node_patch L pod h n n' \<longleftrightarrow> (\<exists>h0 m. h = h0 @ [Read (GetNode (pod_NodeName pod))] \<and>
     cl_GetNode L h0 (pod_NodeName pod) = Inr n \<and> map_of (om_Labels (pod_Meta pod)) ModuleNameLabel = Some m \<and>
     same_but_labels n n' \<and>
     (\<forall>k. map_of (om_Labels (node_Meta n')) k =
        (if k = GetNodeLabelFromPod pod m
         then if IsPodReady L pod \<and> om_DeletionTimestamp (pod_Meta pod) = None then Some '''' else None
         else map_of (om_Labels (node_Meta n)) k)))"

definition pod_event :: "env \<Rightarrow> Pod \<Rightarrow> history \<Rightarrow> event \<Rightarrow> bool" where
  "pod_event L pod h e =
     (case e of
        Read _ \<Rightarrow> True
      | Write (PatchNode n n') \<Rightarrow> pod_node_patch L pod h n n'
      | Write (PatchPod p p') \<Rightarrow> p = pod \<and> p' = without_finalizer L pod \<and> om_DeletionTimestamp (pod_Meta pod) \<noteq> None \<and>
          (\<exists>h0 n n'. h = h0 @ [Write (PatchNode n n')] \<and> cl_Write L h0 (PatchNode n n') = Inr () \<and> pod_node_patch L pod h0 n n')
      | Write _ \<Rightarrow> False)"

definition kernel_patch :: "string \<Rightarrow> Node \<Rightarrow> Node \<Rightarrow> bool" where
  "kernel_patch labelName n n' \<longleftrightarrow> same_but_labels n n' \<and>
     (\<forall>k. map_of (om_Labels (node_Meta n')) k =
        (if k = labelName then Some (TrimSuffix (node_KernelVersion n) ''+'') else map_of (om_Labels (node_Meta n)) k))"

definition node_kernel_event :: "string \<Rightarrow> Node \<Rightarrow> history \<Rightarrow> event \<Rightarrow> bool" where
  "node_kernel_event labelName node h e =
     (case e of
        Read _ \<Rightarrow> True
      | Write (PatchNode n n') \<Rightarrow> n = node \<and> kernel_patch labelName n n'
      | Write _ \<Rightarrow> False)"

interpretation module_controller: reconciler True "cl_GetModule L" GetModule "Reconcile L" "module_event L" for L
proof unfold_locales
  show "\<exists>evs. history t = history s @ Read (GetModule req) # evs \<and>
      (case cl_GetModule L (history s) req of Inl e \<Rightarrow> writes evs = []
       | Inr x \<Rightarrow> trace_ok (module_event L x) (history s @ [Read (GetModule req)]) evs)"
    if "Reconcile L req s = (r, t)" for req s r t
    using Reconcile_trace [OF that] by (auto split: sum.splits)
qed simp

interpretation preflight_controller: reconciler "status_stored L" "cl_GetPreflightValidation L" GetPreflightValidation
  "PreflightReconcile L" "preflight_run_event L" for L
proof unfold_locales
  show "\<exists>evs. history t = history s @ Read (GetPreflightValidation req) # evs \<and>
      (case cl_GetPreflightValidation L (history s) req of Inl e \<Rightarrow> writes evs = []
       | Inr pv \<Rightarrow> trace_ok (preflight_run_event L pv) (history s @ [Read (GetPreflightValidation req)]) evs)"
    if st: "status_stored L" and run: "PreflightReconcile L req s = (r, t)" for req s r t
  proof (cases "cl_GetPreflightValidation L (history s) req")
    case (Inl e)
    with run show ?thesis by (auto simp: PreflightReconcile_def go_simps split: if_splits)
  next
    case (Inr pv)
    show ?thesis by (rule PreflightReconcile_trace [OF st run Inr]) (simp add: Inr)
  qed
qed (simp add: preflight_run_event_def)

interpretation pod_controller: reconciler True "cl_GetPod L" GetPod "PodReconcile L" "pod_event L" for L
proof unfold_locales
  show "\<exists>evs. history t = history s @ Read (GetPod req) # evs \<and>
      (case cl_GetPod L (history s) req of Inl e \<Rightarrow> writes evs = []
       | Inr pod \<Rightarrow> trace_ok (pod_event L pod) (history s @ [Read (GetPod req)]) evs)"
    if "PodReconcile L req s = (r, t)" for req s r t
    using that
    by (auto simp: PodReconcile_def addLabel_def deleteLabel_def deleteFinalizer_def Let_def go_simps of_sum_def pod_event_def
        pod_node_patch_def split: sum.splits option.splits if_splits)
qed (simp add: pod_event_def)

interpretation node_controller: reconciler True "\<lambda>h req. cl_GetNode L h (nn_Name req)" "\<lambda>req. GetNode (nn_Name req)"
  "NodeKernelReconcile L labelName" "node_kernel_event labelName" for L labelName
proof unfold_locales
  show "\<exists>evs. history t = history s @ Read (GetNode (nn_Name req)) # evs \<and>
      (case cl_GetNode L (history s) (nn_Name req) of Inl e \<Rightarrow> writes evs = []
       | Inr n \<Rightarrow> trace_ok (node_kernel_event labelName n) (history s @ [Read (GetNode (nn_Name req))]) evs)"
    if "NodeKernelReconcile L labelName req s = (r, t)" for req s r t
    using NodeKernelReconcile_labels [OF that] by (auto simp: node_kernel_event_def kernel_patch_def)
qed (simp add: node_kernel_event_def)

interpretation hub_controller: reconciler True "cl_GetManagedClusterModule L" GetManagedClusterModule "HubReconcile L ns"
  "\<lambda>mcm h e. \<exists>cs n. hub_event L ns mcm cs n h e" for L ns
proof unfold_locales
  show "\<exists>evs. history t = history s @ Read (GetManagedClusterModule req) # evs \<and>
      (case cl_GetManagedClusterModule L (history s) req of Inl e \<Rightarrow> writes evs = []
       | Inr mcm \<Rightarrow> trace_ok (\<lambda>h e. \<exists>cs n. hub_event L ns mcm cs n h e) (history s @ [Read (GetManagedClusterModule req)]) evs)"
    if run: "HubReconcile L ns req s = (r, t)" for req s r t
  proof (cases "cl_GetManagedClusterModule L (history s) req")
    case (Inl e)
    with run show ?thesis by (auto simp: HubReconcile_run split: if_splits)
  next
    case (Inr mcm)
    have read: "hub_event L ns mcm cs n h (Read c)" for cs n h c by (simp add: hub_event_def)
    from run Inr show ?thesis
    proof (cases rule: HubReconcile_trace)
      case none
      with Inr read show ?thesis by auto
    next
      case (run cs evs)
      from run(3) have "trace_ok (\<lambda>h e. \<exists>cs n. hub_event L ns mcm cs n h e)
          ((history s @ [Read (GetManagedClusterModule req)]) @ [Read (ListManagedClusters (mcms_Selector (mcm_Spec mcm)))]) evs"
        by (rule trace_ok_mono) blast
      with run(2) Inr read show ?thesis by auto
    qed
  qed
qed (simp add: hub_event_def)

section \<open>The life of the operator\<close>

text \<open>
  One run of one of the five controllers that \<open>cmd/manager\<close> starts, for any request and with any
  outcome.
\<close>

inductive operator_step :: "env \<Rightarrow> op_state \<Rightarrow> op_state \<Rightarrow> bool" for L where
  module_run: "Reconcile L req s = (ru, t) \<Longrightarrow> operator_step L s t"
| preflight_run: "PreflightReconcile L req s = (rn, t) \<Longrightarrow> operator_step L s t"
| pod_run: "PodReconcile L req s = (ru, t) \<Longrightarrow> operator_step L s t"
| node_run: "NodeKernelReconcile L KernelLabel req s = (ru, t) \<Longrightarrow> operator_step L s t"
| claim_run: "ClusterClaimReconcile L s = (ru, t) \<Longrightarrow> operator_step L s t"

text \<open>
  What the controller of the cluster claim may call: the claim of KMM gets the sorted kernel versions of the
  nodes the server has just listed; an existing claim is the one the server answered with, and only its
  value changes.
\<close>

definition claim_event :: "env \<Rightarrow> history \<Rightarrow> event \<Rightarrow> bool" where
  "claim_event L h e \<longleftrightarrow> is_read e \<or>
     (\<exists>h0 nodes value. h = h0 @ [Read (ListNodes []), Read (GetClusterClaim KernelVersionsClusterClaimName)] \<and>
        cl_ListNodes L h0 [] = Inr nodes \<and> value = Join (sorted_list_of_set (node_KernelVersion ` set nodes)) ''\<newline>'' \<and>
        (e = Write (CreateClusterClaim \<lparr>cc_Name = KernelVersionsClusterClaimName, cc_Value = value\<rparr>) \<or>
         (\<exists>cc. cl_GetClusterClaim L (h0 @ [Read (ListNodes [])]) KernelVersionsClusterClaimName = Inr cc \<and>
            e = Write (PatchClusterClaim cc (cc\<lparr>cc_Value := value\<rparr>)))))"

text \<open>A call that some controller is permitted to make, for an object it was given.\<close>

definition operator_event :: "env \<Rightarrow> history \<Rightarrow> event \<Rightarrow> bool" where
  "operator_event L h e \<longleftrightarrow> is_read e \<or> claim_event L h e \<or>
     (\<exists>m. obtained (cl_GetModule L) GetModule h m \<and> module_event L m h e) \<or>
     (\<exists>pv. obtained (cl_GetPreflightValidation L) GetPreflightValidation h pv \<and> preflight_run_event L pv h e) \<or>
     (\<exists>pod. obtained (cl_GetPod L) GetPod h pod \<and> pod_event L pod h e) \<or>
     (\<exists>n. obtained (\<lambda>h req. cl_GetNode L h (nn_Name req)) (\<lambda>req. GetNode (nn_Name req)) h n \<and> node_kernel_event KernelLabel n h e)"

lemma guar_ClusterClaimReconcile:
  "guar (\<lambda>_. True) (claim_event L) (ClusterClaimReconcile L) (\<lambda>_ _. True) (\<lambda>_ _. True)"
  unfolding guar_def
proof (intro allI impI)
  fix s r t
  assume run: "ClusterClaimReconcile L s = (r, t)"
  have "\<exists>evs. history t = history s @ evs \<and> trace_ok (claim_event L) (history s) evs"
  proof (cases "cl_ListNodes L (history s) []")
    case (Inl e)
    with run show ?thesis by (auto simp: ClusterClaimReconcile_def go_simps claim_event_def)
  next
    case (Inr nodes)
    let ?name = KernelVersionsClusterClaimName
    let ?h = "history s @ [Read (ListNodes []), Read (GetClusterClaim ?name)]"
    have ok: "trace_ok (claim_event L) ?h evs" if "evs = [] \<or> (\<exists>w. evs = [Write w] \<and> claim_event L ?h (Write w))" for evs
      using that by auto
    from ClusterClaimReconcile_canonical [OF run Inr] obtain evs where
      evs: "history t = history s @ Read (ListNodes []) # Read (GetClusterClaim ?name) # evs"
      and "trace_ok (claim_event L) ?h evs"
    proof (cases "cl_GetClusterClaim L (history s @ [Read (ListNodes [])]) ?name")
      case (Inl e)
      with ClusterClaimReconcile_canonical [OF run Inr] show thesis
        by (auto simp: Let_def claim_event_def Inr split: if_splits intro!: that ok)
    next
      case found: (Inr cc)
      with ClusterClaimReconcile_canonical [OF run Inr] show thesis
        by (auto simp: Let_def claim_event_def Inr split: if_splits intro!: that ok)
    qed
    then show ?thesis
      by (intro exI [of _ "Read (ListNodes []) # Read (GetClusterClaim KernelVersionsClusterClaimName) # evs"])
        (simp add: claim_event_def [of _ _ "Read _"])
  qed
  then show "(\<exists>evs. history t = history s @ evs \<and> trace_ok (claim_event L) (history s) evs) \<and>
      (case r of Ok a \<Rightarrow> True | Err e \<Rightarrow> True | Panic \<Rightarrow> True)"
    by (auto split: res.split)
qed

lemma guar_step:
  assumes "guar (\<lambda>_. True) J m Q E" and "m s = (r, t)" and "\<And>h e. J h e \<Longrightarrow> K h e"
  shows "\<exists>evs. history t = history s @ evs \<and> trace_ok K (history s) evs"
  by (rule guarD [OF assms(1) TrueI assms(2)]) (use assms(3) trace_ok_mono in blast)

lemma operator_step_events:
  assumes "operator_step L s t" and "status_stored L"
  shows "\<exists>evs. history t = history s @ evs \<and> trace_ok (operator_event L) (history s) evs"
  using assms
proof cases
  case (module_run req ru)
  from guar_step [OF module_controller.guar_reconcile [OF TrueI] this, of "operator_event L"] show ?thesis
    by (auto simp: operator_event_def)
next
  case (preflight_run req rn)
  from guar_step [OF preflight_controller.guar_reconcile [OF assms(2)] this, of "operator_event L"] show ?thesis
    by (auto simp: operator_event_def)
next
  case (pod_run req ru)
  from guar_step [OF pod_controller.guar_reconcile [OF TrueI] this, of "operator_event L"] show ?thesis
    by (auto simp: operator_event_def)
next
  case (node_run req ru)
  from guar_step [OF node_controller.guar_reconcile [OF TrueI] this, of "operator_event L"] show ?thesis
    by (auto simp: operator_event_def)
next
  case (claim_run ru)
  from guar_step [OF guar_ClusterClaimReconcile this, of "operator_event L"] show ?thesis
    by (auto simp: operator_event_def)
qed

lemma operator_run_events:
  assumes "(operator_step L)\<^sup>*\<^sup>* s t" and "status_stored L"
  shows "\<exists>evs. history t = history s @ evs \<and> trace_ok (operator_event L) (history s) evs"
  using assms(1)
proof (induction rule: rtranclp_induct)
  case (step t u)
  then obtain evs where "history t = history s @ evs" "trace_ok (operator_event L) (history s) evs" by blast
  moreover obtain evs' where "history u = history t @ evs'" "trace_ok (operator_event L) (history t) evs'"
    using operator_step_events [OF step(2) assms(2)] by blast
  ultimately show ?case by (intro exI [of _ "evs @ evs'"]) simp
qed simp

section \<open>Properties\<close>

text \<open>
  C3. What the operator can do to a cluster, over its whole life.  Let its controllers run in any order, on
  any requests, any number of times, and with any of the runs failing; all that is required of the
  server is that the answer to an accepted status update of a PreflightValidation is what was sent.
  Then every write the operator has ever made is one of these, and each is about objects the server has
  answered with before.
  A DaemonSet is created or patched only as what the controller makes, for a Module the server answered
  with, of the device plugin that Module has or of the module loader of a kernel whose image is ready by
  the calls made before; what is patched is a DaemonSet the server answered with, and what is created
  starts from an empty one in the namespace of the Module or from one the server answered with.
  A DaemonSet is deleted only if the server answered with it and it is of a kernel that no schedulable
  node of the Module runs with a usable mapping.  A job is created only for a Module and under its
  control, or, under the control of a preflight validation, for a listed Module and the kernel of that
  validation; it is deleted only if it was listed and the Module or the preflight validation controls it.
  A node is patched only in its labels, and as the server answered it: either it is the node of a pod, and
  the label the pod stands for is set or removed by the readiness of the pod, or the kernel label is set
  to the kernel version; no other label changes.  A finalizer is removed only from a pod under deletion
  that the server answered with, directly after the patch of its node was accepted.  A status update
  keeps metadata and specification of the object the server answered with.  The cluster claim gets the
  sorted kernel versions of the nodes just listed, and nothing else of it changes.
\<close>

theorem operator_writes_over_time:
  assumes "(operator_step L)\<^sup>*\<^sup>* s t" and "status_stored L"
    and "history t = xs @ Write w # ys" and "length (history s) \<le> length xs"
  shows "case w of
       CreateDaemonSet ds \<Rightarrow> (\<exists>m old. obtained (cl_GetModule L) GetModule xs m \<and>
         (blank_ds m old \<or> ds_known L xs old) \<and> wanted_ds L m xs old ds)
     | PatchDaemonSet old ds \<Rightarrow> ds_known L xs old \<and>
         (\<exists>m. obtained (cl_GetModule L) GetModule xs m \<and> wanted_ds L m xs old ds)
     | DeleteDaemonSet ds \<Rightarrow> ds_kernel ds \<noteq> '''' \<and> ds_known L xs ds \<and>
         (\<exists>m. obtained (cl_GetModule L) GetModule xs m \<and> kernel_unused L m (ds_kernel ds) xs)
     | CreateJob j \<Rightarrow> (\<exists>m. obtained (cl_GetModule L) GetModule xs m \<and>
           mget (om_Labels (job_Meta j)) ModuleNameLabel = om_Name (mod_Meta m) \<and> om_Namespace (job_Meta j) = om_Namespace (mod_Meta m) \<and>
           SetControllerReference L (owner_of_module m) [] = Inr (om_OwnerReferences (job_Meta j))) \<or>
         (\<exists>pv ms. obtained (cl_GetPreflightValidation L) GetPreflightValidation xs pv \<and> modules_listed L ms xs \<and>
            preflight_job L pv (set ms) j)
     | DeleteJob j \<Rightarrow> job_listed L xs j \<and>
         ((\<exists>m. obtained (cl_GetModule L) GetModule xs m \<and> IsControlledBy L (om_OwnerReferences (job_Meta j)) (owner_of_module m)) \<or>
          (\<exists>pv. obtained (cl_GetPreflightValidation L) GetPreflightValidation xs pv \<and>
             IsControlledBy L (om_OwnerReferences (job_Meta j)) (owner_of_preflight pv)))
     | PatchNode n n' \<Rightarrow> same_but_labels n n' \<and>
         ((\<exists>pod. obtained (cl_GetPod L) GetPod xs pod \<and> pod_node_patch L pod xs n n') \<or>
          obtained (\<lambda>h req. cl_GetNode L h (nn_Name req)) (\<lambda>req. GetNode (nn_Name req)) xs n \<and> kernel_patch KernelLabel n n')
     | PatchPod p p' \<Rightarrow> obtained (cl_GetPod L) GetPod xs p \<and> p' = without_finalizer L p \<and> om_DeletionTimestamp (pod_Meta p) \<noteq> None \<and>
         (\<exists>h0 n n'. xs = h0 @ [Write (PatchNode n n')] \<and> cl_Write L h0 (PatchNode n n') = Inr () \<and> pod_node_patch L p h0 n n')
     | UpdateModuleStatus m' \<Rightarrow>
         (\<exists>m. obtained (cl_GetModule L) GetModule xs m \<and> mod_Spec m' = mod_Spec m \<and> mod_Meta m' = mod_Meta m)
     | UpdatePreflightStatus pv' \<Rightarrow>
         (\<exists>pv. obtained (cl_GetPreflightValidation L) GetPreflightValidation xs pv \<and> pv_Meta pv' = pv_Meta pv \<and> pv_Spec pv' = pv_Spec pv)
     | CreateClusterClaim cc \<Rightarrow> claim_event L xs (Write w) \<and> cc_Name cc = KernelVersionsClusterClaimName
     | PatchClusterClaim cc cc' \<Rightarrow> claim_event L xs (Write w) \<and> cc_Name cc' = cc_Name cc
     | _ \<Rightarrow> False"
proof -
  obtain evs where evs: "history t = history s @ evs" "trace_ok (operator_event L) (history s) evs"
    using operator_run_events [OF assms(1,2)] by blast
  obtain zs where "xs = history s @ zs" and "evs = zs @ Write w # ys"
    using write_position [of "history s" "[]" evs xs w ys] evs(1) assms(3,4) by auto
  with evs(2) have "operator_event L xs (Write w)" unfolding trace_ok_nth by blast
  then show ?thesis
    by (cases w) (auto simp: operator_event_def claim_event_def module_event_def preflight_run_event_def preflight_event_def
        pod_event_def node_kernel_event_def kernel_patch_def pod_node_patch_def pv_same_def)
qed

theorem operator_writes_over_time_witness:
  "\<exists>t xs ds ys. (operator_step (module_cluster (sample_module [sample_mapping None None]) []))\<^sup>*\<^sup>* fresh_state t \<and>
     history t = xs @ Write (CreateDaemonSet ds) # ys \<and>
     (\<exists>m. obtained (cl_GetModule (module_cluster (sample_module [sample_mapping None None]) [])) GetModule xs m \<and>
        driver_ready (module_cluster (sample_module [sample_mapping None None]) []) m xs ds)"
proof -
  let ?L = "module_cluster (sample_module [sample_mapping None None]) []"
  obtain xs ds ys t where run: "Reconcile ?L sample_request fresh_state = (Ok (), t)"
    and h: "history t = xs @ Write (CreateDaemonSet ds) # ys" and role: "ds_role ds = ''module-loader''"
    using sample_reconcile by blast
  have steps: "(operator_step ?L)\<^sup>*\<^sup>* fresh_state t" using operator_step.module_run [OF run] by blast
  have "status_stored ?L" by (simp add: status_stored_def module_cluster_def empty_cluster_def)
  moreover have "length (history fresh_state) \<le> length xs" by (simp add: fresh_state_def)
  ultimately show ?thesis
    using operator_writes_over_time [OF steps _ h] steps h role by (auto simp: wanted_ds_def)
qed

end
