(* ===== verification/Loader_Lifecycle.thy ===== *)
theory Loader_Lifecycle
  imports Module_Reconciler
begin

text \<open>
  The DaemonSets of a Module over several runs of its controller.  \<open>Module_Reconciler\<close> judges one run
  against arbitrary answers of the cluster; here an API server keeps a store of DaemonSets, in its own
  form (with defaults), answers from it, and carries out the writes.  Shown is when a run succeeds, and
  that the controller settles: a run that succeeds leaves the DaemonSets as the Module asks for, and from
  then on a run changes no DaemonSet and no job, although it may send the same patches again.
\<close>

section \<open>A cluster that keeps DaemonSets\<close>

definition ds_name :: "DaemonSet \<Rightarrow> NamespacedName" where
  "ds_name ds = \<lparr>nn_Namespace = om_Namespace (ds_Meta ds), nn_Name = om_Name (ds_Meta ds)\<rparr>"

definition ds_selected :: "string \<Rightarrow> smap \<Rightarrow> DaemonSet \<Rightarrow> bool" where
  "ds_selected ns labels ds \<longleftrightarrow> om_Namespace (ds_Meta ds) = ns \<and>
     list_all (\<lambda>(k, v). map_of (om_Labels (ds_Meta ds)) k = Some v) labels"

text \<open>
  The server does not keep a DaemonSet as it was sent.  The UID, the annotations (none of which the
  operator sets on a DaemonSet, while the server does) and the status are the server's own; what is left
  is the request.  In a request the server fills the fields of the pod template that were left empty with
  their defaults, and it picks a name for an object that comes without one.  \<open>shown\<close> is what the server
  answers at some moment for an object it keeps.
\<close>

record api =
  new_name :: "DaemonSet list \<Rightarrow> string"
  defaults :: "PodTemplateSpec \<Rightarrow> PodTemplateSpec"
  shown :: "history \<Rightarrow> DaemonSet \<Rightarrow> DaemonSet"

definition request :: "DaemonSet \<Rightarrow> DaemonSet" where
  "request d = d\<lparr>ds_Meta := (ds_Meta d)\<lparr>om_UID := '''', om_Annotations := None\<rparr>,
     ds_DesiredNumberScheduled := 0, ds_NumberAvailable := 0\<rparr>"

definition kept :: "api \<Rightarrow> DaemonSet \<Rightarrow> DaemonSet" where
  "kept A d = (request d)\<lparr>ds_Template := defaults A (ds_Template d)\<rparr>"

definition rename :: "string \<Rightarrow> DaemonSet \<Rightarrow> DaemonSet" where
  "rename n ds = ds\<lparr>ds_Meta := (ds_Meta ds)\<lparr>om_Name := n\<rparr>\<rparr>"

definition named :: "string \<Rightarrow> DaemonSet \<Rightarrow> DaemonSet" where
  "named n ds = (if om_Name (ds_Meta ds) = '''' then rename n ds else ds)"

text \<open>
  The server adds an object whose name is free, replaces on a patch and removes on a deletion the object
  of the namespace and name.  The selector of a DaemonSet cannot be changed.
\<close>

definition perform_ds :: "api \<Rightarrow> write_call \<Rightarrow> DaemonSet list \<Rightarrow> DaemonSet list" where
  "perform_ds A w S = (case w of
      CreateDaemonSet ds \<Rightarrow> let d = kept A (named (new_name A S) ds)
        in if ds_name d \<in> ds_name ` set S then S else S @ [d]
    | PatchDaemonSet old ds \<Rightarrow>
        map (\<lambda>x. if ds_name x = ds_name old \<and> ds_Selector x = ds_Selector ds then kept A ds else x) S
    | DeleteDaemonSet ds \<Rightarrow> filter (\<lambda>x. ds_name x \<noteq> ds_name ds) S
    | _ \<Rightarrow> S)"

definition store_at :: "api \<Rightarrow> DaemonSet list \<Rightarrow> history \<Rightarrow> DaemonSet list" where
  "store_at A S h = fold (perform_ds A) (writes h) S"

text \<open>
  The environment answers every request on DaemonSets from the store, in the form the server shows; it
  rejects a patch of an object that is not there or that has another selector.  Setting the defaults
  twice is setting them once, and what is shown has the request that is kept.
\<close>

definition ds_server :: "env \<Rightarrow> api \<Rightarrow> DaemonSet list \<Rightarrow> bool" where
  "ds_server L A S0 \<longleftrightarrow> (\<forall>t. defaults A (defaults A t) = defaults A t) \<and> (\<forall>h d. request (shown A h d) = request d) \<and>
     (\<forall>h. (\<forall>ns labels. cl_ListDaemonSets L h ns labels =
           Inr (map (shown A h) (filter (ds_selected ns labels) (store_at A S0 h)))) \<and>
        (\<forall>nn. cl_GetDaemonSet L h nn = (case find (\<lambda>d. ds_name d = nn) (store_at A S0 h) of
           Some d \<Rightarrow> Inr (shown A h d) | None \<Rightarrow> Inl (NotFound ''daemonset''))) \<and>
        (\<forall>ds. ds_name (named (new_name A (store_at A S0 h)) ds) \<notin> ds_name ` set (store_at A S0 h) \<longrightarrow>
           cl_CreateDaemonSet L h ds = Inr (shown A h (kept A (named (new_name A (store_at A S0 h)) ds)))) \<and>
        (\<forall>old ds. if \<exists>x \<in> set (store_at A S0 h). ds_name x = ds_name old \<and> ds_Selector x = ds_Selector ds
           then cl_PatchDaemonSet L h old ds = Inr (shown A h (kept A ds))
           else \<exists>e. cl_PatchDaemonSet L h old ds = Inl e) \<and>
        (\<forall>w. cl_Write L h w = Inr ()))"

definition plugin_name :: "Module \<Rightarrow> string" where
  "plugin_name m = om_Name (mod_Meta m) @ ''-device-plugin''"

text \<open>A name that is new: not taken, not empty and not the one reserved for the device plugin.\<close>

definition new_names :: "Module \<Rightarrow> api \<Rightarrow> bool" where
  "new_names m A \<longleftrightarrow> (\<forall>S. new_name A S \<noteq> '''' \<and> new_name A S \<noteq> plugin_name m \<and>
     new_name A S \<notin> (\<lambda>d. om_Name (ds_Meta d)) ` set S)"

text \<open>
  The rest of the cluster stays as it is: the specification of the Module, the nodes, and the images,
  which the registry shows to be there; no job has succeeded since its collection.
  \<open>SetControllerReference\<close> on an object that has the reference changes nothing, as the library documents.
\<close>

definition keeps_references :: "env \<Rightarrow> bool" where
  "keeps_references L \<longleftrightarrow> (\<forall>owner refs refs'. SetControllerReference L owner refs = Inr refs' \<longrightarrow>
     SetControllerReference L owner refs' = Inr refs')"

definition steady :: "env \<Rightarrow> NamespacedName \<Rightarrow> Module \<Rightarrow> Node list \<Rightarrow> bool" where
  "steady L req m nodes \<longleftrightarrow>
     (\<forall>h. (\<exists>st. cl_GetModule L h req = Inr (m\<lparr>mod_Status := st\<rparr>)) \<and>
        cl_ListNodes L h (spec_Selector (mod_Spec m)) = Inr nodes \<and>
        (\<forall>ns labels. \<exists>js. cl_ListJobs L h ns labels = Inr js \<and> (\<forall>j \<in> set js. job_Succeeded j \<noteq> 1))) \<and>
     (\<forall>k mld. GetModuleLoaderDataForKernel L m k = Ok mld \<longrightarrow>
        (ShouldBeBuilt mld \<longrightarrow> registry_answers L mld (build_target mld) True) \<and>
        (ShouldBeSigned mld \<longrightarrow> registry_answers L mld (mld_ContainerImage mld) True)) \<and>
     keeps_references L"

section \<open>What is asked for\<close>

definition module_ds :: "Module \<Rightarrow> DaemonSet list \<Rightarrow> DaemonSet list" where
  "module_ds m S = filter (ds_selected (om_Namespace (mod_Meta m)) [(ModuleNameLabel, om_Name (mod_Meta m))]) S"

text \<open>
  A store with which the controller can work: it holds objects as the server keeps them, their names are
  there and differ, and the name of the device plugin stands for the one DaemonSet of the Module without
  a kernel label.
\<close>

definition store_ok :: "api \<Rightarrow> Module \<Rightarrow> DaemonSet list \<Rightarrow> bool" where
  "store_ok A m S \<longleftrightarrow> (\<forall>d \<in> set S. kept A d = d) \<and>
     distinct (map ds_name S) \<and> (\<forall>d \<in> set S. om_Name (ds_Meta d) \<noteq> '''') \<and>
     (\<forall>d \<in> set S. om_Namespace (ds_Meta d) = om_Namespace (mod_Meta m) \<and> om_Name (ds_Meta d) = plugin_name m \<longrightarrow>
        ds_kernel d = '''') \<and>
     (\<forall>d \<in> set (module_ds m S). ds_kernel d = '''' \<longrightarrow> om_Name (ds_Meta d) = plugin_name m)"

definition wanted_loaders :: "env \<Rightarrow> Module \<Rightarrow> Node list \<Rightarrow> mld_map" where
  "wanted_loaders L m nodes = (case getRelevantKernelMappingsAndNodes L m (filter isNodeSchedulable nodes) of
      Ok (M, ns) \<Rightarrow> M | _ \<Rightarrow> [])"

text \<open>
  What the code asks for, as a function of the DaemonSet it starts from, and the DaemonSets that are the
  server's form of it: sending once more what the code makes of such a DaemonSet leaves it as it is.
\<close>

abbreviation loader_of :: "env \<Rightarrow> ModuleLoaderData \<Rightarrow> DaemonSet \<Rightarrow> DaemonSet res" where
  "loader_of L mld \<equiv> \<lambda>d. SetDriverContainerAsDesired L (Some d) mld"

abbreviation plugin_of :: "env \<Rightarrow> Module \<Rightarrow> DaemonSet \<Rightarrow> DaemonSet res" where
  "plugin_of L m \<equiv> \<lambda>d. SetDevicePluginAsDesired L (Some d) m"

definition in_form :: "api \<Rightarrow> (DaemonSet \<Rightarrow> DaemonSet res) \<Rightarrow> DaemonSet \<Rightarrow> bool" where
  "in_form A f d \<longleftrightarrow> (\<exists>e. f d = Ok e \<and> kept A e = d)"

text \<open>
  The DaemonSets are as the Module asks for: one for each kernel of a schedulable node that has a
  mapping, in the form of what \<open>SetDriverContainerAsDesired\<close> makes of it; the device plugin likewise, if
  the Module has one; and none of another kernel.
\<close>

definition as_asked :: "api \<Rightarrow> env \<Rightarrow> Module \<Rightarrow> Node list \<Rightarrow> DaemonSet list \<Rightarrow> bool" where
  "as_asked A L m nodes S \<longleftrightarrow> distinct (map ds_kernel (module_ds m S)) \<and>
     (\<forall>(k, mld) \<in> set (wanted_loaders L m nodes). \<exists>d \<in> set (module_ds m S). ds_kernel d = k \<and>
        in_form A (loader_of L mld) d) \<and>
     (\<forall>d \<in> set (module_ds m S). ds_kernel d = '''' \<or> ds_kernel d \<in> fst ` set (wanted_loaders L m nodes)) \<and>
     (spec_DevicePlugin (mod_Spec m) \<noteq> None \<longrightarrow> (\<exists>d \<in> set S.
        ds_name d = \<lparr>nn_Namespace = om_Namespace (mod_Meta m), nn_Name = plugin_name m\<rparr> \<and>
        in_form A (plugin_of L m) d))"

text \<open>
  What a run needs to succeed: images and kernel versions are not empty, no kernel has two DaemonSets,
  none of the Module's DaemonSets is controlled by somebody else, so that the owner reference can be set
  on them and on a new one, and they have the selector the code asks for, which the server does not let
  it change.
\<close>

definition adopts :: "env \<Rightarrow> Module \<Rightarrow> DaemonSet \<Rightarrow> bool" where
  "adopts L m d \<longleftrightarrow> (\<exists>refs. SetControllerReference L (owner_of_module m) (om_OwnerReferences (ds_Meta d)) = Inr refs)"

definition keeps_selector :: "(DaemonSet \<Rightarrow> DaemonSet res) \<Rightarrow> DaemonSet \<Rightarrow> bool" where
  "keeps_selector f d \<longleftrightarrow> (\<forall>d'. f d = Ok d' \<longrightarrow> ds_Selector d' = ds_Selector d)"

definition workable :: "env \<Rightarrow> Module \<Rightarrow> mld_map \<Rightarrow> DaemonSet list \<Rightarrow> bool" where
  "workable L m M S \<longleftrightarrow> (\<forall>(k, mld) \<in> set M. k \<noteq> '''' \<and> mld_ContainerImage mld \<noteq> '''') \<and>
     distinct (map ds_kernel (module_ds m S)) \<and> adopts L m zero_DaemonSet \<and>
     (\<forall>d \<in> set (module_ds m S). adopts L m d) \<and>
     (\<forall>d \<in> set (module_ds m S). \<forall>(k, mld) \<in> set M. ds_kernel d = k \<longrightarrow> keeps_selector (loader_of L mld) d) \<and>
     (\<forall>d \<in> set S. ds_name d = \<lparr>nn_Namespace = om_Namespace (mod_Meta m), nn_Name = plugin_name m\<rparr> \<longrightarrow>
        adopts L m d \<and> keeps_selector (plugin_of L m) d)"

text \<open>
  The writes of a run that has nothing to do: statuses, and patches that ask for what is kept already.
\<close>

definition idle_patch :: "api \<Rightarrow> DaemonSet list \<Rightarrow> write_call \<Rightarrow> bool" where
  "idle_patch A S w \<longleftrightarrow> (case w of
      PatchDaemonSet old new \<Rightarrow> old \<noteq> new \<and> kept A new \<in> set S \<and> request old = kept A new
    | _ \<Rightarrow> False)"

definition is_status :: "write_call \<Rightarrow> bool" where
  "is_status w \<longleftrightarrow> (case w of UpdateModuleStatus m \<Rightarrow> True | _ \<Rightarrow> False)"

text \<open>Several runs, one after the other; an error ends them.\<close>

primrec repeatedly :: "env \<Rightarrow> NamespacedName \<Rightarrow> nat \<Rightarrow> (op_state, unit) go" where
  "repeatedly L req 0 = ret ()"
| "repeatedly L req (Suc n) = bind_go (Reconcile L req) (\<lambda>_. repeatedly L req n)"

section \<open>Lemmas\<close>

subsection \<open>The desired state is a fixed point\<close>

lemma mputs_present:
  assumes "\<forall>(k, v) \<in> set kvs. map_of m k = Some v"
  shows "mputs m kvs = m"
  using assms
proof (induction kvs)
  case (Cons kv kvs)
  obtain k v where kv: "kv = (k, v)" by (cases kv)
  have "map_of m k = Some v" using Cons.prems kv by simp
  then have "mput m k v = m"
    by (induction m) auto
  then show ?case using Cons kv by simp
qed simp

lemma OverrideLabels_again:
  assumes "distinct (map fst kvs)"
  shows "OverrideLabels (OverrideLabels labels kvs) kvs = OverrideLabels labels kvs"
  unfolding OverrideLabels_def
  by (rule mputs_present) (use assms in \<open>auto simp: map_of_mputs_distinct map_of_is_SomeI\<close>)

text \<open>Setting a DaemonSet as desired once more changes nothing.\<close>

lemma SetDriver_again:
  assumes "keeps_references L" and "SetDriverContainerAsDesired L (Some ds) mld = Ok ds'"
  shows "SetDriverContainerAsDesired L (Some ds') mld = Ok ds'"
proof -
  let ?std = "[(ModuleNameLabel, mld_Name mld), (KernelLabel, mld_KernelVersion mld), (DaemonSetRole, ''module-loader'')]"
  have "OverrideLabels (OverrideLabels l ?std) ?std = OverrideLabels l ?std" for l
    by (rule OverrideLabels_again) simp
  then show ?thesis
    using assms
    by (auto simp: SetDriverContainerAsDesired_def Let_def ds_with_owner_Ok_iff keeps_references_def split: if_splits)
qed

lemma SetDevicePlugin_again:
  assumes "keeps_references L" and "SetDevicePluginAsDesired L (Some ds) m = Ok ds'"
  shows "SetDevicePluginAsDesired L (Some ds') m = Ok ds'"
proof -
  let ?std = "[(ModuleNameLabel, om_Name (mod_Meta m)), (DaemonSetRole, ''device-plugin'')]"
  have "OverrideLabels (OverrideLabels l ?std) ?std = OverrideLabels l ?std" for l
    by (rule OverrideLabels_again) simp
  then show ?thesis
    using assms
    by (auto simp: SetDevicePluginAsDesired_def Let_def ds_with_owner_Ok_iff keeps_references_def
        split: if_splits option.splits)
qed

text \<open>It does not look at the name.\<close>

lemma SetDriver_rename:
  assumes "SetDriverContainerAsDesired L (Some ds) mld = Ok ds'"
  shows "SetDriverContainerAsDesired L (Some (rename n ds)) mld = Ok (rename n ds')"
  using assms
  by (auto simp: SetDriverContainerAsDesired_def Let_def ds_with_owner_Ok_iff rename_def split: if_splits)

text \<open>
  Both functions look at the metadata of the DaemonSet only, and of it not at what is the server's own;
  they overwrite the template and the selector, and keep the rest.
\<close>

definition alike :: "DaemonSet \<Rightarrow> DaemonSet \<Rightarrow> bool" where
  "alike d e \<longleftrightarrow> ds_Meta (request d) = ds_Meta (request e)"

definition setter :: "(DaemonSet \<Rightarrow> DaemonSet res) \<Rightarrow> bool" where
  "setter f \<longleftrightarrow> (\<forall>d d' e. f d = Ok d' \<longrightarrow> alike d e \<longrightarrow> (\<exists>e'. f e = Ok e' \<and> request e' = request d')) \<and>
     (\<forall>d d'. f d = Ok d' \<longrightarrow> f d' = Ok d' \<and> ds_name d' = ds_name d) \<and>
     (\<forall>d d'. f d = Ok d' \<longrightarrow> request d = d \<longrightarrow> request d' = d')"

lemma setterD:
  assumes "setter f" and "f d = Ok d'"
  shows "alike d e \<Longrightarrow> \<exists>e'. f e = Ok e' \<and> request e' = request d'" and "f d' = Ok d'" and "ds_name d' = ds_name d"
    and "request d = d \<Longrightarrow> request d' = d'"
  using assms unfolding setter_def by blast+

lemma alike_fields:
  assumes "alike d e"
  shows "om_Labels (ds_Meta d) = om_Labels (ds_Meta e)" "om_Name (ds_Meta d) = om_Name (ds_Meta e)"
    "om_Namespace (ds_Meta d) = om_Namespace (ds_Meta e)" "om_OwnerReferences (ds_Meta d) = om_OwnerReferences (ds_Meta e)"
    "om_GenerateName (ds_Meta d) = om_GenerateName (ds_Meta e)" "om_Finalizers (ds_Meta d) = om_Finalizers (ds_Meta e)"
    "om_DeletionTimestamp (ds_Meta d) = om_DeletionTimestamp (ds_Meta e)"
  using assms by (cases "ds_Meta d"; cases "ds_Meta e"; simp add: alike_def request_def)+

lemma alike_refl [simp]: "alike d d"
  by (simp add: alike_def)

lemma alike_sym: "alike d e \<Longrightarrow> alike e d"
  by (simp add: alike_def)

lemma alike_trans: "alike d e \<Longrightarrow> alike e x \<Longrightarrow> alike d x"
  by (simp add: alike_def)

lemma alike_request: "request d = request e \<Longrightarrow> alike d e"
  by (simp add: alike_def)

lemma request_idem [simp]: "request (request d) = request d"
  by (simp add: request_def)

lemma request_kept [simp]: "request (kept A d) = kept A d"
  by (simp add: kept_def request_def)

lemma kept_request: "request d = request e \<Longrightarrow> kept A d = kept A e"
  by (cases d; cases e) (simp add: kept_def request_def)

lemma request_selector: "request d = request e \<Longrightarrow> ds_Selector d = ds_Selector e"
  by (cases d; cases e) (simp add: request_def)

lemma kept_fields [simp]:
  "om_Labels (ds_Meta (kept A d)) = om_Labels (ds_Meta d)" "om_Name (ds_Meta (kept A d)) = om_Name (ds_Meta d)"
  "om_Namespace (ds_Meta (kept A d)) = om_Namespace (ds_Meta d)" "ds_Selector (kept A d) = ds_Selector d"
  "om_OwnerReferences (ds_Meta (kept A d)) = om_OwnerReferences (ds_Meta d)"
  by (simp_all add: kept_def request_def)

lemma alike_kept [simp]: "alike (kept A d) d" "alike d (kept A d)"
  by (simp_all add: alike_def kept_def request_def)

lemma kept_idem: "ds_server L A S0 \<Longrightarrow> kept A (kept A d) = kept A d"
  by (simp add: kept_def request_def ds_server_def)

lemma request_fixed:
  assumes "request d = d"
  shows "om_UID (ds_Meta d) = ''''" "om_Annotations (ds_Meta d) = None" "ds_DesiredNumberScheduled d = 0" "ds_NumberAvailable d = 0"
  using arg_cong [OF assms, of "\<lambda>d. om_UID (ds_Meta d)"] arg_cong [OF assms, of "\<lambda>d. om_Annotations (ds_Meta d)"]
    arg_cong [OF assms, of ds_DesiredNumberScheduled] arg_cong [OF assms, of ds_NumberAvailable] by (simp_all add: request_def)

lemma setter_loader:
  assumes "keeps_references L"
  shows "setter (loader_of L mld)"
  unfolding setter_def
proof (intro conjI allI impI)
  fix d d' e assume d: "SetDriverContainerAsDesired L (Some d) mld = Ok d'"
  show "SetDriverContainerAsDesired L (Some d') mld = Ok d'" by (rule SetDriver_again [OF assms d])
  show "ds_name d' = ds_name d"
    using d by (auto simp: SetDriverContainerAsDesired_def Let_def ds_with_owner_Ok_iff ds_name_def split: if_splits)
  show "request d' = d'" if "request d = d"
    using d request_fixed [OF that] by (cases d; cases "ds_Meta d")
      (auto simp: request_def SetDriverContainerAsDesired_def Let_def ds_with_owner_Ok_iff split: if_splits)
  show "\<exists>e'. SetDriverContainerAsDesired L (Some e) mld = Ok e' \<and> request e' = request d'" if "alike d e"
    using d alike_fields [OF that] that
    by (cases d; cases e; cases "ds_Meta d"; cases "ds_Meta e")
      (auto simp: request_def alike_def SetDriverContainerAsDesired_def Let_def ds_with_owner_Ok_iff split: if_splits)
qed

lemma setter_plugin:
  assumes "keeps_references L"
  shows "setter (plugin_of L m)"
  unfolding setter_def
proof (intro conjI allI impI)
  fix d d' e assume d: "SetDevicePluginAsDesired L (Some d) m = Ok d'"
  show "SetDevicePluginAsDesired L (Some d') m = Ok d'" by (rule SetDevicePlugin_again [OF assms d])
  show "ds_name d' = ds_name d"
    using d by (auto simp: SetDevicePluginAsDesired_def Let_def ds_with_owner_Ok_iff ds_name_def split: if_splits option.splits)
  show "request d' = d'" if "request d = d"
    using d request_fixed [OF that] by (cases d; cases "ds_Meta d")
      (auto simp: request_def SetDevicePluginAsDesired_def Let_def ds_with_owner_Ok_iff split: if_splits option.splits)
  show "\<exists>e'. SetDevicePluginAsDesired L (Some e) m = Ok e' \<and> request e' = request d'" if "alike d e"
    using d alike_fields [OF that] that
    by (cases d; cases e; cases "ds_Meta d"; cases "ds_Meta e")
      (auto simp: request_def alike_def SetDevicePluginAsDesired_def Let_def ds_with_owner_Ok_iff split: if_splits option.splits)
qed

text \<open>The server's form of what the code asks for is a fixed point.\<close>

lemma in_form_kept:
  assumes "ds_server L A S0" and "setter f" and "f d = Ok d"
  shows "in_form A f (kept A d)"
proof -
  obtain e where "f (kept A d) = Ok e" "request e = request d"
    using setterD(1) [OF assms(2,3) alike_kept(2)] by blast
  then show ?thesis unfolding in_form_def using kept_request [of e d A] by blast
qed

subsection \<open>Objects and the store\<close>

lemma ds_name_rename [simp]: "ds_name (rename n ds) = \<lparr>nn_Namespace = om_Namespace (ds_Meta ds), nn_Name = n\<rparr>"
  by (simp add: ds_name_def rename_def)

lemma rename_simps [simp]:
  "om_Name (ds_Meta (rename n ds)) = n" "om_Namespace (ds_Meta (rename n ds)) = om_Namespace (ds_Meta ds)"
  "om_Labels (ds_Meta (rename n ds)) = om_Labels (ds_Meta ds)" "ds_kernel (rename n ds) = ds_kernel ds"
  "ds_selected ns labels (rename n ds) = ds_selected ns labels ds"
  by (simp_all add: rename_def ds_kernel_def ds_selected_def)

lemma map_of_OverrideLabels:
  assumes "distinct (map fst kvs)" and "(k, v) \<in> set kvs"
  shows "map_of (OverrideLabels labels kvs) k = Some v"
  using assms by (simp add: OverrideLabels_def map_of_mputs_distinct map_of_is_SomeI)

definition of_module :: "Module \<Rightarrow> DaemonSet \<Rightarrow> bool" where
  "of_module m d \<longleftrightarrow> ds_selected (om_Namespace (mod_Meta m)) [(ModuleNameLabel, om_Name (mod_Meta m))] d"

lemma of_module_rename [simp]: "of_module m (rename n d) = of_module m d"
  by (simp add: of_module_def)

lemma set_module_ds: "set (module_ds m S) = {d \<in> set S. of_module m d}"
  by (auto simp: module_ds_def of_module_def)

lemma SetDriver_result:
  assumes "SetDriverContainerAsDesired L (Some ds) mld = Ok ds'" and "mld_Name mld = om_Name (mod_Meta m)"
    and "om_Namespace (ds_Meta ds) = om_Namespace (mod_Meta m)"
  shows "ds_name ds' = ds_name ds" "of_module m ds'" "ds_kernel ds' = mld_KernelVersion mld"
    "mld_KernelVersion mld \<noteq> ''''" "om_Name (ds_Meta ds') = om_Name (ds_Meta ds)"
proof -
  note fields = SetDriver_fields [OF assms(1)]
  show name: "om_Name (ds_Meta ds') = om_Name (ds_Meta ds)"
    using assms(1)
    by (auto simp: SetDriverContainerAsDesired_def Let_def ds_with_owner_Ok_iff split: if_splits)
  show "ds_name ds' = ds_name ds"
    using name fields(6) by (simp add: ds_name_def)
  have "map_of (om_Labels (ds_Meta ds')) ModuleNameLabel = Some (mld_Name mld)"
    unfolding fields(3,2) by (rule map_of_OverrideLabels) auto
  then show "of_module m ds'"
    using fields(6) assms(2,3) by (simp add: of_module_def ds_selected_def)
qed (use SetDriver_fields [OF assms(1)] in simp_all)

lemma SetDevicePlugin_result:
  assumes "SetDevicePluginAsDesired L (Some ds) m = Ok ds'" and "om_Namespace (ds_Meta ds) = om_Namespace (mod_Meta m)"
  shows "ds_name ds' = ds_name ds" "of_module m ds'" "ds_kernel ds' = ds_kernel ds"
    "om_Name (ds_Meta ds') = om_Name (ds_Meta ds)" "om_Namespace (ds_Meta ds') = om_Namespace (ds_Meta ds)"
proof -
  note fields = SetDevicePlugin_fields [OF assms(1)]
  show n: "om_Name (ds_Meta ds') = om_Name (ds_Meta ds)" "om_Namespace (ds_Meta ds') = om_Namespace (ds_Meta ds)"
    using assms(1)
    by (auto simp: SetDevicePluginAsDesired_def Let_def ds_with_owner_Ok_iff split: if_splits option.splits)
  then show "ds_name ds' = ds_name ds" by (simp add: ds_name_def)
  have "map_of (om_Labels (ds_Meta ds')) ModuleNameLabel = Some (om_Name (mod_Meta m))"
    unfolding fields(2,1) by (rule map_of_OverrideLabels) auto
  then show "of_module m ds'"
    using n(2) assms(2) by (simp add: of_module_def ds_selected_def)
  show "ds_kernel ds' = ds_kernel ds"
    unfolding ds_kernel_def fields(2,1) by (rule mget_OverrideLabels_other) auto
qed

lemma store_at_append [simp]: "store_at A S (h @ h') = store_at A (store_at A S h) h'"
  by (simp add: store_at_def)

lemma store_at_reads: "list_all is_read h \<Longrightarrow> store_at A S h = S"
  by (simp add: store_at_def writes_of_reads)

lemma store_at_simps [simp]:
  "store_at A S [] = S" "store_at A S (Read r # h) = store_at A S h"
  "store_at A S (Write w # h) = store_at A (perform_ds A w S) h"
  by (simp_all add: store_at_def)

lemma same_name: "distinct (map ds_name S) \<Longrightarrow> d \<in> set S \<Longrightarrow> x \<in> set S \<Longrightarrow> ds_name x = ds_name d \<longleftrightarrow> x = d"
  by (auto simp: distinct_map inj_on_def)

lemma find_name:
  assumes "distinct (map ds_name S)" and "d \<in> set S"
  shows "find (\<lambda>x. ds_name x = ds_name d) S = Some d"
  using assms
proof (induction S)
  case (Cons x S)
  then show ?case by (cases "x = d") (auto simp: image_iff)
qed simp

lemma alike_names:
  assumes "alike d e"
  shows "ds_name d = ds_name e" and "ds_kernel d = ds_kernel e" and "of_module m d = of_module m e" and "adopts L m d = adopts L m e"
  using alike_fields [OF assms] by (simp_all add: ds_name_def ds_kernel_def of_module_def ds_selected_def adopts_def)

lemma kept_names [simp]:
  "ds_name (kept A d) = ds_name d" "ds_kernel (kept A d) = ds_kernel d" "of_module m (kept A d) = of_module m d"
  using alike_names [OF alike_kept(1)] by simp_all

text \<open>Replacing one DaemonSet of the store.\<close>

definition replace_ds :: "DaemonSet \<Rightarrow> DaemonSet \<Rightarrow> DaemonSet list \<Rightarrow> DaemonSet list" where
  "replace_ds d d' S = map (\<lambda>x. if ds_name x = ds_name d then d' else x) S"

lemma replace_store:
  assumes "distinct (map ds_name S)" and "d \<in> set S" and "ds_name d' = ds_name d"
  shows "set (replace_ds d d' S) = insert d' (set S - {d})" and "map ds_name (replace_ds d d' S) = map ds_name S"
  using assms same_name [OF assms(1,2)] by (auto simp: replace_ds_def image_iff)

lemma replace_same: "distinct (map ds_name S) \<Longrightarrow> d \<in> set S \<Longrightarrow> replace_ds d d S = S"
  using same_name by (fastforce simp: replace_ds_def intro: map_idI)

lemma patch_store:
  assumes "distinct (map ds_name S)" and "x \<in> set S" and "ds_name old = ds_name x" and "ds_Selector x = ds_Selector new"
  shows "perform_ds A (PatchDaemonSet old new) S = replace_ds x (kept A new) S"
proof -
  have "y = x" if "y \<in> set S" "ds_name y = ds_name x" for y
    using that same_name [OF assms(1,2)] by simp
  then show ?thesis using assms(3,4) by (auto simp: perform_ds_def replace_ds_def)
qed

lemma create_store:
  "ds_name (named (new_name A S) d) \<notin> ds_name ` set S \<Longrightarrow>
     perform_ds A (CreateDaemonSet d) S = S @ [kept A (named (new_name A S) d)]"
  by (simp add: perform_ds_def Let_def)

lemma store_ok_replace:
  assumes "store_ok A m S" and "d \<in> set S" and "ds_name d' = ds_name d" and "kept A d' = d'"
    and "om_Namespace (ds_Meta d) = om_Namespace (mod_Meta m) \<Longrightarrow> ds_kernel d' = '''' \<longleftrightarrow> om_Name (ds_Meta d) = plugin_name m"
  shows "store_ok A m (replace_ds d d' S)"
proof -
  have n: "om_Name (ds_Meta d') = om_Name (ds_Meta d)" "om_Namespace (ds_Meta d') = om_Namespace (ds_Meta d)"
    using assms(3) by (simp_all add: ds_name_def)
  have dist: "distinct (map ds_name S)"
    using assms(1) by (simp add: store_ok_def)
  show ?thesis
    using assms n unfolding store_ok_def set_module_ds replace_store [OF dist assms(2,3)]
    by (auto simp: of_module_def ds_selected_def)
qed

lemma store_ok_create:
  assumes "store_ok A m S" and "ds_name d \<notin> ds_name ` set S" and "om_Name (ds_Meta d) \<noteq> ''''" and "kept A d = d"
    and "om_Namespace (ds_Meta d) = om_Namespace (mod_Meta m)" and "ds_kernel d = '''' \<longleftrightarrow> om_Name (ds_Meta d) = plugin_name m"
  shows "store_ok A m (S @ [d])"
  using assms unfolding store_ok_def set_module_ds by auto

subsection \<open>Single steps of the code\<close>

text \<open>A piece of code that succeeds and only reads.\<close>

definition only_reads :: "(op_state, 'a) go \<Rightarrow> op_state \<Rightarrow> 'a \<Rightarrow> op_state \<Rightarrow> bool" where
  "only_reads c s a t \<longleftrightarrow> c s = (Ok a, t) \<and> (\<exists>rs. history t = history s @ rs \<and> list_all is_read rs)"

lemma only_reads_ret: "only_reads (ret a) s a s"
  by (simp add: only_reads_def ret_run)

lemma only_reads_check:
  assumes "only_reads c s a s1" and "only_reads (k a) s1 b t"
  shows "only_reads (check c w k) s b t"
  using assms by (auto simp: only_reads_def check_run)

lemma emits_only_reads:
  assumes "emits is_read c" and "fst (c s) = Ok a"
  shows "\<exists>t. only_reads c s a t"
proof -
  obtain r t where "c s = (r, t)" by fastforce
  then show ?thesis
    using assms(2) emitsE [OF assms(1)] by (fastforce simp: only_reads_def)
qed

lemma steady_keeps: "steady L req m nodes \<Longrightarrow> keeps_references L"
  by (simp add: steady_def)

lemma steady_ready:
  assumes "steady L req m nodes" and "GetModuleLoaderDataForKernel L m k = Ok mld"
  shows "\<exists>t. only_reads (handleBuild L mld) s True t" and "\<exists>t. only_reads (handleSigning L mld) s True t"
proof -
  have e: "emits is_read (BuildShouldSync L mld)" "emits is_read (SignShouldSync L mld)"
    by (rule build_jobs.emits_ShouldSync sign_jobs.emits_ShouldSync, simp)+
  have ready: "ShouldBeBuilt mld \<Longrightarrow> registry_answers L mld (build_target mld) True"
      "ShouldBeSigned mld \<Longrightarrow> registry_answers L mld (mld_ContainerImage mld) True"
    using assms unfolding steady_def by blast+
  have f: "fst (BuildShouldSync L mld s) = Ok False" "fst (SignShouldSync L mld s) = Ok False"
    using ready by (auto simp: BuildShouldSync_def SignShouldSync_def Let_def build_target_def [symmetric] ret_run check_run
        split: prod.splits res.splits dest!: ImageExists_answered [of L mld _ True s])
  obtain t1 t2 where t: "only_reads (BuildShouldSync L mld) s False t1"
      "only_reads (SignShouldSync L mld) s False t2"
    using emits_only_reads [OF e(1) f(1)] emits_only_reads [OF e(2) f(2)] by blast
  show "\<exists>t. only_reads (handleBuild L mld) s True t"
    unfolding handleBuild_def
    by (rule exI [of _ t1], rule only_reads_check [OF t(1)]) (simp add: only_reads_ret)
  show "\<exists>t. only_reads (handleSigning L mld) s True t"
    unfolding handleSigning_def
    by (rule exI [of _ t2], rule only_reads_check [OF t(2)]) (simp add: only_reads_ret)
qed

lemma reconcile_kernel_run:
  assumes "steady L req m nodes" and "GetModuleLoaderDataForKernel L m k = Ok mld"
  shows "\<exists>s1 w. (\<exists>rs. history s1 = history s @ rs \<and> list_all is_read rs) \<and>
    reconcile_kernel L (k, mld) dsm s = check (handleDriverContainer L mld dsm) w ret s1"
proof -
  obtain s1 where s1: "only_reads (handleBuild L mld) s True s1"
    using steady_ready(1) [OF assms] by blast
  obtain s2 where s2: "only_reads (handleSigning L mld) s1 True s2"
    using steady_ready(2) [OF assms] by blast
  have "reconcile_kernel L (k, mld) dsm s = check (handleDriverContainer L mld dsm)
      (\<lambda>e. Errorf ''failed to handle driver container for kernel version %s: %v'' [AS k, AE e]) ret s2"
    using s1 s2 by (simp add: reconcile_kernel_def Let_def only_reads_def check_run [of "handleBuild L mld"]
        check_run [of "handleSigning L mld"])
  moreover have "\<exists>rs. history s2 = history s @ rs \<and> list_all is_read rs"
    using s1 s2 by (auto simp: only_reads_def)
  ultimately show ?thesis by blast
qed

lemma server_answers:
  assumes "ds_server L A S0"
  shows "cl_ListDaemonSets L h ns labels = Inr (map (shown A h) (filter (ds_selected ns labels) (store_at A S0 h)))"
    and "cl_GetDaemonSet L h nn = (case find (\<lambda>d. ds_name d = nn) (store_at A S0 h) of
        Some d \<Rightarrow> Inr (shown A h d) | None \<Rightarrow> Inl (NotFound ''daemonset''))"
    and "ds_name (named (new_name A (store_at A S0 h)) ds) \<notin> ds_name ` set (store_at A S0 h) \<Longrightarrow>
        cl_CreateDaemonSet L h ds = Inr (shown A h (kept A (named (new_name A (store_at A S0 h)) ds)))"
    and "x \<in> set (store_at A S0 h) \<Longrightarrow> ds_name x = ds_name old \<Longrightarrow> ds_Selector x = ds_Selector ds \<Longrightarrow>
        cl_PatchDaemonSet L h old ds = Inr (shown A h (kept A ds))"
    and "cl_PatchDaemonSet L h old ds = Inr ds' \<Longrightarrow> ds' = shown A h (kept A ds) \<and>
        (\<exists>x \<in> set (store_at A S0 h). ds_name x = ds_name old \<and> ds_Selector x = ds_Selector ds)"
    and "cl_Write L h w = Inr ()" and "request (shown A h d) = request d"
proof -
  have patch: "if \<exists>x \<in> set (store_at A S0 h). ds_name x = ds_name old \<and> ds_Selector x = ds_Selector ds
      then cl_PatchDaemonSet L h old ds = Inr (shown A h (kept A ds)) else \<exists>e. cl_PatchDaemonSet L h old ds = Inl e"
    using assms unfolding ds_server_def by blast
  show "cl_PatchDaemonSet L h old ds = Inr (shown A h (kept A ds))"
    if "x \<in> set (store_at A S0 h)" "ds_name x = ds_name old" "ds_Selector x = ds_Selector ds"
    using patch that by metis
  show "ds' = shown A h (kept A ds) \<and> (\<exists>x \<in> set (store_at A S0 h). ds_name x = ds_name old \<and> ds_Selector x = ds_Selector ds)"
    if "cl_PatchDaemonSet L h old ds = Inr ds'"
    using patch that by (auto split: if_splits)
qed (use assms in \<open>unfold ds_server_def, blast+\<close>)

lemma shown_alike: "ds_server L A S0 \<Longrightarrow> alike (shown A h d) d"
  by (simp add: alike_request server_answers)

text \<open>
  \<open>CreateOrPatch\<close> on an object that is there: it becomes the server's form of what is asked for, and the
  patch is idle if it had this form.
\<close>

definition idle_event :: "api \<Rightarrow> DaemonSet list \<Rightarrow> event \<Rightarrow> bool" where
  "idle_event A S e \<longleftrightarrow> (case e of Read r \<Rightarrow> True | Write w \<Rightarrow> idle_patch A S w)"

lemma CreateOrPatch_found:
  assumes server: "ds_server L A S0" and f: "setter f" and ok: "store_ok A m (store_at A S0 (history s))"
    and x: "x \<in> set (store_at A S0 (history s))" "ds_name ds = ds_name x"
    and run: "CreateOrPatchDaemonSet L ds f s = (Ok (op, d), t)"
  obtains x' evs where "f x = Ok x'" "op \<noteq> OperationResultCreated" "alike d x'"
    "store_at A S0 (history t) = replace_ds x (kept A x') (store_at A S0 (history s))"
    "history t = history s @ evs" "kept A x' = x \<longrightarrow> list_all (idle_event A (store_at A S0 (history s))) evs"
proof -
  let ?S = "store_at A S0 (history s)" and ?a = "shown A (history s) x"
  let ?s1 = "s\<lparr>history := history s @ [Read (GetDaemonSet (ds_name ds))]\<rparr>"
  have dist: "distinct (map ds_name ?S)" and kept: "kept A x = x" using ok x(1) by (auto simp: store_ok_def)
  have "find (\<lambda>d. ds_name d = ds_name ds) ?S = Some x" unfolding x(2) by (rule find_name [OF dist x(1)])
  then have get: "cl_GetDaemonSet L (history s) (ds_name ds) = Inr ?a" by (simp add: server_answers [OF server])
  then obtain a' where a': "f ?a = Ok a'"
    using run by (auto simp: CreateOrPatchDaemonSet_def CreateOrPatch_def get_DaemonSet_def go_simps ds_name_def [symmetric]
        split: res.splits)
  obtain x' where x': "f x = Ok x'" "request x' = request a'"
    using setterD(1) [OF f a' shown_alike [OF server]] by blast
  have name: "ds_name a' = ds_name x" "ds_name ?a = ds_name x" "ds_name x' = ds_name x"
    using setterD(3) [OF f a'] setterD(3) [OF f x'(1)] alike_names(1) [OF shown_alike [OF server]] by simp_all
  have same: "request x = x" "request ?a = x" using kept request_kept [of A x] server_answers(7) [OF server] by simp_all
  show ?thesis
  proof (cases "a' = ?a")
    case True
    then have "x' = x" using x'(2) setterD(4) [OF f x'(1) same(1)] same(2) by simp
    moreover have "op = OperationResultNone \<and> d = ?a \<and> history t = history s @ [Read (GetDaemonSet (ds_name ds))]"
      using run get a' True by (auto simp: CreateOrPatchDaemonSet_def CreateOrPatch_def get_DaemonSet_def go_simps ds_name_def [symmetric])
    ultimately show ?thesis
      using that [OF x'(1), of "[Read (GetDaemonSet (ds_name ds))]"] shown_alike [OF server] replace_same [OF dist x(1)] kept
      by (simp add: idle_event_def)
  next
    case False
    have S1: "store_at A S0 (history ?s1) = ?S" by simp
    have patched: "op = OperationResultUpdated \<and> cl_PatchDaemonSet L (history ?s1) ?a a' = Inr d \<and>
        history t = history s @ [Read (GetDaemonSet (ds_name ds)), Write (PatchDaemonSet ?a a')]"
      using run get a' False by (cases "cl_PatchDaemonSet L (history ?s1) ?a a'")
        (auto simp: CreateOrPatchDaemonSet_def CreateOrPatch_def get_DaemonSet_def go_simps ds_name_def [symmetric])
    then obtain y where y: "d = shown A (history ?s1) (kept A a')" "y \<in> set ?S" "ds_name y = ds_name ?a" "ds_Selector y = ds_Selector a'"
      using server_answers(5) [OF server, of "history ?s1" ?a a' d] unfolding S1 by blast
    have "y = x" using same_name [OF dist x(1) y(2)] y(3) name(2) by simp
    then have sel: "ds_Selector x = ds_Selector a'" using y(4) by simp
    have keep: "kept A a' = kept A x'" using kept_request x'(2) by metis
    have "alike d x'"
      using alike_trans [OF shown_alike [OF server] alike_kept(1) [of A a']] alike_request [OF x'(2)] unfolding y(1)
      by (metis alike_sym alike_trans)
    moreover have "store_at A S0 (history t) = replace_ds x (kept A x') ?S"
      using patched patch_store [OF dist x(1) name(2) sel] by (simp add: keep)
    moreover have "idle_patch A ?S (PatchDaemonSet ?a a')" if "kept A x' = x"
      using that x(1) False same(2) by (simp add: idle_patch_def keep)
    ultimately show ?thesis
      using that [OF x'(1), of "[Read (GetDaemonSet (ds_name ds)), Write (PatchDaemonSet ?a a')]"] patched
      by (simp add: idle_event_def)
  qed
qed

lemma CreateOrPatch_found_total:
  assumes server: "ds_server L A S0" and f: "setter f" and ok: "store_ok A m (store_at A S0 (history s))"
    and x: "x \<in> set (store_at A S0 (history s))" "ds_name ds = ds_name x"
    and ask: "f x = Ok x'" "ds_Selector x' = ds_Selector x"
  shows "\<exists>op d t. CreateOrPatchDaemonSet L ds f s = (Ok (op, d), t)"
proof -
  let ?S = "store_at A S0 (history s)" and ?a = "shown A (history s) x"
  let ?s1 = "s\<lparr>history := history s @ [Read (GetDaemonSet (ds_name ds))]\<rparr>"
  have dist: "distinct (map ds_name ?S)" using ok by (auto simp: store_ok_def)
  have "find (\<lambda>d. ds_name d = ds_name ds) ?S = Some x" unfolding x(2) by (rule find_name [OF dist x(1)])
  then have get: "cl_GetDaemonSet L (history s) (ds_name ds) = Inr ?a" by (simp add: server_answers [OF server])
  obtain a' where a': "f ?a = Ok a'" "request a' = request x'"
    using setterD(1) [OF f ask(1) alike_sym [OF shown_alike [OF server]]] by blast
  have "ds_name x = ds_name ?a" using alike_names(1) [OF shown_alike [OF server]] by simp
  then have "cl_PatchDaemonSet L (history ?s1) ?a a' = Inr (shown A (history ?s1) (kept A a'))"
    using server_answers(4) [OF server, of x "history ?s1" ?a a'] x(1) ask(2) request_selector [OF a'(2)] by simp
  then show ?thesis
    using get a'(1) by (simp add: CreateOrPatchDaemonSet_def CreateOrPatch_def get_DaemonSet_def go_simps ds_name_def [symmetric])
qed

text \<open>And on one that is not.\<close>

lemma CreateOrPatch_missing_Ok:
  assumes server: "ds_server L A S0" and "ds_name ds \<notin> ds_name ` set (store_at A S0 (history s))"
    and "CreateOrPatchDaemonSet L ds f s = (Ok r, t)"
  shows "\<exists>d0. f ds = Ok d0"
proof -
  have "find (\<lambda>d. ds_name d = ds_name ds) (store_at A S0 (history s)) = None"
    using assms(2) unfolding find_None_iff by (metis image_eqI)
  then have "cl_GetDaemonSet L (history s) (ds_name ds) = Inl (NotFound ''daemonset'')"
    by (simp add: server_answers [OF server])
  then show ?thesis
    using assms(3) by (cases "f ds") (simp_all add: CreateOrPatchDaemonSet_def CreateOrPatch_def get_DaemonSet_def go_simps
        ds_name_def [symmetric])
qed

lemma CreateOrPatch_missing:
  assumes server: "ds_server L A S0" and "ds_name ds \<notin> ds_name ` set (store_at A S0 (history s))"
    and "f ds = Ok d0" and new: "ds_name (named (new_name A (store_at A S0 (history s))) d0) \<notin> ds_name ` set (store_at A S0 (history s))"
  obtains d t where "CreateOrPatchDaemonSet L ds f s = (Ok (OperationResultCreated, d), t)"
    "store_at A S0 (history t) = store_at A S0 (history s) @ [kept A (named (new_name A (store_at A S0 (history s))) d0)]"
proof -
  let ?s1 = "s\<lparr>history := history s @ [Read (GetDaemonSet (ds_name ds))]\<rparr>"
  have "find (\<lambda>d. ds_name d = ds_name ds) (store_at A S0 (history s)) = None"
    using assms(2) unfolding find_None_iff by (metis image_eqI)
  then have get: "cl_GetDaemonSet L (history s) (ds_name ds) = Inl (NotFound ''daemonset'')"
    by (simp add: server_answers [OF server])
  have "store_at A S0 (history ?s1) = store_at A S0 (history s)" by simp
  from server_answers(3) [OF server, of "history ?s1" d0, unfolded this, OF new]
  have "CreateOrPatchDaemonSet L ds f s =
      (Ok (OperationResultCreated, shown A (history ?s1) (kept A (named (new_name A (store_at A S0 (history s))) d0))),
       s\<lparr>history := history s @ [Read (GetDaemonSet (ds_name ds)), Write (CreateDaemonSet d0)]\<rparr>)"
    using get assms(3)
    by (simp add: CreateOrPatchDaemonSet_def CreateOrPatch_def get_DaemonSet_def go_simps ds_name_def [symmetric])
  then show ?thesis by (rule that) (simp add: create_store [OF new])
qed

subsection \<open>The loop over the kernels\<close>

text \<open>
  After the kernels \<open>ys\<close>: the map has the DaemonSets of the store, as the server has shown them, each
  DaemonSet of the Module is in the map or of a kernel already visited, and those of the visited kernels
  are in the form asked for.
\<close>

definition loaders_inv :: "api \<Rightarrow> env \<Rightarrow> Module \<Rightarrow> mld_map \<Rightarrow> ds_map \<Rightarrow> DaemonSet list \<Rightarrow> bool" where
  "loaders_inv A L m ys dsm S \<longleftrightarrow> store_ok A m S \<and> inj_on ds_kernel (set (module_ds m S)) \<and>
     (\<forall>k e. map_of dsm k = Some e \<longrightarrow> (\<exists>d \<in> set (module_ds m S). alike e d \<and> ds_kernel d = k)) \<and>
     (\<forall>d \<in> set (module_ds m S). map_of dsm (ds_kernel d) \<noteq> None \<or> ds_kernel d \<in> fst ` set ys) \<and>
     (\<forall>(k, mld) \<in> set ys. \<exists>d \<in> set (module_ds m S). ds_kernel d = k \<and> in_form A (loader_of L mld) d)"

lemma loaders_invI:
  assumes "store_ok A m S" and "inj_on ds_kernel (set (module_ds m S))"
    and "\<And>k e. map_of dsm k = Some e \<Longrightarrow> \<exists>d \<in> set (module_ds m S). alike e d \<and> ds_kernel d = k"
    and "\<And>d. d \<in> set (module_ds m S) \<Longrightarrow> map_of dsm (ds_kernel d) \<noteq> None \<or> ds_kernel d \<in> fst ` set ys"
    and "\<And>k mld. (k, mld) \<in> set ys \<Longrightarrow> \<exists>d \<in> set (module_ds m S). ds_kernel d = k \<and> in_form A (loader_of L mld) d"
  shows "loaders_inv A L m ys dsm S"
  unfolding loaders_inv_def using assms by blast

lemma loaders_invD:
  assumes "loaders_inv A L m ys dsm S"
  shows "inj_on ds_kernel (set (module_ds m S))"
    and "\<And>k e. map_of dsm k = Some e \<Longrightarrow> \<exists>d \<in> set (module_ds m S). alike e d \<and> ds_kernel d = k"
    and "\<And>d. d \<in> set (module_ds m S) \<Longrightarrow> map_of dsm (ds_kernel d) \<noteq> None \<or> ds_kernel d \<in> fst ` set ys"
    and "\<And>k mld. (k, mld) \<in> set ys \<Longrightarrow> \<exists>d \<in> set (module_ds m S). ds_kernel d = k \<and> in_form A (loader_of L mld) d"
    and "store_ok A m S"
  using assms unfolding loaders_inv_def by blast+

lemma loaders_inv_replace:
  assumes inv: "loaders_inv A L m ys dsm S" and "e \<in> set (module_ds m S)" and "store_ok A m S'"
    and S': "set S' = insert d (set S - {e})" and "of_module m d" and "ds_kernel d = ds_kernel e"
    and "ds_kernel e \<notin> fst ` set ys" and "in_form A (loader_of L mld) d" and v: "alike v d"
  shows "loaders_inv A L m (ys @ [(ds_kernel e, mld)]) (mput dsm (ds_kernel e) v) S'"
proof -
  have D: "set (module_ds m S') = insert d (set (module_ds m S) - {e})"
    using S' assms(2,5) by (auto simp: set_module_ds)
  note parts = loaders_invD [OF inv]
  have other: "ds_kernel x \<noteq> ds_kernel e" if "x \<in> set (module_ds m S) - {e}" for x
    using that parts(1) assms(2) by (auto simp: inj_on_def)
  show ?thesis
  proof (rule loaders_invI [OF assms(3)])
    show "inj_on ds_kernel (set (module_ds m S'))"
    proof -
      have "inj_on ds_kernel (set (module_ds m S) - {e})" using parts(1) by (rule inj_on_subset) auto
      moreover have "ds_kernel d \<notin> ds_kernel ` (set (module_ds m S) - {e} - {d})"
        using other unfolding assms(6) by fastforce
      ultimately show ?thesis unfolding D inj_on_insert by blast
    qed
    show "\<exists>y \<in> set (module_ds m S'). alike x y \<and> ds_kernel y = k" if "map_of (mput dsm (ds_kernel e) v) k = Some x" for k x
    proof (cases "k = ds_kernel e")
      case True
      then show ?thesis using that v assms(6) unfolding D by auto
    next
      case False
      then show ?thesis using that parts(2) [of k x] unfolding D by auto
    qed
    show "map_of (mput dsm (ds_kernel e) v) (ds_kernel x) \<noteq> None \<or>
        ds_kernel x \<in> fst ` set (ys @ [(ds_kernel e, mld)])" if "x \<in> set (module_ds m S')" for x
      using that parts(3) [of x] assms(6) unfolding D by auto
    show "\<exists>x \<in> set (module_ds m S'). ds_kernel x = k \<and> in_form A (loader_of L mld') x"
      if "(k, mld') \<in> set (ys @ [(ds_kernel e, mld)])" for k mld'
    proof (cases "(k, mld') \<in> set ys")
      case True
      then have "k \<noteq> ds_kernel e" using assms(7) by force
      then show ?thesis using parts(4) [OF True] unfolding D by blast
    next
      case False
      then show ?thesis using that assms(6,8) unfolding D by auto
    qed
  qed
qed

lemma loaders_inv_add:
  assumes inv: "loaders_inv A L m ys dsm S" and "store_ok A m (S @ [d])" and "of_module m d"
    and "map_of dsm (ds_kernel d) = None" and "ds_kernel d \<notin> fst ` set ys" and "in_form A (loader_of L mld) d"
  shows "loaders_inv A L m (ys @ [(ds_kernel d, mld)]) dsm (S @ [d])"
proof -
  have D: "set (module_ds m (S @ [d])) = insert d (set (module_ds m S))"
    using assms(3) by (auto simp: set_module_ds)
  note parts = loaders_invD [OF inv]
  have other: "ds_kernel x \<noteq> ds_kernel d" if "x \<in> set (module_ds m S)" for x
    using parts(3) [OF that] assms(4,5) by force
  show ?thesis
  proof (rule loaders_invI [OF assms(2)])
    show "inj_on ds_kernel (set (module_ds m (S @ [d])))"
      using parts(1) other unfolding D by fastforce
    show "\<exists>y \<in> set (module_ds m (S @ [d])). alike x y \<and> ds_kernel y = k" if "map_of dsm k = Some x" for k x
      using parts(2) [OF that] unfolding D by blast
    show "map_of dsm (ds_kernel x) \<noteq> None \<or> ds_kernel x \<in> fst ` set (ys @ [(ds_kernel d, mld)])"
      if "x \<in> set (module_ds m (S @ [d]))" for x
      using that parts(3) [of x] unfolding D by auto
    show "\<exists>x \<in> set (module_ds m (S @ [d])). ds_kernel x = k \<and> in_form A (loader_of L mld') x"
      if "(k, mld') \<in> set (ys @ [(ds_kernel d, mld)])" for k mld'
      using that parts(4) [of k mld'] assms(6) unfolding D by auto
  qed
qed

text \<open>The two ways through \<open>handleDriverContainer\<close>: the kernel has a DaemonSet, or it needs one.\<close>

abbreviation blank_loader :: "ModuleLoaderData \<Rightarrow> DaemonSet" where
  "blank_loader mld \<equiv> zero_DaemonSet\<lparr>ds_Meta := zero_ObjectMeta\<lparr>om_Namespace := mld_Namespace mld,
     om_GenerateName := mld_Name mld @ ''-''\<rparr>\<rparr>"

lemma handleDriverContainer_Ok:
  assumes "handleDriverContainer L mld dsm s = (Ok dsm', t)"
  obtains op d t1 where "CreateOrPatchDaemonSet L (case map_of dsm (mld_KernelVersion mld) of Some e \<Rightarrow> e | None \<Rightarrow> blank_loader mld)
        (loader_of L mld) s = (Ok (op, d), t1)" "history t = history t1"
    "dsm' = (if map_of dsm (mld_KernelVersion mld) = None then dsm else mput dsm (mld_KernelVersion mld) d)"
  using assms that
  by (auto simp: handleDriverContainer_def Let_def bind_go_run ret_run SetCompletedStage_def
      set_gauges_run split: prod.splits res.splits if_splits)

lemma handleDriverContainer_runs:
  assumes "CreateOrPatchDaemonSet L (case map_of dsm (mld_KernelVersion mld) of Some e \<Rightarrow> e | None \<Rightarrow> blank_loader mld)
        (loader_of L mld) s = (Ok (op, d), t1)"
  shows "\<exists>t. handleDriverContainer L mld dsm s = (Ok (if map_of dsm (mld_KernelVersion mld) = None then dsm
        else mput dsm (mld_KernelVersion mld) d), t) \<and> history t = history t1"
  using assms by (simp add: handleDriverContainer_def Let_def bind_go_run ret_run SetCompletedStage_def set_gauges_run)

lemma new_loader:
  assumes server: "ds_server L A S0" and names: "new_names m A" and keep: "keeps_references L"
    and data: "GetModuleLoaderDataForKernel L m k = Ok mld" and ok: "store_ok A m S"
    and d0: "SetDriverContainerAsDesired L (Some (blank_loader mld)) mld = Ok d0"
  defines "d \<equiv> kept A (named (new_name A S) d0)"
  shows "ds_name (blank_loader mld) \<notin> ds_name ` set S" "ds_name d \<notin> ds_name ` set S" "store_ok A m (S @ [d])"
    "of_module m d" "ds_kernel d = k" "k \<noteq> ''''" "in_form A (loader_of L mld) d"
    "ds_name (named (new_name A S) d0) \<notin> ds_name ` set S"
proof -
  note mld = GetModuleLoaderData_Ok_fields [OF data]
  have meta: "om_Name (ds_Meta (blank_loader mld)) = ''''" "om_Namespace (ds_Meta (blank_loader mld)) = om_Namespace (mod_Meta m)"
    using mld(3) by (simp_all add: zero_defs)
  show "ds_name (blank_loader mld) \<notin> ds_name ` set S"
    using ok meta(1) by (auto simp: store_ok_def ds_name_def)
  note result = SetDriver_result [OF d0 mld(2) meta(2)]
  have n: "named (new_name A S) d0 = rename (new_name A S) d0" using result(5) meta(1) by (simp add: named_def)
  have fresh: "new_name A S \<noteq> ''''" "new_name A S \<noteq> plugin_name m" "new_name A S \<notin> (\<lambda>d. om_Name (ds_Meta d)) ` set S"
    using names unfolding new_names_def by blast+
  show k: "ds_kernel d = k" "k \<noteq> ''''" and dm: "of_module m d"
    using result mld(1) by (auto simp: d_def n of_module_rename)
  show "ds_name (named (new_name A S) d0) \<notin> ds_name ` set S" unfolding n using fresh(3) by (force simp: ds_name_def)
  then show nd: "ds_name d \<notin> ds_name ` set S" by (simp add: d_def)
  have "loader_of L mld (named (new_name A S) d0) = Ok (named (new_name A S) d0)"
    unfolding n by (rule SetDriver_rename [OF SetDriver_again [OF keep d0]])
  then show "in_form A (loader_of L mld) d"
    unfolding d_def by (rule in_form_kept [OF server setter_loader [OF keep]])
  have "om_Name (ds_Meta d) = new_name A S" by (simp add: d_def n)
  then show "store_ok A m (S @ [d])"
    using fresh(1,2) k dm nd kept_idem [OF server]
    by (intro store_ok_create [OF ok]) (auto simp: of_module_def ds_selected_def d_def)
qed

lemma handleDriverContainer_step:
  assumes server: "ds_server L A S0" and names: "new_names m A" and keep: "keeps_references L"
    and data: "GetModuleLoaderDataForKernel L m k = Ok mld" and new: "k \<notin> fst ` set ys"
    and inv: "loaders_inv A L m ys dsm (store_at A S0 (history s))"
    and run: "handleDriverContainer L mld dsm s = (Ok dsm', t)"
  shows "loaders_inv A L m (ys @ [(k, mld)]) dsm' (store_at A S0 (history t)) \<and>
    (\<forall>x \<in> set (store_at A S0 (history t)). x \<in> set (store_at A S0 (history s)) \<or> ds_kernel x = k \<and> k \<noteq> '''')"
proof -
  let ?S = "store_at A S0 (history s)"
  note mld = GetModuleLoaderData_Ok_fields [OF data]
  note f = setter_loader [OF keep]
  have ok: "store_ok A m ?S" and dist: "distinct (map ds_name ?S)"
    using inv by (auto simp: loaders_inv_def store_ok_def)
  obtain op v t1 where cop: "CreateOrPatchDaemonSet L (case map_of dsm k of Some e \<Rightarrow> e | None \<Rightarrow> blank_loader mld)
      (loader_of L mld) s = (Ok (op, v), t1)" and t: "history t = history t1"
    and dsm': "dsm' = (if map_of dsm k = None then dsm else mput dsm k v)"
    by (rule handleDriverContainer_Ok [OF run, unfolded mld(1)])
  show ?thesis
  proof (cases "map_of dsm k")
    case (Some e)
    obtain x where x: "x \<in> set (module_ds m ?S)" "alike e x" "ds_kernel x = k"
      using loaders_invD(2) [OF inv Some] by blast
    then have xS: "x \<in> set ?S" and ns: "om_Namespace (ds_Meta x) = om_Namespace (mod_Meta m)"
      by (auto simp: set_module_ds of_module_def ds_selected_def)
    from cop Some have "CreateOrPatchDaemonSet L e (loader_of L mld) s = (Ok (op, v), t1)" by simp
    then obtain x' where x': "SetDriverContainerAsDesired L (Some x) mld = Ok x'" "alike v x'"
      "store_at A S0 (history t1) = replace_ds x (kept A x') ?S"
      by (rule CreateOrPatch_found [OF server f ok xS alike_names(1) [OF x(2)]]) blast
    note result = SetDriver_result [OF x'(1) mld(2) ns]
    have "k \<noteq> ''''" using result(4) mld(1) by simp
    moreover from this have plugin: "om_Name (ds_Meta x) \<noteq> plugin_name m"
      using ok xS ns x(3) unfolding store_ok_def by blast
    ultimately have "store_ok A m (store_at A S0 (history t))"
      unfolding t x'(3) using result(1,3) mld(1) kept_idem [OF server]
      by (intro store_ok_replace [OF ok xS]) simp_all
    moreover have S': "set (store_at A S0 (history t)) = insert (kept A x') (set ?S - {x})"
      unfolding t x'(3) using result(1) by (intro replace_store(1) [OF dist xS]) simp
    moreover have "in_form A (loader_of L mld) (kept A x')"
      by (rule in_form_kept [OF server f]) (rule SetDriver_again [OF keep x'(1)])
    ultimately have "loaders_inv A L m (ys @ [(ds_kernel x, mld)]) (mput dsm (ds_kernel x) v) (store_at A S0 (history t))"
      using result(2,3) mld(1) x(3) new alike_trans [OF x'(2) alike_kept(2)]
      by (intro loaders_inv_replace [OF inv x(1)]) simp_all
    then show ?thesis using S' result(3) mld(1) \<open>k \<noteq> ''''\<close> x(3) dsm' Some by auto
  next
    case None
    have "ds_name (blank_loader mld) \<notin> ds_name ` set ?S"
      using ok by (auto simp: store_ok_def ds_name_def zero_defs)
    then obtain d0 where d0: "SetDriverContainerAsDesired L (Some (blank_loader mld)) mld = Ok d0"
      using CreateOrPatch_missing_Ok [OF server _ cop] None by auto
    note new_ds = new_loader [OF server names keep data ok d0]
    obtain v' t' where "CreateOrPatchDaemonSet L (blank_loader mld) (loader_of L mld) s = (Ok (OperationResultCreated, v'), t')"
      "store_at A S0 (history t') = ?S @ [kept A (named (new_name A ?S) d0)]"
      using CreateOrPatch_missing [where f = "loader_of L mld", OF server new_ds(1) d0 new_ds(8)] by blast
    then have "store_at A S0 (history t) = ?S @ [kept A (named (new_name A ?S) d0)]"
      using cop None t by simp
    then show ?thesis
      using loaders_inv_add [OF inv new_ds(3,4) _ _ new_ds(7)] None new new_ds(5,6) dsm' by simp
  qed
qed

lemma kernels_run:
  assumes server: "ds_server L A S0" and names: "new_names m A" and steady: "steady L req m nodes"
    and run: "loop xs (reconcile_kernel L) dsm s = (Ok dsm', t)"
    and data: "\<And>k mld. (k, mld) \<in> set xs \<Longrightarrow> GetModuleLoaderDataForKernel L m k = Ok mld"
    and dist: "distinct (map fst (ys @ xs))" and inv: "loaders_inv A L m ys dsm (store_at A S0 (history s))"
  shows "loaders_inv A L m (ys @ xs) dsm' (store_at A S0 (history t)) \<and>
    (\<forall>x \<in> set (store_at A S0 (history t)). x \<in> set (store_at A S0 (history s)) \<or> ds_kernel x \<noteq> '''')"
  using run data dist inv
proof (induction xs arbitrary: ys dsm s)
  case Nil
  then show ?case by (simp add: ret_run)
next
  case (Cons x xs)
  obtain k mld where x: "x = (k, mld)" by (cases x)
  have mld: "GetModuleLoaderDataForKernel L m k = Ok mld" using Cons.prems(2) x by simp
  obtain dsm1 s1 where first: "reconcile_kernel L (k, mld) dsm s = (Ok dsm1, s1)"
    and rest: "loop xs (reconcile_kernel L) dsm1 s1 = (Ok dsm', t)"
    using Cons.prems(1) x by (auto simp: bind_go_run split: prod.splits res.splits)
  obtain s2 rs w where s2: "history s2 = history s @ rs" "list_all is_read rs"
      "reconcile_kernel L (k, mld) dsm s = check (handleDriverContainer L mld dsm) w ret s2"
    using reconcile_kernel_run [OF steady mld] by blast
  then have "handleDriverContainer L mld dsm s2 = (Ok dsm1, s1)"
    using first by (auto simp: check_run ret_run split: prod.splits res.splits)
  moreover have "store_at A S0 (history s2) = store_at A S0 (history s)"
    using s2 by (simp add: store_at_reads)
  ultimately have step: "loaders_inv A L m (ys @ [(k, mld)]) dsm1 (store_at A S0 (history s1))"
      "\<forall>x \<in> set (store_at A S0 (history s1)). x \<in> set (store_at A S0 (history s)) \<or> ds_kernel x = k \<and> k \<noteq> ''''"
    using handleDriverContainer_step [OF server names steady_keeps [OF steady] mld, of ys dsm s2 dsm1 s1] Cons.prems(3,4) x
    by simp_all
  have "loaders_inv A L m ((ys @ [(k, mld)]) @ xs) dsm' (store_at A S0 (history t)) \<and>
      (\<forall>x \<in> set (store_at A S0 (history t)). x \<in> set (store_at A S0 (history s1)) \<or> ds_kernel x \<noteq> '''')"
    by (rule Cons.IH [OF rest _ _ step(1)]) (use Cons.prems(2,3) x in auto)
  with step(2) x show ?case by auto
qed

subsection \<open>The device plugin and the deletions\<close>

text \<open>
  After the loop.  The device plugin stands under the empty kernel; what the map has there may be out
  of date from now on.
\<close>

definition settled :: "api \<Rightarrow> env \<Rightarrow> Module \<Rightarrow> mld_map \<Rightarrow> ds_map \<Rightarrow> DaemonSet list \<Rightarrow> bool" where
  "settled A L m M dsm S \<longleftrightarrow> store_ok A m S \<and> inj_on ds_kernel (set (module_ds m S)) \<and>
     (\<forall>k e. map_of dsm k = Some e \<longrightarrow> ds_kernel e = k \<and> (k \<noteq> '''' \<longrightarrow> (\<exists>d \<in> set S. alike e d))) \<and>
     (\<forall>d \<in> set (module_ds m S). ds_kernel d \<noteq> '''' \<longrightarrow>
        (\<exists>e. map_of dsm (ds_kernel d) = Some e \<and> alike e d) \<or> ds_kernel d \<in> fst ` set M) \<and>
     (\<forall>(k, mld) \<in> set M. \<exists>d \<in> set (module_ds m S). ds_kernel d = k \<and> in_form A (loader_of L mld) d)"

lemma settledD:
  assumes "settled A L m M dsm S"
  shows "store_ok A m S" and "inj_on ds_kernel (set (module_ds m S))"
    and "\<And>k e. map_of dsm k = Some e \<Longrightarrow> ds_kernel e = k"
    and "\<And>k e. map_of dsm k = Some e \<Longrightarrow> k \<noteq> '''' \<Longrightarrow> \<exists>d \<in> set S. alike e d"
    and "\<And>d. d \<in> set (module_ds m S) \<Longrightarrow> ds_kernel d \<noteq> '''' \<Longrightarrow>
      (\<exists>e. map_of dsm (ds_kernel d) = Some e \<and> alike e d) \<or> ds_kernel d \<in> fst ` set M"
    and "\<And>k mld. (k, mld) \<in> set M \<Longrightarrow> \<exists>d \<in> set (module_ds m S). ds_kernel d = k \<and> in_form A (loader_of L mld) d"
  using assms unfolding settled_def by blast+

lemma settledI:
  assumes "store_ok A m S" and "inj_on ds_kernel (set (module_ds m S))"
    and "\<And>k e. map_of dsm k = Some e \<Longrightarrow> ds_kernel e = k \<and> (k \<noteq> '''' \<longrightarrow> (\<exists>d \<in> set S. alike e d))"
    and "\<And>d. d \<in> set (module_ds m S) \<Longrightarrow> ds_kernel d \<noteq> '''' \<Longrightarrow>
      (\<exists>e. map_of dsm (ds_kernel d) = Some e \<and> alike e d) \<or> ds_kernel d \<in> fst ` set M"
    and "\<And>k mld. (k, mld) \<in> set M \<Longrightarrow> \<exists>d \<in> set (module_ds m S). ds_kernel d = k \<and> in_form A (loader_of L mld) d"
  shows "settled A L m M dsm S"
  unfolding settled_def using assms by blast

lemma loaders_settled:
  assumes "loaders_inv A L m xs dsm S" and "set xs = set M"
  shows "settled A L m M dsm S"
proof -
  note parts = loaders_invD [OF assms(1), unfolded assms(2)]
  show ?thesis
  proof (rule settledI [OF parts(5,1)])
    show "ds_kernel e = k \<and> (k \<noteq> '''' \<longrightarrow> (\<exists>d \<in> set S. alike e d))" if "map_of dsm k = Some e" for k e
      using parts(2) [OF that] alike_names(2) by (fastforce simp: set_module_ds)
    show "(\<exists>e. map_of dsm (ds_kernel d) = Some e \<and> alike e d) \<or> ds_kernel d \<in> fst ` set M"
      if "d \<in> set (module_ds m S)" for d
    proof (cases "map_of dsm (ds_kernel d)")
      case None
      then show ?thesis using parts(3) [OF that] by simp
    next
      case (Some e)
      then obtain d' where "d' \<in> set (module_ds m S)" "alike e d'" "ds_kernel d' = ds_kernel d" using parts(2) by blast
      moreover from this have "d' = d" using parts(1) that by (simp add: inj_on_def)
      ultimately show ?thesis using Some by blast
    qed
  qed (rule parts(4))
qed

definition plugin_ref :: "Module \<Rightarrow> NamespacedName" where
  "plugin_ref m = \<lparr>nn_Namespace = om_Namespace (mod_Meta m), nn_Name = plugin_name m\<rparr>"

lemma plugin_names: "ds_name d = plugin_ref m \<longleftrightarrow>
    om_Namespace (ds_Meta d) = om_Namespace (mod_Meta m) \<and> om_Name (ds_Meta d) = plugin_name m"
  by (auto simp: ds_name_def plugin_ref_def)

lemma plugin_kernel:
  assumes "store_ok A m S" and "d \<in> set (module_ds m S)"
  shows "ds_kernel d = '''' \<longleftrightarrow> ds_name d = plugin_ref m"
  using assms unfolding store_ok_def plugin_names set_module_ds by (auto simp: of_module_def ds_selected_def)

text \<open>A change of the device plugin touches nothing else.\<close>

lemma settled_plugin:
  assumes st: "settled A L m M dsm S" and ok: "store_ok A m S'" and new: "ds_name d = plugin_ref m" "ds_kernel d = ''''" "of_module m d"
    and S': "set S' = insert d {x \<in> set S. ds_name x \<noteq> ds_name d}"
    and loaders: "\<And>k mld. (k, mld) \<in> set M \<Longrightarrow> k \<noteq> ''''"
  shows "settled A L m M dsm S'"
proof -
  note parts = settledD [OF st]
  have A: "set (module_ds m S') = insert d {x \<in> set (module_ds m S). ds_kernel x \<noteq> ''''}"
    using plugin_kernel [OF parts(1)] new unfolding set_module_ds S' by auto
  show ?thesis
  proof (rule settledI [OF ok])
    show "inj_on ds_kernel (set (module_ds m S'))"
    proof -
      have "inj_on ds_kernel {x \<in> set (module_ds m S). ds_kernel x \<noteq> ''''}" using parts(2) by (rule inj_on_subset) auto
      then show ?thesis unfolding A inj_on_insert using new(2) by auto
    qed
    show "ds_kernel x = k \<and> (k \<noteq> '''' \<longrightarrow> (\<exists>y \<in> set S'. alike x y))" if entry: "map_of dsm k = Some x" for k x
    proof (intro conjI impI)
      show k: "ds_kernel x = k" by (rule parts(3) [OF entry])
      assume ne: "k \<noteq> ''''"
      then obtain y where y: "y \<in> set S" "alike x y" using parts(4) [OF entry] by blast
      then have "ds_kernel y \<noteq> ''''" using ne k alike_names(2) by metis
      then have "y \<in> set S'" using parts(1) y(1) unfolding S' new(1) store_ok_def plugin_names by blast
      with y(2) show "\<exists>y \<in> set S'. alike x y" by blast
    qed
    show "(\<exists>e. map_of dsm (ds_kernel x) = Some e \<and> alike e x) \<or> ds_kernel x \<in> fst ` set M"
      if "x \<in> set (module_ds m S')" "ds_kernel x \<noteq> ''''" for x
      using that parts(5) [of x] new(2) unfolding A by blast
    show "\<exists>x \<in> set (module_ds m S'). ds_kernel x = k \<and> in_form A (loader_of L mld) x"
      if "(k, mld) \<in> set M" for k mld
      using parts(6) [OF that] loaders [OF that] unfolding A by blast
  qed
qed

text \<open>What \<open>handleDevicePlugin\<close> does in a Module with a device plugin.\<close>

abbreviation blank_plugin :: "Module \<Rightarrow> DaemonSet" where
  "blank_plugin m \<equiv> zero_DaemonSet\<lparr>ds_Meta := zero_ObjectMeta\<lparr>om_Namespace := om_Namespace (mod_Meta m), om_Name := plugin_name m\<rparr>\<rparr>"

lemma handleDevicePlugin_eq:
  assumes server: "ds_server L A S0" and plugin: "spec_DevicePlugin (mod_Spec m) \<noteq> None"
  obtains s1 found where "history s1 = history s @ [Read (GetDaemonSet (plugin_ref m))]"
    "found = (case find (\<lambda>d. ds_name d = plugin_ref m) (store_at A S0 (history s)) of
        Some p \<Rightarrow> shown A (history s) p | None \<Rightarrow> blank_plugin m)" "ds_name found = plugin_ref m"
    "\<And>t. handleDevicePlugin L m s = (Ok (), t) \<Longrightarrow> \<exists>op d t1. CreateOrPatchDaemonSet L found (plugin_of L m) s1 = (Ok (op, d), t1) \<and>
        history t = history t1"
    "\<And>op d t1. CreateOrPatchDaemonSet L found (plugin_of L m) s1 = (Ok (op, d), t1) \<Longrightarrow>
        \<exists>t. handleDevicePlugin L m s = (Ok (), t) \<and> history t = history t1"
proof -
  let ?S = "store_at A S0 (history s)"
  define found where "found = (case find (\<lambda>d. ds_name d = plugin_ref m) ?S of
      Some p \<Rightarrow> shown A (history s) p | None \<Rightarrow> blank_plugin m)"
  define s1 where "s1 = s\<lparr>history := history s @ [Read (GetDaemonSet (plugin_ref m))]\<rparr>"
  have blank: "ds_name (blank_plugin m) = plugin_ref m" by (simp add: ds_name_def plugin_ref_def zero_defs)
  have name: "ds_name found = plugin_ref m"
  proof (cases "find (\<lambda>d. ds_name d = plugin_ref m) ?S")
    case None
    then show ?thesis using blank by (simp add: found_def)
  next
    case (Some p)
    moreover from this have "ds_name p = plugin_ref m" by (auto simp: find_Some_iff)
    ultimately show ?thesis using alike_names(1) [OF shown_alike [OF server]] by (simp add: found_def)
  qed
  have get: "get_DaemonSet L (plugin_ref m) s = (case find (\<lambda>d. ds_name d = plugin_ref m) ?S of
      Some d \<Rightarrow> Ok (shown A (history s) d) | None \<Rightarrow> Err (NotFound ''daemonset''), s1)"
    by (simp add: get_DaemonSet_def go_simps server_answers(2) [OF server] s1_def split: option.split)
  have run: "handleDevicePlugin L m s = bind_go (CreateOrPatchDaemonSet L found (plugin_of L m)) (\<lambda>(opRes, ds').
      if opRes = OperationResultCreated
      then SetCompletedStage (om_Name (mod_Meta m)) (om_Namespace (mod_Meta m)) '''' DevicePluginStage False else ret ()) s1"
    using plugin get by (auto simp: handleDevicePlugin_def Let_def plugin_name_def [symmetric] plugin_ref_def [symmetric]
        attempt_run bind_go_run ret_run found_def split: option.split)
  show ?thesis
  proof (rule that)
    show "history s1 = history s @ [Read (GetDaemonSet (plugin_ref m))]" by (simp add: s1_def)
    show "found = (case find (\<lambda>d. ds_name d = plugin_ref m) ?S of Some p \<Rightarrow> shown A (history s) p | None \<Rightarrow> blank_plugin m)"
      by (rule found_def)
    show "ds_name found = plugin_ref m" by (rule name)
    show "\<exists>op d t1. CreateOrPatchDaemonSet L found (plugin_of L m) s1 = (Ok (op, d), t1) \<and> history t = history t1"
      if "handleDevicePlugin L m s = (Ok (), t)" for t
      using that unfolding run
      by (auto simp: bind_go_run ret_run SetCompletedStage_def set_gauges_run split: prod.splits res.splits if_splits)
    show "\<exists>t. handleDevicePlugin L m s = (Ok (), t) \<and> history t = history t1"
      if "CreateOrPatchDaemonSet L found (plugin_of L m) s1 = (Ok (op, d), t1)" for op d t1
      using that unfolding run by (simp add: bind_go_run ret_run SetCompletedStage_def set_gauges_run)
  qed
qed

lemma handleDevicePlugin_step:
  assumes server: "ds_server L A S0" and keep: "keeps_references L" and plugin: "spec_DevicePlugin (mod_Spec m) \<noteq> None"
    and st: "settled A L m M dsm (store_at A S0 (history s))" and loaders: "\<And>k mld. (k, mld) \<in> set M \<Longrightarrow> k \<noteq> ''''"
    and run: "handleDevicePlugin L m s = (Ok (), t)"
  shows "settled A L m M dsm (store_at A S0 (history t)) \<and>
    (\<exists>d \<in> set (store_at A S0 (history t)). ds_name d = plugin_ref m \<and> in_form A (plugin_of L m) d)"
proof -
  let ?S = "store_at A S0 (history s)"
  have ok: "store_ok A m ?S" and dist: "distinct (map ds_name ?S)"
    using settledD(1) [OF st] by (auto simp: store_ok_def)
  note f = setter_plugin [OF keep]
  obtain s1 found op v t1 where s1: "history s1 = history s @ [Read (GetDaemonSet (plugin_ref m))]"
    and found: "found = (case find (\<lambda>d. ds_name d = plugin_ref m) ?S of Some p \<Rightarrow> shown A (history s) p | None \<Rightarrow> blank_plugin m)"
      "ds_name found = plugin_ref m"
    and cop: "CreateOrPatchDaemonSet L found (plugin_of L m) s1 = (Ok (op, v), t1)" and t: "history t = history t1"
    using handleDevicePlugin_eq [OF server plugin, of s] run by metis
  have S1: "store_at A S0 (history s1) = ?S" by (simp add: s1)
  show ?thesis
  proof (cases "find (\<lambda>d. ds_name d = plugin_ref m) ?S")
    case (Some p)
    then have p: "p \<in> set ?S" "ds_name p = plugin_ref m" by (auto simp: find_Some_iff)
    have "p \<in> set (store_at A S0 (history s1))" "ds_name found = ds_name p" "store_ok A m (store_at A S0 (history s1))"
      using p ok found(2) S1 by simp_all
    then obtain d where d: "SetDevicePluginAsDesired L (Some p) m = Ok d" "store_at A S0 (history t1) = replace_ds p (kept A d) ?S"
      using CreateOrPatch_found [OF server f _ _ _ cop] S1 by metis
    have meta: "om_Namespace (ds_Meta p) = om_Namespace (mod_Meta m)" "om_Name (ds_Meta p) = plugin_name m"
      using p(2) by (simp_all add: plugin_names)
    note result = SetDevicePlugin_result [OF d(1) meta(1)]
    have "ds_kernel p = ''''" using ok p(1) meta unfolding store_ok_def by blast
    then have k: "ds_kernel (kept A d) = ''''" "ds_name (kept A d) = plugin_ref m" using result p(2) by simp_all
    have "store_ok A m (store_at A S0 (history t))"
      unfolding t d(2) using k meta p(2) kept_idem [OF server] by (intro store_ok_replace [OF ok p(1)]) simp_all
    moreover have S': "set (store_at A S0 (history t)) = insert (kept A d) (set ?S - {p})"
      unfolding t d(2) using result(1) by (intro replace_store(1) [OF dist p(1)]) simp
    moreover have "set ?S - {p} = {x \<in> set ?S. ds_name x \<noteq> ds_name (kept A d)}"
      using same_name [OF dist p(1)] result(1) by auto
    ultimately have "settled A L m M dsm (store_at A S0 (history t))"
      using settled_plugin [OF st _ k(2,1) _ _ loaders] result(2) by simp
    moreover have "in_form A (plugin_of L m) (kept A d)"
      by (rule in_form_kept [OF server f]) (rule SetDevicePlugin_again [OF keep d(1)])
    ultimately show ?thesis using S' k(2) by blast
  next
    case None
    then have z: "found = blank_plugin m" by (simp add: found)
    have miss: "plugin_ref m \<notin> ds_name ` set ?S" using None by (auto simp: find_None_iff)
    have miss1: "ds_name (blank_plugin m) \<notin> ds_name ` set (store_at A S0 (history s1))"
      using miss found(2) S1 unfolding z by simp
    note cop = cop [unfolded z]
    obtain d where d: "SetDevicePluginAsDesired L (Some (blank_plugin m)) m = Ok d"
      using CreateOrPatch_missing_Ok [OF server miss1 cop] by blast
    have meta: "om_Namespace (ds_Meta (blank_plugin m)) = om_Namespace (mod_Meta m)" "om_Name (ds_Meta (blank_plugin m)) = plugin_name m"
      by simp_all
    note result = SetDevicePlugin_result [OF d meta(1)]
    have name: "om_Name (ds_Meta d) = plugin_name m" "plugin_name m \<noteq> ''''"
      using result(4) meta(2) by (simp_all add: plugin_name_def)
    then have n: "named x d = d" for x by (simp add: named_def)
    have "ds_kernel (blank_plugin m) = ''''" by (simp add: ds_kernel_def zero_defs mget_def)
    then have k: "ds_kernel (kept A d) = ''''" "ds_name (kept A d) = plugin_ref m" using result found(2) unfolding z by simp_all
    have new: "ds_name (named (new_name A (store_at A S0 (history s1))) d) \<notin> ds_name ` set (store_at A S0 (history s1))"
      using miss k(2) S1 by (simp add: n)
    obtain v' t' where "CreateOrPatchDaemonSet L (blank_plugin m) (plugin_of L m) s1 = (Ok (OperationResultCreated, v'), t')"
      "store_at A S0 (history t') = ?S @ [kept A d]"
      using CreateOrPatch_missing [where f = "plugin_of L m", OF server miss1 d new] S1 by (metis n)
    then have S': "store_at A S0 (history t) = ?S @ [kept A d]"
      using cop t by simp
    have "store_ok A m (?S @ [kept A d])"
      using miss k name result(5) kept_idem [OF server] by (intro store_ok_create [OF ok]) simp_all
    moreover have "set (?S @ [kept A d]) = insert (kept A d) {x \<in> set ?S. ds_name x \<noteq> ds_name (kept A d)}"
      using miss k(2) by (auto dest: image_eqI [OF sym])
    ultimately have "settled A L m M dsm (?S @ [kept A d])"
      using settled_plugin [OF st _ k(2,1) _ _ loaders] result(2) by simp
    moreover have "in_form A (plugin_of L m) (kept A d)"
      by (rule in_form_kept [OF server f]) (rule SetDevicePlugin_again [OF keep d])
    ultimately show ?thesis unfolding S' using k(2) by auto
  qed
qed

lemma delete_store:
  "store_at A S (map (\<lambda>d. Write (DeleteDaemonSet d)) dels) = filter (\<lambda>x. ds_name x \<notin> ds_name ` set dels) S"
proof (induction dels arbitrary: S)
  case (Cons d dels)
  then show ?case by (auto simp: perform_ds_def intro: filter_cong)
qed simp

lemma store_ok_filter:
  assumes "store_ok A m S"
  shows "store_ok A m (filter P S)"
  using assms unfolding store_ok_def set_module_ds by (auto simp: distinct_map_filter)

text \<open>The deletions leave exactly what is asked for.\<close>

lemma as_askedI:
  assumes "inj_on ds_kernel (set (module_ds m S))" and "distinct (map ds_name S)"
    and "\<And>k mld. (k, mld) \<in> set (wanted_loaders L m nodes) \<Longrightarrow> \<exists>d \<in> set (module_ds m S). ds_kernel d = k \<and>
        in_form A (loader_of L mld) d"
    and "\<And>d. d \<in> set (module_ds m S) \<Longrightarrow> ds_kernel d = '''' \<or> ds_kernel d \<in> fst ` set (wanted_loaders L m nodes)"
    and "spec_DevicePlugin (mod_Spec m) \<noteq> None \<Longrightarrow> \<exists>d \<in> set S. ds_name d = plugin_ref m \<and>
        in_form A (plugin_of L m) d"
  shows "as_asked A L m nodes S"
proof -
  have "distinct (module_ds m S)"
    using assms(2) by (simp add: module_ds_def distinct_map)
  then have "distinct (map ds_kernel (module_ds m S))"
    using assms(1) by (simp add: distinct_map)
  then show ?thesis
    unfolding as_asked_def plugin_ref_def [symmetric] using assms(3-5) by blast
qed

lemma settled_collected:
  assumes st: "settled A L m (wanted_loaders L m nodes) dsm S"
    and S': "S' = filter (\<lambda>x. ds_name x \<notin> ds_name ` set dels) S"
    and dels: "set dels = {d. \<exists>k. map_of dsm k = Some d \<and> ds_kernel d \<noteq> '''' \<and> k \<notin> fst ` set (wanted_loaders L m nodes)}"
    and plugin: "spec_DevicePlugin (mod_Spec m) \<noteq> None \<Longrightarrow> \<exists>d \<in> set S. ds_name d = plugin_ref m \<and>
        in_form A (plugin_of L m) d"
  shows "store_ok A m S'" and "as_asked A L m nodes S'"
proof -
  let ?M = "wanted_loaders L m nodes"
  note parts = settledD [OF st]
  show "store_ok A m S'" unfolding S' by (rule store_ok_filter [OF parts(1)])
  have dist: "distinct (map ds_name S)" using parts(1) by (simp add: store_ok_def)
  have gone: "\<exists>x \<in> set S. ds_name x = ds_name d \<and> ds_kernel x \<noteq> '''' \<and> ds_kernel x \<notin> fst ` set ?M" if mem: "d \<in> set dels" for d
  proof -
    obtain k where k: "map_of dsm k = Some d" "ds_kernel d \<noteq> ''''" "k \<notin> fst ` set ?M"
      using mem unfolding dels by blast
    moreover have "ds_kernel d = k" by (rule parts(3) [OF k(1)])
    moreover from this obtain x where "x \<in> set S" "alike d x" using parts(4) [OF k(1)] k(2) by blast
    ultimately show ?thesis by (intro bexI [of _ x]) (simp_all add: alike_names(1,2) [of d x, symmetric])
  qed
  have stays: "x \<in> set S'" if "x \<in> set S" "ds_kernel x = '''' \<or> ds_kernel x \<in> fst ` set ?M" for x
  proof -
    have "ds_name x \<noteq> ds_name d" if mem: "d \<in> set dels" for d
    proof
      assume same: "ds_name x = ds_name d"
      obtain y where y: "y \<in> set S" "ds_name y = ds_name d" "ds_kernel y \<noteq> ''''" "ds_kernel y \<notin> fst ` set ?M"
        using gone [OF mem] by blast
      then have "y = x" using same_name [OF dist \<open>x \<in> set S\<close> y(1)] same by simp
      then show False using y(3,4) \<open>ds_kernel x = '''' \<or> ds_kernel x \<in> fst ` set ?M\<close> by simp
    qed
    then show ?thesis using that(1) unfolding S' by auto
  qed
  have sub: "set S' \<subseteq> set S" unfolding S' by auto
  show "as_asked A L m nodes S'"
  proof (rule as_askedI)
    show "inj_on ds_kernel (set (module_ds m S'))"
      using parts(2) by (rule inj_on_subset) (use sub in \<open>auto simp: set_module_ds\<close>)
    show "distinct (map ds_name S')" unfolding S' by (rule distinct_map_filter [OF dist])
    show "\<exists>d \<in> set (module_ds m S'). ds_kernel d = k \<and> in_form A (loader_of L mld) d"
      if mem: "(k, mld) \<in> set ?M" for k mld
    proof -
      obtain d where d: "d \<in> set (module_ds m S)" "ds_kernel d = k" "in_form A (loader_of L mld) d"
        using parts(6) [OF mem] by blast
      moreover have "k \<in> fst ` set ?M" using mem by force
      ultimately show ?thesis using stays [of d] unfolding set_module_ds by blast
    qed
    show "ds_kernel d = '''' \<or> ds_kernel d \<in> fst ` set ?M" if "d \<in> set (module_ds m S')" for d
    proof (rule ccontr)
      assume *: "\<not> ?thesis"
      have "d \<in> set (module_ds m S)" using that sub unfolding set_module_ds by blast
      then obtain e where e: "map_of dsm (ds_kernel d) = Some e" "alike e d" using parts(5) * by blast
      then have "e \<in> set dels" using * alike_names(2) [OF e(2)] unfolding dels by auto
      then have "ds_name d \<in> ds_name ` set dels" using alike_names(1) [OF e(2)] by (metis image_eqI)
      then show False using that unfolding S' set_module_ds by auto
    qed
    show "\<exists>d \<in> set S'. ds_name d = plugin_ref m \<and> in_form A (plugin_of L m) d"
      if some: "spec_DevicePlugin (mod_Spec m) \<noteq> None"
    proof -
      obtain d where d: "d \<in> set S" "ds_name d = plugin_ref m" "in_form A (plugin_of L m) d"
        using plugin [OF some] by blast
      then have "ds_kernel d = ''''" using parts(1) unfolding store_ok_def plugin_names by blast
      with d stays [of d] show ?thesis by blast
    qed
  qed
qed

text \<open>Collecting jobs, of which none has succeeded.\<close>

lemma gc_jobs_none:
  assumes "\<forall>j \<in> set jobs. job_Succeeded j \<noteq> 1"
  shows "loop jobs (gc_job_body L) names s = (Ok names, s)"
  using assms by (induction jobs) (simp_all add: gc_job_body_def bind_go_run ret_run)

lemma steady_collects:
  assumes "steady L req m nodes"
  shows "\<exists>t. only_reads (BuildGarbageCollect L n ns owner) s [] t" and "\<exists>t. only_reads (SignGarbageCollect L n ns owner) s [] t"
proof -
  have jobs: "\<exists>js. cl_ListJobs L h ns labels = Inr js \<and> (\<forall>j \<in> set js. job_Succeeded j \<noteq> 1)" for h labels
    using assms unfolding steady_def by blast
  show "\<exists>t. only_reads (BuildGarbageCollect L n ns owner) s [] t"
    using jobs [of "history s" "moduleLabels n JobTypeBuild"]
    by (auto simp: only_reads_def BuildGarbageCollect_def go_simps gc_jobs_none filterJobsByOwner_def)
  show "\<exists>t. only_reads (SignGarbageCollect L n ns owner) s [] t"
    using jobs [of "history s" "moduleLabels n JobTypeSign"]
    by (auto simp: only_reads_def SignGarbageCollect_def go_simps gc_jobs_none filterJobsByOwner_def)
qed

lemma garbageCollect_run:
  assumes "steady L req m nodes" and "GarbageCollect L dsm (map fst M) s = (Ok names, s1)"
  shows "\<exists>t rs. garbageCollect L m M dsm s = (Ok (), t) \<and> history t = history s1 @ rs \<and> list_all is_read rs"
proof -
  let ?n = "om_Name (mod_Meta m)" and ?ns = "om_Namespace (mod_Meta m)" and ?o = "owner_of_module m"
  obtain s2 where s2: "only_reads (BuildGarbageCollect L ?n ?ns ?o) s1 [] s2"
    using steady_collects(1) [OF assms(1)] by blast
  obtain t where t: "only_reads (SignGarbageCollect L ?n ?ns ?o) s2 [] t"
    using steady_collects(2) [OF assms(1)] by blast
  have "garbageCollect L m M dsm s = (Ok (), t)"
    using assms(2) s2 t unfolding only_reads_def garbageCollect_def Let_def by (auto simp: check_run ret_run)
  then show ?thesis using s2 t by (auto simp: only_reads_def)
qed

lemma garbageCollect_step:
  assumes steady: "steady L req m nodes" and st: "settled A L m (wanted_loaders L m nodes) dsm (store_at A S0 (history s))"
    and plugin: "spec_DevicePlugin (mod_Spec m) \<noteq> None \<Longrightarrow> \<exists>d \<in> set (store_at A S0 (history s)).
        ds_name d = plugin_ref m \<and> in_form A (plugin_of L m) d"
    and dist: "distinct (map fst dsm)" and run: "garbageCollect L m (wanted_loaders L m nodes) dsm s = (Ok (), t)"
  shows "store_ok A m (store_at A S0 (history t)) \<and> as_asked A L m nodes (store_at A S0 (history t))"
proof -
  let ?S = "store_at A S0 (history s)" and ?M = "wanted_loaders L m nodes"
  let ?xs = "range_map (range_order L RangeGarbageCollect) dsm"
  obtain names s1 where gc: "GarbageCollect L dsm (map fst ?M) s = (Ok names, s1)"
    using run by (auto simp: garbageCollect_def Let_def check_run split: prod.splits res.splits)
  then obtain dels where dels: "dels = map snd (filter (stale_ds (map fst ?M)) ?xs)"
      "history s1 = history s @ map (\<lambda>ds. Write (DeleteDaemonSet ds)) dels"
    using gc_ds_loop [of ?xs L "map fst ?M" "[]" s "Ok names" s1] by (auto simp: GarbageCollect_def)
  obtain rs where "history t = history s1 @ rs" "list_all is_read rs"
    using garbageCollect_run [OF steady gc] run by auto
  then have S': "store_at A S0 (history t) = filter (\<lambda>x. ds_name x \<notin> ds_name ` set dels) ?S"
    using dels(2) by (simp add: store_at_reads delete_store)
  have "set dels = {d. \<exists>k. map_of dsm k = Some d \<and> ds_kernel d \<noteq> '''' \<and> k \<notin> fst ` set ?M}"
    unfolding dels(1) using dist by (force simp: set_range_map stale_ds_def)
  from settled_collected [OF st S' this plugin] show ?thesis by blast
qed

subsection \<open>A whole run\<close>

lemma store_at_status [simp]: "perform_ds A (UpdateModuleStatus m) S = S"
  by (simp add: perform_ds_def)

lemma ModuleUpdateStatus_run:
  assumes "ds_server L A S0"
  shows "\<exists>t m'. ModuleUpdateStatus L m n1 n2 dsm s = (Ok (), t) \<and> history t = history s @ [Write (UpdateModuleStatus m')]"
proof -
  let ?m' = "m\<lparr>mod_Status := module_status L m n1 n2 dsm\<rparr>"
  obtain g where "updateMetrics L ?m' dsm s = (Ok (), s\<lparr>gauges := g\<rparr>)" using updateMetrics_run by blast
  then show ?thesis
    by (auto simp: ModuleUpdateStatus_def Let_def bind_go_run do_write_run server_answers(6) [OF assms])
qed

text \<open>The steps of a run that succeeds, in the states between them.\<close>

lemma reconcile_module_steps:
  assumes "steady L req m nodes" and "reconcile_module L m s = (Ok (), t)"
  obtains M ns dsm dsm' s1 s2 s3 s4 s5 where
    "getRelevantKernelMappingsAndNodes L m (filter isNodeSchedulable nodes) = Ok (M, ns)" "wanted_loaders L m nodes = M"
    "history s1 = history s @ [Read (ListNodes (spec_Selector (mod_Spec m)))]"
    "ModuleDaemonSetsByKernelVersion L (om_Name (mod_Meta m)) (om_Namespace (mod_Meta m)) s1 = (Ok dsm, s2)"
    "loop (range_map (range_order L RangeMldMappings) M) (reconcile_kernel L) dsm s2 = (Ok dsm', s3)"
    "handleDevicePlugin L m s3 = (Ok (), s4)" "garbageCollect L m M dsm' s4 = (Ok (), s5)"
    "ModuleUpdateStatus L m ns (filter isNodeSchedulable nodes) dsm' s5 = (Ok (), t)"
proof -
  have nodes: "cl_ListNodes L h (spec_Selector (mod_Spec m)) = Inr nodes" for h
    using assms(1) by (simp add: steady_def)
  let ?s1 = "s\<lparr>history := history s @ [Read (ListNodes (spec_Selector (mod_Spec m)))]\<rparr>"
  obtain M ns dsm dsm' s2 s3 s4 s5 where run:
    "getRelevantKernelMappingsAndNodes L m (filter isNodeSchedulable nodes) = Ok (M, ns)"
    "ModuleDaemonSetsByKernelVersion L (om_Name (mod_Meta m)) (om_Namespace (mod_Meta m)) ?s1 = (Ok dsm, s2)"
    "loop (range_map (range_order L RangeMldMappings) M) (reconcile_kernel L) dsm s2 = (Ok dsm', s3)"
    "handleDevicePlugin L m s3 = (Ok (), s4)" "garbageCollect L m M dsm' s4 = (Ok (), s5)"
    "ModuleUpdateStatus L m ns (filter isNodeSchedulable nodes) dsm' s5 = (Ok (), t)"
    using assms(2)
    by (auto simp: reconcile_module_def getNodesListBySelector_def nodes go_simps split: prod.splits res.splits)
  show ?thesis
    by (rule that [OF run(1) _ _ run(2-6)]) (simp_all add: wanted_loaders_def run(1))
qed

lemma initial_loaders:
  assumes server: "ds_server L A S0" and ok: "store_ok A m (store_at A S0 (history s))"
    and run: "ModuleDaemonSetsByKernelVersion L (om_Name (mod_Meta m)) (om_Namespace (mod_Meta m)) s = (Ok dsm, t)"
  shows "loaders_inv A L m [] dsm (store_at A S0 (history t))" and "distinct (map fst dsm)"
proof -
  let ?D = "module_ds m (store_at A S0 (history s))" and ?show = "shown A (history s)"
  have bk: "by_kernel (map ?show ?D) [] = Ok dsm" and t: "store_at A S0 (history t) = store_at A S0 (history s)"
    using run by (auto simp: ModuleDaemonSets_run server_answers(1) [OF server] module_ds_def)
  have kernels: "ds_kernel (?show d) = ds_kernel d" for d by (rule alike_names(2) [OF shown_alike [OF server]])
  have "dsm = [] @ map (\<lambda>d. (ds_kernel d, d)) (map ?show ?D) \<and> distinct (map fst dsm)"
    by (rule by_kernel_Ok [OF bk]) simp
  then have dsm: "dsm = map (\<lambda>d. (ds_kernel d, ?show d)) ?D" and dist: "distinct (map fst dsm)"
    by (auto simp: comp_def kernels)
  show "distinct (map fst dsm)" by (fact dist)
  have "inj_on ds_kernel (set ?D)" using dist unfolding dsm by (simp add: comp_def distinct_map)
  moreover have "map_of dsm k = Some e \<longleftrightarrow> (\<exists>d \<in> set ?D. e = ?show d \<and> ds_kernel d = k)" for k e
    using dist unfolding dsm by (auto simp: map_of_eq_Some_iff)
  ultimately show "loaders_inv A L m [] dsm (store_at A S0 (history t))"
    using ok shown_alike [OF server] unfolding t by (intro loaders_invI) (auto, blast)
qed

lemma relevant_kernels:
  assumes "loaders_inv A L m xs dsm S" and "(k, mld) \<in> set xs" and "GetModuleLoaderDataForKernel L m k = Ok mld"
  shows "k \<noteq> ''''"
proof -
  obtain d d' where "SetDriverContainerAsDesired L (Some d) mld = Ok d'"
    using loaders_invD(4) [OF assms(1,2)] unfolding in_form_def by blast
  from SetDriver_fields(1) [OF this] show ?thesis
    using GetModuleLoaderData_Ok_fields(1) [OF assms(3)] by simp
qed

lemma loop_keys:
  assumes "loop xs (reconcile_kernel L) dsm s = (Ok dsm', t)" and "distinct (map fst dsm)"
  shows "distinct (map fst dsm')"
  using assms
proof (induction xs arbitrary: dsm s)
  case (Cons x xs)
  obtain dsm1 s1 where first: "reconcile_kernel L x dsm s = (Ok dsm1, s1)"
    and rest: "loop xs (reconcile_kernel L) dsm1 s1 = (Ok dsm', t)"
    using Cons.prems(1) by (auto simp: bind_go_run split: prod.splits res.splits)
  have "dsm1 = dsm \<or> (\<exists>k d. dsm1 = mput dsm k d)"
    using first by (auto simp: reconcile_kernel_def Let_def check_run ret_run bind_go_run handleDriverContainer_def
        split: prod.splits res.splits if_splits)
  then show ?case using Cons.IH [OF rest] Cons.prems(2) by (auto simp: distinct_mput)
qed (simp add: ret_run)

lemma reconcile_module_settles:
  assumes server: "ds_server L A S0" and names: "new_names m A" and steady: "steady L req m nodes"
    and ok: "store_ok A m (store_at A S0 (history s))" and run: "reconcile_module L m s = (Ok (), t)"
  shows "store_ok A m (store_at A S0 (history t)) \<and> as_asked A L m nodes (store_at A S0 (history t))"
proof -
  obtain M ns dsm dsm' s1 s2 s3 s4 s5 where
    M: "getRelevantKernelMappingsAndNodes L m (filter isNodeSchedulable nodes) = Ok (M, ns)" "wanted_loaders L m nodes = M"
    and s1: "history s1 = history s @ [Read (ListNodes (spec_Selector (mod_Spec m)))]"
    and list: "ModuleDaemonSetsByKernelVersion L (om_Name (mod_Meta m)) (om_Namespace (mod_Meta m)) s1 = (Ok dsm, s2)"
    and kernels: "loop (range_map (range_order L RangeMldMappings) M) (reconcile_kernel L) dsm s2 = (Ok dsm', s3)"
    and plugin: "handleDevicePlugin L m s3 = (Ok (), s4)" and gc: "garbageCollect L m M dsm' s4 = (Ok (), s5)"
    and status: "ModuleUpdateStatus L m ns (filter isNodeSchedulable nodes) dsm' s5 = (Ok (), t)"
    by (rule reconcile_module_steps [OF steady run])
  let ?xs = "range_map (range_order L RangeMldMappings) M" and ?S = "\<lambda>s. store_at A S0 (history s)"
  have xs: "set ?xs = set M" "distinct (map fst ?xs)"
    using relevant_Ok(2) [OF M(1)] by (simp_all add: set_range_map)
  note data = relevant_Ok(1) [OF M(1)]
  have ok1: "store_ok A m (?S s1)" using ok s1 by simp
  note start = initial_loaders [OF server ok1 list]
  have inv: "loaders_inv A L m ?xs dsm' (?S s3)"
    using kernels_run [OF server names steady kernels _ _ start(1)] data xs by simp
  have loaders: "k \<noteq> ''''" if "(k, mld) \<in> set M" for k mld
    using relevant_kernels [OF inv _ data] that xs(1) by blast
  have st: "settled A L m M dsm' (?S s3)" by (rule loaders_settled [OF inv xs(1)])
  have "settled A L m M dsm' (?S s4) \<and> (spec_DevicePlugin (mod_Spec m) \<noteq> None \<longrightarrow> (\<exists>d \<in> set (?S s4).
      ds_name d = plugin_ref m \<and> in_form A (plugin_of L m) d))"
  proof (cases "spec_DevicePlugin (mod_Spec m)")
    case None
    then show ?thesis using plugin st by (simp add: handleDevicePlugin_def ret_run)
  next
    case (Some p)
    then show ?thesis
      using handleDevicePlugin_step [OF server steady_keeps [OF steady] _ st loaders plugin] by simp
  qed
  then have "store_ok A m (?S s5) \<and> as_asked A L m nodes (?S s5)"
    using garbageCollect_step [OF steady, of A dsm' S0 s4 s5] loop_keys [OF kernels start(2)] gc unfolding M(2) by blast
  moreover have "?S t = ?S s5"
    using ModuleUpdateStatus_run [OF server, of m ns "filter isNodeSchedulable nodes" dsm' s5] status by auto
  ultimately show ?thesis by simp
qed

subsection \<open>A run when everything is as asked for\<close>

text \<open>A piece of code that succeeds, and whose calls leave the store as it is.\<close>

definition idles :: "api \<Rightarrow> DaemonSet list \<Rightarrow> (op_state, 'a) go \<Rightarrow> op_state \<Rightarrow> 'a \<Rightarrow> op_state \<Rightarrow> bool" where
  "idles A S c s a t \<longleftrightarrow> c s = (Ok a, t) \<and> (\<exists>evs. history t = history s @ evs \<and> list_all (idle_event A S) evs)"

lemma idle_reads: "list_all is_read evs \<Longrightarrow> list_all (idle_event A S) evs"
  by (induction evs) (auto simp: is_read_def idle_event_def split: event.splits)

lemma idle_writes: "list_all (idle_event A S) evs \<Longrightarrow> list_all (idle_patch A S) (writes evs)"
  by (induction evs) (auto simp: idle_event_def split: event.splits)

lemma idle_store:
  assumes "distinct (map ds_name S)" and "list_all (idle_event A S) evs"
  shows "store_at A S evs = S"
  using assms(2)
proof (induction evs)
  case (Cons e evs)
  show ?case
  proof (cases e)
    case (Write w)
    then obtain old new where w: "w = PatchDaemonSet old new" "kept A new \<in> set S" "request old = kept A new"
      using Cons.prems by (cases w) (auto simp: idle_event_def idle_patch_def)
    have "alike old (kept A new)" using w(3) by (intro alike_request) simp
    from alike_names(1) [OF this] have "perform_ds A w S = S"
      unfolding w(1) using patch_store [OF assms(1) w(2)] replace_same [OF assms(1) w(2)] by simp
    then show ?thesis using Cons Write by simp
  qed (use Cons in simp)
qed simp

lemma idles_store:
  assumes "idles A S c s a t" and "store_at A S0 (history s) = S" and "distinct (map ds_name S)"
  shows "store_at A S0 (history t) = S"
  using assms idle_store by (auto simp: idles_def)

lemma CreateOrPatch_quiet:
  assumes server: "ds_server L A S0" and f: "setter f" and ok: "store_ok A m (store_at A S0 (history s))"
    and d: "d \<in> set (store_at A S0 (history s))" "ds_name ds = ds_name d" "in_form A f d"
  shows "\<exists>op v t. idles A (store_at A S0 (history s)) (CreateOrPatchDaemonSet L ds f) s (op, v) t \<and> alike v d"
proof -
  obtain e where e: "f d = Ok e" "kept A e = d" using d(3) unfolding in_form_def by blast
  have "ds_Selector e = ds_Selector d" using e(2) kept_fields(4) by metis
  then obtain op v t where run: "CreateOrPatchDaemonSet L ds f s = (Ok (op, v), t)"
    using CreateOrPatch_found_total [OF server f ok d(1,2) e(1)] by blast
  then obtain x' evs where "f d = Ok x'" "op \<noteq> OperationResultCreated" "alike v x'"
    "store_at A S0 (history t) = replace_ds d (kept A x') (store_at A S0 (history s))" "history t = history s @ evs"
    "kept A x' = d \<longrightarrow> list_all (idle_event A (store_at A S0 (history s))) evs"
    by (rule CreateOrPatch_found [OF server f ok d(1,2)]) blast
  with e run alike_trans [of v e d] alike_kept(2) [of e A] show ?thesis by (auto simp: idles_def)
qed

lemma reconcile_kernel_quiet:
  assumes server: "ds_server L A S0" and steady: "steady L req m nodes"
    and data: "GetModuleLoaderDataForKernel L m k = Ok mld" and S: "store_at A S0 (history s) = S"
    and inv: "loaders_inv A L m [] dsm S" and d: "d \<in> set (module_ds m S)" "ds_kernel d = k" "in_form A (loader_of L mld) d"
  shows "\<exists>dsm' t. idles A S (reconcile_kernel L (k, mld) dsm) s dsm' t \<and> loaders_inv A L m [] dsm' S"
proof -
  note mld = GetModuleLoaderData_Ok_fields [OF data]
  obtain s1 w rs where s1: "history s1 = history s @ rs" "list_all is_read rs"
      "reconcile_kernel L (k, mld) dsm s = check (handleDriverContainer L mld dsm) w ret s1"
    using reconcile_kernel_run [OF steady data] by blast
  have S1: "store_at A S0 (history s1) = S" using s1 S by (simp add: store_at_reads)
  obtain e x where e: "map_of dsm k = Some e" "x \<in> set (module_ds m S)" "alike e x" "ds_kernel x = k"
    using loaders_invD(2,3) [OF inv] d(1,2) by (metis empty_iff image_empty list.set(1) option.exhaust)
  then have "x = d" using loaders_invD(1) [OF inv] d(1,2) by (simp add: inj_on_def)
  then have "d \<in> set (store_at A S0 (history s1))" "ds_name e = ds_name d" "store_ok A m (store_at A S0 (history s1))"
    using d(1) e(3) alike_names(1) loaders_invD(5) [OF inv] S1 by (auto simp: set_module_ds)
  then obtain op v t1 where cop: "idles A S (CreateOrPatchDaemonSet L e (loader_of L mld)) s1 (op, v) t1" "alike v d"
    using CreateOrPatch_quiet [OF server setter_loader [OF steady_keeps [OF steady]] _ _ _ d(3)] S1 by blast
  then have "CreateOrPatchDaemonSet L (case map_of dsm (mld_KernelVersion mld) of Some e \<Rightarrow> e | None \<Rightarrow> blank_loader mld)
      (loader_of L mld) s1 = (Ok (op, v), t1)"
    using e(1) mld(1) by (simp add: idles_def)
  from handleDriverContainer_runs [OF this] obtain t where t: "handleDriverContainer L mld dsm s1 = (Ok (mput dsm k v), t)" "history t = history t1"
    using e(1) mld(1) by auto
  then have "idles A S (reconcile_kernel L (k, mld) dsm) s (mput dsm k v) t"
    using s1 cop(1) idle_reads [OF s1(2)] by (auto simp: idles_def check_run ret_run)
  moreover have "loaders_inv A L m [] (mput dsm k v) S"
  proof (rule loaders_invI [OF loaders_invD(5,1) [OF inv]])
    show "\<exists>y \<in> set (module_ds m S). alike x y \<and> ds_kernel y = k'" if "map_of (mput dsm k v) k' = Some x" for k' x
      using that loaders_invD(2) [OF inv, of k' x] d(1,2) cop(2) by (auto split: if_splits)
    show "map_of (mput dsm k v) (ds_kernel y) \<noteq> None \<or> ds_kernel y \<in> fst ` set []" if "y \<in> set (module_ds m S)" for y
      using loaders_invD(3) [OF inv that] by auto
  qed simp
  ultimately show ?thesis by blast
qed

lemma kernels_quiet:
  assumes server: "ds_server L A S0" and steady: "steady L req m nodes" and "store_at A S0 (history s) = S"
    and "loaders_inv A L m [] dsm S"
    and data: "\<And>k mld. (k, mld) \<in> set xs \<Longrightarrow> GetModuleLoaderDataForKernel L m k = Ok mld \<and>
      (\<exists>d \<in> set (module_ds m S). ds_kernel d = k \<and> in_form A (loader_of L mld) d)"
  shows "\<exists>dsm' t. idles A S (loop xs (reconcile_kernel L) dsm) s dsm' t \<and> loaders_inv A L m [] dsm' S"
  using assms(3-5)
proof (induction xs arbitrary: dsm s)
  case Nil
  then show ?case by (auto simp: idles_def ret_run)
next
  case (Cons x xs)
  obtain k mld where x: "x = (k, mld)" by (cases x)
  obtain d where d: "GetModuleLoaderDataForKernel L m k = Ok mld" "d \<in> set (module_ds m S)" "ds_kernel d = k" "in_form A (loader_of L mld) d"
    using Cons.prems(3) [of k mld] x by auto
  obtain dsm1 s1 where s1: "idles A S (reconcile_kernel L (k, mld) dsm) s dsm1 s1" "loaders_inv A L m [] dsm1 S"
    using reconcile_kernel_quiet [OF server steady d(1) Cons.prems(1,2) d(2-4)] by blast
  have "distinct (map ds_name S)" using loaders_invD(5) [OF Cons.prems(2)] by (simp add: store_ok_def)
  then have "store_at A S0 (history s1) = S" using idles_store [OF s1(1) Cons.prems(1)] by blast
  then have "\<exists>dsm' t. idles A S (loop xs (reconcile_kernel L) dsm1) s1 dsm' t \<and> loaders_inv A L m [] dsm' S"
    by (rule Cons.IH [OF _ s1(2)]) (rule Cons.prems(3), simp)
  with s1 x show ?case by (auto simp: idles_def bind_go_run)
qed

lemma handleDevicePlugin_quiet:
  assumes server: "ds_server L A S0" and keep: "keeps_references L" and ok: "store_ok A m (store_at A S0 (history s))"
    and plugin: "spec_DevicePlugin (mod_Spec m) \<noteq> None \<Longrightarrow> \<exists>d \<in> set (store_at A S0 (history s)).
        ds_name d = plugin_ref m \<and> in_form A (plugin_of L m) d"
  shows "\<exists>t. idles A (store_at A S0 (history s)) (handleDevicePlugin L m) s () t"
proof (cases "spec_DevicePlugin (mod_Spec m)")
  case None
  then show ?thesis by (auto simp: handleDevicePlugin_def idles_def ret_run)
next
  case (Some p)
  let ?S = "store_at A S0 (history s)"
  obtain d where d: "d \<in> set ?S" "ds_name d = plugin_ref m" "in_form A (plugin_of L m) d"
    using plugin Some by auto
  from Some have "spec_DevicePlugin (mod_Spec m) \<noteq> None" by simp
  then obtain s1 found where s1: "history s1 = history s @ [Read (GetDaemonSet (plugin_ref m))]" "ds_name found = plugin_ref m"
    and "found = (case find (\<lambda>d. ds_name d = plugin_ref m) ?S of Some p \<Rightarrow> shown A (history s) p | None \<Rightarrow> blank_plugin m)"
    and runs: "\<And>op v t1. CreateOrPatchDaemonSet L found (plugin_of L m) s1 = (Ok (op, v), t1) \<Longrightarrow>
        \<exists>t. handleDevicePlugin L m s = (Ok (), t) \<and> history t = history t1"
    by (rule handleDevicePlugin_eq [OF server, of m s]) blast
  have S1: "store_at A S0 (history s1) = ?S" by (simp add: s1(1))
  then have "store_ok A m (store_at A S0 (history s1))" "d \<in> set (store_at A S0 (history s1))" "ds_name found = ds_name d"
    using ok d(1,2) s1(2) by simp_all
  then obtain op v t1 where cop: "idles A ?S (CreateOrPatchDaemonSet L found (plugin_of L m)) s1 (op, v) t1"
    using CreateOrPatch_quiet [OF server setter_plugin [OF keep] _ _ _ d(3)] S1 by metis
  then obtain t where "handleDevicePlugin L m s = (Ok (), t)" "history t = history t1"
    using runs unfolding idles_def by blast
  with cop s1(1) show ?thesis by (auto simp: idles_def idle_event_def)
qed

lemma GarbageCollect_quiet:
  assumes "\<forall>x \<in> set dsm. \<not> stale_ds valid x" and "distinct (map fst dsm)"
  shows "GarbageCollect L dsm valid s = (Ok [], s)"
proof -
  have "loop xs (gc_ds_body L valid) deleted s = (Ok deleted, s)" if "\<forall>x \<in> set xs. \<not> stale_ds valid x" for xs deleted
    using that by (induction xs) (simp_all add: gc_ds_body_run bind_go_run ret_run)
  then show ?thesis using assms by (simp add: GarbageCollect_def set_range_map)
qed

lemma listed_total:
  assumes server: "ds_server L A S0" and "distinct (map ds_kernel (module_ds m (store_at A S0 (history s))))"
  shows "\<exists>dsm t. ModuleDaemonSetsByKernelVersion L (om_Name (mod_Meta m)) (om_Namespace (mod_Meta m)) s = (Ok dsm, t) \<and>
    history t = history s @ [Read (ListDaemonSets (om_Namespace (mod_Meta m)) [(ModuleNameLabel, om_Name (mod_Meta m))])]"
proof -
  have "ds_kernel (shown A h d) = ds_kernel d" for h d by (rule alike_names(2) [OF shown_alike [OF server]])
  then show ?thesis
    using by_kernel_Err [of "[]" "map (shown A (history s)) (module_ds m (store_at A S0 (history s)))"] assms(2)
    by (auto simp: ModuleDaemonSets_run server_answers(1) [OF server] module_ds_def comp_def)
qed

lemma reconcile_module_quiet:
  assumes server: "ds_server L A S0" and steady: "steady L req m nodes" and S: "store_at A S0 (history s) = S"
    and ok: "store_ok A m S" and asked: "as_asked A L m nodes S"
    and rel: "getRelevantKernelMappingsAndNodes L m (filter isNodeSchedulable nodes) = Ok (M, ns)"
  shows "\<exists>t evs m'. reconcile_module L m s = (Ok (), t) \<and> list_all (idle_event A S) evs \<and>
    history t = history s @ evs @ [Write (UpdateModuleStatus m')]"
proof -
  let ?xs = "range_map (range_order L RangeMldMappings) M"
  have M: "wanted_loaders L m nodes = M" by (simp add: wanted_loaders_def rel)
  have dist: "distinct (map ds_name S)" using ok by (simp add: store_ok_def)
  have nodes: "cl_ListNodes L h (spec_Selector (mod_Spec m)) = Inr nodes" for h
    using steady by (simp add: steady_def)
  have listed: "idles A S (getNodesListBySelector L m) s (filter isNodeSchedulable nodes)
      (s\<lparr>history := history s @ [Read (ListNodes (spec_Selector (mod_Spec m)))]\<rparr>)" (is "idles _ _ _ _ _ ?s1")
    by (simp add: idles_def getNodesListBySelector_def nodes go_simps idle_event_def)
  have S1: "store_at A S0 (history ?s1) = S" using S by simp
  have "distinct (map ds_kernel (module_ds m S))" using asked by (simp add: as_asked_def)
  then obtain dsm s2 where s2: "idles A S (ModuleDaemonSetsByKernelVersion L (om_Name (mod_Meta m)) (om_Namespace (mod_Meta m))) ?s1 dsm s2"
    using listed_total [OF server, of m ?s1] unfolding S1 by (auto simp: idles_def idle_event_def)
  have S2: "store_at A S0 (history s2) = S" by (rule idles_store [OF s2 S1 dist])
  have start: "loaders_inv A L m [] dsm S" "distinct (map fst dsm)"
    using initial_loaders [OF server, of m ?s1 dsm s2] s2 ok unfolding S1 S2 idles_def by blast+
  have xs: "GetModuleLoaderDataForKernel L m k = Ok mld \<and>
      (\<exists>d \<in> set (module_ds m S). ds_kernel d = k \<and> in_form A (loader_of L mld) d)" if "(k, mld) \<in> set ?xs" for k mld
  proof -
    have "(k, mld) \<in> set M" using that relevant_Ok(2) [OF rel] by (simp add: set_range_map)
    then show ?thesis using relevant_Ok(1) [OF rel] asked unfolding as_asked_def M by blast
  qed
  obtain dsm' s3 where s3: "idles A S (loop ?xs (reconcile_kernel L) dsm) s2 dsm' s3" and inv: "loaders_inv A L m [] dsm' S"
    using kernels_quiet [OF server steady S2 start(1) xs] by blast
  have S3: "store_at A S0 (history s3) = S" by (rule idles_store [OF s3 S2 dist])
  obtain s4 where s4: "idles A S (handleDevicePlugin L m) s3 () s4"
    using handleDevicePlugin_quiet [OF server steady_keeps [OF steady], of m s3] ok asked
    unfolding S3 as_asked_def plugin_ref_def by blast
  have keys: "distinct (map fst dsm')" using loop_keys [OF _ start(2)] s3 unfolding idles_def by blast
  have "\<not> stale_ds (map fst M) x" if "x \<in> set dsm'" for x
  proof -
    obtain k e where x: "x = (k, e)" by (cases x)
    then have "map_of dsm' k = Some e" using keys that by simp
    then obtain d where "d \<in> set (module_ds m S)" "alike e d" "ds_kernel d = k" using loaders_invD(2) [OF inv] by blast
    then show ?thesis
      using asked alike_names(2) [of e d] unfolding as_asked_def M x by (auto simp: stale_ds_def)
  qed
  then obtain s5 rs where s5: "garbageCollect L m M dsm' s4 = (Ok (), s5)" "history s5 = history s4 @ rs" "list_all is_read rs"
    using garbageCollect_run [OF steady GarbageCollect_quiet [OF _ keys]] by blast
  obtain t m' where t: "ModuleUpdateStatus L m ns (filter isNodeSchedulable nodes) dsm' s5 = (Ok (), t)"
      "history t = history s5 @ [Write (UpdateModuleStatus m')]"
    using ModuleUpdateStatus_run [OF server] by blast
  have "reconcile_module L m s = (Ok (), t)"
    using listed s2 s3 s4 s5(1) t(1)
    by (simp add: idles_def reconcile_module_def check_run bind_go_run pure_go_run ret_run rel)
  moreover have "\<exists>evs. history t = history s @ evs @ [Write (UpdateModuleStatus m')] \<and> list_all (idle_event A S) evs"
    using listed s2 s3 s4 s5(2) t(2) idle_reads [OF s5(3)] by (auto simp: idles_def)
  ultimately show ?thesis by blast
qed

subsection \<open>The status does not matter\<close>

lemma SetDevicePlugin_status [simp]:
  "SetDevicePluginAsDesired L ds (m\<lparr>mod_Status := st\<rparr>) = SetDevicePluginAsDesired L ds m"
  by (cases ds; cases "spec_DevicePlugin (mod_Spec m)") (simp_all add: SetDevicePluginAsDesired_def owner_of_module_def)

lemma status_irrelevant [simp]:
  "GetModuleLoaderDataForKernel L (m\<lparr>mod_Status := st\<rparr>) k = GetModuleLoaderDataForKernel L m k"
  "module_ds (m\<lparr>mod_Status := st\<rparr>) S = module_ds m S" "plugin_name (m\<lparr>mod_Status := st\<rparr>) = plugin_name m"
  by (simp_all add: GetModuleLoaderDataForKernel_def prepareModuleLoaderData_def owner_of_module_def module_ds_def
      plugin_name_def)

lemma relevant_loop_status [simp]:
  "relevant_loop L (m\<lparr>mod_Status := st\<rparr>) nodes M ns = relevant_loop L m nodes M ns"
  by (induction L m nodes M ns rule: relevant_loop.induct) (simp_all add: Let_def split: res.split)

lemma status_irrelevant_here [simp]:
  "getRelevantKernelMappingsAndNodes L (m\<lparr>mod_Status := st\<rparr>) nodes = getRelevantKernelMappingsAndNodes L m nodes"
  "workable L (m\<lparr>mod_Status := st\<rparr>) M S = workable L m M S"
  "store_ok A (m\<lparr>mod_Status := st\<rparr>) S = store_ok A m S" "wanted_loaders L (m\<lparr>mod_Status := st\<rparr>) nodes = wanted_loaders L m nodes"
  "as_asked A L (m\<lparr>mod_Status := st\<rparr>) nodes S = as_asked A L m nodes S"
  "new_names (m\<lparr>mod_Status := st\<rparr>) A = new_names m A"
  "steady L req (m\<lparr>mod_Status := st\<rparr>) nodes = steady L req m nodes"
  by (simp_all add: getRelevantKernelMappingsAndNodes_def store_ok_def wanted_loaders_def as_asked_def new_names_def steady_def
      workable_def adopts_def owner_of_module_def)

lemma Reconcile_run:
  assumes "steady L req m nodes"
  shows "\<exists>st s1 rs. history s1 = history s @ rs \<and> list_all is_read rs \<and>
    Reconcile L req s = reconcile_module L (m\<lparr>mod_Status := st\<rparr>) s1"
proof -
  obtain st where st: "cl_GetModule L (history s) req = Inr (m\<lparr>mod_Status := st\<rparr>)"
    using assms unfolding steady_def by blast
  let ?s0 = "s\<lparr>history := history s @ [Read (GetModule req)]\<rparr>"
  obtain s1 where s1: "only_reads (setKMMOMetrics L) ?s0 () s1"
    by (cases "cl_ListModules L (history ?s0)")
      (auto simp: only_reads_def setKMMOMetrics_def SetExistingKMMOModules_def go_simps)
  have "Reconcile L req s = reconcile_module L (m\<lparr>mod_Status := st\<rparr>) s1"
    using st s1 by (simp add: Reconcile_def attempt_run getRequestedModule_run bind_go_run only_reads_def)
  moreover obtain rs where "history s1 = history ?s0 @ rs" "list_all is_read rs" using s1 by (auto simp: only_reads_def)
  ultimately show ?thesis
    by (intro exI [of _ st] exI [of _ s1] exI [of _ "Read (GetModule req) # rs"]) simp
qed

lemma Reconcile_step:
  assumes server: "ds_server L A S0" and steady: "steady L req m nodes" and S: "store_at A S0 (history s) = S"
    and store: "store_ok A m S" "as_asked A L m nodes S"
    and rel: "getRelevantKernelMappingsAndNodes L m (filter isNodeSchedulable nodes) = Ok (M, ns)"
  shows "\<exists>t ws m'. Reconcile L req s = (Ok (), t) \<and> store_at A S0 (history t) = S \<and> list_all (idle_patch A S) ws \<and>
    writes (history t) = writes (history s) @ ws @ [UpdateModuleStatus m']"
proof -
  obtain st s1 rs where s1: "history s1 = history s @ rs" "list_all is_read rs"
      "Reconcile L req s = reconcile_module L (m\<lparr>mod_Status := st\<rparr>) s1"
    using Reconcile_run [OF steady] by blast
  have S1: "store_at A S0 (history s1) = S" using s1 S by (simp add: store_at_reads)
  obtain t evs m' where t: "reconcile_module L (m\<lparr>mod_Status := st\<rparr>) s1 = (Ok (), t)" "list_all (idle_event A S) evs"
      "history t = history s1 @ evs @ [Write (UpdateModuleStatus m')]"
    using reconcile_module_quiet [OF server _ S1, of req "m\<lparr>mod_Status := st\<rparr>" nodes M ns] steady store rel by auto
  have "store_at A S evs = S"
    by (rule idle_store [OF _ t(2)]) (use store(1) in \<open>simp add: store_ok_def\<close>)
  then show ?thesis
    using s1 t(1,3) idle_writes [OF t(2)] S
    by (intro exI [of _ t] exI [of _ "writes evs"] exI [of _ m']) (simp add: writes_of_reads store_at_reads)
qed

lemma repeatedly_quiet:
  assumes server: "ds_server L A S0" and steady: "steady L req m nodes" and S: "store_at A S0 (history s) = S"
    and store: "store_ok A m S" "as_asked A L m nodes S"
    and rel: "getRelevantKernelMappingsAndNodes L m (filter isNodeSchedulable nodes) = Ok (M, ns)"
  shows "\<exists>t ws. repeatedly L req n s = (Ok (), t) \<and> store_at A S0 (history t) = S \<and>
    writes (history t) = writes (history s) @ ws \<and> list_all (\<lambda>w. is_status w \<or> idle_patch A S w) ws \<and>
    length (filter is_status ws) = n"
  using S
proof (induction n arbitrary: s)
  case 0
  then show ?case by (simp add: ret_run)
next
  case (Suc n)
  obtain s1 ws m' where s1: "Reconcile L req s = (Ok (), s1)" "store_at A S0 (history s1) = S" "list_all (idle_patch A S) ws"
      "writes (history s1) = writes (history s) @ ws @ [UpdateModuleStatus m']"
    using Reconcile_step [OF server steady Suc.prems store rel] by blast
  obtain t ws' where t: "repeatedly L req n s1 = (Ok (), t)" "store_at A S0 (history t) = S"
      "writes (history t) = writes (history s1) @ ws'" "list_all (\<lambda>w. is_status w \<or> idle_patch A S w) ws'" "length (filter is_status ws') = n"
    using Suc.IH [OF s1(2)] by blast
  have "filter is_status ws = []"
    using s1(3) by (auto simp: filter_empty_conv list_all_iff is_status_def idle_patch_def split: write_call.splits)
  moreover have status: "is_status (UpdateModuleStatus m')" by (simp add: is_status_def)
  ultimately show ?case
    using s1 t by (intro exI [of _ t] exI [of _ "ws @ UpdateModuleStatus m' # ws'"]) (auto simp: bind_go_run status list_all_iff)
qed

subsection \<open>A run does not fail\<close>

lemma SetDriver_total:
  assumes "GetModuleLoaderDataForKernel L m k = Ok mld" and "k \<noteq> ''''" and "mld_ContainerImage mld \<noteq> ''''" and "adopts L m d"
  shows "\<exists>d'. SetDriverContainerAsDesired L (Some d) mld = Ok d'"
  using assms(2-4) GetModuleLoaderData_Ok_fields(1,6) [OF assms(1)]
  by (auto simp: SetDriverContainerAsDesired_def Let_def ds_with_owner_Ok_iff adopts_def)

lemma SetDevicePlugin_total:
  assumes "spec_DevicePlugin (mod_Spec m) \<noteq> None" and "adopts L m d"
  shows "\<exists>d'. SetDevicePluginAsDesired L (Some d) m = Ok d'"
  using assms by (auto simp: SetDevicePluginAsDesired_def Let_def ds_with_owner_Ok_iff adopts_def)

lemma adopts_new [simp]:
  "adopts L m (zero_DaemonSet\<lparr>ds_Meta := zero_ObjectMeta\<lparr>om_Namespace := ns, om_GenerateName := g\<rparr>\<rparr>) = adopts L m zero_DaemonSet"
  "adopts L m (zero_DaemonSet\<lparr>ds_Meta := zero_ObjectMeta\<lparr>om_Namespace := ns, om_Name := n\<rparr>\<rparr>) = adopts L m zero_DaemonSet"
  by (simp_all add: adopts_def zero_defs)

lemma handleDriverContainer_total:
  assumes server: "ds_server L A S0" and names: "new_names m A" and keep: "keeps_references L"
    and data: "GetModuleLoaderDataForKernel L m k = Ok mld"
    and ok: "k \<noteq> ''''" "mld_ContainerImage mld \<noteq> ''''" and fresh: "adopts L m zero_DaemonSet"
    and inv: "loaders_inv A L m ys dsm (store_at A S0 (history s))"
    and work: "\<And>x. x \<in> set (module_ds m (store_at A S0 (history s))) \<Longrightarrow> ds_kernel x = k \<Longrightarrow>
      adopts L m x \<and> keeps_selector (loader_of L mld) x"
  shows "\<exists>dsm' t. handleDriverContainer L mld dsm s = (Ok dsm', t)"
proof -
  let ?S = "store_at A S0 (history s)"
  note store = loaders_invD(5) [OF inv]
  have "\<exists>op d t. CreateOrPatchDaemonSet L (case map_of dsm k of Some e \<Rightarrow> e | None \<Rightarrow> blank_loader mld) (loader_of L mld) s =
      (Ok (op, d), t)"
  proof (cases "map_of dsm k")
    case None
    obtain d0 where d0: "SetDriverContainerAsDesired L (Some (blank_loader mld)) mld = Ok d0"
      using SetDriver_total [OF data ok, of "blank_loader mld"] fresh by auto
    note new_ds = new_loader [OF server names keep data store d0]
    show ?thesis
      using CreateOrPatch_missing [where f = "loader_of L mld", OF server new_ds(1) d0 new_ds(8)] None by (metis option.case(1))
  next
    case (Some e)
    obtain x where x: "x \<in> set (module_ds m ?S)" "alike e x" "ds_kernel x = k" using loaders_invD(2) [OF inv Some] by blast
    obtain x' where x': "SetDriverContainerAsDesired L (Some x) mld = Ok x'" "ds_Selector x' = ds_Selector x"
      using SetDriver_total [OF data ok, of x] work [OF x(1,3)] unfolding keeps_selector_def by blast
    have "x \<in> set ?S" using x(1) by (simp add: set_module_ds)
    from CreateOrPatch_found_total [where f = "loader_of L mld", OF server setter_loader [OF keep] store this alike_names(1) [OF x(2)] x']
    show ?thesis by (simp add: Some)
  qed
  then show ?thesis
    using handleDriverContainer_runs [of L mld dsm s] GetModuleLoaderData_Ok_fields(1) [OF data] by blast
qed

lemma kernels_total:
  assumes server: "ds_server L A S0" and names: "new_names m A" and steady: "steady L req m nodes"
    and data: "\<And>k mld. (k, mld) \<in> set xs \<Longrightarrow> GetModuleLoaderDataForKernel L m k = Ok mld \<and> k \<noteq> '''' \<and> mld_ContainerImage mld \<noteq> ''''"
    and fresh: "adopts L m zero_DaemonSet" and dist: "distinct (map fst (ys @ xs))"
    and inv: "loaders_inv A L m ys dsm (store_at A S0 (history s))"
    and work: "\<And>x k mld. x \<in> set (module_ds m (store_at A S0 (history s))) \<Longrightarrow> (k, mld) \<in> set xs \<Longrightarrow> ds_kernel x = k \<Longrightarrow>
      adopts L m x \<and> keeps_selector (loader_of L mld) x"
  shows "\<exists>dsm' t. loop xs (reconcile_kernel L) dsm s = (Ok dsm', t)"
  using data dist inv work
proof (induction xs arbitrary: ys dsm s)
  case Nil
  then show ?case by (simp add: ret_run)
next
  case (Cons x xs)
  obtain k mld where x: "x = (k, mld)" by (cases x)
  have mld: "GetModuleLoaderDataForKernel L m k = Ok mld" and ok: "k \<noteq> ''''" "mld_ContainerImage mld \<noteq> ''''"
    using Cons.prems(1) [of k mld] x by simp_all
  obtain s1 w rs where s1: "history s1 = history s @ rs" "list_all is_read rs"
      "reconcile_kernel L (k, mld) dsm s = check (handleDriverContainer L mld dsm) w ret s1"
    using reconcile_kernel_run [OF steady mld] by blast
  have S1: "store_at A S0 (history s1) = store_at A S0 (history s)" using s1 by (simp add: store_at_reads)
  have inv1: "loaders_inv A L m ys dsm (store_at A S0 (history s1))" using Cons.prems(3) S1 by simp
  have "\<exists>dsm' t. handleDriverContainer L mld dsm s1 = (Ok dsm', t)"
    by (rule handleDriverContainer_total [OF server names steady_keeps [OF steady] mld ok fresh inv1])
      (use Cons.prems(4) [of _ k mld] x S1 in auto)
  then obtain dsm1 s2 where run: "handleDriverContainer L mld dsm s1 = (Ok dsm1, s2)" by blast
  have step: "loaders_inv A L m (ys @ [(k, mld)]) dsm1 (store_at A S0 (history s2))"
      "\<forall>x \<in> set (store_at A S0 (history s2)). x \<in> set (store_at A S0 (history s)) \<or> ds_kernel x = k \<and> k \<noteq> ''''"
    using handleDriverContainer_step [OF server names steady_keeps [OF steady] mld _ inv1 run] Cons.prems(2) x S1 by simp_all
  have "\<exists>dsm' t. loop xs (reconcile_kernel L) dsm1 s2 = (Ok dsm', t)"
  proof (rule Cons.IH [OF _ _ step(1)])
    show "adopts L m y \<and> keeps_selector (loader_of L mld') y"
      if "y \<in> set (module_ds m (store_at A S0 (history s2)))" "(k', mld') \<in> set xs" "ds_kernel y = k'" for y k' mld'
    proof -
      have "k' \<in> fst ` set xs" using that(2) by (metis fst_conv image_eqI)
      then have "k' \<noteq> k" using Cons.prems(2) x by auto
      then have "y \<in> set (module_ds m (store_at A S0 (history s)))"
        using that(1,3) step(2) by (auto simp: set_module_ds)
      then show ?thesis using Cons.prems(4) [of y k' mld'] that(2,3) by simp
    qed
  qed (use Cons.prems(1,2) x in auto)
  moreover have "reconcile_kernel L (k, mld) dsm s = (Ok dsm1, s2)" using s1(3) run by (simp add: check_run ret_run)
  ultimately show ?case using x by (auto simp: bind_go_run)
qed

lemma handleDevicePlugin_total:
  assumes server: "ds_server L A S0" and keep: "keeps_references L" and ok: "store_ok A m (store_at A S0 (history s))"
    and fresh: "adopts L m zero_DaemonSet"
    and plugin: "\<And>d. d \<in> set (store_at A S0 (history s)) \<Longrightarrow> ds_name d = plugin_ref m \<Longrightarrow>
      adopts L m d \<and> keeps_selector (plugin_of L m) d"
  shows "\<exists>t. handleDevicePlugin L m s = (Ok (), t)"
proof (cases "spec_DevicePlugin (mod_Spec m) = None")
  case True
  then show ?thesis by (simp add: handleDevicePlugin_def ret_run)
next
  case False
  let ?S = "store_at A S0 (history s)"
  obtain s1 found where s1: "history s1 = history s @ [Read (GetDaemonSet (plugin_ref m))]"
    and found: "found = (case find (\<lambda>d. ds_name d = plugin_ref m) ?S of Some p \<Rightarrow> shown A (history s) p | None \<Rightarrow> blank_plugin m)"
      "ds_name found = plugin_ref m"
    and runs: "\<And>op v t1. CreateOrPatchDaemonSet L found (plugin_of L m) s1 = (Ok (op, v), t1) \<Longrightarrow>
        \<exists>t. handleDevicePlugin L m s = (Ok (), t) \<and> history t = history t1"
    by (rule handleDevicePlugin_eq [OF server False, of s]) blast
  have S1: "store_at A S0 (history s1) = ?S" by (simp add: s1)
  have "\<exists>op v t1. CreateOrPatchDaemonSet L found (plugin_of L m) s1 = (Ok (op, v), t1)"
  proof (cases "find (\<lambda>d. ds_name d = plugin_ref m) ?S")
    case (Some p)
    then have p: "p \<in> set ?S" "ds_name p = plugin_ref m" by (auto simp: find_Some_iff)
    obtain d where d: "SetDevicePluginAsDesired L (Some p) m = Ok d" "ds_Selector d = ds_Selector p"
      using SetDevicePlugin_total [OF False, of L p] plugin [OF p] unfolding keeps_selector_def by blast
    have "store_ok A m (store_at A S0 (history s1))" "p \<in> set (store_at A S0 (history s1))" "ds_name found = ds_name p"
      using ok p found(2) S1 by simp_all
    then show ?thesis by (rule CreateOrPatch_found_total [where f = "plugin_of L m", OF server setter_plugin [OF keep] _ _ _ d])
  next
    case None
    then have z: "found = blank_plugin m" by (simp add: found)
    obtain d where d: "SetDevicePluginAsDesired L (Some (blank_plugin m)) m = Ok d"
      using SetDevicePlugin_total [OF False, of L "blank_plugin m"] fresh by auto
    have "plugin_ref m \<notin> ds_name ` set ?S" using None by (auto simp: find_None_iff)
    moreover have "ds_name d = plugin_ref m" using setterD(3) [OF setter_plugin [OF keep] d] found(2) z by simp
    moreover from this have "named n d = d" for n by (simp add: named_def plugin_names plugin_name_def)
    ultimately have miss: "ds_name (blank_plugin m) \<notin> ds_name ` set (store_at A S0 (history s1))"
      "ds_name (named (new_name A (store_at A S0 (history s1))) d) \<notin> ds_name ` set (store_at A S0 (history s1))"
      using found(2) S1 unfolding z by simp_all
    show ?thesis unfolding z by (rule CreateOrPatch_missing [where f = "plugin_of L m", OF server miss(1) d miss(2)]) blast
  qed
  then show ?thesis using runs by blast
qed

lemma GarbageCollect_total:
  assumes "ds_server L A S0"
  shows "\<exists>names t. GarbageCollect L dsm valid s = (Ok names, t)"
proof -
  have "\<exists>names t. loop xs (gc_ds_body L valid) deleted s = (Ok names, t)" for xs deleted
    by (induction xs arbitrary: deleted s)
      (simp_all add: gc_ds_body_run go_simps server_answers(6) [OF assms])
  then show ?thesis by (simp add: GarbageCollect_def)
qed

lemma reconcile_module_total:
  assumes server: "ds_server L A S0" and names: "new_names m A" and steady: "steady L req m nodes"
    and ok: "store_ok A m (store_at A S0 (history s))"
    and rel: "getRelevantKernelMappingsAndNodes L m (filter isNodeSchedulable nodes) = Ok (M, ns)"
    and work: "workable L m M (store_at A S0 (history s))"
  shows "\<exists>t. reconcile_module L m s = (Ok (), t)"
proof -
  let ?S = "store_at A S0 (history s)" and ?xs = "range_map (range_order L RangeMldMappings) M"
  note work = work [unfolded workable_def plugin_ref_def [symmetric]]
  have nodes: "cl_ListNodes L h (spec_Selector (mod_Spec m)) = Inr nodes" for h
    using steady by (simp add: steady_def)
  define s1 where "s1 = s\<lparr>history := history s @ [Read (ListNodes (spec_Selector (mod_Spec m)))]\<rparr>"
  have S1: "store_at A S0 (history s1) = ?S" by (simp add: s1_def)
  obtain dsm s2 where s2: "ModuleDaemonSetsByKernelVersion L (om_Name (mod_Meta m)) (om_Namespace (mod_Meta m)) s1 = (Ok dsm, s2)"
      "store_at A S0 (history s2) = ?S"
    using listed_total [OF server, of m s1] work unfolding S1 by (auto simp: s1_def)
  have inv: "loaders_inv A L m [] dsm (store_at A S0 (history s2))"
    using initial_loaders(1) [OF server _ s2(1)] ok unfolding S1 by blast
  have xs: "set ?xs = set M" "distinct (map fst ?xs)"
    using relevant_Ok(2) [OF rel] by (simp_all add: set_range_map)
  note data = relevant_Ok(1) [OF rel]
  have "\<exists>dsm' s3. loop ?xs (reconcile_kernel L) dsm s2 = (Ok dsm', s3)"
  proof (rule kernels_total [OF server names steady _ _ _ inv])
    show "adopts L m x \<and> keeps_selector (loader_of L mld) x"
      if "x \<in> set (module_ds m (store_at A S0 (history s2)))" "(k, mld) \<in> set ?xs" "ds_kernel x = k" for x k mld
      using that work unfolding s2(2) xs(1) by blast
  qed (use data work xs in auto)
  then obtain dsm' s3 where s3: "loop ?xs (reconcile_kernel L) dsm s2 = (Ok dsm', s3)" by blast
  have after: "loaders_inv A L m ?xs dsm' (store_at A S0 (history s3))"
      "\<forall>x \<in> set (store_at A S0 (history s3)). x \<in> set ?S \<or> ds_kernel x \<noteq> ''''"
    using kernels_run [OF server names steady s3 _ _ inv] data xs s2(2) by auto
  have "\<exists>s4. handleDevicePlugin L m s3 = (Ok (), s4)"
  proof (rule handleDevicePlugin_total [OF server steady_keeps [OF steady] loaders_invD(5) [OF after(1)]])
    show "adopts L m d \<and> keeps_selector (plugin_of L m) d" if "d \<in> set (store_at A S0 (history s3))" "ds_name d = plugin_ref m" for d
      using that work after(2) loaders_invD(5) [OF after(1)] unfolding store_ok_def plugin_names by blast
  qed (use work in blast)
  then obtain s4 where s4: "handleDevicePlugin L m s3 = (Ok (), s4)" by blast
  obtain names' s5 where "GarbageCollect L dsm' (map fst M) s4 = (Ok names', s5)"
    using GarbageCollect_total [OF server] by blast
  then obtain s6 where s6: "garbageCollect L m M dsm' s4 = (Ok (), s6)"
    using garbageCollect_run [OF steady] by blast
  obtain t where "ModuleUpdateStatus L m ns (filter isNodeSchedulable nodes) dsm' s6 = (Ok (), t)"
    using ModuleUpdateStatus_run [OF server] by blast
  then have "reconcile_module L m s = (Ok (), t)"
    using s2(1) s3 s4 s6
    by (simp add: reconcile_module_def getNodesListBySelector_def nodes rel go_simps s1_def)
  then show ?thesis by blast
qed

subsection \<open>A cluster for the example\<close>

definition settling_module :: Module where
  "settling_module = sample_module [sample_mapping None None]"

definition longer_name :: "DaemonSet list \<Rightarrow> string" where
  "longer_name S = plugin_name settling_module @ concat (map (\<lambda>d. om_Name (ds_Meta d)) S) @ ''x''"

text \<open>
  The server sets the pull policy of containers that come without one, gives out UIDs and shows a
  status that changes with time.
\<close>

definition set_policy :: "Container \<Rightarrow> Container" where
  "set_policy c = (if c_ImagePullPolicy c = '''' then c\<lparr>c_ImagePullPolicy := ''IfNotPresent''\<rparr> else c)"

definition settling_api :: api where
  "settling_api = \<lparr>new_name = longer_name,
     defaults = (\<lambda>t. t\<lparr>pt_Spec := (pt_Spec t)\<lparr>ps_Containers := map set_policy (ps_Containers (pt_Spec t))\<rparr>\<rparr>),
     shown = (\<lambda>h d. d\<lparr>ds_Meta := (ds_Meta d)\<lparr>om_UID := ''uid-'' @ om_Name (ds_Meta d)\<rparr>,
       ds_DesiredNumberScheduled := 1, ds_NumberAvailable := of_nat (length h)\<rparr>)\<rparr>"

definition settling_cluster :: env where
  "settling_cluster = (module_cluster settling_module [])\<lparr>
     SetControllerReference := (\<lambda>o1 rs. let r = \<lparr>or_Kind = own_Kind o1, or_Name = om_Name (own_Meta o1),
       or_UID = om_UID (own_Meta o1), or_Controller = True\<rparr> in Inr (if r \<in> set rs then rs else rs @ [r])),
     cl_ListDaemonSets := (\<lambda>h ns labels. Inr (map (shown settling_api h) (filter (ds_selected ns labels) (store_at settling_api [] h)))),
     cl_GetDaemonSet := (\<lambda>h nn. case find (\<lambda>d. ds_name d = nn) (store_at settling_api [] h) of
        Some d \<Rightarrow> Inr (shown settling_api h d) | None \<Rightarrow> Inl (NotFound ''daemonset'')),
     cl_CreateDaemonSet := (\<lambda>h ds. Inr (shown settling_api h (kept settling_api (named (longer_name (store_at settling_api [] h)) ds)))),
     cl_PatchDaemonSet := (\<lambda>h old ds. if \<exists>x \<in> set (store_at settling_api [] h). ds_name x = ds_name old \<and> ds_Selector x = ds_Selector ds
        then Inr (shown settling_api h (kept settling_api ds)) else Inl (Errorf ''field is immutable'' []))\<rparr>"

lemma settling_sel:
  "cl_GetModule settling_cluster h n = Inr settling_module" "cl_ListModules settling_cluster h = Inr []"
  "cl_ListNodes settling_cluster h sel = Inr [sample_node ''n1'' ''5.4.0-gke'']"
  "cl_ListJobs settling_cluster h ns sel = Inr []" "cl_Write settling_cluster h w = Inr ()"
  "range_order settling_cluster site ks = ks"
  by (simp_all add: settling_cluster_def module_cluster_sel)

lemma settling_server: "ds_server settling_cluster settling_api []"
proof -
  have "defaults settling_api (defaults settling_api t) = defaults settling_api t" for t
    by (simp add: settling_api_def set_policy_def)
  moreover have "request (shown settling_api h d) = request d" for h d
    by (simp add: settling_api_def request_def)
  moreover have "new_name settling_api = longer_name" by (simp add: settling_api_def)
  ultimately show ?thesis
    by (simp add: ds_server_def settling_cluster_def module_cluster_sel)
qed

lemma settling_names: "new_names settling_module settling_api"
proof -
  have "longer_name S \<noteq> om_Name (ds_Meta d)" if "d \<in> set S" for d S
  proof -
    have "length (om_Name (ds_Meta d)) \<le> sum_list (map (\<lambda>d. length (om_Name (ds_Meta d))) S)"
      using that by (simp add: member_le_sum_list)
    also have "\<dots> < length (longer_name S)"
      by (simp add: longer_name_def length_concat comp_def)
    finally show ?thesis by auto
  qed
  then show ?thesis by (auto simp: new_names_def longer_name_def settling_api_def)
qed

lemma settling_mld:
  "GetModuleLoaderDataForKernel settling_cluster settling_module k = Ok mld \<longleftrightarrow>
     k = ''5.4.0-gke'' \<and> mld = sample_mld None None"
  by (auto simp: GetModuleLoaderDataForKernel_def prepareModuleLoaderData_def replaceTemplates_def
      KernelComponentsAsEnvVars_eq is_kernel_sep_def Let_def owner_of_module_def settling_cluster_def
      settling_module_def module_cluster_def sample_defs check_res_Ok_iff split: if_splits)

lemma settling_steady: "steady settling_cluster sample_request settling_module [sample_node ''n1'' ''5.4.0-gke'']"
proof -
  have "keeps_references settling_cluster"
    by (auto simp: keeps_references_def settling_cluster_def Let_def)
  moreover have "\<exists>st. Inr settling_module = Inr (settling_module\<lparr>mod_Status := st\<rparr>)"
    by (rule exI [of _ "mod_Status settling_module"]) simp
  ultimately show ?thesis
    by (auto simp: steady_def settling_sel settling_mld ShouldBeBuilt_def ShouldBeSigned_def sample_mld_def)
qed

lemma settling_relevant:
  "getRelevantKernelMappingsAndNodes settling_cluster settling_module
       (filter isNodeSchedulable [sample_node ''n1'' ''5.4.0-gke'']) =
     Ok ([(''5.4.0-gke'', sample_mld None None)], [sample_node ''n1'' ''5.4.0-gke''])"
proof -
  have "GetModuleLoaderDataForKernel settling_cluster settling_module ''5.4.0-gke'' = Ok (sample_mld None None)"
    by (simp add: settling_mld)
  then show ?thesis
    by (simp add: getRelevantKernelMappingsAndNodes_def node_kernel_def TrimSuffix_def HasSuffix_def sample_node_def Let_def
        isNodeSchedulable_def)
qed

lemma settling_store:
  "store_ok settling_api settling_module (store_at settling_api [] (history fresh_state))"
  "workable settling_cluster settling_module [(''5.4.0-gke'', sample_mld None None)]
     (store_at settling_api [] (history fresh_state))"
  by (simp_all add: store_ok_def workable_def adopts_def module_ds_def fresh_state_def settling_cluster_def Let_def
      sample_mld_def)

lemma settling_run: "\<exists>t. Reconcile settling_cluster sample_request fresh_state = (Ok (), t)"
proof -
  obtain st s1 rs where s1: "history s1 = history fresh_state @ rs" "list_all is_read rs"
      "Reconcile settling_cluster sample_request fresh_state = reconcile_module settling_cluster (settling_module\<lparr>mod_Status := st\<rparr>) s1"
    using Reconcile_run [OF settling_steady] by blast
  have "\<exists>t. reconcile_module settling_cluster (settling_module\<lparr>mod_Status := st\<rparr>) s1 = (Ok (), t)"
    using reconcile_module_total [OF settling_server, of "settling_module\<lparr>mod_Status := st\<rparr>" sample_request _ s1]
      s1(1,2) settling_names settling_steady settling_store settling_relevant
    by (simp add: store_at_reads del: filter.simps)
  then show ?thesis using s1(3) by simp
qed

section \<open>Properties\<close>

text \<open>
  C5. A reconciliation succeeds where it can.  Let the API server keep DaemonSets and answer requests on
  them without failing, in the form it shows: with its defaults in the pod template, with UIDs,
  annotations and a status of its own; it rejects only a patch that changes a selector.  Let it give new
  names to the DaemonSets that come without one.  Let the rest of the cluster be steady: the Module is
  there and its specification does not change, nodes and jobs are listed, no job has succeeded since its
  collection, the registry shows for each mapping that is built or signed that the image is there (the
  pull secret can be read), and setting a controller reference again changes nothing.  Let the store be
  in order: DaemonSets in the server's form with distinct names, and the name of the device plugin for the
  one of the Module without a kernel label.  If the mappings of the kernels can be computed and give an
  image for a kernel that is not empty, no kernel has two DaemonSets, none of the Module's DaemonSets
  belongs to another controller and they have the selectors the Module asks for, then the run comes to
  its end without an error.
\<close>

theorem Reconcile_succeeds:
  assumes "ds_server L A S0" and "new_names m A" and "steady L req m nodes"
    and "store_ok A m (store_at A S0 (history s))"
    and "getRelevantKernelMappingsAndNodes L m (filter isNodeSchedulable nodes) = Ok (M, ns)"
    and "workable L m M (store_at A S0 (history s))"
  shows "\<exists>t. Reconcile L req s = (Ok (), t)"
proof -
  obtain st s1 rs where s1: "history s1 = history s @ rs" "list_all is_read rs"
      "Reconcile L req s = reconcile_module L (m\<lparr>mod_Status := st\<rparr>) s1"
    using Reconcile_run [OF assms(3)] by blast
  have "\<exists>t. reconcile_module L (m\<lparr>mod_Status := st\<rparr>) s1 = (Ok (), t)"
    by (rule reconcile_module_total [OF assms(1)]) (use assms s1(1,2) in \<open>simp_all add: store_at_reads\<close>)
  then show ?thesis using s1(3) by simp
qed

theorem Reconcile_succeeds_witness:
  "\<exists>t. Reconcile settling_cluster sample_request fresh_state = (Ok (), t)"
proof -
  show ?thesis
    by (rule Reconcile_succeeds [OF settling_server settling_names settling_steady settling_store(1)
          settling_relevant settling_store(2)])
qed



end
