(* ===== verification/Job_Lifecycle.thy ===== *)
theory Job_Lifecycle
  imports Sign_Job
begin

text \<open>
  The life of the build and sign jobs over many runs.  The other theories judge one run of a manager
  against arbitrary answers of the cluster; here the jobs of the cluster are a state, a list of jobs,
  and the runs of the two managers, the job controller and the users are steps on it.  Shown are what
  holds of the jobs in every reachable state, that one synchronisation implements a small abstract
  state machine (\<open>sync_spec\<close>), and that two synchronisations suffice to replace an outdated job.

  The list requests are answered from the current state.  A client that reads from a cache which lags
  behind may see an older list, and then the operator can create a second job.
\<close>

section \<open>The jobs of the cluster\<close>

type_synonym controls = "OwnerReference list \<Rightarrow> Owner \<Rightarrow> bool"

text \<open>How the server selects jobs by namespace and labels.\<close>

definition job_selected :: "string \<Rightarrow> smap \<Rightarrow> Job \<Rightarrow> bool" where
  "job_selected ns labels j \<longleftrightarrow> om_Namespace (job_Meta j) = ns \<and>
     list_all (\<lambda>(k, v). map_of (om_Labels (job_Meta j)) k = Some v) labels"

text \<open>
  What \<open>SetControllerReference\<close> and \<open>IsControlledBy\<close> promise together: an object that was given a
  controller reference to an owner is controlled by it.
\<close>

definition controller_law :: "env \<Rightarrow> bool" where
  "controller_law L \<longleftrightarrow> (\<forall>owner refs refs'. SetControllerReference L owner refs = Inr refs' \<longrightarrow> IsControlledBy L refs' owner)"

text \<open>An environment whose list requests see the jobs \<open>js\<close>; every request may still fail.\<close>

definition cluster_env :: "controls \<Rightarrow> Job list \<Rightarrow> env \<Rightarrow> bool" where
  "cluster_env ctl js L \<longleftrightarrow> IsControlledBy L = ctl \<and> controller_law L \<and>
     (\<forall>h ns labels xs. cl_ListJobs L h ns labels = Inr xs \<longrightarrow> xs = filter (job_selected ns labels) js)"

text \<open>An environment in which no request on jobs fails.\<close>

definition reliable :: "env \<Rightarrow> bool" where
  "reliable L \<longleftrightarrow> (\<forall>h ns labels e. cl_ListJobs L h ns labels \<noteq> Inl e) \<and> (\<forall>h w. cl_Write L h w = Inr ())"

text \<open>The server names what it creates, and a deletion removes the job of that namespace and name.\<close>

definition stored :: "string \<Rightarrow> string \<Rightarrow> Job \<Rightarrow> Job" where
  "stored nm uid j = j\<lparr>job_Meta := (job_Meta j)\<lparr>om_Name := nm, om_UID := uid\<rparr>\<rparr>"

definition perform :: "string \<Rightarrow> string \<Rightarrow> write_call \<Rightarrow> Job list \<Rightarrow> Job list" where
  "perform nm uid w js =
     (case w of
        CreateJob j \<Rightarrow> js @ [stored nm uid j]
      | DeleteJob j \<Rightarrow> filter (\<lambda>x. \<not> (om_Namespace (job_Meta x) = om_Namespace (job_Meta j) \<and>
          om_Name (job_Meta x) = om_Name (job_Meta j))) js
      | _ \<Rightarrow> js)"

text \<open>
  The effect of a sequence of calls on the jobs: a write is carried out, or it is not, whatever the
  operator was told.
\<close>

inductive served :: "Job list \<Rightarrow> history \<Rightarrow> Job list \<Rightarrow> bool" where
  nothing: "served js [] js"
| reading: "served js evs js' \<Longrightarrow> served js (Read c # evs) js'"
| lost: "served js evs js' \<Longrightarrow> served js (Write w # evs) js'"
| carried_out: "served (perform nm uid w js) evs js' \<Longrightarrow> served js (Write w # evs) js'"

inductive_cases served_NilE: "served js [] js'"
inductive_cases served_ReadE: "served js (Read c # evs) js'"
inductive_cases served_WriteE: "served js (Write w # evs) js'"

text \<open>
  The steps: a run of one of the four operations of the managers for \<open>owner\<close>, for any data, in any
  state of the operator; progress of a job; a job removed by anyone; a job that \<open>owner\<close> does not
  control created by anyone.
\<close>

inductive job_step :: "controls \<Rightarrow> Owner \<Rightarrow> Job list \<Rightarrow> Job list \<Rightarrow> bool" for ctl owner where
  build: "cluster_env ctl js L \<Longrightarrow> BuildSync L mld push owner s = (r, t) \<Longrightarrow> history t = history s @ evs \<Longrightarrow>
    served js evs js' \<Longrightarrow> job_step ctl owner js js'"
| sign: "cluster_env ctl js L \<Longrightarrow> SignSync L mld img push owner s = (r, t) \<Longrightarrow> history t = history s @ evs \<Longrightarrow>
    served js evs js' \<Longrightarrow> job_step ctl owner js js'"
| build_gc: "cluster_env ctl js L \<Longrightarrow> BuildGarbageCollect L n ns owner s = (rg, t) \<Longrightarrow> history t = history s @ evs \<Longrightarrow>
    served js evs js' \<Longrightarrow> job_step ctl owner js js'"
| sign_gc: "cluster_env ctl js L \<Longrightarrow> SignGarbageCollect L n ns owner s = (rg, t) \<Longrightarrow> history t = history s @ evs \<Longrightarrow>
    served js evs js' \<Longrightarrow> job_step ctl owner js js'"
| progress: "job_Meta j' = job_Meta j \<Longrightarrow> job_step ctl owner (xs @ j # ys) (xs @ j' # ys)"
| removed: "job_step ctl owner (xs @ j # ys) (xs @ ys)"
| foreign: "\<not> ctl (om_OwnerReferences (job_Meta j)) owner \<Longrightarrow> job_step ctl owner js (js @ [j])"

section \<open>The specification\<close>

text \<open>
  For one Module, kernel and kind, the owner has no job, or a job with a hash and the status that
  is reported of it.
\<close>

datatype phase = Absent | Present string "string res"

definition owned_for :: "controls \<Rightarrow> Owner \<Rightarrow> string \<Rightarrow> smap \<Rightarrow> Job list \<Rightarrow> Job list" where
  "owned_for ctl owner ns labels js =
     filter (\<lambda>j. ctl (om_OwnerReferences (job_Meta j)) owner) (filter (job_selected ns labels) js)"

definition phase_of :: "controls \<Rightarrow> Owner \<Rightarrow> string \<Rightarrow> ModuleLoaderData \<Rightarrow> Job list \<Rightarrow> phase" where
  "phase_of ctl owner jobType mld js =
     (case owned_for ctl owner (mld_Namespace mld) (job_labels_of jobType mld) js of
        [] \<Rightarrow> Absent
      | j # _ \<Rightarrow> Present (mget (annotations j) JobHashAnnotation) (GetJobStatus j))"

text \<open>A job that was just created has no counter set, and its status is unknown.\<close>

definition unknown_status :: "string res" where
  "unknown_status = Err (Errorf ''unknown status: %v'' [AI 0, AI 0, AI 0])"

fun sync_spec :: "string \<Rightarrow> phase \<Rightarrow> phase \<times> string res" where
  "sync_spec hash Absent = (Present hash unknown_status, Ok StatusCreated)"
| "sync_spec hash (Present hash' st) =
     (if hash' \<noteq> hash then (Absent, Ok StatusInProgress) else (Present hash' st, st))"

text \<open>
  The invariant: for each namespace, Module name, kernel and kind the owner has at most one job, and
  its jobs carry annotations.
\<close>

definition jobs_ok :: "controls \<Rightarrow> Owner \<Rightarrow> Job list \<Rightarrow> bool" where
  "jobs_ok ctl owner js \<longleftrightarrow>
     (\<forall>ns n k jt. length (owned_for ctl owner ns (moduleKernelLabels n k jt) js) \<le> 1) \<and>
     (\<forall>j \<in> set js. ctl (om_OwnerReferences (job_Meta j)) owner \<longrightarrow> om_Annotations (job_Meta j) \<noteq> None)"

text \<open>
  One run of the build manager in which the template, of the given hash, can be made and no request
  on jobs fails, with the jobs before and after it.
\<close>

definition build_run ::
  "controls \<Rightarrow> Owner \<Rightarrow> ModuleLoaderData \<Rightarrow> bool \<Rightarrow> string \<Rightarrow> Job list \<Rightarrow> string res \<Rightarrow> Job list \<Rightarrow> bool" where
  "build_run ctl owner mld push hash js r js' \<longleftrightarrow> (\<exists>L s tmpl s1 t evs nm uid.
     cluster_env ctl js L \<and> reliable L \<and> BuildMakeJobTemplate L mld owner push s = (Ok tmpl, s1) \<and>
     mget (annotations tmpl) JobHashAnnotation = hash \<and>
     BuildSync L mld push owner s = (r, t) \<and> history t = history s @ evs \<and> js' = fold (perform nm uid) (writes evs) js)"

text \<open>The job controller and the kubelets may change the counters of any job.\<close>

definition progressed :: "Job list \<Rightarrow> Job list \<Rightarrow> bool" where
  "progressed = list_all2 (\<lambda>j j'. job_Meta j' = job_Meta j)"

section \<open>Lemmas\<close>

lemma stored_simps [simp]:
  "om_Namespace (job_Meta (stored nm uid j)) = om_Namespace (job_Meta j)"
  "om_Labels (job_Meta (stored nm uid j)) = om_Labels (job_Meta j)"
  "om_OwnerReferences (job_Meta (stored nm uid j)) = om_OwnerReferences (job_Meta j)"
  "om_Annotations (job_Meta (stored nm uid j)) = om_Annotations (job_Meta j)"
  "annotations (stored nm uid j) = annotations j"
  "GetJobStatus (stored nm uid j) = GetJobStatus j"
  "job_selected ns labels (stored nm uid j) = job_selected ns labels j"
  by (simp_all add: stored_def annotations_def GetJobStatus_def job_selected_def)

lemma served_reads:
  assumes "list_all is_read rs" and "served js (rs @ evs) js'"
  shows "served js evs js'"
  using assms by (induction rs) (auto simp: is_read_def split: event.splits elim: served_ReadE)

lemma served_only_reads: "list_all is_read rs \<Longrightarrow> served js rs js' \<Longrightarrow> js' = js"
  using served_reads [of rs js "[]" js'] by (auto elim: served_NilE)

lemma served_deletes:
  "served js (map (\<lambda>j. Write (DeleteJob j)) ds) js' \<Longrightarrow> \<exists>P. js' = filter P js"
proof (induction ds arbitrary: js)
  case Nil
  then show ?case by (auto elim!: served_NilE intro: exI [of _ "\<lambda>_. True"])
next
  case (Cons d ds)
  from Cons.prems obtain js1 where step: "\<exists>P. js1 = filter P js" and "served js1 (map (\<lambda>j. Write (DeleteJob j)) ds) js'"
  proof (cases rule: served_WriteE [OF Cons.prems [simplified list.map]])
    case 1
    then show thesis by (intro that [of js]) (auto intro: exI [of _ "\<lambda>_. True"])
  next
    case (2 nm uid)
    then show thesis by (intro that [of "perform nm uid (DeleteJob d) js"]) (auto simp: perform_def)
  qed
  with Cons.IH obtain P Q where "js1 = filter P js" "js' = filter Q js1" by blast
  then show ?case by (auto intro: exI [of _ "\<lambda>x. P x \<and> Q x"])
qed

lemma owned_for_append [simp]:
  "owned_for ctl owner ns labels (xs @ ys) = owned_for ctl owner ns labels xs @ owned_for ctl owner ns labels ys"
  by (simp add: owned_for_def)

lemma owned_for_Cons:
  "owned_for ctl owner ns labels (j # js) = owned_for ctl owner ns labels [j] @ owned_for ctl owner ns labels js"
  by (simp add: owned_for_def)

lemma owned_for_filter: "owned_for ctl owner ns labels (filter P js) = filter P (owned_for ctl owner ns labels js)"
  by (simp add: owned_for_def conj_commute conj_left_commute)

lemma filterJobsByOwner_selected:
  assumes "cluster_env ctl js L" and "cl_ListJobs L h ns labels = Inr xs"
  shows "filterJobsByOwner L xs owner = owned_for ctl owner ns labels js"
  using assms by (auto simp: cluster_env_def filterJobsByOwner_def owned_for_def)

lemma jobs_ok_Nil: "jobs_ok ctl owner []"
  by (simp add: jobs_ok_def owned_for_def)

lemma jobs_ok_filter:
  assumes "jobs_ok ctl owner js"
  shows "jobs_ok ctl owner (filter P js)"
proof -
  have "length (filter P xs) \<le> 1" if "length xs \<le> 1" for xs :: "Job list"
    using that length_filter_le [of P xs] by linarith
  with assms show ?thesis by (auto simp: jobs_ok_def owned_for_filter)
qed

text \<open>The labels of a job of the managers determine what it is for.\<close>

lemma selected_by_own_labels:
  assumes "om_Labels (job_Meta j) = moduleKernelLabels n k jt" and "job_selected ns (moduleKernelLabels n' k' jt') j"
  shows "n' = n" "k' = k" "jt' = jt"
  using assms by (auto simp: job_selected_def moduleKernelLabels_def moduleLabels_def label_defs)

lemma jobs_ok_create:
  assumes ok: "jobs_ok ctl owner js"
    and none: "owned_for ctl owner (mld_Namespace mld) (job_labels_of jobType mld) js = []"
    and tmpl: "om_Labels (job_Meta j) = job_labels_of jobType mld" "om_Namespace (job_Meta j) = mld_Namespace mld"
      "om_Annotations (job_Meta j) \<noteq> None"
  shows "jobs_ok ctl owner (js @ [stored nm uid j])"
proof -
  have "length (owned_for ctl owner ns (moduleKernelLabels n k jt) (js @ [stored nm uid j])) \<le> 1" for ns n k jt
  proof (cases "job_selected ns (moduleKernelLabels n k jt) j")
    case True
    then have "moduleKernelLabels n k jt = job_labels_of jobType mld" "ns = mld_Namespace mld"
      using selected_by_own_labels [OF tmpl(1) [unfolded job_labels_of_def] True] tmpl(2)
      by (auto simp: job_labels_of_def job_selected_def)
    with none show ?thesis by (auto simp: owned_for_def)
  next
    case False
    with ok show ?thesis by (simp add: jobs_ok_def owned_for_def)
  qed
  with ok tmpl(3) show ?thesis by (auto simp: jobs_ok_def)
qed

lemma jobs_ok_progress:
  assumes "jobs_ok ctl owner (xs @ j # ys)" and "job_Meta j' = job_Meta j"
  shows "jobs_ok ctl owner (xs @ j' # ys)"
proof -
  have "length (owned_for ctl owner ns labels (xs @ j' # ys)) = length (owned_for ctl owner ns labels (xs @ j # ys))" for ns labels
    using assms(2) by (simp add: owned_for_def job_selected_def)
  with assms show ?thesis by (auto simp: jobs_ok_def)
qed

lemma jobs_ok_removed:
  assumes "jobs_ok ctl owner (xs @ j # ys)"
  shows "jobs_ok ctl owner (xs @ ys)"
proof -
  have "length (owned_for ctl owner ns (moduleKernelLabels n k jt) (xs @ ys)) \<le> 1" for ns n k jt
  proof -
    have "length (owned_for ctl owner ns (moduleKernelLabels n k jt) (xs @ j # ys)) \<le> 1"
      using assms unfolding jobs_ok_def by blast
    then show ?thesis by (simp add: owned_for_Cons [of _ _ _ _ j ys])
  qed
  with assms show ?thesis by (auto simp: jobs_ok_def)
qed

lemma jobs_ok_foreign:
  "jobs_ok ctl owner js \<Longrightarrow> \<not> ctl (om_OwnerReferences (job_Meta j)) owner \<Longrightarrow> jobs_ok ctl owner (js @ [j])"
  by (auto simp: jobs_ok_def owned_for_def)

text \<open>Running \<open>sync_job\<close> where no request fails.\<close>

lemma sync_job_reliable:
  assumes "reliable L" and "cl_ListJobs L (history s) (mld_Namespace mld) (job_labels_of jobType mld) = Inr jobs"
    and "sync_job L jobType f1 f2 mld owner tmpl s = (r, t)"
  shows "filterJobsByOwner L jobs owner = [] \<Longrightarrow> r = Ok StatusCreated"
  using assms
  by (auto simp: sync_job_def job_labels_of_def job_lookup_def create_Job_def reliable_def go_simps)

section \<open>Job managers over many runs\<close>

text \<open>
  What the manager of a kind of jobs promises beyond its interface: \<open>Sync\<close> is making a template and
  synchronising with it, and the template is a job that the owner controls, with annotations and
  without any counter set.
\<close>

locale job_lifecycle = job_manager L ShouldSync Sync Collect jobType needed target made
  for L :: env
    and ShouldSync :: "ModuleLoaderData \<Rightarrow> (op_state, bool) go"
    and Sync :: "ModuleLoaderData \<Rightarrow> string \<Rightarrow> bool \<Rightarrow> Owner \<Rightarrow> (op_state, string) go"
    and Collect :: "string \<Rightarrow> string \<Rightarrow> Owner \<Rightarrow> (op_state, string list) go"
    and jobType :: string
    and needed :: "ModuleLoaderData \<Rightarrow> bool"
    and target :: "ModuleLoaderData \<Rightarrow> string"
    and made :: "ModuleLoaderData \<Rightarrow> string \<Rightarrow> bool \<Rightarrow> Owner \<Rightarrow> Job \<Rightarrow> history \<Rightarrow> bool" +
  fixes make :: "ModuleLoaderData \<Rightarrow> string \<Rightarrow> bool \<Rightarrow> Owner \<Rightarrow> (op_state, Job) go"
  assumes make_made: "make mld img push owner s = (Ok tmpl, s1) \<Longrightarrow> made mld img push owner tmpl (history s1)"
    and make_reads: "emits is_read (make mld img push owner)"
    and Sync_make: "make mld img push owner s = (Ok tmpl, s1) \<Longrightarrow>
      \<exists>f1 f2. Sync mld img push owner s = sync_job L jobType f1 f2 mld owner tmpl s1"
    and made_fresh: "made mld img push owner tmpl h \<Longrightarrow> om_Annotations (job_Meta tmpl) \<noteq> None \<and>
      job_Succeeded tmpl = 0 \<and> job_Active tmpl = 0 \<and> job_Failed tmpl = 0"
    and made_controlled: "controller_law L \<Longrightarrow> made mld img push owner tmpl h \<Longrightarrow>
      IsControlledBy L (om_OwnerReferences (job_Meta tmpl)) owner"
begin

lemma Sync_keeps_jobs_ok:
  assumes env: "cluster_env ctl js L" and ok: "jobs_ok ctl owner js"
    and run: "Sync mld img push owner s = (r, t)" and evs: "history t = history s @ evs" and js': "served js evs js'"
  shows "jobs_ok ctl owner js'"
  using run
proof (cases rule: Sync_cases)
  case (failed rs)
  with evs js' ok show ?thesis using served_only_reads by auto
next
  case (listed rs ws jobs tmpl)
  then have served: "served js (map Write ws) js'"
    using evs js' by (auto dest!: served_reads [of rs] elim: served_ReadE)
  note owned = filterJobsByOwner_selected [OF env listed(3), of owner]
  consider "ws = []" | "ws = [CreateJob tmpl]" "filterJobsByOwner L jobs owner = []" | j where "ws = [DeleteJob j]"
    using listed(5) by (auto simp: sync_outcome_def split: list.splits if_splits)
  then show ?thesis
  proof cases
    case 1
    with served ok show ?thesis by (auto elim: served_NilE)
  next
    case 2
    with served consider "js' = js" | nm uid where "js' = js @ [stored nm uid tmpl]"
      by (auto simp: perform_def elim!: served_WriteE served_NilE)
    then show ?thesis
      using ok jobs_ok_create [OF ok, of mld jobType tmpl] 2(2) owned made_meta [OF listed(4)] made_fresh [OF listed(4)]
      by cases auto
  next
    case (3 j)
    with served served_deletes [of js "[j]" js'] ok show ?thesis by (auto intro: jobs_ok_filter)
  qed
qed

lemma Collect_keeps_jobs_ok:
  assumes "Collect n ns owner s = (r, t)" and "history t = history s @ evs" and "served js evs js'"
    and "jobs_ok ctl owner js"
  shows "jobs_ok ctl owner js'"
proof -
  obtain ds where "history t = history s @ Read (ListJobs ns (moduleLabels n jobType)) # map (\<lambda>j. Write (DeleteJob j)) ds"
    using assms(1) Collect_law unfolding collects_finished_def by blast
  with assms(2,3) have "served js (map (\<lambda>j. Write (DeleteJob j)) ds) js'" by (auto elim: served_ReadE)
  from served_deletes [OF this] assms(4) show ?thesis by (auto intro: jobs_ok_filter)
qed

text \<open>One synchronisation implements one step of the specification.\<close>

lemma Sync_refines:
  assumes env: "cluster_env ctl js L" "reliable L" and ok: "jobs_ok ctl owner js"
    and make: "make mld img push owner s = (Ok tmpl, s1)"
    and run: "Sync mld img push owner s = (r, t)" and evs: "history t = history s @ evs"
  shows "sync_spec (mget (annotations tmpl) JobHashAnnotation) (phase_of ctl owner jobType mld js) =
    (phase_of ctl owner jobType mld (fold (perform nm uid) (writes evs) js), r)"
proof -
  let ?labels = "job_labels_of jobType mld"
  obtain f1 f2 where sj: "sync_job L jobType f1 f2 mld owner tmpl s1 = (r, t)"
    using Sync_make [OF make] run by auto
  obtain jobs where jobs: "cl_ListJobs L (history s1) (mld_Namespace mld) ?labels = Inr jobs"
    using env(2) by (cases "cl_ListJobs L (history s1) (mld_Namespace mld) ?labels") (auto simp: reliable_def)
  obtain rs where rs: "history s1 = history s @ rs" "list_all is_read rs"
    using emitsE [OF make_reads make] by metis
  obtain ws where ws: "history t = history s1 @ Read (ListJobs (mld_Namespace mld) ?labels) # map Write ws"
    and outcome: "sync_outcome L tmpl owner jobs ws r"
    using sync_job_run [OF sj jobs] by auto
  have "writes (map Write ws) = ws" by (induction ws) auto
  then have writes: "writes evs = ws" using ws rs evs by (simp add: writes_of_reads)
  note owned = filterJobsByOwner_selected [OF env(1) jobs, of owner]
  have few: "length (owned_for ctl owner (mld_Namespace mld) ?labels js) \<le> 1"
    using ok by (simp add: jobs_ok_def job_labels_of_def)
  show ?thesis
  proof (cases "owned_for ctl owner (mld_Namespace mld) ?labels js")
    case Nil
    have "job_selected (mld_Namespace mld) ?labels tmpl" "ctl (om_OwnerReferences (job_Meta tmpl)) owner"
      using made_meta [OF make_made [OF make]] made_controlled [OF _ make_made [OF make]] env(1)
      by (auto simp: job_selected_def cluster_env_def job_labels_of_def moduleKernelLabels_def moduleLabels_def label_defs)
    moreover have "GetJobStatus tmpl = unknown_status"
      using made_fresh [OF make_made [OF make]] by (simp add: GetJobStatus_def unknown_status_def)
    moreover have "ws = [CreateJob tmpl]" "r = Ok StatusCreated"
      using outcome Nil owned sync_job_reliable [OF env(2) jobs sj] by (auto simp: sync_outcome_def)
    ultimately show ?thesis
      using Nil by (simp add: writes phase_of_def perform_def) (simp add: owned_for_def)
  next
    case (Cons j js0)
    with few have one: "owned_for ctl owner (mld_Namespace mld) ?labels js = [j]" by simp
    then have "j \<in> set js" "ctl (om_OwnerReferences (job_Meta j)) owner"
      by (auto simp: owned_for_def filter_eq_Cons_iff)
    with ok have annotated: "om_Annotations (job_Meta j) \<noteq> None" by (auto simp: jobs_ok_def)
    show ?thesis
      using outcome one owned annotated
      by (auto simp: sync_outcome_def phase_of_def writes perform_def owned_for_filter split: if_splits)
  qed
qed

end

text \<open>The templates of both makers end in \<open>job_with_owner\<close>.\<close>

lemma job_with_owner_Ok:
  assumes "job_with_owner L owner job s = (Ok tmpl, t)"
  obtains refs where "SetControllerReference L owner (om_OwnerReferences (job_Meta job)) = Inr refs"
    and "tmpl = job\<lparr>job_Meta := (job_Meta job)\<lparr>om_OwnerReferences := refs\<rparr>\<rparr>"
  using assms by (auto simp: job_with_owner_def go_simps split: res.splits)

lemma BuildMake_fresh:
  assumes "BuildMakeJobTemplate L mld owner push s = (Ok tmpl, t)"
  shows "om_Annotations (job_Meta tmpl) \<noteq> None \<and> job_Succeeded tmpl = 0 \<and> job_Active tmpl = 0 \<and> job_Failed tmpl = 0"
    and "\<exists>refs. SetControllerReference L owner refs = Inr (om_OwnerReferences (job_Meta tmpl))"
  using assms
  by (auto simp: BuildMakeJobTemplate_def go_simps Let_def split: prod.splits res.splits elim!: job_with_owner_Ok)

lemma SignMake_fresh:
  assumes "SignMakeJobTemplate L mld labels img push owner s = (Ok tmpl, t)"
  shows "om_Annotations (job_Meta tmpl) \<noteq> None \<and> job_Succeeded tmpl = 0 \<and> job_Active tmpl = 0 \<and> job_Failed tmpl = 0"
    and "\<exists>refs. SetControllerReference L owner refs = Inr (om_OwnerReferences (job_Meta tmpl))"
  using assms
  by (auto simp: SignMakeJobTemplate_def go_simps Let_def split: prod.splits res.splits elim!: job_with_owner_Ok)

interpretation build_life: job_lifecycle L "BuildShouldSync L" "\<lambda>mld img. BuildSync L mld" "BuildGarbageCollect L"
  JobTypeBuild ShouldBeBuilt build_target "build_made L" "\<lambda>mld img push owner. BuildMakeJobTemplate L mld owner push" for L
proof unfold_locales
  fix mld img push owner s tmpl s1 h
  show "build_made L mld img push owner tmpl (history s1)"
    if "BuildMakeJobTemplate L mld owner push s = (Ok tmpl, s1)"
    using that by (auto simp: build_made_def)
  show "emits is_read (BuildMakeJobTemplate L mld owner push)"
    by (intro emits_rules) simp
  show "\<exists>f1 f2. BuildSync L mld push owner s = sync_job L JobTypeBuild f1 f2 mld owner tmpl s1"
    if "BuildMakeJobTemplate L mld owner push s = (Ok tmpl, s1)"
    using that by (auto simp: BuildSync_alt check_run)
  show "om_Annotations (job_Meta tmpl) \<noteq> None \<and> job_Succeeded tmpl = 0 \<and> job_Active tmpl = 0 \<and> job_Failed tmpl = 0"
    if "build_made L mld img push owner tmpl h"
    using that BuildMake_fresh(1) unfolding build_made_def by blast
  show "IsControlledBy L (om_OwnerReferences (job_Meta tmpl)) owner"
    if "controller_law L" and "build_made L mld img push owner tmpl h"
    using that BuildMake_fresh(2) unfolding build_made_def controller_law_def by blast
qed

interpretation sign_life: job_lifecycle L "SignShouldSync L" "SignSync L" "SignGarbageCollect L" JobTypeSign
  ShouldBeSigned mld_ContainerImage "sign_made L"
  "\<lambda>mld img push owner. SignMakeJobTemplate L mld (job_labels_of JobTypeSign mld) img push owner" for L
proof unfold_locales
  fix mld img push owner s tmpl s1 h
  let ?make = "SignMakeJobTemplate L mld (job_labels_of JobTypeSign mld) img push owner"
  show "sign_made L mld img push owner tmpl (history s1)" if "?make s = (Ok tmpl, s1)"
    using that by (auto simp: sign_made_def)
  show "emits is_read ?make"
    by (intro emits_rules) simp
  show "\<exists>f1 f2. SignSync L mld img push owner s = sync_job L JobTypeSign f1 f2 mld owner tmpl s1"
    if "?make s = (Ok tmpl, s1)"
    using that by (auto simp: SignSync_alt check_run)
  show "om_Annotations (job_Meta tmpl) \<noteq> None \<and> job_Succeeded tmpl = 0 \<and> job_Active tmpl = 0 \<and> job_Failed tmpl = 0"
    if "sign_made L mld img push owner tmpl h"
    using that SignMake_fresh(1) unfolding sign_made_def by blast
  show "IsControlledBy L (om_OwnerReferences (job_Meta tmpl)) owner"
    if "controller_law L" and "sign_made L mld img push owner tmpl h"
    using that SignMake_fresh(2) unfolding sign_made_def controller_law_def by blast
qed

lemma job_step_keeps_jobs_ok: "job_step ctl owner js js' \<Longrightarrow> jobs_ok ctl owner js \<Longrightarrow> jobs_ok ctl owner js'"
proof (induction rule: job_step.induct)
  case (build js L mld push s r t evs js')
  then show ?case using build_life.Sync_keeps_jobs_ok by blast
next
  case (sign js L mld img push s r t evs js')
  then show ?case using sign_life.Sync_keeps_jobs_ok by blast
next
  case (build_gc js L n ns s rg t evs js')
  then show ?case using build_life.Collect_keeps_jobs_ok by blast
next
  case (sign_gc js L n ns s rg t evs js')
  then show ?case using sign_life.Collect_keeps_jobs_ok by blast
qed (auto intro: jobs_ok_progress jobs_ok_removed jobs_ok_foreign)

lemma reachable_jobs_ok: "(job_step ctl owner)\<^sup>*\<^sup>* [] js \<Longrightarrow> jobs_ok ctl owner js"
  by (induction rule: rtranclp_induct) (auto intro: jobs_ok_Nil job_step_keeps_jobs_ok)

lemma served_performed: "served js evs (fold (perform nm uid) (writes evs) js)"
proof (induction evs arbitrary: js)
  case (Cons e evs)
  then show ?case by (cases e) (auto intro: served.intros)
qed (auto intro: served.intros)

lemma build_run_step: "build_run ctl owner mld push hash js r js' \<Longrightarrow> job_step ctl owner js js'"
  unfolding build_run_def using served_performed job_step.build by blast

lemma build_run_refines:
  assumes "jobs_ok ctl owner js" and "build_run ctl owner mld push hash js r js'"
  shows "sync_spec hash (phase_of ctl owner JobTypeBuild mld js) = (phase_of ctl owner JobTypeBuild mld js', r)"
  using assms unfolding build_run_def by (auto intro: build_life.Sync_refines)

lemma owned_for_progressed:
  "progressed js js' \<Longrightarrow> progressed (owned_for ctl owner ns labels js) (owned_for ctl owner ns labels js')"
  unfolding progressed_def by (induction rule: list_all2_induct) (auto simp: owned_for_def job_selected_def)

lemma progressed_steps: "progressed js js' \<Longrightarrow> (job_step ctl owner)\<^sup>*\<^sup>* (xs @ js) (xs @ js')"
  unfolding progressed_def
proof (induction arbitrary: xs rule: list_all2_induct)
  case (Cons j js j' js')
  have "job_step ctl owner (xs @ j # js) (xs @ j' # js)" using Cons by (intro job_step.progress)
  moreover have "(job_step ctl owner)\<^sup>*\<^sup>* (xs @ j' # js) (xs @ j' # js')" using Cons.IH [of "xs @ [j']"] by simp
  ultimately show ?case by (rule converse_rtranclp_into_rtranclp)
qed simp

lemma phase_of_progressed:
  assumes "progressed js js'"
  shows "phase_of ctl owner jt mld js = Absent \<and> phase_of ctl owner jt mld js' = Absent \<or>
    (\<exists>hash st st'. phase_of ctl owner jt mld js = Present hash st \<and> phase_of ctl owner jt mld js' = Present hash st')"
  using owned_for_progressed [OF assms, of ctl owner "mld_Namespace mld" "job_labels_of jt mld"]
  by (auto simp: phase_of_def progressed_def annotations_def list_all2_Cons1 list_all2_Cons2 split: list.splits)

lemma sync_spec_converges:
  assumes "sync_spec hash p = (p1, r1)" and "sync_spec hash p1' = (p2, r2)"
    and "p1 = Absent \<and> p1' = Absent \<or> (\<exists>h st st'. p1 = Present h st \<and> p1' = Present h st')"
  shows "\<exists>st. p2 = Present hash st \<and> (p1 = Absent \<longrightarrow> r1 = Ok StatusInProgress \<and> r2 = Ok StatusCreated)"
  using assms by (cases p) (auto split: if_splits)

section \<open>An example\<close>

text \<open>A cluster that stores jobs, and the first job of a Module in it.\<close>

definition store_cluster :: "Job list \<Rightarrow> env" where
  "store_cluster js = (job_cluster [])\<lparr>cl_ListJobs := (\<lambda>_ ns labels. Inr (filter (job_selected ns labels) js))\<rparr>"

abbreviation sample_controls :: controls where
  "sample_controls \<equiv> IsControlledBy empty_cluster"

lemma store_cluster_env: "cluster_env sample_controls js (store_cluster js)" "reliable (store_cluster js)"
  by (auto simp: cluster_env_def controller_law_def reliable_def store_cluster_def job_cluster_def empty_cluster_def)

abbreviation build_mld :: ModuleLoaderData where
  "build_mld \<equiv> sample_mld (Some sample_build) None"

abbreviation sign_mld :: ModuleLoaderData where
  "sign_mld \<equiv> sample_mld None (Some (sample_sign [''/a.ko'']))"

lemma sample_BuildMake:
  obtains tmpl s1 where "BuildMakeJobTemplate (store_cluster js) build_mld sample_owner True s = (Ok tmpl, s1)"
    and "mget (annotations tmpl) JobHashAnnotation = show_nat 7"
  by (simp add: build_make_defs Let_def go_simps
        store_cluster_def job_cluster_def sample_defs label_defs annotations_def)

lemma sample_SignMake:
  obtains tmpl s1 where "SignMakeJobTemplate (store_cluster js) sign_mld (job_labels_of JobTypeSign sign_mld)
      ''reg/img:tmp'' True sample_owner s = (Ok tmpl, s1)"
    and "mget (annotations tmpl) JobHashAnnotation = show_nat 9"
  by (simp add: sign_make_defs Let_def go_simps store_cluster_def job_cluster_def sample_defs
        label_defs annotations_def)

lemma phase_of_Nil [simp]: "phase_of ctl owner jt mld [] = Absent"
  by (simp add: phase_of_def owned_for_def)

lemma sample_build_run: "\<exists>r js'. build_run sample_controls sample_owner build_mld True (show_nat 7) js r js'"
proof -
  obtain tmpl s1 where make: "BuildMakeJobTemplate (store_cluster js) build_mld sample_owner True fresh_state = (Ok tmpl, s1)"
    "mget (annotations tmpl) JobHashAnnotation = show_nat 7"
    by (rule sample_BuildMake)
  obtain r t where "BuildSync (store_cluster js) build_mld True sample_owner fresh_state = (r, t)"
    by fastforce
  with make show ?thesis
    unfolding build_run_def using store_cluster_env [of js] by (fastforce simp: fresh_state_def)
qed

section \<open>Properties\<close>

text \<open>
  C13. The owner never has two jobs for one purpose.  In every state that synchronisations, garbage
  collections, the job controller and the users can reach, in any order and with any of the writes
  lost, there is at most one job of each namespace, Module name, kernel and kind that the owner
  controls, and it carries a hash annotation; so a synchronisation never ends in one of the errors for
  more than one job or for a job without annotations, which no later run could leave.
\<close>

theorem reachable_jobs_single:
  assumes "(job_step ctl owner)\<^sup>*\<^sup>* [] js"
  shows "length (filter (\<lambda>j. ctl (om_OwnerReferences (job_Meta j)) owner)
       (filter (job_selected ns (moduleKernelLabels n k jt)) js)) \<le> 1 \<and>
     (\<forall>j \<in> set js. ctl (om_OwnerReferences (job_Meta j)) owner \<longrightarrow> (\<forall>tmpl e. IsJobChanged j tmpl \<noteq> Err e)) \<and>
     (\<forall>L name e s. cluster_env ctl js L \<and>
        fst (GetModuleJobByKernel L name ns k jt owner s) = Err e \<and> (\<forall>e'. cl_ListJobs L (history s) ns (moduleKernelLabels name k jt) \<noteq> Inl e')
        \<longrightarrow> e = ErrNoMatchingJob)"
proof -
  have ok: "jobs_ok ctl owner js" by (rule reachable_jobs_ok [OF assms])
  have "e = ErrNoMatchingJob"
    if env: "cluster_env ctl js L" and run: "fst (GetModuleJobByKernel L name ns k jt owner s) = Err e"
      and answer: "\<forall>e'. cl_ListJobs L (history s) ns (moduleKernelLabels name k jt) \<noteq> Inl e'" for L name e s
  proof -
    obtain xs where xs: "cl_ListJobs L (history s) ns (moduleKernelLabels name k jt) = Inr xs"
      using answer by (cases "cl_ListJobs L (history s) ns (moduleKernelLabels name k jt)") auto
    have "length (filterJobsByOwner L xs owner) \<le> 1"
      using ok by (simp add: filterJobsByOwner_selected [OF env xs] jobs_ok_def)
    with run xs show ?thesis
      by (auto simp: go_simps job_lookup_def split: list.splits)
  qed
  moreover have "IsJobChanged j tmpl \<noteq> Err e" if "j \<in> set js" "ctl (om_OwnerReferences (job_Meta j)) owner" for j tmpl e
    using ok that by (auto simp: jobs_ok_def IsJobChanged_def)
  moreover have "length (filter (\<lambda>j. ctl (om_OwnerReferences (job_Meta j)) owner)
       (filter (job_selected ns (moduleKernelLabels n k jt)) js)) \<le> 1"
    using ok by (simp add: jobs_ok_def owned_for_def)
  ultimately show ?thesis by blast
qed

theorem reachable_jobs_single_witness:
  "\<exists>js. js \<noteq> [] \<and> (job_step sample_controls sample_owner)\<^sup>*\<^sup>* [] js \<and>
     length (filter (\<lambda>j. sample_controls (om_OwnerReferences (job_Meta j)) sample_owner)
       (filter (job_selected ''ns'' (moduleKernelLabels ''mod'' ''5.4.0-gke'' JobTypeBuild)) js)) \<le> 1"
proof -
  obtain r js where run: "build_run sample_controls sample_owner build_mld True (show_nat 7) [] r js"
    using sample_build_run by blast
  have "js \<noteq> []" using build_run_refines [OF jobs_ok_Nil run] by auto
  moreover have reach: "(job_step sample_controls sample_owner)\<^sup>*\<^sup>* [] js"
    using build_run_step [OF run] by blast
  ultimately show ?thesis using reachable_jobs_single [OF reach] by blast
qed

text \<open>
  C12. One run of \<open>Sync\<close> of the build manager implements the abstract step.  From a reachable state, if the
  template can be made and no request on jobs fails: without a job the job of the template is there
  afterwards and "created" is answered; a job of another hash is gone afterwards and "in progress" is
  answered; a job of the same hash stays and its status is answered, which for a job whose counters
  are all still zero is an error.
\<close>

theorem BuildSync_refines_spec:
  assumes "(job_step ctl owner)\<^sup>*\<^sup>* [] js" and "cluster_env ctl js L" and "reliable L"
    and "BuildMakeJobTemplate L mld owner push s = (Ok tmpl, s1)"
    and "BuildSync L mld push owner s = (r, t)" and "history t = history s @ evs"
  shows "sync_spec (mget (annotations tmpl) JobHashAnnotation) (phase_of ctl owner JobTypeBuild mld js) =
    (phase_of ctl owner JobTypeBuild mld (fold (perform nm uid) (writes evs) js), r)"
  by (rule build_life.Sync_refines [OF assms(2,3) reachable_jobs_ok [OF assms(1)] assms(4-6)])

theorem BuildSync_refines_spec_witness:
  "\<exists>t. BuildSync (store_cluster []) build_mld True sample_owner fresh_state = (Ok StatusCreated, t) \<and>
     phase_of sample_controls sample_owner JobTypeBuild build_mld (fold (perform ''n'' ''u'') (writes (history t)) []) =
       Present (show_nat 7) unknown_status"
proof -
  obtain tmpl s1 where make: "BuildMakeJobTemplate (store_cluster []) build_mld sample_owner True fresh_state = (Ok tmpl, s1)"
    "mget (annotations tmpl) JobHashAnnotation = show_nat 7"
    by (rule sample_BuildMake)
  obtain r t where run: "BuildSync (store_cluster []) build_mld True sample_owner fresh_state = (r, t)"
    by fastforce
  have "history t = history fresh_state @ history t" by (simp add: fresh_state_def)
  from BuildSync_refines_spec [OF rtranclp.rtrancl_refl store_cluster_env make(1) run this, of "''n''" "''u''"]
  show ?thesis using run make(2) by auto
qed

text \<open>
  The same abstract step is implemented by \<open>Sync\<close> of the sign manager.
\<close>

theorem SignSync_refines_spec:
  assumes "(job_step ctl owner)\<^sup>*\<^sup>* [] js" and "cluster_env ctl js L" and "reliable L"
    and "SignMakeJobTemplate L mld (job_labels_of JobTypeSign mld) img push owner s = (Ok tmpl, s1)"
    and "SignSync L mld img push owner s = (r, t)" and "history t = history s @ evs"
  shows "sync_spec (mget (annotations tmpl) JobHashAnnotation) (phase_of ctl owner JobTypeSign mld js) =
    (phase_of ctl owner JobTypeSign mld (fold (perform nm uid) (writes evs) js), r)"
  by (rule sign_life.Sync_refines [OF assms(2,3) reachable_jobs_ok [OF assms(1)] assms(4-6)])

theorem SignSync_refines_spec_witness:
  "\<exists>t. SignSync (store_cluster []) sign_mld ''reg/img:tmp'' True sample_owner fresh_state = (Ok StatusCreated, t) \<and>
     phase_of sample_controls sample_owner JobTypeSign sign_mld (fold (perform ''n'' ''u'') (writes (history t)) []) =
       Present (show_nat 9) unknown_status"
proof -
  obtain tmpl s1 where make: "SignMakeJobTemplate (store_cluster []) sign_mld (job_labels_of JobTypeSign sign_mld)
      ''reg/img:tmp'' True sample_owner fresh_state = (Ok tmpl, s1)"
    "mget (annotations tmpl) JobHashAnnotation = show_nat 9"
    by (rule sample_SignMake)
  obtain r t where run: "SignSync (store_cluster []) sign_mld ''reg/img:tmp'' True sample_owner fresh_state = (r, t)"
    by fastforce
  have "history t = history fresh_state @ history t" by (simp add: fresh_state_def)
  from SignSync_refines_spec [OF rtranclp.rtrancl_refl store_cluster_env make(1) run this, of "''n''" "''u''"]
  show ?thesis using run make(2) by auto
qed

text \<open>
  Two synchronisations are enough.  Start from any reachable state, whatever job the owner has for the
  Module and kernel, and let the manager run twice with templates of one hash while jobs make progress
  in between: then the job of that hash is there; if the first run reported a job "in progress" because
  it deleted an outdated one, the second one has created the new job.
\<close>

theorem BuildSync_converges:
  assumes "(job_step ctl owner)\<^sup>*\<^sup>* [] js" and "build_run ctl owner mld push hash js r1 js1"
    and "progressed js1 js1'" and "build_run ctl owner mld push hash js1' r2 js2"
  shows "\<exists>st. phase_of ctl owner JobTypeBuild mld js2 = Present hash st \<and>
     (phase_of ctl owner JobTypeBuild mld js1 = Absent \<longrightarrow> r1 = Ok StatusInProgress \<and> r2 = Ok StatusCreated)"
proof -
  have "(job_step ctl owner)\<^sup>*\<^sup>* [] js1"
    using assms(1) build_run_step [OF assms(2)] by (rule rtranclp.rtrancl_into_rtrancl)
  with progressed_steps [OF assms(3), of ctl owner "[]"] have "(job_step ctl owner)\<^sup>*\<^sup>* [] js1'" by simp
  then have first: "sync_spec hash (phase_of ctl owner JobTypeBuild mld js) = (phase_of ctl owner JobTypeBuild mld js1, r1)"
    and second: "sync_spec hash (phase_of ctl owner JobTypeBuild mld js1') = (phase_of ctl owner JobTypeBuild mld js2, r2)"
    using assms by (auto intro: build_run_refines reachable_jobs_ok)
  then show ?thesis
    using phase_of_progressed [OF assms(3)] by (rule sync_spec_converges)
qed

theorem BuildSync_converges_witness:
  "\<exists>js1 js2. build_run sample_controls sample_owner build_mld True (show_nat 7) [] (Ok StatusCreated) js1 \<and>
     (\<exists>st. phase_of sample_controls sample_owner JobTypeBuild build_mld js2 = Present (show_nat 7) st)"
proof -
  obtain r1 js1 where run1: "build_run sample_controls sample_owner build_mld True (show_nat 7) [] r1 js1"
    using sample_build_run by blast
  obtain r2 js2 where run2: "build_run sample_controls sample_owner build_mld True (show_nat 7) js1 r2 js2"
    using sample_build_run by blast
  have "progressed js1 js1" by (simp add: progressed_def list_all2_refl)
  moreover have "r1 = Ok StatusCreated" using build_run_refines [OF jobs_ok_Nil run1] by simp
  ultimately show ?thesis
    using BuildSync_converges [OF rtranclp.rtrancl_refl run1 _ run2] run1 by blast
qed

end
