(* ===== verification/Job_Pipeline.thy ===== *)
theory Job_Pipeline
  imports Job_Lifecycle Module_Reconciler
begin

text \<open>
  Building and signing as one pipeline.  The Module controller and the hub take a kernel through it over
  several runs, and between them jobs finish, images appear and finished jobs are collected.  Here the
  jobs and images are a state.  The locale \<open>pipeline_stage\<close> is what the code does for one of the two
  kinds of jobs, the locale \<open>kernel_turn\<close> what it does for a kernel in one run; in it a run is shown to
  implement a small specification, and to get to what comes after signing within five runs, whatever
  outdated jobs there are at first.  \<open>Kernel_Pipeline\<close> and \<open>Hub_Pipeline\<close> interpret them.
\<close>

section \<open>Jobs and images\<close>

record world =
  w_jobs :: "Job list"
  w_images :: "string list"

text \<open>The server keeps names of jobs apart.\<close>

definition job_key :: "Job \<Rightarrow> string \<times> string" where
  "job_key j = (om_Namespace (job_Meta j), om_Name (job_Meta j))"

definition names_ok :: "Job list \<Rightarrow> bool" where
  "names_ok js \<longleftrightarrow> distinct (map job_key js)"

text \<open>
  What is asked of an environment for one stage, building or signing, of a kernel: whether the image
  is there is answered from the state, and the template, of the given hash, can be made.
\<close>

definition stage_env ::
  "env \<Rightarrow> ModuleLoaderData \<Rightarrow> string \<Rightarrow> (op_state, Job) go \<Rightarrow> string \<Rightarrow> string list \<Rightarrow> bool" where
  "stage_env L mld img mk hash imgs \<longleftrightarrow>
     (\<forall>s. fst (ImageExists L mld (mld_Namespace mld) img s) = Ok (img \<in> set imgs)) \<and>
     (\<forall>s. \<exists>tmpl s1. mk s = (Ok tmpl, s1) \<and> mget (annotations tmpl) JobHashAnnotation = hash)"

definition shows_world :: "controls \<Rightarrow> Owner \<Rightarrow> ModuleLoaderData \<Rightarrow> string \<Rightarrow> string \<Rightarrow> world \<Rightarrow> env \<Rightarrow> bool" where
  "shows_world ctl owner mld hb hs W L \<longleftrightarrow> cluster_env ctl (w_jobs W) L \<and> reliable L \<and>
     (ShouldBeBuilt mld \<longrightarrow> stage_env L mld (build_target mld) (BuildMakeJobTemplate L mld owner True) hb (w_images W)) \<and>
     (ShouldBeSigned mld \<longrightarrow> stage_env L mld (mld_ContainerImage mld)
        (SignMakeJobTemplate L mld (job_labels_of JobTypeSign mld) (sign_source mld) True owner) hs (w_images W))"

text \<open>
  The same in terms of what is outside the operator.  For building: the ConfigMap with the Dockerfile can
  be read and does not change, and the hash of Dockerfile and pod is \<open>hb\<close>.  For signing: the same of the
  two secrets with the keys and of \<open>hs\<close>.  The owner can be entered into the template.
\<close>

definition build_inputs :: "env \<Rightarrow> ModuleLoaderData \<Rightarrow> Owner \<Rightarrow> string \<Rightarrow> bool" where
  "build_inputs L mld owner hb \<longleftrightarrow> (\<exists>b ref cm dockerfile v refs.
     mld_Build mld = Some b \<and> build_DockerfileConfigMap b = Some ref \<and> mld_RegistryTLS mld \<noteq> None \<and>
     (\<forall>h. cl_GetConfigMap L h \<lparr>nn_Namespace = mld_Namespace mld, nn_Name = lor_Name ref\<rparr> = Inr cm) \<and>
     map_of (cm_Data cm) DockerfileCMKey = Some dockerfile \<and>
     (\<forall>p. specTemplate L mld b (build_target mld) (mld_RegistryTLS mld) True = Ok p \<longrightarrow> HashBuild L dockerfile p = Inr v) \<and>
     SetControllerReference L owner [] = Inr refs \<and> hb = show_nat (unat v))"

definition sign_pod :: "env \<Rightarrow> ModuleLoaderData \<Rightarrow> Sign \<Rightarrow> string list \<Rightarrow> PodTemplateSpec" where
  "sign_pod L mld sg args = zero_PodTemplateSpec\<lparr>pt_Spec := zero_PodSpec\<lparr>
     ps_Containers := [zero_Container\<lparr>
       c_Name := ''signimage'',
       c_Image := Getenv L ''RELATED_IMAGES_SIGN'',
       c_Args := args,
       c_VolumeMounts := sign_volumeMounts mld sg\<rparr>],
     ps_RestartPolicy := ''Never'',
     ps_Volumes := sign_volumes mld sg,
     ps_NodeSelector := mld_Selector mld\<rparr>\<rparr>"

definition secret_holds :: "env \<Rightarrow> string \<Rightarrow> LocalObjectReference \<Rightarrow> string \<Rightarrow> string \<Rightarrow> bool" where
  "secret_holds L ns ref key data \<longleftrightarrow> (\<forall>h. \<exists>secret.
     cl_GetSecret L h \<lparr>nn_Namespace = ns, nn_Name = lor_Name ref\<rparr> = Inr secret \<and> map_of (sec_Data secret) key = Some data)"

definition sign_inputs :: "env \<Rightarrow> ModuleLoaderData \<Rightarrow> Owner \<Rightarrow> string \<Rightarrow> bool" where
  "sign_inputs L mld owner hs \<longleftrightarrow> (\<exists>sg keyref certref priv pub v refs.
     mld_Sign mld = Some sg \<and> sign_KeySecret sg = Some keyref \<and> sign_CertSecret sg = Some certref \<and>
     mld_RegistryTLS mld \<noteq> None \<and> (sign_source mld \<noteq> '''' \<or> sign_UnsignedImage sg \<noteq> '''') \<and>
     secret_holds L (mld_Namespace mld) keyref PrivateSignDataKey priv \<and>
     secret_holds L (mld_Namespace mld) certref PublicSignDataKey pub \<and>
     (\<forall>args. sign_args mld sg (sign_source mld) True = Ok args \<longrightarrow> HashSign L priv pub (sign_pod L mld sg args) = Inr v) \<and>
     SetControllerReference L owner [] = Inr refs \<and> hs = show_nat (unat v))"

lemma build_inputs_template:
  assumes "build_inputs L mld owner hb"
  shows "\<exists>tmpl s1. BuildMakeJobTemplate L mld owner True s = (Ok tmpl, s1) \<and> mget (annotations tmpl) JobHashAnnotation = hb"
proof -
  obtain b ref cm dockerfile v refs tls where b: "mld_Build mld = Some b" "build_DockerfileConfigMap b = Some ref"
    "mld_RegistryTLS mld = Some tls" "SetControllerReference L owner [] = Inr refs" "hb = show_nat (unat v)"
    and cm: "\<And>h. cl_GetConfigMap L h \<lparr>nn_Namespace = mld_Namespace mld, nn_Name = lor_Name ref\<rparr> = Inr cm"
      "map_of (cm_Data cm) DockerfileCMKey = Some dockerfile"
    and hash: "\<And>p. specTemplate L mld b (build_target mld) (mld_RegistryTLS mld) True = Ok p \<Longrightarrow> HashBuild L dockerfile p = Inr v"
    using assms unfolding build_inputs_def by blast
  obtain p where p: "specTemplate L mld b (build_target mld) (Some tls) True = Ok p"
    using b(2) by (auto simp: specTemplate_def containerArgs_def volumes_def dockerfileVolume_def deref_def check_res_def Let_def)
  with b(3) hash have "HashBuild L dockerfile p = Inr v" by simp
  with b cm p show ?thesis
    by (simp add: BuildMakeJobTemplate_def build_target_def [symmetric] getHashAnnotationValue_def getHashValue_def
        job_with_owner_def annotations_def deref_def check_res_def Let_def go_simps zero_ObjectMeta_def)
qed

lemma sign_inputs_template:
  assumes "sign_inputs L mld owner hs"
  shows "\<exists>tmpl s1. SignMakeJobTemplate L mld labels (sign_source mld) True owner s = (Ok tmpl, s1) \<and>
    mget (annotations tmpl) JobHashAnnotation = hs"
proof -
  obtain sg keyref certref priv pub v refs tls where sg: "mld_Sign mld = Some sg" "sign_KeySecret sg = Some keyref"
    "sign_CertSecret sg = Some certref" "mld_RegistryTLS mld = Some tls" "sign_source mld \<noteq> '''' \<or> sign_UnsignedImage sg \<noteq> ''''"
    "SetControllerReference L owner [] = Inr refs" "hs = show_nat (unat v)"
    and keys: "secret_holds L (mld_Namespace mld) keyref PrivateSignDataKey priv" "secret_holds L (mld_Namespace mld) certref PublicSignDataKey pub"
    and hash: "\<And>args. sign_args mld sg (sign_source mld) True = Ok args \<Longrightarrow> HashSign L priv pub (sign_pod L mld sg args) = Inr v"
    using assms unfolding sign_inputs_def by blast
  obtain args where args: "sign_args mld sg (sign_source mld) True = Ok args"
    using sg(4,5) by (cases "sign_source mld = ''''") (auto simp: sign_args_def deref_def check_res_def)
  have key: "\<exists>t. getSecretData L (lor_Name ref) key (mld_Namespace mld) s = (Ok data, t)"
    if "secret_holds L (mld_Namespace mld) ref key data" for ref key data and s :: op_state
    using that unfolding secret_holds_def
    by (auto simp: getSecretData_def Let_def go_simps dest!: spec [of _ "history s"])
  obtain t1 where t1: "getSecretData L (lor_Name keyref) PrivateSignDataKey (mld_Namespace mld) s = (Ok priv, t1)"
    using key [OF keys(1)] by blast
  obtain t2 where t2: "getSecretData L (lor_Name certref) PublicSignDataKey (mld_Namespace mld) t1 = (Ok pub, t2)"
    using key [OF keys(2)] by blast
  from sg args t1 t2 hash [OF args] show ?thesis
    by (simp add: SignMakeJobTemplate_def sign_pod_def [symmetric] sign_getHashAnnotationValue_def sign_getHashValue_def
        job_with_owner_def annotations_def deref_def check_res_def Let_def go_simps zero_ObjectMeta_def)
qed

text \<open>
  An environment that serves a state: lists of jobs show its jobs and no request on jobs fails; the registry
  has exactly its images of the kernel, as far as they are asked for; and the templates can be made.
\<close>

definition serves :: "controls \<Rightarrow> Owner \<Rightarrow> ModuleLoaderData \<Rightarrow> string \<Rightarrow> string \<Rightarrow> world \<Rightarrow> env \<Rightarrow> bool" where
  "serves ctl owner mld hb hs W L \<longleftrightarrow> cluster_env ctl (w_jobs W) L \<and> reliable L \<and>
     (ShouldBeBuilt mld \<longrightarrow> registry_answers L mld (build_target mld) (build_target mld \<in> set (w_images W)) \<and>
        build_inputs L mld owner hb) \<and>
     (ShouldBeSigned mld \<longrightarrow> registry_answers L mld (mld_ContainerImage mld) (mld_ContainerImage mld \<in> set (w_images W)) \<and>
        sign_inputs L mld owner hs)"

lemma serves_shows_world: "serves ctl owner mld hb hs W L \<Longrightarrow> shows_world ctl owner mld hb hs W L"
  unfolding serves_def shows_world_def stage_env_def
  using ImageExists_answered build_inputs_template sign_inputs_template by simp

section \<open>The specification\<close>

text \<open>
  A stage is passed if there is nothing to do, the image is there, or the job of the current hash has
  succeeded; otherwise the job is synchronised, as \<open>sync_spec\<close> says.
\<close>

definition stage_ready :: "bool \<Rightarrow> bool \<Rightarrow> string \<Rightarrow> phase \<Rightarrow> bool" where
  "stage_ready needed img hash p \<longleftrightarrow> \<not> needed \<or> img \<or> p = Present hash (Ok StatusCompleted)"

definition stage_next :: "bool \<Rightarrow> bool \<Rightarrow> string \<Rightarrow> phase \<Rightarrow> phase" where
  "stage_next needed img hash p = (if \<not> needed \<or> img then p else fst (sync_spec hash p))"

definition phases :: "controls \<Rightarrow> Owner \<Rightarrow> ModuleLoaderData \<Rightarrow> Job list \<Rightarrow> phase \<times> phase" where
  "phases ctl owner mld js = (phase_of ctl owner JobTypeBuild mld js, phase_of ctl owner JobTypeSign mld js)"

text \<open>Signing waits for building, and what comes then for both.\<close>

definition kernel_spec :: "ModuleLoaderData \<Rightarrow> string \<Rightarrow> string \<Rightarrow> string list \<Rightarrow> phase \<times> phase \<Rightarrow> (phase \<times> phase) \<times> bool" where
  "kernel_spec mld hb hs imgs pp =
     (let built = build_target mld \<in> set imgs; signd = mld_ContainerImage mld \<in> set imgs;
          pb = fst pp; ps = snd pp;
          ready = stage_ready (ShouldBeBuilt mld) built hb pb
      in ((stage_next (ShouldBeBuilt mld) built hb pb,
           if ready then stage_next (ShouldBeSigned mld) signd hs ps else ps),
          ready \<and> stage_ready (ShouldBeSigned mld) signd hs ps))"

text \<open>A run goes on with the rest of its code, after requests that only read.\<close>

definition goes_on_to :: "(op_state, 'a) go \<Rightarrow> (op_state, 'a) go \<Rightarrow> op_state \<Rightarrow> bool" where
  "goes_on_to run rest s \<longleftrightarrow> (\<exists>s1 rs. history s1 = history s @ rs \<and> list_all is_read rs \<and> run s = rest s1)"

section \<open>One stage\<close>

text \<open>The effect of a synchronisation on the jobs: none, a new job of the kind, or a job of the kind gone.\<close>

definition stage_writes :: "controls \<Rightarrow> Owner \<Rightarrow> string \<Rightarrow> ModuleLoaderData \<Rightarrow> Job list \<Rightarrow> write_call list \<Rightarrow> bool" where
  "stage_writes ctl owner jobType mld js ws \<longleftrightarrow> ws = [] \<or>
     (\<exists>j. ws = [CreateJob j] \<and> om_Labels (job_Meta j) = job_labels_of jobType mld \<and> om_Namespace (job_Meta j) = mld_Namespace mld) \<or>
     (\<exists>j. ws = [DeleteJob j] \<and> j \<in> set (owned_for ctl owner (mld_Namespace mld) (job_labels_of jobType mld) js))"

lemma writes_map_Write [simp]: "writes (map Write ws) = ws"
  by (induction ws) auto

lemma writes_Nil_iff: "writes evs = [] \<longleftrightarrow> list_all is_read evs"
proof (induction evs)
  case (Cons e evs)
  then show ?case by (cases e) (auto simp: is_read_def)
qed simp

text \<open>
  What the handlers of the two stages have in common: they are made of the interface of the job
  manager in the same way.
\<close>

locale pipeline_stage = job_lifecycle L ShouldSync Sync Collect jobType needed target made make
  for L :: env
    and ShouldSync :: "ModuleLoaderData \<Rightarrow> (op_state, bool) go"
    and Sync :: "ModuleLoaderData \<Rightarrow> string \<Rightarrow> bool \<Rightarrow> Owner \<Rightarrow> (op_state, string) go"
    and Collect :: "string \<Rightarrow> string \<Rightarrow> Owner \<Rightarrow> (op_state, string list) go"
    and jobType :: string
    and needed :: "ModuleLoaderData \<Rightarrow> bool"
    and target :: "ModuleLoaderData \<Rightarrow> string"
    and made :: "ModuleLoaderData \<Rightarrow> string \<Rightarrow> bool \<Rightarrow> Owner \<Rightarrow> Job \<Rightarrow> history \<Rightarrow> bool"
    and make :: "ModuleLoaderData \<Rightarrow> string \<Rightarrow> bool \<Rightarrow> Owner \<Rightarrow> (op_state, Job) go" +
  fixes handle :: "ModuleLoaderData \<Rightarrow> (op_state, bool) go"
    and source :: "ModuleLoaderData \<Rightarrow> string" and owner :: "ModuleLoaderData \<Rightarrow> Owner"
  assumes ShouldSync_asks: "\<exists>w. ShouldSync mld = (if \<not> needed mld then ret False
      else check (ImageExists L mld (mld_Namespace mld) (target mld)) w (\<lambda>ex. ret (\<not> ex)))"
    and handle_calls: "\<exists>w1 w2 fin. (handle mld = check (ShouldSync mld) w1 (\<lambda>b. if \<not> b then ret True
      else check (Sync mld (source mld) True (owner mld)) w2 fin)) \<and>
      (\<forall>st s r t. fin st s = (r, t) \<longrightarrow> r = Ok (st = StatusCompleted) \<and> history t = history s)"
begin

lemma ShouldSync_run:
  assumes "needed mld \<Longrightarrow> \<forall>s. fst (ImageExists L mld (mld_Namespace mld) (target mld) s) = Ok img"
  shows "\<exists>t rs. ShouldSync mld s = (Ok (needed mld \<and> \<not> img), t) \<and> history t = history s @ rs \<and> list_all is_read rs"
proof (cases "needed mld")
  case False
  then show ?thesis using ShouldSync_asks [of mld] by (auto simp: ret_run)
next
  case True
  obtain r t where t: "ImageExists L mld (mld_Namespace mld) (target mld) s = (r, t)" by fastforce
  have "emits is_read (ImageExists L mld (mld_Namespace mld) (target mld))"
    by (intro emits_rules) simp
  from emitsE [OF this t] obtain rs where "history t = history s @ rs" "list_all is_read rs" by metis
  moreover have "r = Ok img" using assms [OF True] t by (metis fst_conv)
  ultimately show ?thesis using ShouldSync_asks [of mld] True t by (auto simp: check_run ret_run)
qed

lemma Sync_stage_writes:
  assumes "cluster_env ctl js L" and "Sync mld img push ow s = (r, t)" and "history t = history s @ evs"
  shows "stage_writes ctl ow jobType mld js (writes evs)"
  using assms(2)
proof (cases rule: Sync_cases)
  case (failed rs)
  then show ?thesis using assms(3) by (simp add: stage_writes_def writes_of_reads)
next
  case (listed rs ws jobs tmpl)
  have "writes evs = ws" using listed(1,2) assms(3) by (simp add: writes_of_reads)
  then show ?thesis
    using outcome_single_write [OF listed(5)] made_meta [OF listed(4)] filterJobsByOwner_selected [OF assms(1) listed(3)]
    by (auto simp: stage_writes_def)
qed

lemma Sync_no_panic:
  assumes "make mld img push ow s = (Ok tmpl, s1)" and "Sync mld img push ow s = (r, t)"
  shows "r \<noteq> Panic"
  using Sync_make [OF assms(1)] assms(2) sync_job_run [OF _ refl] by fastforce

lemma handle_extends: "handle mld s = (r, t) \<Longrightarrow> \<exists>evs. history t = history s @ evs"
proof -
  assume run: "handle mld s = (r, t)"
  obtain w1 w2 fin where handle: "handle mld = check (ShouldSync mld) w1 (\<lambda>b. if \<not> b then ret True
      else check (Sync mld (source mld) True (owner mld)) w2 fin)"
      and fin: "\<And>st s r t. fin st s = (r, t) \<Longrightarrow> r = Ok (st = StatusCompleted) \<and> history t = history s"
    using handle_calls by blast
  have "emits (\<lambda>_. True) (fin st)" for st
    using fin by (auto simp: emits_def guar_def split: res.splits)
  then have "emits (\<lambda>_. True) (handle mld)"
    unfolding handle by (intro emits_rules emits_ShouldSync emits_Sync) auto
  from emitsE [OF this run] show ?thesis by metis
qed

lemma handle_refines:
  assumes env: "cluster_env ctl js L" "reliable L" and ok: "jobs_ok ctl (owner mld) js"
    and stage: "needed mld \<Longrightarrow> stage_env L mld (target mld) (make mld (source mld) True (owner mld)) hash imgs"
    and run: "handle mld s = (r, t)" and evs: "history t = history s @ evs"
  defines "p \<equiv> phase_of ctl (owner mld) jobType mld js"
    and "ready \<equiv> stage_ready (needed mld) (target mld \<in> set imgs) hash (phase_of ctl (owner mld) jobType mld js)"
  shows "phase_of ctl (owner mld) jobType mld (fold (perform nm uid) (writes evs) js) =
      stage_next (needed mld) (target mld \<in> set imgs) hash p \<and> stage_writes ctl (owner mld) jobType mld js (writes evs) \<and>
    jobs_ok ctl (owner mld) (fold (perform nm uid) (writes evs) js) \<and>
    (if ready then r = Ok True \<and> list_all is_read evs else r = Ok False \<or> (\<exists>e. r = Err e))"
proof -
  let ?img = "target mld \<in> set imgs" and ?o = "owner mld"
  obtain w1 w2 fin where handle: "handle mld = check (ShouldSync mld) w1 (\<lambda>b. if \<not> b then ret True
      else check (Sync mld (source mld) True ?o) w2 fin)"
      and fin: "\<And>st s r t. fin st s = (r, t) \<Longrightarrow> r = Ok (st = StatusCompleted) \<and> history t = history s"
    using handle_calls by blast
  obtain s1 rs where s1: "ShouldSync mld s = (Ok (needed mld \<and> \<not> ?img), s1)" "history s1 = history s @ rs" "list_all is_read rs"
    using ShouldSync_run [of mld ?img s] stage by (auto simp: stage_env_def)
  show ?thesis
  proof (cases "needed mld \<and> \<not> ?img")
    case False
    then have "r = Ok True" "evs = rs" using run handle s1 evs by (auto simp: check_run ret_run)
    then show ?thesis
      using False s1(3) ok by (auto simp: ready_def stage_ready_def stage_next_def stage_writes_def p_def writes_of_reads)
  next
    case True
    then obtain tmpl s2 where make: "make mld (source mld) True ?o s1 = (Ok tmpl, s2)"
        "mget (annotations tmpl) JobHashAnnotation = hash"
      using stage unfolding stage_env_def by blast
    obtain r' t' where sync: "Sync mld (source mld) True ?o s1 = (r', t')" by fastforce
    obtain evs' where evs': "history t' = history s1 @ evs'"
      using sync emits_Sync [of mld ?o "\<lambda>_. True" "source mld" True] by (auto elim: emitsE)
    have spec: "sync_spec hash p = (phase_of ctl ?o jobType mld (fold (perform nm uid) (writes evs') js), r')"
      using Sync_refines [OF env ok make(1) sync evs'] make(2) by (simp add: p_def)
    have run_result: "history t = history t'" "r = (case r' of Ok st \<Rightarrow> Ok (st = StatusCompleted) | Err e \<Rightarrow> Err (w2 e) | Panic \<Rightarrow> Panic)"
      using run handle s1(1) True sync fin by (auto simp: check_run split: res.splits)
    have evs_eq: "evs = rs @ evs'" using evs evs' s1(2) run_result(1) by simp
    then have writes: "writes evs = writes evs'" using s1(3) by (simp add: writes_of_reads)
    have "stage_writes ctl (owner mld) jobType mld js (writes evs')"
      by (rule Sync_stage_writes [OF env(1) sync evs'])
    moreover have "jobs_ok ctl ?o (fold (perform nm uid) (writes evs') js)"
      by (rule Sync_keeps_jobs_ok [OF env(1) ok sync evs' served_performed])
    moreover have "ready \<longleftrightarrow> r' = Ok StatusCompleted"
      using spec True unfolding ready_def stage_ready_def p_def [symmetric]
      by (cases p) (auto simp: status_defs split: if_splits)
    moreover have "r' = Ok StatusCompleted \<longrightarrow> list_all is_read evs'"
      using Sync_at_most_one_write [OF sync] evs' by (auto simp: writes_Nil_iff)
    moreover have "r' \<noteq> Panic" by (rule Sync_no_panic [OF make(1) sync])
    ultimately show ?thesis
      using spec True writes run_result(2) evs_eq s1(3)
      by (cases r') (auto simp: stage_next_def)
  qed
qed

end

text \<open>The first law, for the two managers.\<close>

lemma BuildShouldSync_asks: "\<exists>w. BuildShouldSync L mld = (if \<not> ShouldBeBuilt mld then ret False
    else check (ImageExists L mld (mld_Namespace mld) (build_target mld)) w (\<lambda>ex. ret (\<not> ex)))"
  by (auto simp: BuildShouldSync_def build_target_def Let_def)

lemma SignShouldSync_asks: "\<exists>w. SignShouldSync L mld = (if \<not> ShouldBeSigned mld then ret False
    else check (ImageExists L mld (mld_Namespace mld) (mld_ContainerImage mld)) w (\<lambda>ex. ret (\<not> ex)))"
  by (auto simp: SignShouldSync_def)

section \<open>Stages do not disturb each other\<close>

text \<open>The labels of a job tell Module, kernel and kind, so a job is of one purpose only.\<close>

lemma selected_once:
  assumes "job_selected ns (job_labels_of jt mld) j" and "job_selected ns' (job_labels_of jt' mld') j"
  shows "job_labels_of jt' mld' = job_labels_of jt mld"
  using assms by (auto simp: job_selected_def job_labels_of_def moduleKernelLabels_def moduleLabels_def label_defs)

lemma own_labels_selected:
  assumes "om_Labels (job_Meta j) = job_labels_of jt mld" and "om_Namespace (job_Meta j) = mld_Namespace mld"
  shows "job_selected (mld_Namespace mld) (job_labels_of jt mld) j"
  using assms by (auto simp: job_selected_def job_labels_of_def moduleKernelLabels_def moduleLabels_def label_defs)

lemma same_key: "names_ok js \<Longrightarrow> x \<in> set js \<Longrightarrow> j \<in> set js \<Longrightarrow> job_key x = job_key j \<longleftrightarrow> x = j"
  by (auto simp: names_ok_def distinct_map inj_on_def)

lemma perform_DeleteJob: "perform nm uid (DeleteJob j) js = filter (\<lambda>x. job_key x \<noteq> job_key j) js"
  by (simp add: perform_def job_key_def)

lemma stage_writes_frame:
  assumes ws: "stage_writes ctl ow jt mld js ws" and names: "names_ok js" and other: "job_labels_of jt' mld' \<noteq> job_labels_of jt mld"
  shows "owned_for ctl owner ns (job_labels_of jt' mld') (fold (perform nm uid) ws js) = owned_for ctl owner ns (job_labels_of jt' mld') js"
  using ws unfolding stage_writes_def
proof (elim disjE exE conjE)
  fix j
  assume "ws = [CreateJob j]" and "om_Labels (job_Meta j) = job_labels_of jt mld" "om_Namespace (job_Meta j) = mld_Namespace mld"
  moreover from this have "\<not> job_selected ns (job_labels_of jt' mld') (stored nm uid j)"
    using selected_once [OF own_labels_selected] other by fastforce
  ultimately show ?thesis by (simp add: perform_def owned_for_def)
next
  fix j
  assume ws: "ws = [DeleteJob j]" and j: "j \<in> set (owned_for ctl ow (mld_Namespace mld) (job_labels_of jt mld) js)"
  have "job_key x \<noteq> job_key j" if "x \<in> set (owned_for ctl owner ns (job_labels_of jt' mld') js)" for x
  proof -
    have "x \<noteq> j" using that j other selected_once by (fastforce simp: owned_for_def)
    then show ?thesis using that j same_key [OF names] by (auto simp: owned_for_def)
  qed
  then show ?thesis by (simp add: ws perform_DeleteJob owned_for_filter)
qed simp

lemma names_ok_stage:
  assumes "stage_writes ctl ow jt mld js ws" and "names_ok js" and "(mld_Namespace mld, nm) \<notin> job_key ` set js"
  shows "names_ok (fold (perform nm uid) ws js)"
  using assms(1) unfolding stage_writes_def
proof (elim disjE exE conjE)
  fix j
  assume ws: "ws = [CreateJob j]" "om_Namespace (job_Meta j) = mld_Namespace mld"
  then have "job_key (stored nm uid j) = (mld_Namespace mld, nm)" by (simp add: job_key_def stored_def)
  then show ?thesis using assms(2,3) ws by (simp add: names_ok_def perform_def)
qed (use assms(2) in \<open>simp_all add: names_ok_def perform_DeleteJob distinct_map_filter\<close>)

text \<open>What comes after the two stages works on other objects than jobs.\<close>

definition no_jobs :: "event \<Rightarrow> bool" where
  "no_jobs e \<longleftrightarrow> (case e of Read _ \<Rightarrow> True | Write w \<Rightarrow> (case w of CreateJob _ \<Rightarrow> False | DeleteJob _ \<Rightarrow> False | _ \<Rightarrow> True))"

lemma no_jobs_perform: "list_all no_jobs evs \<Longrightarrow> fold (perform nm uid) (writes evs) js = js"
proof (induction evs)
  case (Cons e evs)
  then show ?case by (cases e) (auto simp: no_jobs_def perform_def split: write_call.splits)
qed simp

section \<open>One run for a kernel\<close>

lemma other_kind: "job_labels_of JobTypeSign mld' \<noteq> job_labels_of JobTypeBuild mld"
    "job_labels_of JobTypeBuild mld' \<noteq> job_labels_of JobTypeSign mld"
  by (auto simp: job_labels_of_def moduleKernelLabels_def moduleLabels_def label_defs JobTypeBuild_def JobTypeSign_def)

lemma phase_frame:
  assumes "stage_writes ctl ow jt mld js ws" and "names_ok js" and "job_labels_of jt' mld' \<noteq> job_labels_of jt mld"
  shows "phase_of ctl owner jt' mld' (fold (perform nm uid) ws js) = phase_of ctl owner jt' mld' js"
  by (simp add: phase_of_def stage_writes_frame [OF assms])

text \<open>A run for a kernel: the two stages, and the rest once both are passed.\<close>

locale kernel_turn =
  build: pipeline_stage L "BuildShouldSync L" "\<lambda>mld img. BuildSync L mld" "BuildGarbageCollect L" JobTypeBuild
    ShouldBeBuilt build_target "build_made L" "\<lambda>mld img push owner. BuildMakeJobTemplate L mld owner push"
    handle_build "\<lambda>_. ''''" owner +
  sign: pipeline_stage L "SignShouldSync L" "SignSync L" "SignGarbageCollect L" JobTypeSign
    ShouldBeSigned mld_ContainerImage "sign_made L"
    "\<lambda>mld img push owner. SignMakeJobTemplate L mld (job_labels_of JobTypeSign mld) img push owner"
    handle_sign sign_source owner
  for L :: env and handle_build handle_sign :: "ModuleLoaderData \<Rightarrow> (op_state, bool) go"
    and owner :: "ModuleLoaderData \<Rightarrow> Owner" +
  fixes turn rest :: "ModuleLoaderData \<Rightarrow> 'a \<Rightarrow> (op_state, 'a) go" and stop :: "'a \<Rightarrow> 'a"
  assumes turn_calls: "\<exists>w1 w2. turn mld x = check (handle_build mld) w1 (\<lambda>b. if \<not> b then ret (stop x)
      else check (handle_sign mld) w2 (\<lambda>b. if \<not> b then ret (stop x) else rest mld x))"
    and rest_no_jobs: "emits no_jobs (rest mld x)"
begin

text \<open>Where a run gets to, and what it leaves there.\<close>

lemma turn_cases:
  fixes nm uid :: string
  assumes world: "shows_world ctl (owner mld) mld hb hs W L" and ok: "jobs_ok ctl (owner mld) (w_jobs W)"
    and run: "turn mld x s = (r, t)" and evs: "history t = history s @ evs"
  defines "pb \<equiv> phase_of ctl (owner mld) JobTypeBuild mld (w_jobs W)" and "ps \<equiv> phase_of ctl (owner mld) JobTypeSign mld (w_jobs W)"
    and "nb \<equiv> stage_next (ShouldBeBuilt mld) (build_target mld \<in> set (w_images W)) hb (phase_of ctl (owner mld) JobTypeBuild mld (w_jobs W))"
    and "ns \<equiv> stage_next (ShouldBeSigned mld) (mld_ContainerImage mld \<in> set (w_images W)) hs (phase_of ctl (owner mld) JobTypeSign mld (w_jobs W))"
    and "rb \<equiv> stage_ready (ShouldBeBuilt mld) (build_target mld \<in> set (w_images W)) hb (phase_of ctl (owner mld) JobTypeBuild mld (w_jobs W))"
    and "rs \<equiv> stage_ready (ShouldBeSigned mld) (mld_ContainerImage mld \<in> set (w_images W)) hs (phase_of ctl (owner mld) JobTypeSign mld (w_jobs W))"
    and "js' \<equiv> fold (perform nm uid) (writes evs) (w_jobs W)"
  obtains (building) "\<not> rb" "stage_writes ctl (owner mld) JobTypeBuild mld (w_jobs W) (writes evs)"
      "phase_of ctl (owner mld) JobTypeBuild mld js' = nb" "jobs_ok ctl (owner mld) js'" "r = Ok (stop x) \<or> (\<exists>e. r = Err e)"
  | (signing) "rb" "\<not> rs" "nb = pb" "stage_writes ctl (owner mld) JobTypeSign mld (w_jobs W) (writes evs)"
      "phase_of ctl (owner mld) JobTypeSign mld js' = ns" "jobs_ok ctl (owner mld) js'" "r = Ok (stop x) \<or> (\<exists>e. r = Err e)"
  | (passed) "rb" "rs" "nb = pb" "ns = ps" "goes_on_to (turn mld x) (rest mld x) s" "js' = w_jobs W"
proof -
  have env: "cluster_env ctl (w_jobs W) L" "reliable L" using world by (simp_all add: shows_world_def)
  obtain w1 w2 where turn: "turn mld x = check (handle_build mld) w1 (\<lambda>b. if \<not> b then ret (stop x)
      else check (handle_sign mld) w2 (\<lambda>b. if \<not> b then ret (stop x) else rest mld x))"
    using turn_calls by blast
  obtain r1 t1 evs1 where build: "handle_build mld s = (r1, t1)" "history t1 = history s @ evs1"
    using build.handle_extends [of mld s] by fastforce
  note b = build.handle_refines [OF env ok _ build, of hb "w_images W" nm uid]
  have stage_b: "ShouldBeBuilt mld \<Longrightarrow> stage_env L mld (build_target mld) (BuildMakeJobTemplate L mld (owner mld) True) hb (w_images W)"
    using world by (simp add: shows_world_def)
  show thesis
  proof (cases rb)
    case False
    then have "r1 = Ok False \<or> (\<exists>e. r1 = Err e)" using b stage_b by (simp add: rb_def)
    then have "history t = history t1" "r = Ok (stop x) \<or> (\<exists>e. r = Err e)" using run build by (auto simp: turn check_run ret_run)
    moreover from this have "evs = evs1" using evs build(2) by simp
    ultimately show thesis using building False b stage_b by (simp add: js'_def nb_def)
  next
    case rb: True
    then have r1: "r1 = Ok True" and reads1: "list_all is_read evs1" using b stage_b by (simp_all add: rb_def)
    have nb: "nb = pb" using b stage_b reads1 by (simp add: writes_of_reads nb_def pb_def)
    obtain r2 t2 evs2 where sign: "handle_sign mld t1 = (r2, t2)" "history t2 = history t1 @ evs2"
      using sign.handle_extends [of mld t1] by fastforce
    note sg = sign.handle_refines [OF env ok _ sign, of hs "w_images W" nm uid]
    have stage_s: "ShouldBeSigned mld \<Longrightarrow> stage_env L mld (mld_ContainerImage mld)
        (SignMakeJobTemplate L mld (job_labels_of JobTypeSign mld) (sign_source mld) True (owner mld)) hs (w_images W)"
      using world by (simp add: shows_world_def)
    show thesis
    proof (cases rs)
      case False
      then have "r2 = Ok False \<or> (\<exists>e. r2 = Err e)" using sg stage_s by (simp add: rs_def)
      then have "history t = history t2" "r = Ok (stop x) \<or> (\<exists>e. r = Err e)"
        using run build sign r1 by (auto simp: turn check_run ret_run)
      moreover from this have "writes evs = writes evs2" using evs build(2) sign(2) reads1 by (simp add: writes_of_reads)
      ultimately show thesis using signing rb False nb sg stage_s by (simp add: js'_def ns_def)
    next
      case rs: True
      then have r2: "r2 = Ok True" and reads2: "list_all is_read evs2" using sg stage_s by (simp_all add: rs_def)
      have run2: "turn mld x s = rest mld x t2" using build sign r1 r2 by (simp add: turn check_run)
      then obtain evs3 where evs3: "history t = history t2 @ evs3" "list_all no_jobs evs3"
        using run emitsE [OF rest_no_jobs] by metis
      then have "writes evs = writes evs3" using evs build(2) sign(2) reads1 reads2 by (simp add: writes_of_reads)
      moreover have "goes_on_to (turn mld x) (rest mld x) s"
        unfolding goes_on_to_def using run2 build(2) sign(2) reads1 reads2 by (intro exI [of _ t2] exI [of _ "evs1 @ evs2"]) simp
      moreover have "ns = ps" using sg stage_s reads2 by (simp add: writes_of_reads ns_def ps_def)
      ultimately show thesis using passed rb rs nb no_jobs_perform [OF evs3(2)] by (simp add: js'_def)
    qed
  qed
qed

text \<open>
  The outcome of a run: the phases after it, the writes on jobs, and either the rest is reached, or
  the run for this kernel stops, or ends with an error, and writes nothing but jobs.
\<close>

lemma turn_run:
  fixes nm uid :: string
  assumes world: "shows_world ctl (owner mld) mld hb hs W L" and ok: "jobs_ok ctl (owner mld) (w_jobs W)" and names: "names_ok (w_jobs W)"
    and run: "turn mld x s = (r, t)" and evs: "history t = history s @ evs"
  defines "js' \<equiv> fold (perform nm uid) (writes evs) (w_jobs W)"
    and "spec \<equiv> kernel_spec mld hb hs (w_images W) (phases ctl (owner mld) mld (w_jobs W))"
  shows "phases ctl (owner mld) mld js' = fst spec \<and> jobs_ok ctl (owner mld) js' \<and>
    (\<exists>jt ws. stage_writes ctl (owner mld) jt mld (w_jobs W) ws \<and> js' = fold (perform nm uid) ws (w_jobs W)) \<and>
    (if snd spec then goes_on_to (turn mld x) (rest mld x) s
     else (r = Ok (stop x) \<or> (\<exists>e. r = Err e)) \<and> (\<forall>w \<in> set (writes evs). \<exists>j. w = CreateJob j \<or> w = DeleteJob j))"
proof -
  note spec_simps = spec_def kernel_spec_def phases_def Let_def
  have job_writes: "\<forall>w \<in> set ws. \<exists>j. w = CreateJob j \<or> w = DeleteJob j" if "stage_writes ctl (owner mld) jt mld (w_jobs W) ws" for jt ws
    using that by (auto simp: stage_writes_def)
  from world ok run evs show ?thesis
  proof (cases rule: turn_cases [where nm = nm and uid = uid])
    case building
    moreover have "phase_of ctl (owner mld) JobTypeSign mld js' = phase_of ctl (owner mld) JobTypeSign mld (w_jobs W)"
      unfolding js'_def by (rule phase_frame [OF building(2) names other_kind(1)])
    ultimately show ?thesis using job_writes by (auto simp: spec_simps js'_def)
  next
    case signing
    moreover have "phase_of ctl (owner mld) JobTypeBuild mld js' = phase_of ctl (owner mld) JobTypeBuild mld (w_jobs W)"
      unfolding js'_def by (rule phase_frame [OF signing(4) names other_kind(2)])
    ultimately show ?thesis using job_writes by (auto simp: spec_simps js'_def)
  next
    case passed
    moreover have "\<And>jt. stage_writes ctl (owner mld) jt mld (w_jobs W) []" by (simp add: stage_writes_def)
    ultimately show ?thesis using ok by (auto simp: spec_simps js'_def intro!: exI [of _ "[]"])
  qed
qed

end

section \<open>Many runs for a kernel\<close>

text \<open>
  Between two runs: the counters of jobs change, jobs are collected or removed, jobs of other kernels
  and owners come; nobody else makes jobs for this kernel; images stay.  A job that the controller
  finds current is one that pushes the image (\<open>Build_Job\<close>, \<open>Sign_Pipeline\<close>); it succeeds before the next run.
\<close>

definition for_kernel :: "controls \<Rightarrow> Owner \<Rightarrow> ModuleLoaderData \<Rightarrow> Job \<Rightarrow> bool" where
  "for_kernel ctl owner mld j \<longleftrightarrow> ctl (om_OwnerReferences (job_Meta j)) owner \<and>
     (job_selected (mld_Namespace mld) (job_labels_of JobTypeBuild mld) j \<or>
      job_selected (mld_Namespace mld) (job_labels_of JobTypeSign mld) j)"

definition jobs_finish :: "controls \<Rightarrow> Owner \<Rightarrow> ModuleLoaderData \<Rightarrow> string \<Rightarrow> string \<Rightarrow> world \<Rightarrow> world \<Rightarrow> bool" where
  "jobs_finish ctl owner mld hb hs V W \<longleftrightarrow>
     (\<exists>js P others. progressed (w_jobs V) js \<and> w_jobs W = filter P js @ others \<and> (\<forall>j \<in> set others. \<not> for_kernel ctl owner mld j)) \<and>
     names_ok (w_jobs W) \<and> jobs_ok ctl owner (w_jobs W) \<and> set (w_images V) \<subseteq> set (w_images W) \<and>
     (\<forall>st. fst (phases ctl owner mld (w_jobs V)) = Present hb st \<longrightarrow> build_target mld \<in> set (w_images W)) \<and>
     (\<forall>st. snd (phases ctl owner mld (w_jobs V)) = Present hs st \<longrightarrow> mld_ContainerImage mld \<in> set (w_images W))"

text \<open>How many runs a stage still needs: none, one to start the job or to wait for it, two if an outdated job has to go first.\<close>

definition stage_rank :: "bool \<Rightarrow> bool \<Rightarrow> string \<Rightarrow> phase \<Rightarrow> nat" where
  "stage_rank needed img hash p = (if \<not> needed \<or> img then 0 else
     (case p of Absent \<Rightarrow> 1 | Present h _ \<Rightarrow> if h = hash then 1 else 2))"

definition kernel_rank :: "controls \<Rightarrow> Owner \<Rightarrow> ModuleLoaderData \<Rightarrow> string \<Rightarrow> string \<Rightarrow> world \<Rightarrow> nat" where
  "kernel_rank ctl owner mld hb hs W =
     stage_rank (ShouldBeBuilt mld) (build_target mld \<in> set (w_images W)) hb (fst (phases ctl owner mld (w_jobs W))) +
     stage_rank (ShouldBeSigned mld) (mld_ContainerImage mld \<in> set (w_images W)) hs (snd (phases ctl owner mld (w_jobs W)))"

lemma kernel_rank_le: "kernel_rank ctl owner mld hb hs W \<le> 4"
  by (auto simp: kernel_rank_def stage_rank_def split: phase.splits)

text \<open>What the time between two runs may do to a phase.\<close>

definition phase_later :: "phase \<Rightarrow> phase \<Rightarrow> bool" where
  "phase_later p q \<longleftrightarrow> q = Absent \<or> (\<exists>h st st'. p = Present h st \<and> q = Present h st')"

lemma phase_of_later:
  assumes prog: "progressed js js'" and few: "length (owned_for ctl owner (mld_Namespace mld) (job_labels_of jt mld) js) \<le> 1"
    and others: "owned_for ctl owner (mld_Namespace mld) (job_labels_of jt mld) others = []"
  shows "phase_later (phase_of ctl owner jt mld js) (phase_of ctl owner jt mld (filter P js' @ others))"
proof -
  let ?own = "owned_for ctl owner (mld_Namespace mld) (job_labels_of jt mld)"
  have "progressed (?own js) (?own js')" by (rule owned_for_progressed [OF prog])
  then consider "?own js' = []" | j j' where "?own js = [j]" "?own js' = [j']" "job_Meta j' = job_Meta j"
    using few by (cases "?own js") (auto simp: progressed_def list_all2_Cons1)
  then show ?thesis
    by cases (auto simp: phase_of_def owned_for_filter others phase_later_def annotations_def)
qed

lemma jobs_finish_later:
  assumes "jobs_finish ctl owner mld hb hs V W" and "jobs_ok ctl owner (w_jobs V)"
  shows "phase_later (fst (phases ctl owner mld (w_jobs V))) (fst (phases ctl owner mld (w_jobs W)))"
    and "phase_later (snd (phases ctl owner mld (w_jobs V))) (snd (phases ctl owner mld (w_jobs W)))"
proof -
  obtain js P others where js: "progressed (w_jobs V) js" "w_jobs W = filter P js @ others" "\<forall>j \<in> set others. \<not> for_kernel ctl owner mld j"
    using assms(1) unfolding jobs_finish_def by blast
  have "owned_for ctl owner (mld_Namespace mld) (job_labels_of jt mld) others = []" if "jt = JobTypeBuild \<or> jt = JobTypeSign" for jt
    using js(3) that by (auto simp: owned_for_def for_kernel_def filter_empty_conv)
  moreover have "length (owned_for ctl owner (mld_Namespace mld) (job_labels_of jt mld) (w_jobs V)) \<le> 1" for jt
    using assms(2) by (simp add: jobs_ok_def job_labels_of_def)
  ultimately show "phase_later (fst (phases ctl owner mld (w_jobs V))) (fst (phases ctl owner mld (w_jobs W)))"
      "phase_later (snd (phases ctl owner mld (w_jobs V))) (snd (phases ctl owner mld (w_jobs W)))"
    by (simp_all add: phases_def js(2) phase_of_later [OF js(1)])
qed

text \<open>A stage never falls back, and one that is worked at comes closer to its end.\<close>

lemma stage_rank_later:
  assumes "phase_later p q" and "img \<Longrightarrow> img'" and "\<And>st. p = Present hash st \<Longrightarrow> img'"
  shows "stage_rank needed img' hash q \<le> stage_rank needed img hash p"
  using assms by (auto simp: stage_rank_def phase_later_def split: phase.splits)

lemma stage_rank_worked:
  assumes "phase_later (stage_next needed img hash p) q" and "img \<Longrightarrow> img'" and "\<not> stage_ready needed img hash p"
    and "\<And>st. stage_next needed img hash p = Present hash st \<Longrightarrow> img'"
  shows "stage_rank needed img' hash q < stage_rank needed img hash p"
  using assms
  by (cases p) (auto simp: stage_rank_def stage_next_def stage_ready_def phase_later_def split: if_splits)

lemma stage_rank_kept:
  assumes "phase_later (stage_next needed img hash p) q" and "img \<Longrightarrow> img'" and "stage_ready needed img hash p"
    and "\<And>st. stage_next needed img hash p = Present hash st \<Longrightarrow> img'"
  shows "stage_rank needed img' hash q \<le> stage_rank needed img hash p"
  using assms
  by (cases p) (auto simp: stage_rank_def stage_next_def stage_ready_def phase_later_def split: if_splits phase.splits)

context kernel_turn
begin

lemma rank_decreases:
  assumes world: "shows_world ctl (owner mld) mld hb hs W L" and ok: "jobs_ok ctl (owner mld) (w_jobs W)" "names_ok (w_jobs W)"
    and run: "turn mld x s = (r, t)" "history t = history s @ evs"
    and V: "w_jobs V = fold (perform nm uid) (writes evs) (w_jobs W)" "w_images V = w_images W"
    and fin: "jobs_finish ctl (owner mld) mld hb hs V W'" and no: "\<not> goes_on_to (turn mld x) (rest mld x) s"
  shows "kernel_rank ctl (owner mld) mld hb hs W' < kernel_rank ctl (owner mld) mld hb hs W"
proof -
  let ?pb = "fst (phases ctl (owner mld) mld (w_jobs W))" and ?ps = "snd (phases ctl (owner mld) mld (w_jobs W))"
  let ?built = "build_target mld \<in> set (w_images W)" and ?signd = "mld_ContainerImage mld \<in> set (w_images W)"
  let ?rb = "stage_ready (ShouldBeBuilt mld) ?built hb ?pb"
  note run = turn_run [OF world ok run, of nm uid, folded V(1)]
  have spec: "\<not> snd (kernel_spec mld hb hs (w_images W) (phases ctl (owner mld) mld (w_jobs W)))" using run no by (auto split: if_splits)
  have phases: "fst (phases ctl (owner mld) mld (w_jobs V)) = stage_next (ShouldBeBuilt mld) ?built hb ?pb"
      "snd (phases ctl (owner mld) mld (w_jobs V)) = (if ?rb then stage_next (ShouldBeSigned mld) ?signd hs ?ps else ?ps)"
    using run by (simp_all add: kernel_spec_def Let_def)
  have later: "phase_later (fst (phases ctl (owner mld) mld (w_jobs V))) (fst (phases ctl (owner mld) mld (w_jobs W')))"
      "phase_later (snd (phases ctl (owner mld) mld (w_jobs V))) (snd (phases ctl (owner mld) mld (w_jobs W')))"
    using jobs_finish_later [OF fin] run by blast+
  have images: "?built \<Longrightarrow> build_target mld \<in> set (w_images W')" "?signd \<Longrightarrow> mld_ContainerImage mld \<in> set (w_images W')"
      "\<And>st. fst (phases ctl (owner mld) mld (w_jobs V)) = Present hb st \<Longrightarrow> build_target mld \<in> set (w_images W')"
      "\<And>st. snd (phases ctl (owner mld) mld (w_jobs V)) = Present hs st \<Longrightarrow> mld_ContainerImage mld \<in> set (w_images W')"
    using fin V(2) unfolding jobs_finish_def by auto
  show ?thesis
  proof (cases ?rb)
    case True
    then have "\<not> stage_ready (ShouldBeSigned mld) ?signd hs ?ps" using spec by (simp add: kernel_spec_def Let_def)
    then show ?thesis
      unfolding kernel_rank_def using True phases later images
      by (intro add_le_less_mono stage_rank_kept stage_rank_worked) auto
  next
    case False
    then show ?thesis
      unfolding kernel_rank_def using phases later images
      by (intro add_less_le_mono stage_rank_later stage_rank_worked) auto
  qed
qed

end

text \<open>A run that leaves the jobs alone, for whatever reason, does not set the kernel back.\<close>

lemma rank_idle:
  assumes "jobs_finish ctl owner mld hb hs V W'" and "jobs_ok ctl owner (w_jobs V)"
  shows "kernel_rank ctl owner mld hb hs W' \<le> kernel_rank ctl owner mld hb hs V"
  unfolding kernel_rank_def
  using jobs_finish_later [OF assms] assms(1) [unfolded jobs_finish_def]
  by (intro add_mono stage_rank_later) auto

text \<open>So five runs are enough, with any number of runs in between that leave the jobs alone.\<close>

lemma within_five:
  fixes n :: nat
  assumes start: "rank (W 0) \<le> (4 :: nat)" and five: "5 \<le> card {i. i < n \<and> fine i}"
    and fine: "\<And>i. i < n \<Longrightarrow> fine i \<Longrightarrow> \<not> good i \<Longrightarrow> rank (W (Suc i)) < rank (W i)"
    and idle: "\<And>i. i < n \<Longrightarrow> \<not> fine i \<Longrightarrow> rank (W (Suc i)) \<le> rank (W i)"
  shows "\<exists>i < n. fine i \<and> good i"
proof (rule ccontr)
  assume none: "\<not> ?thesis"
  have "rank (W k) + card {i. i < k \<and> fine i} \<le> 4" if "k \<le> n" for k
    using that
  proof (induction k)
    case (Suc k)
    have "{i. i < Suc k \<and> fine i} = (if fine k then insert k {i. i < k \<and> fine i} else {i. i < k \<and> fine i})"
      by (auto simp: less_Suc_eq)
    then have "card {i. i < Suc k \<and> fine i} = card {i. i < k \<and> fine i} + (if fine k then 1 else 0)" by simp
    then show ?case using Suc fine [of k] idle [of k] none by (cases "fine k") auto
  qed (simp add: start)
  from this [of n] five show False by simp
qed

section \<open>An example\<close>

text \<open>A cluster that shows the jobs and images of a state.\<close>

definition pipeline_cluster :: "world \<Rightarrow> env" where
  "pipeline_cluster W = (store_cluster (w_jobs W))\<lparr>
     cr_Manifest := (\<lambda>_ i _. if i \<in> set (w_images W) then Inr ''manifest'' else Inl (TransportError 404)),
     UnmarshalMediaType := (\<lambda>_. Inr (Some ''application/vnd.oci.image.manifest.v1+json''))\<rparr>"

abbreviation pipeline_mld :: ModuleLoaderData where
  "pipeline_mld \<equiv> sample_mld (Some sample_build) (Some (sample_sign [''/a.ko'']))"

lemma pipeline_serves: "serves sample_controls owner pipeline_mld (show_nat 7) (show_nat 9) W (pipeline_cluster W)"
proof -
  have repos: "image_repo (build_target pipeline_mld) \<noteq> ''''" "image_repo (mld_ContainerImage pipeline_mld) \<noteq> ''''"
    by code_simp+
  have "cluster_env sample_controls (w_jobs W) (pipeline_cluster W)" "reliable (pipeline_cluster W)"
    using store_cluster_env [of "w_jobs W"] by (auto simp: cluster_env_def controller_law_def reliable_def pipeline_cluster_def)
  moreover have "registry_answers (pipeline_cluster W) pipeline_mld img (img \<in> set (w_images W))" if "image_repo img \<noteq> ''''" for img
  proof -
    have "\<not> Contains ''application/vnd.oci.image.manifest.v1+json'' ''manifest.list''" by code_simp
    then show ?thesis
      using that by (simp add: registry_answers_def pull_secret_ok_def manifest_ok_def StatusNotFound_def pipeline_cluster_def sample_mld_def)
  qed
  moreover have "build_inputs (pipeline_cluster W) pipeline_mld owner (show_nat 7)"
    by (simp add: build_inputs_def pipeline_cluster_def store_cluster_def job_cluster_def sample_defs) (rule exI [of _ 7], simp)
  moreover have "sign_inputs (pipeline_cluster W) pipeline_mld owner (show_nat 9)"
    by (simp add: sign_inputs_def secret_holds_def pipeline_cluster_def store_cluster_def job_cluster_def sample_defs) (rule exI [of _ 9], simp)
  ultimately show ?thesis using repos by (simp add: serves_def)
qed

lemmas pipeline_shows_world = pipeline_serves [THEN serves_shows_world]

text \<open>
  Runs in it, from the world \<open>W0\<close>: the new job is stored under a name longer than all others, and then the
  current jobs end, which leaves their images.
\<close>

definition fresh_name :: "Job list \<Rightarrow> string" where
  "fresh_name js = replicate (Suc (sum_list (map (\<lambda>j. length (om_Name (job_Meta j))) js))) (CHR ''x'')"

definition pipeline_run :: "(env \<Rightarrow> (op_state, 'a) go) \<Rightarrow> world \<Rightarrow> world" where
  "pipeline_run turn W = \<lparr>w_jobs = fold (perform (fresh_name (w_jobs W)) ''u'')
     (writes (history (snd (turn (pipeline_cluster W) fresh_state)))) (w_jobs W), w_images = w_images W\<rparr>"

definition pipeline_rest :: "Owner \<Rightarrow> world \<Rightarrow> world" where
  "pipeline_rest owner V = V\<lparr>w_images :=
     (case fst (phases sample_controls owner pipeline_mld (w_jobs V)) of
        Present h _ \<Rightarrow> if h = show_nat 7 then [build_target pipeline_mld] else [] | Absent \<Rightarrow> []) @
     (case snd (phases sample_controls owner pipeline_mld (w_jobs V)) of
        Present h _ \<Rightarrow> if h = show_nat 9 then [mld_ContainerImage pipeline_mld] else [] | Absent \<Rightarrow> []) @
     w_images V\<rparr>"

primrec pipeline_world :: "(env \<Rightarrow> (op_state, 'a) go) \<Rightarrow> Owner \<Rightarrow> world \<Rightarrow> nat \<Rightarrow> world" where
  "pipeline_world turn owner W0 0 = W0"
| "pipeline_world turn owner W0 (Suc i) = pipeline_rest owner (pipeline_run turn (pipeline_world turn owner W0 i))"

text \<open>An outdated build job and no image.\<close>

definition outdated_world :: world where
  "outdated_world = \<lparr>w_jobs = [(sample_job ''j'' ''0'' 0)\<lparr>job_Meta :=
     (job_Meta (sample_job ''j'' ''0'' 0))\<lparr>om_Labels := job_labels_of JobTypeBuild pipeline_mld\<rparr>\<rparr>], w_images = []\<rparr>"

lemma outdated_world_ok: "jobs_ok sample_controls owner (w_jobs outdated_world)" "names_ok (w_jobs outdated_world)"
  by (auto simp: outdated_world_def jobs_ok_def owned_for_def names_ok_def sample_job_def)

lemma pipeline_rest_jobs [simp]: "w_jobs (pipeline_rest owner V) = w_jobs V"
  by (simp add: pipeline_rest_def)

lemma fresh_name_fresh: "(ns, fresh_name js) \<notin> job_key ` set js"
proof
  assume "(ns, fresh_name js) \<in> job_key ` set js"
  then obtain j where j: "j \<in> set js" "om_Name (job_Meta j) = fresh_name js" by (auto simp: job_key_def)
  have "length (om_Name (job_Meta j)) \<le> sum_list (map (\<lambda>j. length (om_Name (job_Meta j))) js)"
    by (intro member_le_sum_list) (simp_all add: j(1))
  with j(2) show False by (simp add: fresh_name_def)
qed

lemma pipeline_rest_finishes:
  assumes "jobs_ok sample_controls owner (w_jobs V)" and "names_ok (w_jobs V)"
  shows "jobs_finish sample_controls owner pipeline_mld (show_nat 7) (show_nat 9) V (pipeline_rest owner V)"
proof -
  have "progressed (w_jobs V) (w_jobs V)" by (simp add: progressed_def list_all2_refl)
  moreover have "w_jobs (pipeline_rest owner V) = filter (\<lambda>_. True) (w_jobs V) @ []" by simp
  ultimately have "\<exists>js P others. progressed (w_jobs V) js \<and> w_jobs (pipeline_rest owner V) = filter P js @ others \<and>
      (\<forall>j \<in> set others. \<not> for_kernel sample_controls owner pipeline_mld j)" by (metis empty_iff empty_set)
  then show ?thesis
    using assms by (auto simp: jobs_finish_def pipeline_rest_def)
qed

lemma pipeline_world_finishes:
  assumes turn: "\<And>W. kernel_turn (pipeline_cluster W) (build W) (sign W) ow (tn W) (rest W) stop" and owner: "ow pipeline_mld = owner"
    and run: "\<And>W. turn (pipeline_cluster W) = tn W pipeline_mld x"
    and start: "jobs_ok sample_controls owner (w_jobs W0)" "names_ok (w_jobs W0)"
  shows "jobs_finish sample_controls owner pipeline_mld (show_nat 7) (show_nat 9)
    \<lparr>w_jobs = fold (perform (fresh_name (w_jobs (pipeline_world turn owner W0 i))) ''u'')
       (writes (history (snd (turn (pipeline_cluster (pipeline_world turn owner W0 i)) fresh_state)))) (w_jobs (pipeline_world turn owner W0 i)),
     w_images = w_images (pipeline_world turn owner W0 i)\<rparr> (pipeline_world turn owner W0 (Suc i))"
proof -
  let ?ok = "\<lambda>W. jobs_ok sample_controls owner (w_jobs W) \<and> names_ok (w_jobs W)"
  have keeps: "?ok (pipeline_run turn W)" if "?ok W" for W
  proof -
    obtain r t where rt: "tn W pipeline_mld x fresh_state = (r, t)" by fastforce
    have "history t = history fresh_state @ history t" by (simp add: fresh_state_def)
    from kernel_turn.turn_run [OF turn, where mld = pipeline_mld, unfolded owner, OF pipeline_shows_world _ _ rt this, of "fresh_name (w_jobs W)" "''u''"] that
    show ?thesis
      using names_ok_stage [OF _ _ fresh_name_fresh] rt by (auto simp: pipeline_run_def run)
  qed
  have "?ok (pipeline_world turn owner W0 i)"
    by (induction i) (use start keeps in auto)
  from pipeline_rest_finishes keeps [OF this] show ?thesis
    by (simp add: pipeline_run_def)
qed

end
