(* ===== verification/Kernel_Pipeline.thy ===== *)
theory Kernel_Pipeline
  imports Job_Pipeline
begin

text \<open>
  The way of one kernel from a Module to a loaded module: build the image, sign it, run the DaemonSet.
  One turn of the loop over the kernels in the Module controller (\<open>reconcile_kernel\<close>) is a \<open>kernel_turn\<close>
  whose rest is the DaemonSet.
\<close>

section \<open>The Module controller's turn\<close>

text \<open>The rest of a turn once the image is there: the DaemonSet of the kernel.\<close>

definition load_kernel :: "env \<Rightarrow> ModuleLoaderData \<Rightarrow> ds_map \<Rightarrow> (op_state, ds_map) go" where
  "load_kernel L mld dsm = check (handleDriverContainer L mld dsm)
     (\<lambda>e. Errorf ''failed to handle driver container for kernel version %s: %v'' [AS (mld_KernelVersion mld), AE e]) ret"

lemma stage_result_run:
  assumes "stage_result mld stage status s = (r, t)"
  shows "r = Ok (status = StatusCompleted)" and "history t = history s"
  using assms
  by (auto simp: stage_result_def bind_go_run ret_run SetCompletedStage_def set_gauges_run status_defs split: if_splits)

lemma handleDriverContainer_no_jobs: "emits no_jobs (handleDriverContainer L mld dsm)"
proof -
  have cop: "guar (\<lambda>_. True) (\<lambda>_. no_jobs) (CreateOrPatchDaemonSet L ds f) (\<lambda>_ _. True) (\<lambda>_ _. True)" for ds f
    by (rule guar_weaken [OF guar_CreateOrPatchDaemonSet [where I = "\<lambda>_. True"]]) (auto simp: no_jobs_def)
  show ?thesis
    unfolding emits_def handleDriverContainer_def Let_def
    by (rule guar_bind_go [where R = "\<lambda>_ _. True", OF cop])
      (auto intro!: guar_bind_go [where R = "\<lambda>_ _. True"] guar_SetCompletedStage guar_ret split: prod.split)
qed

interpretation build_stage: pipeline_stage L "BuildShouldSync L" "\<lambda>mld img. BuildSync L mld" "BuildGarbageCollect L"
  JobTypeBuild ShouldBeBuilt build_target "build_made L" "\<lambda>mld img push owner. BuildMakeJobTemplate L mld owner push"
  "handleBuild L" "\<lambda>_. ''''" mld_Owner for L
proof unfold_locales
  fix mld
  show "\<exists>w. BuildShouldSync L mld = (if \<not> ShouldBeBuilt mld then ret False
      else check (ImageExists L mld (mld_Namespace mld) (build_target mld)) w (\<lambda>ex. ret (\<not> ex)))"
    by (rule BuildShouldSync_asks)
  show "\<exists>w1 w2 fin. (handleBuild L mld = check (BuildShouldSync L mld) w1 (\<lambda>b. if \<not> b then ret True
      else check (BuildSync L mld True (mld_Owner mld)) w2 fin)) \<and>
      (\<forall>st s r t. fin st s = (r, t) \<longrightarrow> r = Ok (st = StatusCompleted) \<and> history t = history s)"
    unfolding handleBuild_def by (intro exI, rule conjI, rule refl) (use stage_result_run in blast)
qed

interpretation sign_stage: pipeline_stage L "SignShouldSync L" "SignSync L" "SignGarbageCollect L" JobTypeSign
  ShouldBeSigned mld_ContainerImage "sign_made L"
  "\<lambda>mld img push owner. SignMakeJobTemplate L mld (job_labels_of JobTypeSign mld) img push owner"
  "handleSigning L" sign_source mld_Owner for L
proof unfold_locales
  fix mld
  show "\<exists>w. SignShouldSync L mld = (if \<not> ShouldBeSigned mld then ret False
      else check (ImageExists L mld (mld_Namespace mld) (mld_ContainerImage mld)) w (\<lambda>ex. ret (\<not> ex)))"
    by (rule SignShouldSync_asks)
  show "\<exists>w1 w2 fin. (handleSigning L mld = check (SignShouldSync L mld) w1 (\<lambda>b. if \<not> b then ret True
      else check (SignSync L mld (sign_source mld) True (mld_Owner mld)) w2 fin)) \<and>
      (\<forall>st s r t. fin st s = (r, t) \<longrightarrow> r = Ok (st = StatusCompleted) \<and> history t = history s)"
    unfolding handleSigning_def sign_source_def [symmetric] Let_def by (intro exI, rule conjI, rule refl) (use stage_result_run in blast)
qed

interpretation loader_turn: kernel_turn L "handleBuild L" "handleSigning L" mld_Owner
  "\<lambda>mld. reconcile_kernel L (mld_KernelVersion mld, mld)" "load_kernel L" "\<lambda>dsm. dsm" for L
proof unfold_locales
  fix mld dsm
  show "\<exists>w1 w2. reconcile_kernel L (mld_KernelVersion mld, mld) dsm = check (handleBuild L mld) w1 (\<lambda>b. if \<not> b then ret dsm
      else check (handleSigning L mld) w2 (\<lambda>b. if \<not> b then ret dsm else load_kernel L mld dsm))"
    unfolding reconcile_kernel_def load_kernel_def Let_def fst_conv snd_conv by (intro exI, rule refl)
  show "emits no_jobs (load_kernel L mld dsm)"
    unfolding load_kernel_def by (intro emits_rules handleDriverContainer_no_jobs)
qed

section \<open>Properties\<close>

text \<open>
  C7. One turn of the controller for a kernel implements the specification.  The phases of the build
  job and of the signing job after it are the ones that \<open>kernel_spec\<close> gives: the build job is worked at
  first, the signing job is touched only once the image is built, and each of them only while its
  image is missing.  The turn goes on to the DaemonSet exactly if both stages are passed; otherwise it
  ends with the DaemonSets as they were, or with an error, and writes nothing but jobs.
\<close>

theorem reconcile_kernel_refines:
  assumes "shows_world ctl (mld_Owner mld) mld hb hs W L" and "jobs_ok ctl (mld_Owner mld) (w_jobs W)" and "names_ok (w_jobs W)"
    and "reconcile_kernel L (mld_KernelVersion mld, mld) dsm s = (r, t)" and "history t = history s @ evs"
    and "kernel_spec mld hb hs (w_images W) (phases ctl (mld_Owner mld) mld (w_jobs W)) = (pp, load)"
  shows "phases ctl (mld_Owner mld) mld (fold (perform nm uid) (writes evs) (w_jobs W)) = pp \<and>
    jobs_ok ctl (mld_Owner mld) (fold (perform nm uid) (writes evs) (w_jobs W)) \<and>
    (load \<longrightarrow> goes_on_to (reconcile_kernel L (mld_KernelVersion mld, mld) dsm) (load_kernel L mld dsm) s) \<and>
    (\<not> load \<longrightarrow> (r = Ok dsm \<or> (\<exists>e. r = Err e)) \<and> (\<forall>w \<in> set (writes evs). \<exists>j. w = CreateJob j \<or> w = DeleteJob j))"
  using loader_turn.turn_run [OF assms(1-5), of nm uid] assms(6) by auto

theorem reconcile_kernel_refines_witness:
  "\<exists>r t. reconcile_kernel (pipeline_cluster \<lparr>w_jobs = [], w_images = []\<rparr>) (mld_KernelVersion pipeline_mld, pipeline_mld) [] fresh_state = (r, t) \<and>
     phases sample_controls sample_owner pipeline_mld (fold (perform ''n'' ''u'') (writes (history t)) []) =
       (Present (show_nat 7) unknown_status, Absent) \<and>
     (r = Ok [] \<or> (\<exists>e. r = Err e))"
proof -
  let ?W = "\<lparr>w_jobs = [], w_images = []\<rparr>"
  have owner: "mld_Owner pipeline_mld = sample_owner" by (simp add: sample_mld_def)
  obtain r t where run: "reconcile_kernel (pipeline_cluster ?W) (mld_KernelVersion pipeline_mld, pipeline_mld) [] fresh_state = (r, t)"
    by fastforce
  have "history t = history fresh_state @ history t" by (simp add: fresh_state_def)
  moreover have "kernel_spec pipeline_mld (show_nat 7) (show_nat 9) (w_images ?W) (phases sample_controls sample_owner pipeline_mld (w_jobs ?W)) =
      ((Present (show_nat 7) unknown_status, Absent), False)"
    by (simp add: kernel_spec_def phases_def stage_ready_def stage_next_def ShouldBeBuilt_def sample_mld_def Let_def)
  ultimately show ?thesis
    using reconcile_kernel_refines [OF pipeline_shows_world _ _ run, of "history t" _ False "''n''" "''u''"] run
    by (auto simp: jobs_ok_Nil names_ok_def owner)
qed

text \<open>
  C6. A kernel gets its DaemonSet, under these conditions.  The controller takes any number of turns for a
  kernel whose image is to be built, signed, or both, starting from any jobs, outdated ones included,
  of which the owner has at most one of each kind and no two share a name.
  At least five of the turns are served: in these no request on jobs fails and lists show the jobs there are; the
  registry answers for the images of the kernel exactly by what has been pushed; the pull secret, the
  ConfigMap with the Dockerfile and the signing secrets can be read, and the hashes made of them are the
  same in all served turns.  Any other turn may fail in any way, as long as it writes no job.  Between two
  turns each job that is current pushes its image, no image disappears, nobody else makes jobs for the
  kernel or takes the name of a job, and for the rest anything may happen: counters of jobs change, and
  jobs are collected or removed.  Then one of the served turns reaches the DaemonSet of the kernel.
\<close>

theorem kernel_loads_within_five:
  fixes n :: nat
  assumes "jobs_ok ctl (mld_Owner mld) (w_jobs (W 0))" and "names_ok (w_jobs (W 0))"
    and "\<And>i. i < n \<Longrightarrow> reconcile_kernel (L i) (mld_KernelVersion mld, mld) (dsm i) (s i) = (r i, t i) \<and> history (t i) = history (s i) @ evs i"
    and "\<And>i. i < n \<Longrightarrow> fine i \<Longrightarrow> serves ctl (mld_Owner mld) mld hb hs (W i) (L i)"
    and "\<And>i. i < n \<Longrightarrow> \<not> fine i \<Longrightarrow> list_all no_jobs (evs i)"
    and "\<And>i. i < n \<Longrightarrow> jobs_finish ctl (mld_Owner mld) mld hb hs
       \<lparr>w_jobs = fold (perform (nm i) (uid i)) (writes (evs i)) (w_jobs (W i)), w_images = w_images (W i)\<rparr> (W (Suc i))"
    and "5 \<le> card {i. i < n \<and> fine i}"
  shows "\<exists>i < n. fine i \<and>
    goes_on_to (reconcile_kernel (L i) (mld_KernelVersion mld, mld) (dsm i)) (load_kernel (L i) mld (dsm i)) (s i)"
proof (rule within_five [where W = W and rank = "kernel_rank ctl (mld_Owner mld) mld hb hs", OF kernel_rank_le assms(7)])
  fix i :: nat
  assume i: "i < n"
  have ok: "jobs_ok ctl (mld_Owner mld) (w_jobs (W i))" "names_ok (w_jobs (W i))"
    using assms(1,2,6) [unfolded jobs_finish_def] i by (cases i; simp)+
  show "kernel_rank ctl (mld_Owner mld) mld hb hs (W (Suc i)) < kernel_rank ctl (mld_Owner mld) mld hb hs (W i)"
    if "fine i" and no: "\<not> goes_on_to (reconcile_kernel (L i) (mld_KernelVersion mld, mld) (dsm i)) (load_kernel (L i) mld (dsm i)) (s i)"
    using assms(3) [OF i] ok
    by (intro loader_turn.rank_decreases [OF serves_shows_world [OF assms(4) [OF i that(1)]] _ _ _ _ _ _ assms(6) [OF i] no]) auto
  show "kernel_rank ctl (mld_Owner mld) mld hb hs (W (Suc i)) \<le> kernel_rank ctl (mld_Owner mld) mld hb hs (W i)" if "\<not> fine i"
    using rank_idle [OF assms(6) [OF i]] ok by (simp add: no_jobs_perform [OF assms(5) [OF i that]] kernel_rank_def)
qed

theorem kernel_loads_within_five_witness:
  "\<exists>i < 5. \<exists>W. W = pipeline_world (\<lambda>L. reconcile_kernel L (mld_KernelVersion pipeline_mld, pipeline_mld) []) sample_owner outdated_world i \<and>
     goes_on_to (reconcile_kernel (pipeline_cluster W) (mld_KernelVersion pipeline_mld, pipeline_mld) []) (load_kernel (pipeline_cluster W) pipeline_mld [])
       fresh_state"
proof -
  let ?turn = "\<lambda>L. reconcile_kernel L (mld_KernelVersion pipeline_mld, pipeline_mld) []"
  let ?W = "pipeline_world ?turn sample_owner outdated_world" and ?run = "\<lambda>i. ?turn (pipeline_cluster
    (pipeline_world (\<lambda>L. reconcile_kernel L (mld_KernelVersion pipeline_mld, pipeline_mld) []) sample_owner outdated_world i)) fresh_state"
  have owner: "mld_Owner pipeline_mld = sample_owner" by (simp add: sample_mld_def)
  have "\<exists>i < 5. goes_on_to (?turn (pipeline_cluster (?W i))) (load_kernel (pipeline_cluster (?W i)) pipeline_mld []) fresh_state"
    using kernel_loads_within_five [where W = ?W and L = "\<lambda>i. pipeline_cluster (?W i)" and dsm = "\<lambda>_. []" and s = "\<lambda>_. fresh_state"
          and r = "\<lambda>i. fst (?run i)" and t = "\<lambda>i. snd (?run i)" and evs = "\<lambda>i. history (snd (?run i))" and n = 5 and fine = "\<lambda>_. True"
          and nm = "\<lambda>i. fresh_name (w_jobs (?W i))" and uid = "\<lambda>_. ''u''" and mld = pipeline_mld, unfolded owner, OF _ _ _ pipeline_serves _
          pipeline_world_finishes [OF loader_turn.kernel_turn_axioms owner refl outdated_world_ok]]
    by (simp add: outdated_world_ok fresh_state_def)
  then show ?thesis by blast
qed

end
