(* ===== verification/Hub_Pipeline.thy ===== *)
theory Hub_Pipeline
  imports Job_Pipeline Hub
begin

text \<open>
  The hub takes a kernel through the same pipeline, for the kernels of its managed clusters and with
  the ManagedClusterModule as the owner of the jobs.  One turn of the loop in \<open>BuildAndSign\<close> is a
  \<open>kernel_turn\<close> after which nothing is left to do: the verdict of the loop stays as it was.
\<close>

section \<open>The hub's turn\<close>

lemma previous_image_source: "previous_image = sign_source"
  by (auto simp: previous_image_def sign_source_def)

interpretation hub_build: pipeline_stage L "BuildShouldSync L" "\<lambda>mld img. BuildSync L mld" "BuildGarbageCollect L"
  JobTypeBuild ShouldBeBuilt build_target "build_made L" "\<lambda>mld img push owner. BuildMakeJobTemplate L mld owner push"
  "\<lambda>mld. cluster_build L mld ow" "\<lambda>_. ''''" "\<lambda>_. ow" for L ow
proof unfold_locales
  fix mld
  show "\<exists>w. BuildShouldSync L mld = (if \<not> ShouldBeBuilt mld then ret False
      else check (ImageExists L mld (mld_Namespace mld) (build_target mld)) w (\<lambda>ex. ret (\<not> ex)))"
    by (rule BuildShouldSync_asks)
  show "\<exists>w1 w2 fin. (cluster_build L mld ow = check (BuildShouldSync L mld) w1 (\<lambda>b. if \<not> b then ret True
      else check (BuildSync L mld True ow) w2 fin)) \<and>
      (\<forall>st s r t. fin st s = (r, t) \<longrightarrow> r = Ok (st = StatusCompleted) \<and> history t = history s)"
    unfolding cluster_build_def by (intro exI, rule conjI, rule refl) (simp add: ret_run)
qed

interpretation hub_sign: pipeline_stage L "SignShouldSync L" "SignSync L" "SignGarbageCollect L" JobTypeSign
  ShouldBeSigned mld_ContainerImage "sign_made L"
  "\<lambda>mld img push owner. SignMakeJobTemplate L mld (job_labels_of JobTypeSign mld) img push owner"
  "\<lambda>mld. cluster_sign L mld ow" sign_source "\<lambda>_. ow" for L ow
proof unfold_locales
  fix mld
  show "\<exists>w. SignShouldSync L mld = (if \<not> ShouldBeSigned mld then ret False
      else check (ImageExists L mld (mld_Namespace mld) (mld_ContainerImage mld)) w (\<lambda>ex. ret (\<not> ex)))"
    by (rule SignShouldSync_asks)
  show "\<exists>w1 w2 fin. (cluster_sign L mld ow = check (SignShouldSync L mld) w1 (\<lambda>b. if \<not> b then ret True
      else check (SignSync L mld (sign_source mld) True ow) w2 fin)) \<and>
      (\<forall>st s r t. fin st s = (r, t) \<longrightarrow> r = Ok (st = StatusCompleted) \<and> history t = history s)"
    unfolding cluster_sign_def previous_image_source by (intro exI, rule conjI, rule refl) (simp add: ret_run)
qed

interpretation hub_turn: kernel_turn L "\<lambda>mld. cluster_build L mld ow" "\<lambda>mld. cluster_sign L mld ow" "\<lambda>_. ow"
  "\<lambda>mld. build_and_sign_kernel L ow (kern, mld)" "\<lambda>_. ret" "\<lambda>_. False" for L ow kern
proof unfold_locales
  fix mld c
  show "\<exists>w1 w2. build_and_sign_kernel L ow (kern, mld) c = check (cluster_build L mld ow) w1 (\<lambda>b. if \<not> b then ret False
      else check (cluster_sign L mld ow) w2 (\<lambda>b. if \<not> b then ret False else ret c))"
    unfolding build_and_sign_kernel_def bind_go_def snd_conv by (intro exI, rule refl)
  show "emits no_jobs (ret c)" for c :: bool
    by (intro emits_rules)
qed

section \<open>Properties\<close>

text \<open>
  One turn of \<open>BuildAndSign\<close> for a kernel implements the specification of the pipeline; it reports the
  kernel as done exactly if both stages are passed.
\<close>

theorem build_and_sign_kernel_refines:
  assumes "shows_world ctl owner mld hb hs W L" and "jobs_ok ctl owner (w_jobs W)" and "names_ok (w_jobs W)"
    and "build_and_sign_kernel L owner (kern, mld) True s = (r, t)" and "history t = history s @ evs"
    and "kernel_spec mld hb hs (w_images W) (phases ctl owner mld (w_jobs W)) = (pp, ready)"
  shows "phases ctl owner mld (fold (perform nm uid) (writes evs) (w_jobs W)) = pp \<and>
    jobs_ok ctl owner (fold (perform nm uid) (writes evs) (w_jobs W)) \<and>
    (r = Ok True \<longleftrightarrow> ready) \<and> (ready \<longrightarrow> writes evs = []) \<and>
    (\<forall>w \<in> set (writes evs). \<exists>j. w = CreateJob j \<or> w = DeleteJob j)"
  using hub_turn.turn_run [OF assms(1-5), of nm uid] assms(4-6)
  by (cases ready) (auto simp: goes_on_to_def ret_run writes_of_reads)

theorem build_and_sign_kernel_refines_witness:
  "\<exists>r t. build_and_sign_kernel (pipeline_cluster \<lparr>w_jobs = [], w_images = []\<rparr>) (owner_of_mcm (sample_mcm [])) (''5.4.0-gke'', pipeline_mld) True fresh_state = (r, t) \<and>
     r \<noteq> Ok True \<and>
     phases sample_controls (owner_of_mcm (sample_mcm [])) pipeline_mld (fold (perform ''n'' ''u'') (writes (history t)) []) =
       (Present (show_nat 7) unknown_status, Absent)"
proof -
  let ?W = "\<lparr>w_jobs = [], w_images = []\<rparr>" and ?o = "owner_of_mcm (sample_mcm [])"
  obtain r t where run: "build_and_sign_kernel (pipeline_cluster ?W) ?o (''5.4.0-gke'', pipeline_mld) True fresh_state = (r, t)"
    by fastforce
  have "history t = history fresh_state @ history t" by (simp add: fresh_state_def)
  moreover have "kernel_spec pipeline_mld (show_nat 7) (show_nat 9) (w_images ?W) (phases sample_controls ?o pipeline_mld (w_jobs ?W)) =
      ((Present (show_nat 7) unknown_status, Absent), False)"
    by (simp add: kernel_spec_def phases_def stage_ready_def stage_next_def ShouldBeBuilt_def sample_mld_def Let_def)
  ultimately show ?thesis
    using build_and_sign_kernel_refines [OF pipeline_shows_world _ _ run, of "history t" _ False "''n''" "''u''"] run
    by (auto simp: jobs_ok_Nil names_ok_def)
qed

text \<open>
  C8. The hub gets its images, under the conditions of the Module controller.  The hub takes any number of
  turns for a kernel of a managed cluster whose image is to be built, signed, or both, starting from any
  jobs, outdated ones included, of which the owner has at most one of each kind and no two share a name.
  At least five of the turns are served: in these no request on jobs fails and lists show the jobs there
  are; the registry answers for the images of the kernel exactly by what has been pushed; the pull secret,
  the ConfigMap with the Dockerfile and the signing secrets can be read, and the hashes made of them are
  the same in all served turns.  Any other turn may fail in any way, as long as it writes no job.  Between
  two turns each job that is current pushes its image, no image disappears, nobody else makes jobs for the
  kernel or takes the name of a job; counters of jobs may change, and jobs may be collected or removed.
  Then one of the served turns reports the kernel as done, without writing anything.
\<close>

theorem hub_kernel_done_within_five:
  fixes n :: nat
  assumes "jobs_ok ctl owner (w_jobs (W 0))" and "names_ok (w_jobs (W 0))"
    and "\<And>i. i < n \<Longrightarrow> build_and_sign_kernel (L i) owner (kern, mld) True (s i) = (r i, t i) \<and> history (t i) = history (s i) @ evs i"
    and "\<And>i. i < n \<Longrightarrow> fine i \<Longrightarrow> serves ctl owner mld hb hs (W i) (L i)"
    and "\<And>i. i < n \<Longrightarrow> \<not> fine i \<Longrightarrow> list_all no_jobs (evs i)"
    and "\<And>i. i < n \<Longrightarrow> jobs_finish ctl owner mld hb hs
       \<lparr>w_jobs = fold (perform (nm i) (uid i)) (writes (evs i)) (w_jobs (W i)), w_images = w_images (W i)\<rparr> (W (Suc i))"
    and "5 \<le> card {i. i < n \<and> fine i}"
  shows "\<exists>i < n. fine i \<and> r i = Ok True \<and> writes (evs i) = []"
proof (rule within_five [where W = W and rank = "kernel_rank ctl owner mld hb hs", OF kernel_rank_le assms(7)])
  fix i :: nat
  assume i: "i < n"
  have ok: "jobs_ok ctl owner (w_jobs (W i))" "names_ok (w_jobs (W i))"
    using assms(1,2,6) [unfolded jobs_finish_def] i by (cases i; simp)+
  show "kernel_rank ctl owner mld hb hs (W (Suc i)) < kernel_rank ctl owner mld hb hs (W i)"
    if "fine i" and no: "\<not> (r i = Ok True \<and> writes (evs i) = [])"
  proof -
    have "\<not> goes_on_to (build_and_sign_kernel (L i) owner (kern, mld) True) (ret True) (s i)"
      using no assms(3) [OF i] by (auto simp: goes_on_to_def ret_run writes_of_reads)
    then show ?thesis
      using assms(3) [OF i] ok
      by (intro hub_turn.rank_decreases [OF serves_shows_world [OF assms(4) [OF i that(1)]] _ _ _ _ _ _ assms(6) [OF i]]) auto
  qed
  show "kernel_rank ctl owner mld hb hs (W (Suc i)) \<le> kernel_rank ctl owner mld hb hs (W i)" if "\<not> fine i"
    using rank_idle [OF assms(6) [OF i]] ok by (simp add: no_jobs_perform [OF assms(5) [OF i that]] kernel_rank_def)
qed

theorem hub_kernel_done_within_five_witness:
  "\<exists>i < 5. fst (build_and_sign_kernel (pipeline_cluster (pipeline_world (\<lambda>L. build_and_sign_kernel L (owner_of_mcm (sample_mcm [])) (''5.4.0-gke'', pipeline_mld) True)
     (owner_of_mcm (sample_mcm [])) outdated_world i)) (owner_of_mcm (sample_mcm [])) (''5.4.0-gke'', pipeline_mld) True fresh_state) = Ok True"
proof -
  let ?o = "owner_of_mcm (sample_mcm [])"
  let ?turn = "\<lambda>L. build_and_sign_kernel L (owner_of_mcm (sample_mcm [])) (''5.4.0-gke'', pipeline_mld) True"
  let ?W = "pipeline_world ?turn ?o outdated_world"
  let ?run = "\<lambda>i. build_and_sign_kernel (pipeline_cluster (?W i)) ?o (''5.4.0-gke'', pipeline_mld) True fresh_state"
  have "\<exists>i < 5. fst (?run i) = Ok True \<and> writes (history (snd (?run i))) = []"
    using hub_kernel_done_within_five [where W = ?W and L = "\<lambda>i. pipeline_cluster (?W i)" and s = "\<lambda>_. fresh_state"
          and r = "\<lambda>i. fst (?run i)" and t = "\<lambda>i. snd (?run i)" and evs = "\<lambda>i. history (snd (?run i))" and n = 5 and fine = "\<lambda>_. True"
          and nm = "\<lambda>i. fresh_name (w_jobs (?W i))" and uid = "\<lambda>_. ''u''" and mld = pipeline_mld, OF _ _ _ pipeline_serves _
          pipeline_world_finishes [OF hub_turn.kernel_turn_axioms refl refl outdated_world_ok]]
    by (simp add: outdated_world_ok fresh_state_def)
  then show ?thesis by blast
qed

end
