(* ===== verification/Sign_Image.thy ===== *)
theory Sign_Image
  imports Image_Access Samples
begin

text \<open>
  \<open>cmd/signimage/signimage.go\<close>, the program a sign job runs, with the functions of
  \<open>internal/registry/registry.go\<close> that only it uses: it pulls an image, extracts the kernel modules it
  was asked for, signs each, and pushes the image with a new layer of signed modules on top.

  The file system, the registry, the signing tool and the formats are fields of the record \<open>world\<close>;
  what the program changes is the record \<open>sign_state\<close>: the files on disk, the map \<open>kmodsToSign\<close> that the
  callback shares with \<open>main\<close>, and the images pushed.  \<open>os.Exit\<close> is the result of the run.  It skips
  the deferred removal of the temporary directory, so the files stay.
\<close>

section \<open>Images and archives\<close>

text \<open>
  The answers of a reader to the calls of \<open>Read\<close>: the bytes and whether the end or an error was reported
  with them.  After the last answer a tar reader keeps reporting the end.
\<close>

datatype read_end = More | EOF | ReadErr error

record TarHeader =
  th_Name :: string
  th_Size :: nat
  th_Reader :: "(string \<times> read_end) list"

text \<open>The answers of \<open>Next\<close> are headers or errors.\<close>

record Layer =
  ly_MediaType :: "error + string"
  ly_Uncompressed :: "error + (error + TarHeader) list"

record Img =
  im_Layers :: "error + Layer list"
  im_MediaType :: string

text \<open>A directory as \<open>filepath.WalkDir\<close> meets it.\<close>

datatype dir_entry =
    RegularFile string "error + string"
  | Directory string "dir_entry list"
  | WalkError string error

record world =
  cr_Pull :: "string \<Rightarrow> crane_option list \<Rightarrow> error + Img"
  cr_Push :: "string \<Rightarrow> crane_option list \<Rightarrow> Img \<Rightarrow> error + unit"
  MkdirTemp :: "error + string"
  MkdirAll :: "string \<Rightarrow> error + unit"
  WriteFile :: "string \<Rightarrow> error + unit"
  OpenFile :: "string \<Rightarrow> error + unit"
  WriteHeader :: "string \<Rightarrow> error + unit"
  CopyFile :: "string \<Rightarrow> error + unit"
  sign_file :: "string \<Rightarrow> string \<Rightarrow> string \<Rightarrow> error + string"
  TarBytes :: "(string \<times> string) list \<Rightarrow> string"
  LayerFromFile :: "string \<Rightarrow> string \<Rightarrow> error + Layer"
  AppendLayers :: "Img \<Rightarrow> Layer \<Rightarrow> error + Img"
  MediaType :: "Img \<Rightarrow> string \<Rightarrow> Img"
  json_raw :: "string \<Rightarrow> error + (string \<times> string) list"
  json_auths :: "string \<Rightarrow> error + (string \<times> string) list"
  secret_dir :: "string \<Rightarrow> dir_entry"
  kmods_order :: "string list \<Rightarrow> string list"

datatype node = DirNode | FileNode string

record sign_state =
  sg_files :: "(string \<times> node) list"
  sg_kmods :: smap
  sg_pushed :: "(string \<times> crane_option list \<times> Img) list"

section \<open>The registry functions\<close>

definition getTransportOptions :: "bool \<Rightarrow> bool \<Rightarrow> crane_option list" where
  "getTransportOptions insecure skipTLSVerify =
     (if insecure then [Insecure] else []) @ (if skipTLSVerify then [WithTransportSkipVerify] else [])"

definition GetImageByName :: "world \<Rightarrow> string \<Rightarrow> string \<Rightarrow> bool \<Rightarrow> bool \<Rightarrow> Img res" where
  "GetImageByName W imageName auth insecure skipTLSVerify =
     check_res (of_sum (cr_Pull W imageName (getTransportOptions insecure skipTLSVerify @ [WithAuth auth])))
       (\<lambda>e. Errorf ''could not get image: %v'' [AE e]) Ok"

definition WriteImageByName :: "world \<Rightarrow> string \<Rightarrow> Img \<Rightarrow> string \<Rightarrow> bool \<Rightarrow> bool \<Rightarrow> (sign_state, unit) go" where
  "WriteImageByName W imageName img auth insecure skipTLSVerify =
     (let options = getTransportOptions insecure skipTLSVerify @ [WithAuth auth] in (\<lambda>s.
      case cr_Push W imageName options img of
        Inl e \<Rightarrow> (Err (Errorf ''failed to push signed image: %v'' [AE e]), s)
      | Inr _ \<Rightarrow> (Ok (), s\<lparr>sg_pushed := sg_pushed s @ [(imageName, options, img)]\<rparr>)))"

fun walk_headers :: "(string \<Rightarrow> TarHeader \<Rightarrow> ('s, unit) go) \<Rightarrow> (error + TarHeader) list \<Rightarrow> ('s, unit) go" where
  "walk_headers fn [] = ret ()"
| "walk_headers fn (Inl e # hs) = ret ()"
| "walk_headers fn (Inr header # hs) =
     check (fn (th_Name header) header)
       (\<lambda>e. Errorf ''died processing file %s: %v'' [AS (th_Name header), AE e])
       (\<lambda>_. walk_headers fn hs)"

fun walk_layers :: "(string \<Rightarrow> TarHeader \<Rightarrow> ('s, unit) go) \<Rightarrow> Layer list \<Rightarrow> ('s, unit) go" where
  "walk_layers fn [] = ret ()"
| "walk_layers fn (currentlayer # ls) =
     check (pure_go (of_sum (ly_Uncompressed currentlayer)))
       (\<lambda>e. Errorf ''could not get layer: %v'' [AE e])
       (\<lambda>hs. bind_go (walk_headers fn hs) (\<lambda>_. walk_layers fn ls))"

text \<open>From the last layer to the first.\<close>

definition WalkFilesInImage :: "Img \<Rightarrow> (string \<Rightarrow> TarHeader \<Rightarrow> ('s, unit) go) \<Rightarrow> ('s, unit) go" where
  "WalkFilesInImage img fn =
     check (pure_go (of_sum (im_Layers img)))
       (\<lambda>e. Errorf ''could not get the layers from the fetched image: %v'' [AE e])
       (\<lambda>layers. walk_layers fn (rev layers))"

text \<open>
  The buffer has the size of the header from the start, filled with zero bytes; a read gets the rest of
  it and so cannot return more than fits.
\<close>

fun extract_loop :: "(string \<times> read_end) list \<Rightarrow> string \<Rightarrow> nat \<Rightarrow> string res" where
  "extract_loop [] contents offset = Ok contents"
| "extract_loop ((chunk, st) # rs) contents offset =
     (case st of
        ReadErr e \<Rightarrow> Err (Errorf ''could not read from tar: %v '' [AE e])
      | _ \<Rightarrow>
         let bytes = take (length contents - offset) chunk;
             contents = take offset contents @ bytes @ drop (offset + length bytes) contents;
             offset = offset + length bytes
         in if st = EOF then Ok contents else extract_loop rs contents offset)"

definition ExtractBytesFromTar :: "nat \<Rightarrow> (string \<times> read_end) list \<Rightarrow> string res" where
  "ExtractBytesFromTar sz tarreader = extract_loop tarreader (replicate sz (CHR 0x00)) 0"

definition write_file :: "world \<Rightarrow> string \<Rightarrow> string \<Rightarrow> (sign_state, unit) go" where
  "write_file W path contents = (\<lambda>s. case WriteFile W path of
      Inl e \<Rightarrow> (Err e, s)
    | Inr _ \<Rightarrow> (Ok (), s\<lparr>sg_files := mput (sg_files s) path (FileNode contents)\<rparr>))"

definition filepath_Dir :: "string \<Rightarrow> string" where
  "filepath_Dir path = Clean (rev (dropWhile (\<lambda>c. c \<noteq> CHR ''/'') (rev path)))"

definition ExtractFileToFile :: "world \<Rightarrow> string \<Rightarrow> TarHeader \<Rightarrow> (sign_state, unit) go" where
  "ExtractFileToFile W destination header =
     check (pure_go (ExtractBytesFromTar (th_Size header) (th_Reader header)))
       (\<lambda>e. Errorf ''could not read file %s: %v'' [AS destination, AE e])
       (\<lambda>contents.
     check (pure_go (of_sum (MkdirAll W (filepath_Dir destination))))
       (\<lambda>e. Errorf ''could not create directory structure for %s: %v'' [AS destination, AE e])
       (\<lambda>_.
     check (write_file W destination contents)
       (\<lambda>e. Errorf ''could not create temp %s: %v'' [AS destination, AE e]) ret))"

text \<open>The last layer of an image without layers does not exist: the index panics.\<close>

definition GetLayerMediaType :: "Img \<Rightarrow> string res" where
  "GetLayerMediaType img =
     check_res (of_sum (im_Layers img)) (\<lambda>e. Errorf ''could not get the layers from image: %v'' [AE e])
       (\<lambda>layers. if layers = [] then Panic else of_sum (ly_MediaType (last layers)))"

definition AddLayerToImage :: "world \<Rightarrow> string \<Rightarrow> Img \<Rightarrow> (sign_state, Img) go" where
  "AddLayerToImage W tarfile img =
     bind_go (pure_go (GetLayerMediaType img)) (\<lambda>mt. (\<lambda>s.
       case map_of (sg_files s) tarfile of
         Some (FileNode contents) \<Rightarrow>
           (check_res (of_sum (LayerFromFile W contents mt))
              (\<lambda>e. Errorf ''failed to generate layer from tar: %v'' [AE e]) (\<lambda>signedLayer.
            check_res (of_sum (AppendLayers W img signedLayer))
              (\<lambda>e. Errorf ''failed to append layer: %v'' [AE e]) (\<lambda>newImage.
            Ok (MediaType W newImage (im_MediaType img)))), s)
       | _ \<Rightarrow> (Err (Errorf ''failed to generate layer from tar: %v'' [AE (LibError ''open'')]), s)))"

section \<open>Credentials\<close>

text \<open>The pull and push credentials found so far; \<open>None\<close> is \<open>nil\<close>.\<close>

record repoAuth =
  ra_pullRepo :: string
  ra_pushRepo :: string
  ra_PullAuth :: "string option"
  ra_PushAuth :: "string option"
  ra_configDir :: string

definition getAuthFromSingleFile :: "world \<Rightarrow> error + string \<Rightarrow> repoAuth \<Rightarrow> repoAuth" where
  "getAuthFromSingleFile W file r =
     (case file of
        Inl e \<Rightarrow> r
      | Inr byteValue \<Rightarrow>
         (case json_raw W byteValue of
            Inl e \<Rightarrow> r
          | Inr result \<Rightarrow>
             (case (case map_of result ''auths'' of Some raw \<Rightarrow> json_auths W raw | None \<Rightarrow> json_auths W byteValue) of
                Inl e \<Rightarrow> r
              | Inr allAuthConfigs \<Rightarrow>
                  let r1 = (case map_of allAuthConfigs (ra_pullRepo r) of Some a \<Rightarrow> r\<lparr>ra_PullAuth := Some a\<rparr> | None \<Rightarrow> r)
                  in case map_of allAuthConfigs (ra_pushRepo r1) of Some a \<Rightarrow> r1\<lparr>ra_PushAuth := Some a\<rparr> | None \<Rightarrow> r1)))"

text \<open>
  \<open>WalkDir\<close> with the handler: paths that contain two dots are left out, with everything below them; an
  error of one entry or file does not stop the walk.
\<close>

fun walk_secrets :: "world \<Rightarrow> string \<Rightarrow> dir_entry list \<Rightarrow> repoAuth \<Rightarrow> repoAuth" where
  "walk_secrets W dir [] r = r"
| "walk_secrets W dir (WalkError name e # es) r = walk_secrets W dir es r"
| "walk_secrets W dir (RegularFile name file # es) r =
     (let path = dir @ ''/'' @ name in
      walk_secrets W dir es (if Contains path ''..'' then r else getAuthFromSingleFile W file r))"
| "walk_secrets W dir (Directory name sub # es) r =
     (let path = dir @ ''/'' @ name in
      walk_secrets W dir es (if Contains path ''..'' then r else walk_secrets W path sub r))"

definition PopulateAuthFromFileList :: "world \<Rightarrow> repoAuth \<Rightarrow> repoAuth" where
  "PopulateAuthFromFileList W r =
     (if ra_configDir r = '''' then r
      else case secret_dir W (ra_configDir r) of
          Directory name sub \<Rightarrow> walk_secrets W (ra_configDir r) sub r
        | _ \<Rightarrow> r)"

definition Anonymous :: string where
  "Anonymous = ''''"

definition NewRepoAuth :: "world \<Rightarrow> string \<Rightarrow> string \<Rightarrow> string \<Rightarrow> repoAuth" where
  "NewRepoAuth W configDir pullRepo pushRepo =
     (let pushRepo = (if pushRepo = '''' then pullRepo else pushRepo);
          r = PopulateAuthFromFileList W \<lparr>ra_pullRepo = pullRepo, ra_pushRepo = pushRepo, ra_PullAuth = None,
            ra_PushAuth = None, ra_configDir = Clean configDir\<rparr>;
          r1 = (if ra_PullAuth r = None then r\<lparr>ra_PullAuth := Some Anonymous\<rparr> else r)
      in if ra_PushAuth r1 = None then r1\<lparr>ra_PushAuth := Some Anonymous\<rparr> else r1)"

section \<open>Signing\<close>

definition canonicalisePath :: "string \<Rightarrow> string" where
  "canonicalisePath path = Clean (''/'' @ path)"

text \<open>The tool signs the file in place.\<close>

definition signFile :: "world \<Rightarrow> string \<Rightarrow> string \<Rightarrow> string \<Rightarrow> (sign_state, unit) go" where
  "signFile W filename publickey privatekey = (\<lambda>s.
     case map_of (sg_files s) filename of
       Some (FileNode contents) \<Rightarrow>
         (case sign_file W privatekey publickey contents of
            Inl e \<Rightarrow> (Err (Errorf ''signing %s returned: %s error: %v'' [AS filename, AE e]), s)
          | Inr output \<Rightarrow> (Ok (), s\<lparr>sg_files := mput (sg_files s) filename (FileNode output)\<rparr>))
     | _ \<Rightarrow> (Err (Errorf ''signing %s returned: %s error: %v'' [AS filename, AE (LibError ''exit status'')]), s))"

text \<open>The last three bytes of a name with fewer than three panic.\<close>

definition has_ko_suffix :: "string \<Rightarrow> bool res" where
  "has_ko_suffix name = (if length name < 3 then Panic else Ok (drop (length name - 3) name = ''.ko''))"

definition wanted :: "string \<Rightarrow> smap \<Rightarrow> string \<Rightarrow> bool res" where
  "wanted filesList kmodsToSign canonfilename =
     (if mget kmodsToSign canonfilename = ''not found'' then Ok True
      else if filesList = '''' \<and> mget kmodsToSign canonfilename = '''' then has_ko_suffix canonfilename
      else Ok False)"

definition processFile ::
  "world \<Rightarrow> string \<Rightarrow> string \<Rightarrow> string \<Rightarrow> string \<Rightarrow> string \<Rightarrow> TarHeader \<Rightarrow> (sign_state, unit) go" where
  "processFile W extractionDir filesList privKeyFile pubKeyFile filename header = (\<lambda>s.
     let canonfilename = canonicalisePath filename;
         destination = extractionDir @ ''/'' @ th_Name header
     in bind_go (pure_go (wanted filesList (sg_kmods s) canonfilename)) (\<lambda>b.
       if \<not> b then ret ()
       else bind_go (ExtractFileToFile W destination header) (\<lambda>_.
            bind_go (\<lambda>s. (Ok (), s\<lparr>sg_kmods := mput (sg_kmods s) canonfilename destination\<rparr>)) (\<lambda>_.
            check (signFile W destination pubKeyFile privKeyFile)
              (\<lambda>e. Errorf ''error signing file %s: %v'' [AS canonfilename, AE e]) ret))) s)"

definition addFileToTarball ::
  "world \<Rightarrow> string \<Rightarrow> string \<Rightarrow> (string \<times> string) list \<Rightarrow> (sign_state, (string \<times> string) list) go" where
  "addFileToTarball W sourcename filename tarwriter = (\<lambda>s.
     case map_of (sg_files s) sourcename of
       None \<Rightarrow> (Err (Wrapf ''failed to stat %s: %w'' [AS filename] (LibError ''stat'')), s)
     | Some DirNode \<Rightarrow> (Ok tarwriter, s)
     | Some (FileNode contents) \<Rightarrow>
         (check_res (of_sum (WriteHeader W filename)) (\<lambda>e. Wrapf ''failed to write tar header: %w'' [] e) (\<lambda>_.
          check_res (of_sum (OpenFile W sourcename)) (\<lambda>e. Wrapf ''failed to open file to add to the tar: %w'' [] e) (\<lambda>_.
          check_res (of_sum (CopyFile W sourcename)) (\<lambda>e. Wrapf ''failed to read file into the tar: %w'' [] e) (\<lambda>_.
          Ok (tarwriter @ [(filename, contents)])))), s))"

section \<open>The program\<close>

record flags =
  fl_unsignedimage :: string
  fl_signedimage :: string
  fl_filestosign :: string
  fl_key :: string
  fl_cert :: string
  fl_secretdir :: string
  fl_no_push :: bool
  fl_insecure_pull :: bool
  fl_skip_tls_verify_pull :: bool
  fl_insecure :: bool
  fl_skip_tls_verify :: bool

text \<open>\<open>None\<close>: the program prints its usage and exits with code 0.\<close>

definition checkArg :: "string \<Rightarrow> string \<Rightarrow> string option" where
  "checkArg arg fallback = (if arg = '''' then if fallback \<noteq> '''' then Some fallback else None else Some arg)"

fun init_kmods :: "string list \<Rightarrow> smap \<Rightarrow> smap option" where
  "init_kmods [] kmodsToSign = Some kmodsToSign"
| "init_kmods (x # xs) kmodsToSign =
     (if canonicalisePath x \<noteq> x then None else init_kmods xs (mput kmodsToSign x ''not found''))"

definition collect_kmod ::
  "world \<Rightarrow> string \<times> string \<Rightarrow> bool \<times> (string \<times> string) list \<Rightarrow> (sign_state, bool \<times> (string \<times> string) list) go" where
  "collect_kmod W kv acc =
     (case acc of (missingKmods, tarwriter) \<Rightarrow>
        if snd kv = ''not found'' then ret (True, tarwriter)
        else bind_go (addFileToTarball W (snd kv) (fst kv) tarwriter) (\<lambda>t. ret (missingKmods, t)))"

definition first_component :: "string \<Rightarrow> string" where
  "first_component name = hd (split_by (\<lambda>c. c = CHR ''/'') name)"

text \<open>From the signed files to the pushed image; the number is the exit code.\<close>

definition push_step :: "world \<Rightarrow> flags \<Rightarrow> string \<Rightarrow> repoAuth \<Rightarrow> Img \<Rightarrow> (sign_state, nat) go" where
  "push_step W fl signedImageName a signedImage =
     (if fl_no_push fl then ret 0
      else attempt (WriteImageByName W signedImageName signedImage (the (ra_PushAuth a))
          (fl_insecure fl) (fl_skip_tls_verify fl)) (\<lambda>r. case r of
        Inl e \<Rightarrow> ret 8
      | Inr _ \<Rightarrow> ret 0))"

definition layer_step ::
  "world \<Rightarrow> flags \<Rightarrow> string \<Rightarrow> repoAuth \<Rightarrow> string \<Rightarrow> Img \<Rightarrow> (string \<times> string) list \<Rightarrow> (sign_state, nat) go" where
  "layer_step W fl signedImageName a extractionDir img tarwriter =
     (let outputTarFile = extractionDir @ ''/layerfile.tar'' in
      attempt (write_file W outputTarFile (TarBytes W tarwriter)) (\<lambda>r. case r of
        Inl e \<Rightarrow> ret 5
      | Inr _ \<Rightarrow>
      attempt (AddLayerToImage W outputTarFile img) (\<lambda>r. case r of
        Inl e \<Rightarrow> ret 6
      | Inr signedImage \<Rightarrow> push_step W fl signedImageName a signedImage)))"

definition finish :: "world \<Rightarrow> flags \<Rightarrow> string \<Rightarrow> repoAuth \<Rightarrow> string \<Rightarrow> Img \<Rightarrow> (sign_state, nat) go" where
  "finish W fl signedImageName a extractionDir img = (\<lambda>s.
     attempt (loop (range_map (kmods_order W) (sg_kmods s)) (collect_kmod W) (False, [])) (\<lambda>r. case r of
       Inl e \<Rightarrow> ret 1
     | Inr (missingKmods, tarwriter) \<Rightarrow>
         if missingKmods then ret 4
         else layer_step W fl signedImageName a extractionDir img tarwriter) s)"

text \<open>The work once the arguments are complete.\<close>

definition sign_image ::
  "world \<Rightarrow> flags \<Rightarrow> string \<Rightarrow> string \<Rightarrow> string \<Rightarrow> string \<Rightarrow> string \<Rightarrow> string \<Rightarrow> (sign_state, nat) go" where
  "sign_image W fl unsignedImageName signedImageName filesList privKeyFile pubKeyFile secretDir =
     attempt (pure_go (of_sum (MkdirTemp W))) (\<lambda>r. case r of
       Inl e \<Rightarrow> ret 1
     | Inr extractionDir \<Rightarrow>
     (case init_kmods (split_by (\<lambda>c. c = CHR '':'') filesList) [] of
       None \<Rightarrow> ret 9
     | Some kmodsToSign \<Rightarrow>
     bind_go (\<lambda>s. (Ok (), s\<lparr>sg_kmods := kmodsToSign\<rparr>)) (\<lambda>_.
     let a = NewRepoAuth W secretDir (first_component unsignedImageName) (first_component signedImageName) in
     attempt (pure_go (GetImageByName W unsignedImageName (the (ra_PullAuth a))
         (fl_insecure_pull fl) (fl_skip_tls_verify_pull fl))) (\<lambda>r. case r of
       Inl e \<Rightarrow> ret 3
     | Inr img \<Rightarrow>
     attempt (WalkFilesInImage img (processFile W extractionDir filesList privKeyFile pubKeyFile)) (\<lambda>r. case r of
       Inl e \<Rightarrow> ret 9
     | Inr _ \<Rightarrow> finish W fl signedImageName a extractionDir img)))))"

definition main :: "world \<Rightarrow> flags \<Rightarrow> (sign_state, nat) go" where
  "main W fl =
     (case checkArg (fl_unsignedimage fl) '''' of None \<Rightarrow> ret 0 | Some unsignedImageName \<Rightarrow>
      case checkArg (fl_signedimage fl) (unsignedImageName @ ''signed'') of None \<Rightarrow> ret 0 | Some signedImageName \<Rightarrow>
      case checkArg (fl_filestosign fl) '''' of None \<Rightarrow> ret 0 | Some filesList \<Rightarrow>
      case checkArg (fl_key fl) '''' of None \<Rightarrow> ret 0 | Some privKeyFile \<Rightarrow>
      case checkArg (fl_cert fl) '''' of None \<Rightarrow> ret 0 | Some pubKeyFile \<Rightarrow>
      case checkArg (fl_secretdir fl) '''' of None \<Rightarrow> ret 0 | Some secretDir \<Rightarrow>
        sign_image W fl unsignedImageName signedImageName filesList privKeyFile pubKeyFile secretDir)"

section \<open>Lemmas on reading and on paths\<close>

text \<open>The bytes a reader delivers up to the end, and whether it fails before.\<close>

fun delivered :: "(string \<times> read_end) list \<Rightarrow> string" where
  "delivered [] = []"
| "delivered ((chunk, st) # rs) = chunk @ (if st = More then delivered rs else [])"

fun read_fails :: "(string \<times> read_end) list \<Rightarrow> bool" where
  "read_fails [] = False"
| "read_fails ((chunk, st) # rs) = (case st of ReadErr e \<Rightarrow> True | EOF \<Rightarrow> False | More \<Rightarrow> read_fails rs)"

lemma extract_loop_eq:
  assumes "\<not> read_fails rs"
  shows "extract_loop rs (pre @ replicate n z) (length pre) =
     Ok (pre @ take n (delivered rs) @ replicate (n - length (delivered rs)) z)"
  using assms
proof (induction rs arbitrary: pre n)
  case (Cons r rs)
  obtain chunk st where r: "r = (chunk, st)" by fastforce
  let ?b = "take n chunk"
  show ?case
  proof (cases st)
    case More
    have "extract_loop (r # rs) (pre @ replicate n z) (length pre) = extract_loop rs ((pre @ ?b) @ replicate (n - length ?b) z) (length (pre @ ?b))"
      unfolding r More by (simp add: Let_def)
    also have "\<dots> = Ok ((pre @ ?b) @ take (n - length ?b) (delivered rs) @ replicate (n - length ?b - length (delivered rs)) z)"
      using Cons.prems by (intro Cons.IH) (simp add: r More)
    finally show ?thesis by (simp add: r More min_def)
  qed (use Cons.prems in \<open>simp_all add: r Let_def\<close>)
qed simp

lemma extract_loop_fails: "read_fails rs \<Longrightarrow> \<exists>e. extract_loop rs contents offset = Err e"
proof (induction rs arbitrary: contents offset)
  case (Cons r rs)
  obtain chunk st where r: "r = (chunk, st)" by fastforce
  with Cons show ?case by (cases st) (auto simp: Let_def)
qed simp

lemma ExtractBytes_eq:
  "ExtractBytesFromTar n rs = Ok c \<longleftrightarrow> \<not> read_fails rs \<and>
     c = take n (delivered rs) @ replicate (n - length (delivered rs)) (CHR 0x00)"
proof (cases "read_fails rs")
  case True
  then show ?thesis using extract_loop_fails [of rs "replicate n (CHR 0x00)" 0] by (auto simp: ExtractBytesFromTar_def)
next
  case False
  then show ?thesis using extract_loop_eq [of rs "[]" n "CHR 0x00"] by (auto simp: ExtractBytesFromTar_def)
qed

text \<open>Clean paths from the root: components that are neither empty nor dots.\<close>

definition good_comp :: "string \<Rightarrow> bool" where
  "good_comp c \<longleftrightarrow> c \<noteq> '''' \<and> c \<noteq> ''.'' \<and> c \<noteq> ''..'' \<and> CHR ''/'' \<notin> set c"

lemma clean_steps_good:
  assumes "list_all good_comp stack" and "\<forall>c \<in> set cs. CHR ''/'' \<notin> set c"
  shows "list_all good_comp (foldl (clean_step True) stack cs)"
  using assms
proof (induction cs arbitrary: stack)
  case (Cons c cs)
  have "list_all good_comp (clean_step True stack c)"
    using Cons.prems by (auto simp: good_comp_def list_all_iff dest: in_set_butlastD)
  with Cons show ?case by simp
qed simp

lemma clean_steps_id: "list_all good_comp cs \<Longrightarrow> foldl (clean_step True) stack cs = stack @ cs"
  by (induction cs arbitrary: stack) (auto simp: good_comp_def)

definition path_comps :: "string \<Rightarrow> string list" where
  "path_comps path = foldl (clean_step True) [] (split_by (\<lambda>c. c = CHR ''/'') path)"

lemma path_comps_good: "list_all good_comp (path_comps path)"
  unfolding path_comps_def by (rule clean_steps_good) (auto dest: split_by_no_sep)

lemma canonicalisePath_eq: "canonicalisePath path = CHR ''/'' # Join (path_comps path) ''/''"
  by (simp add: canonicalisePath_def Clean_def HasPrefix_def path_comps_def Let_def)

lemma path_comps_Join:
  assumes "list_all good_comp cs"
  shows "path_comps (CHR ''/'' # Join cs ''/'') = cs"
proof (cases "cs = []")
  case True
  then show ?thesis by (simp add: path_comps_def)
next
  case False
  then have "split_by (\<lambda>c. c = CHR ''/'') (Join cs ''/'') = cs"
    using assms by (intro split_by_Join) (auto simp: list_all_iff good_comp_def)
  with assms show ?thesis by (simp add: path_comps_def clean_steps_id)
qed

section \<open>Lemmas on the walk\<close>

fun good_headers :: "(error + TarHeader) list \<Rightarrow> TarHeader list" where
  "good_headers (Inr h # hs) = h # good_headers hs"
| "good_headers _ = []"

definition image_headers :: "Img \<Rightarrow> TarHeader list" where
  "image_headers img = (case im_Layers img of Inl e \<Rightarrow> []
     | Inr ls \<Rightarrow> concat (map (\<lambda>l. case ly_Uncompressed l of Inl e \<Rightarrow> [] | Inr hs \<Rightarrow> good_headers hs) (rev ls)))"

lemma walk_headers_inv:
  assumes "walk_headers fn hs s = (Ok (), t)" and "I vs s"
    and step: "\<And>vs h s t. I vs s \<Longrightarrow> fn (th_Name h) h s = (Ok (), t) \<Longrightarrow> I (vs @ [h]) t"
  shows "I (vs @ good_headers hs) t"
  using assms(1,2)
proof (induction hs arbitrary: vs s)
  case (Cons x hs)
  show ?case
  proof (cases x)
    case (Inr h)
    obtain s1 where s1: "fn (th_Name h) h s = (Ok (), s1)" and rest: "walk_headers fn hs s1 = (Ok (), t)"
      using Cons.prems(1) Inr by (auto simp: go_simps split: prod.splits res.splits)
    from Cons.IH [OF rest step [OF Cons.prems(2) s1]] Inr show ?thesis by simp
  qed (use Cons.prems in \<open>simp add: go_simps\<close>)
qed (simp add: go_simps)

lemma walk_layers_inv:
  assumes "walk_layers fn ls s = (Ok (), t)" and "I vs s"
    and step: "\<And>vs h s t. I vs s \<Longrightarrow> fn (th_Name h) h s = (Ok (), t) \<Longrightarrow> I (vs @ [h]) t"
  shows "I (vs @ concat (map (\<lambda>l. case ly_Uncompressed l of Inl e \<Rightarrow> [] | Inr hs \<Rightarrow> good_headers hs) ls)) t"
  using assms(1,2)
proof (induction ls arbitrary: vs s)
  case (Cons l ls)
  obtain hs s1 where hs: "ly_Uncompressed l = Inr hs" and run: "walk_headers fn hs s = (Ok (), s1)"
    and rest: "walk_layers fn ls s1 = (Ok (), t)"
    using Cons.prems(1) by (cases "ly_Uncompressed l") (auto simp: go_simps split: prod.splits res.splits)
  from Cons.IH [OF rest walk_headers_inv [where I = I, OF run Cons.prems(2) step]] show ?case by (simp add: hs)
qed (simp add: go_simps)

lemma WalkFiles_inv:
  assumes "WalkFilesInImage img fn s = (Ok (), t)" and "I [] s"
    and "\<And>vs h s t. I vs s \<Longrightarrow> fn (th_Name h) h s = (Ok (), t) \<Longrightarrow> I (vs @ [h]) t"
  shows "I (image_headers img) t"
proof -
  obtain ls where ls: "im_Layers img = Inr ls" and "walk_layers fn (rev ls) s = (Ok (), t)"
    using assms(1) by (cases "im_Layers img") (auto simp: WalkFilesInImage_def go_simps)
  from walk_layers_inv [where I = I, OF this(2) assms(2,3)] show ?thesis by (simp add: image_headers_def ls)
qed

text \<open>One file of the image: signed if it is asked for and was not seen yet, else left alone.\<close>

lemma processFile_Ok:
  assumes "processFile W dir files priv pub (th_Name h) h s = (Ok (), t)" and "files \<noteq> ''''"
  shows "if mget (sg_kmods s) (canonicalisePath (th_Name h)) = ''not found''
     then \<exists>c c'. ExtractBytesFromTar (th_Size h) (th_Reader h) = Ok c \<and> sign_file W priv pub c = Inr c' \<and>
       sg_kmods t = mput (sg_kmods s) (canonicalisePath (th_Name h)) (dir @ ''/'' @ th_Name h) \<and>
       map_of (sg_files t) = (map_of (sg_files s))(dir @ ''/'' @ th_Name h \<mapsto> FileNode c') \<and>
       sg_pushed t = sg_pushed s
     else t = s"
  using assms
  by (auto simp: processFile_def wanted_def ExtractFileToFile_def write_file_def signFile_def Let_def go_simps of_sum_def
      split: if_splits sum.splits res.splits)

text \<open>The state of the walk after some files.\<close>

definition first_header :: "string \<Rightarrow> TarHeader list \<Rightarrow> TarHeader option" where
  "first_header k hs = find (\<lambda>h. canonicalisePath (th_Name h) = k) hs"

definition signed_content :: "world \<Rightarrow> string \<Rightarrow> string \<Rightarrow> TarHeader \<Rightarrow> string \<Rightarrow> bool" where
  "signed_content W priv pub h c' \<longleftrightarrow>
     (\<exists>c. ExtractBytesFromTar (th_Size h) (th_Reader h) = Ok c \<and> sign_file W priv pub c = Inr c')"

definition walk_inv ::
  "world \<Rightarrow> string \<Rightarrow> string \<Rightarrow> string \<Rightarrow> string list \<Rightarrow> (string \<times> crane_option list \<times> Img) list \<Rightarrow> TarHeader list \<Rightarrow> sign_state \<Rightarrow> bool" where
  "walk_inv W dir priv pub ks pushed hs s \<longleftrightarrow> sg_pushed s = pushed \<and> distinct (map fst (sg_kmods s)) \<and>
     (\<forall>k. map_of (sg_kmods s) k = (if k \<in> set ks
        then Some (case first_header k hs of None \<Rightarrow> ''not found'' | Some h \<Rightarrow> dir @ ''/'' @ th_Name h) else None)) \<and>
     (\<forall>k \<in> set ks. \<forall>h. first_header k hs = Some h \<longrightarrow>
        (\<exists>c. signed_content W priv pub h c \<and> map_of (sg_files s) (dir @ ''/'' @ th_Name h) = Some (FileNode c)))"

lemma first_header_append:
  "first_header k (hs @ [h]) = (case first_header k hs of Some x \<Rightarrow> Some x
     | None \<Rightarrow> if canonicalisePath (th_Name h) = k then Some h else None)"
  unfolding first_header_def by (induction hs) auto

lemma first_header_name: "first_header k hs = Some h \<Longrightarrow> canonicalisePath (th_Name h) = k"
  unfolding first_header_def by (simp add: find_Some_iff) blast

lemma dest_not_found [simp]: "dir @ CHR ''/'' # x \<noteq> ''not found''"
proof
  assume "dir @ CHR ''/'' # x = ''not found''"
  then have "CHR ''/'' \<in> set ''not found''" by (metis in_set_conv_decomp)
  then show False by simp
qed

lemma walk_inv_step:
  assumes "walk_inv W dir priv pub ks pushed hs s" and "files \<noteq> ''''"
    and "processFile W dir files priv pub (th_Name h) h s = (Ok (), t)"
  shows "walk_inv W dir priv pub ks pushed (hs @ [h]) t"
proof -
  let ?k = "canonicalisePath (th_Name h)"
  have kmods: "map_of (sg_kmods s) k = (if k \<in> set ks
        then Some (case first_header k hs of None \<Rightarrow> ''not found'' | Some h \<Rightarrow> dir @ ''/'' @ th_Name h) else None)" for k
    using assms(1) by (simp add: walk_inv_def del: map_of_eq_Some_iff)
  show ?thesis
  proof (cases "?k \<in> set ks \<and> first_header ?k hs = None")
    case True
    then have "mget (sg_kmods s) ?k = ''not found''" by (simp add: mget_def kmods)
    with processFile_Ok [OF assms(3,2)] obtain c c' where "ExtractBytesFromTar (th_Size h) (th_Reader h) = Ok c"
      "sign_file W priv pub c = Inr c'" and t: "sg_kmods t = mput (sg_kmods s) ?k (dir @ ''/'' @ th_Name h)"
      "map_of (sg_files t) = (map_of (sg_files s))(dir @ ''/'' @ th_Name h \<mapsto> FileNode c')" "sg_pushed t = sg_pushed s"
      by auto
    then have c': "signed_content W priv pub h c'" by (auto simp: signed_content_def)
    have other: "dir @ ''/'' @ th_Name h' \<noteq> dir @ ''/'' @ th_Name h" if "first_header k hs = Some h'" "k \<noteq> ?k" for k h'
      using first_header_name [OF that(1)] that(2) by auto
    show ?thesis
      using assms(1) True c' other unfolding walk_inv_def t
      by (auto simp: first_header_append distinct_mput simp del: map_of_eq_Some_iff split: option.splits)
  next
    case False
    then have "mget (sg_kmods s) ?k \<noteq> ''not found''" by (auto simp: mget_def kmods)
    with processFile_Ok [OF assms(3,2)] have "t = s" by simp
    moreover have "first_header k (hs @ [h]) = first_header k hs" if "k \<in> set ks" for k
      using False that by (auto simp: first_header_append split: option.splits)
    ultimately show ?thesis using assms(1) by (simp add: walk_inv_def del: map_of_eq_Some_iff)
  qed
qed

lemma init_kmods_Some:
  assumes "init_kmods xs m = Some m'" and "distinct (map fst m)"
  shows "distinct (map fst m') \<and> (\<forall>k. map_of m' k = (if k \<in> set xs then Some ''not found'' else map_of m k)) \<and>
     (\<forall>x \<in> set xs. canonicalisePath x = x)"
  using assms
proof (induction xs arbitrary: m)
  case (Cons x xs)
  then have x: "canonicalisePath x = x" and rest: "init_kmods xs (mput m x ''not found'') = Some m'"
    by (auto split: if_splits)
  from Cons.IH [OF rest distinct_mput [OF Cons.prems(2)]] x show ?case
    by (auto simp del: map_of_eq_Some_iff)
qed simp

definition file_content :: "sign_state \<Rightarrow> string \<Rightarrow> string" where
  "file_content s path = (case map_of (sg_files s) path of Some (FileNode c) \<Rightarrow> c | _ \<Rightarrow> '''')"

lemma collect_kmod_run:
  "collect_kmod W kv (m, tar) s = (if snd kv = ''not found'' then (Ok (True, tar), s)
     else case addFileToTarball W (snd kv) (fst kv) tar s of
         (Ok tar', t) \<Rightarrow> (Ok (m, tar'), t) | (Err e, t) \<Rightarrow> (Err e, t) | (Panic, t) \<Rightarrow> (Panic, t))"
  by (simp add: collect_kmod_def bind_go_run ret_run split: res.split prod.split)

lemma collect_loop_Ok:
  assumes "loop kvs (collect_kmod W) (m, tar) s = (Ok (m', tar'), t)"
    and "\<forall>kv \<in> set kvs. snd kv \<noteq> ''not found'' \<longrightarrow> (\<exists>c. map_of (sg_files s) (snd kv) = Some (FileNode c))"
  shows "t = s \<and> (m' \<longleftrightarrow> m \<or> (\<exists>kv \<in> set kvs. snd kv = ''not found'')) \<and>
     (\<not> m' \<longrightarrow> tar' = tar @ map (\<lambda>(k, v). (k, file_content s v)) kvs)"
  using assms
proof (induction kvs arbitrary: m tar)
  case (Cons kv kvs)
  show ?case
  proof (cases "snd kv = ''not found''")
    case True
    then have "loop kvs (collect_kmod W) (True, tar) s = (Ok (m', tar'), t)"
      using Cons.prems(1) by (simp add: bind_go_run collect_kmod_run)
    from Cons.IH [OF this] Cons.prems(2) True show ?thesis by auto
  next
    case False
    then obtain c where c: "map_of (sg_files s) (snd kv) = Some (FileNode c)" using Cons.prems(2) by auto
    have "loop kvs (collect_kmod W) (m, tar @ [(fst kv, c)]) s = (Ok (m', tar'), t)"
      using Cons.prems(1) False c
      by (auto simp: bind_go_run collect_kmod_run addFileToTarball_def of_sum_def split: sum.splits)
    from Cons.IH [OF this] Cons.prems(2) False c show ?thesis
      by (auto simp: file_content_def split: prod.splits)
  qed
qed (simp add: go_simps)

lemma loop_collect_state: "snd (loop kvs (collect_kmod W) acc s) = s"
proof (induction kvs arbitrary: acc)
  case (Cons kv kvs)
  have "snd (collect_kmod W kv acc s) = s"
    by (auto simp: collect_kmod_def addFileToTarball_def go_simps split: prod.splits option.splits node.splits res.splits)
  with Cons show ?case by (auto simp: go_simps split: prod.splits res.splits)
qed (simp add: go_simps)

text \<open>A new layer with the given files, pushed with exit code 0 or not at all.\<close>

lemma layer_step_outcome:
  assumes "layer_step W fl sn a dir img tar s = (r, t)"
  shows "r \<noteq> Ok 0 \<and> sg_pushed t = sg_pushed s \<or>
     r = Ok 0 \<and> (\<exists>mt layer newImage. GetLayerMediaType img = Ok mt \<and> LayerFromFile W (TarBytes W tar) mt = Inr layer \<and>
       AppendLayers W img layer = Inr newImage \<and>
       sg_pushed t = sg_pushed s @ (if fl_no_push fl then [] else
         [(sn, getTransportOptions (fl_insecure fl) (fl_skip_tls_verify fl) @ [WithAuth (the (ra_PushAuth a))],
           MediaType W newImage (im_MediaType img))]))"
proof (cases "WriteFile W (dir @ ''/layerfile.tar'')")
  case (Inl e)
  with assms show ?thesis by (auto simp: layer_step_def Let_def write_file_def go_simps)
next
  case written: (Inr u)
  define s1 where "s1 = s\<lparr>sg_files := mput (sg_files s) (dir @ ''/layerfile.tar'') (FileNode (TarBytes W tar))\<rparr>"
  have s1: "sg_pushed s1 = sg_pushed s" "map_of (sg_files s1) (dir @ ''/layerfile.tar'') = Some (FileNode (TarBytes W tar))"
    by (simp_all add: s1_def)
  have run: "attempt (AddLayerToImage W (dir @ ''/layerfile.tar'') img) (\<lambda>r. case r of
        Inl e \<Rightarrow> ret 6 | Inr signedImage \<Rightarrow> push_step W fl sn a signedImage) s1 = (r, t)"
    using assms written by (simp add: layer_step_def Let_def write_file_def attempt_run s1_def)
  show ?thesis
    using run s1
    by (auto simp: attempt_run AddLayerToImage_def bind_go_run pure_go_run push_step_def ret_run WriteImageByName_def
        Let_def of_sum_def split: res.splits sum.splits if_splits)
qed

text \<open>
  \<open>img'\<close> is \<open>img\<close> with a new layer that holds exactly the files \<open>ks\<close>, each with the signed content of the
  first file of that name met from the top layer down.
\<close>

definition signed_result :: "world \<Rightarrow> string \<Rightarrow> string \<Rightarrow> string list \<Rightarrow> Img \<Rightarrow> Img \<Rightarrow> bool" where
  "signed_result W priv pub ks img img' \<longleftrightarrow> (\<exists>tar mt layer newImage.
     distinct (map fst tar) \<and> fst ` set tar = set ks \<and>
     (\<forall>(k, c) \<in> set tar. \<exists>h. first_header k (image_headers img) = Some h \<and> signed_content W priv pub h c) \<and>
     GetLayerMediaType img = Ok mt \<and> LayerFromFile W (TarBytes W tar) mt = Inr layer \<and>
     AppendLayers W img layer = Inr newImage \<and> img' = MediaType W newImage (im_MediaType img))"

text \<open>What the loop over the files to sign has collected, if none of them is missing.\<close>

lemma collected_tar:
  assumes inv: "walk_inv W dir priv pub ks pushed (image_headers img) s"
    and tar: "loop (range_map (kmods_order W) (sg_kmods s)) (collect_kmod W) (False, []) s = (Ok (False, tar), s)"
  shows "distinct (map fst tar)" and "fst ` set tar = set ks"
    and "\<forall>(k, c) \<in> set tar. \<exists>h. first_header k (image_headers img) = Some h \<and> signed_content W priv pub h c"
proof -
  let ?kvs = "range_map (kmods_order W) (sg_kmods s)"
  have d: "distinct (map fst (sg_kmods s))" using inv by (simp add: walk_inv_def)
  have dest: "v = (case first_header k (image_headers img) of None \<Rightarrow> ''not found'' | Some h \<Rightarrow> dir @ ''/'' @ th_Name h) \<and> k \<in> set ks"
    if "(k, v) \<in> set ?kvs" for k v
    using range_map_memD [OF that] inv by (auto simp: walk_inv_def simp del: map_of_eq_Some_iff split: if_splits)
  have content: "\<exists>c. signed_content W priv pub h c \<and> map_of (sg_files s) (dir @ ''/'' @ th_Name h) = Some (FileNode c)"
    if "k \<in> set ks" "first_header k (image_headers img) = Some h" for k h
    using inv that by (simp add: walk_inv_def del: map_of_eq_Some_iff)
  have "\<forall>kv \<in> set ?kvs. snd kv \<noteq> ''not found'' \<longrightarrow> (\<exists>c. map_of (sg_files s) (snd kv) = Some (FileNode c))"
    using dest content by (fastforce split: option.splits)
  from collect_loop_Ok [OF tar this] have found: "\<forall>kv \<in> set ?kvs. snd kv \<noteq> ''not found''"
    and tar_eq: "tar = map (\<lambda>(k, v). (k, file_content s v)) ?kvs" by auto
  have fst_tar: "map fst tar = range_keys (kmods_order W) (sg_kmods s)"
    by (simp add: tar_eq case_prod_beta comp_def flip: map_fst_range_map)
  have "fst ` set (sg_kmods s) = set ks"
    using inv dom_map_of_conv_image_fst [of "sg_kmods s"]
    by (auto simp: walk_inv_def dom_def simp del: map_of_eq_Some_iff split: if_splits)
  then show "distinct (map fst tar)" "fst ` set tar = set ks"
    using fst_tar d by (simp_all flip: set_map)
  have "\<exists>h. first_header k (image_headers img) = Some h \<and> signed_content W priv pub h c" if kc: "(k, c) \<in> set tar" for k c
  proof -
    obtain v where v: "(k, v) \<in> set ?kvs" and c: "c = file_content s v" using kc tar_eq by auto
    have "v \<noteq> ''not found''" using found v by auto
    then obtain h where h: "first_header k (image_headers img) = Some h" "v = dir @ ''/'' @ th_Name h"
      using dest [OF v] by (auto split: option.splits)
    from content [of k h] dest [OF v] h c show ?thesis by (auto simp: file_content_def)
  qed
  then show "\<forall>(k, c) \<in> set tar. \<exists>h. first_header k (image_headers img) = Some h \<and> signed_content W priv pub h c" by blast
qed

text \<open>
  What an exit code of 0 means after the walk: all that was asked for has been found, and the new
  layer holds the signed content of the first file of each name.
\<close>

lemma finish_outcome:
  assumes "finish W fl sn a dir img s = (r, t)" and "walk_inv W dir priv pub ks pushed (image_headers img) s"
  shows "r \<noteq> Ok 0 \<and> sg_pushed t = sg_pushed s \<or>
     r = Ok 0 \<and> (\<exists>img' opts. signed_result W priv pub ks img img' \<and>
       sg_pushed t = sg_pushed s @ (if fl_no_push fl then [] else [(sn, opts, img')]))"
proof -
  let ?kvs = "range_map (kmods_order W) (sg_kmods s)"
  show ?thesis
  proof (cases "\<exists>tar. loop ?kvs (collect_kmod W) (False, []) s = (Ok (False, tar), s)")
    case True
    then obtain tar where tar: "loop ?kvs (collect_kmod W) (False, []) s = (Ok (False, tar), s)" by blast
    note keys = collected_tar [OF assms(2) tar]
    have "layer_step W fl sn a dir img tar s = (r, t)"
      using assms(1) tar by (simp add: finish_def attempt_run)
    from layer_step_outcome [OF this] show ?thesis
    proof (elim disjE conjE exE)
      fix mt layer newImage
      assume "GetLayerMediaType img = Ok mt" "LayerFromFile W (TarBytes W tar) mt = Inr layer" "AppendLayers W img layer = Inr newImage"
      with keys have "signed_result W priv pub ks img (MediaType W newImage (im_MediaType img))"
        unfolding signed_result_def by (intro exI conjI) (assumption | rule refl)+
      moreover assume "r = Ok 0" "sg_pushed t = sg_pushed s @ (if fl_no_push fl then [] else
         [(sn, getTransportOptions (fl_insecure fl) (fl_skip_tls_verify fl) @ [WithAuth (the (ra_PushAuth a))],
           MediaType W newImage (im_MediaType img))])"
      ultimately show ?thesis by blast
    qed simp
  next
    case False
    obtain x s' where x: "loop ?kvs (collect_kmod W) (False, []) s = (x, s')" by fastforce
    then have "s' = s" using loop_collect_state [of ?kvs W "(False, [])" s] by simp
    with assms(1) False x show ?thesis
      by (auto simp: finish_def attempt_run ret_run split: res.splits prod.splits if_splits)
  qed
qed

lemma walk_pushed:
  assumes "WalkFilesInImage img (processFile W dir files priv pub) s = (r, t)"
  shows "sg_pushed t = sg_pushed s"
proof -
  have step: "sg_pushed t = sg_pushed s" if "processFile W dir files priv pub n h s = (r, t)" for n h s r t
    using that by (auto simp: processFile_def ExtractFileToFile_def write_file_def signFile_def Let_def go_simps
      split: if_splits sum.splits res.splits option.splits node.splits)
  have hs: "sg_pushed t = sg_pushed s" if "walk_headers (processFile W dir files priv pub) hs s = (r, t)" for hs s r t
    using that
  proof (induction hs arbitrary: s)
    case (Cons x hs)
    then show ?case
      by (cases x) (auto simp: go_simps dest!: step split: prod.splits res.splits)
  qed (simp add: go_simps)
  have "sg_pushed t = sg_pushed s" if "walk_layers (processFile W dir files priv pub) ls s = (r, t)" for ls s r t
    using that
  proof (induction ls arbitrary: s)
    case (Cons l ls)
    then show ?case
      by (auto simp: go_simps dest!: hs split: prod.splits res.splits)
  qed (simp add: go_simps)
  with assms show ?thesis by (auto simp: WalkFilesInImage_def go_simps split: res.splits)
qed

text \<open>The whole run, with complete arguments.\<close>

lemma sign_image_outcome:
  assumes "sign_image W fl un sn files priv pub secret s = (r, t)" and "files \<noteq> ''''"
  shows "r \<noteq> Ok 0 \<and> sg_pushed t = sg_pushed s \<or>
     r = Ok 0 \<and> (\<exists>img popts img' opts. cr_Pull W un popts = Inr img \<and>
       signed_result W priv pub (split_by (\<lambda>c. c = CHR '':'') files) img img' \<and>
       sg_pushed t = sg_pushed s @ (if fl_no_push fl then [] else [(sn, opts, img')]))"
proof -
  let ?ks = "split_by (\<lambda>c. c = CHR '':'') files"
  let ?a = "NewRepoAuth W secret (first_component un) (first_component sn)"
  let ?popts = "getTransportOptions (fl_insecure_pull fl) (fl_skip_tls_verify_pull fl) @ [WithAuth (the (ra_PullAuth ?a))]"
  consider (stop) "r \<noteq> Ok 0" "sg_pushed t = sg_pushed s"
    | (go) dir kmods img s1 where "init_kmods ?ks [] = Some kmods" "cr_Pull W un ?popts = Inr img"
        "WalkFilesInImage img (processFile W dir files priv pub) (s\<lparr>sg_kmods := kmods\<rparr>) = (Ok (), s1)"
        "finish W fl sn ?a dir img s1 = (r, t)"
    using assms(1)
    by (auto simp: sign_image_def Let_def GetImageByName_def go_simps of_sum_def dest!: walk_pushed
        split: sum.splits option.splits res.splits prod.splits)
  then show ?thesis
  proof cases
    case go
    have "walk_inv W dir priv pub ?ks (sg_pushed s) [] (s\<lparr>sg_kmods := kmods\<rparr>)"
      using init_kmods_Some [OF go(1)] by (auto simp: walk_inv_def first_header_def simp del: map_of_eq_Some_iff)
    from WalkFiles_inv [where I = "walk_inv W dir priv pub ?ks (sg_pushed s)", OF go(3) this walk_inv_step [OF _ assms(2)]]
    have inv: "walk_inv W dir priv pub ?ks (sg_pushed s) (image_headers img) s1" .
    then have pushed: "sg_pushed s1 = sg_pushed s" by (simp add: walk_inv_def)
    from finish_outcome [OF go(4) inv, unfolded pushed] go(2) show ?thesis by blast
  qed simp
qed

section \<open>A closed example\<close>

text \<open>An image with two layers that both hold a module, and a world in which everything succeeds.\<close>

definition sample_header :: "string \<Rightarrow> string \<Rightarrow> TarHeader" where
  "sample_header name content = \<lparr>th_Name = name, th_Size = length content, th_Reader = [(content, EOF)]\<rparr>"

definition sample_layer_of :: "TarHeader list \<Rightarrow> Layer" where
  "sample_layer_of hs = \<lparr>ly_MediaType = Inr ''layer'', ly_Uncompressed = Inr (map Inr hs)\<rparr>"

definition sample_img :: Img where
  "sample_img = \<lparr>im_Layers = Inr [sample_layer_of [sample_header ''a.ko'' ''old''], sample_layer_of [sample_header ''./a.ko'' ''new'']],
     im_MediaType = ''oci''\<rparr>"

definition sample_world :: world where
  "sample_world = \<lparr>cr_Pull = (\<lambda>_ _. Inr sample_img), cr_Push = (\<lambda>_ _ _. Inr ()), MkdirTemp = Inr ''/tmp/k'',
     MkdirAll = (\<lambda>_. Inr ()), WriteFile = (\<lambda>_. Inr ()), OpenFile = (\<lambda>_. Inr ()), WriteHeader = (\<lambda>_. Inr ()),
     CopyFile = (\<lambda>_. Inr ()), sign_file = (\<lambda>_ _ c. Inr (c @ ''+sig'')), TarBytes = (\<lambda>es. concat (map (\<lambda>(k, c). k @ c) es)),
     LayerFromFile = (\<lambda>c mt. Inr \<lparr>ly_MediaType = Inr mt, ly_Uncompressed = Inr [Inr (sample_header ''layer'' c)]\<rparr>),
     AppendLayers = (\<lambda>img l. Inr img), MediaType = (\<lambda>img _. img), json_raw = (\<lambda>_. Inr []), json_auths = (\<lambda>_. Inr []),
     secret_dir = (\<lambda>d. Directory d []), kmods_order = (\<lambda>ks. ks)\<rparr>"

definition sample_flags :: flags where
  "sample_flags = \<lparr>fl_unsignedimage = ''reg/u:1'', fl_signedimage = ''reg/s:1'', fl_filestosign = ''/a.ko'', fl_key = ''key'',
     fl_cert = ''cert'', fl_secretdir = ''/docker_config/'', fl_no_push = False, fl_insecure_pull = False,
     fl_skip_tls_verify_pull = False, fl_insecure = False, fl_skip_tls_verify = False\<rparr>"

definition sample_sign_state :: sign_state where
  "sample_sign_state = \<lparr>sg_files = [], sg_kmods = [], sg_pushed = []\<rparr>"

lemma sample_main:
  "fst (main sample_world sample_flags sample_sign_state) = Ok 0"
  by code_simp

section \<open>Properties\<close>

text \<open>
  C17. Exit code 0 means that everything asked for was signed.  With all arguments given, if the program
  ends with exit code 0 it has pulled the unsigned image, and a layer has been made that holds exactly
  the files asked for, each with the signed content of the first file of that name met from the top
  layer down; the new image is pushed under the name of the signed image, unless pushing is switched
  off.  With any other outcome nothing is pushed.
\<close>

theorem signimage_signs_all:
  assumes "main W fl s = (r, t)" and "fl_unsignedimage fl \<noteq> ''''" and "fl_signedimage fl \<noteq> ''''"
    and "fl_filestosign fl \<noteq> ''''" and "fl_key fl \<noteq> ''''" and "fl_cert fl \<noteq> ''''" and "fl_secretdir fl \<noteq> ''''"
  shows "(r \<noteq> Ok 0 \<longrightarrow> sg_pushed t = sg_pushed s) \<and>
     (r = Ok 0 \<longrightarrow> (\<exists>img popts img' opts. cr_Pull W (fl_unsignedimage fl) popts = Inr img \<and>
       signed_result W (fl_key fl) (fl_cert fl) (split_by (\<lambda>c. c = CHR '':'') (fl_filestosign fl)) img img' \<and>
       sg_pushed t = sg_pushed s @ (if fl_no_push fl then [] else [(fl_signedimage fl, opts, img')])))"
proof -
  have "sign_image W fl (fl_unsignedimage fl) (fl_signedimage fl) (fl_filestosign fl) (fl_key fl) (fl_cert fl) (fl_secretdir fl) s = (r, t)"
    using assms by (simp add: main_def checkArg_def)
  from sign_image_outcome [OF this assms(4)] show ?thesis by blast
qed

theorem signimage_signs_all_witness:
  "\<exists>t img opts. main sample_world sample_flags sample_sign_state = (Ok 0, t) \<and> sg_pushed t = [(''reg/s:1'', opts, img)]"
proof -
  obtain t where run: "main sample_world sample_flags sample_sign_state = (Ok 0, t)"
    using sample_main by (metis prod.collapse)
  have "fl_unsignedimage sample_flags \<noteq> ''''" "fl_signedimage sample_flags \<noteq> ''''" "fl_filestosign sample_flags \<noteq> ''''"
    "fl_key sample_flags \<noteq> ''''" "fl_cert sample_flags \<noteq> ''''" "fl_secretdir sample_flags \<noteq> ''''"
    by (simp_all add: sample_flags_def)
  from signimage_signs_all [OF run this] run show ?thesis
    by (auto simp: sample_flags_def sample_sign_state_def)
qed

text \<open>
  Without a list of files the program does nothing and reports success: it never pulls, signs or
  pushes, and exits with code 0.
\<close>

theorem signimage_without_files:
  assumes "fl_filestosign fl = ''''"
  shows "main W fl s = (Ok 0, s)"
  using assms by (simp add: main_def checkArg_def ret_run split: option.split)

theorem signimage_without_files_witness:
  "main sample_world (sample_flags\<lparr>fl_filestosign := ''''\<rparr>) sample_sign_state = (Ok 0, sample_sign_state)"
  by (rule signimage_without_files) simp

text \<open>
  What is extracted from an archive: the loop ends, and unless a read fails the result has exactly the
  size of the header; it is what the reader delivered, cut off at that size, and zero bytes fill the
  rest if the reader delivered less.
\<close>

theorem ExtractBytesFromTar_bounds:
  "(\<exists>e. ExtractBytesFromTar n rs = Err e) \<and> read_fails rs \<or>
   (\<exists>c. ExtractBytesFromTar n rs = Ok c \<and> length c = n \<and>
      take (length (delivered rs)) c = take n (delivered rs) \<and>
      set (drop (length (delivered rs)) c) \<subseteq> {CHR 0x00})"
proof (cases "read_fails rs")
  case True
  then show ?thesis using extract_loop_fails [of rs "replicate n (CHR 0x00)" 0] by (simp add: ExtractBytesFromTar_def)
next
  case False
  then have "ExtractBytesFromTar n rs = Ok (take n (delivered rs) @ replicate (n - length (delivered rs)) (CHR 0x00))"
    by (simp add: ExtractBytes_eq)
  then show ?thesis by (auto simp: min_def)
qed

text \<open>
  The canonical form of a path is reached in one step, starts at the root and has no empty and no dot
  components; two spellings of one path are one key of the map of files to sign.
\<close>

theorem canonicalisePath_canonical:
  "canonicalisePath (canonicalisePath path) = canonicalisePath path \<and>
   (\<exists>cs. canonicalisePath path = ''/'' @ Join cs ''/'' \<and>
      (\<forall>c \<in> set cs. c \<noteq> '''' \<and> c \<noteq> ''.'' \<and> c \<noteq> ''..'' \<and> CHR ''/'' \<notin> set c))"
proof -
  have "path_comps (CHR ''/'' # Join (path_comps path) ''/'') = path_comps path"
    by (rule path_comps_Join [OF path_comps_good])
  then show ?thesis
    using path_comps_good [of path] by (auto simp: canonicalisePath_eq list_all_iff good_comp_def)
qed

theorem canonicalisePath_canonical_witness:
  "canonicalisePath ''./opt/../lib//m.ko'' = ''/lib/m.ko'' \<and>
   canonicalisePath (canonicalisePath ''./opt/../lib//m.ko'') = canonicalisePath ''./opt/../lib//m.ko''"
proof
  show "canonicalisePath ''./opt/../lib//m.ko'' = ''/lib/m.ko''" by code_simp
  show "canonicalisePath (canonicalisePath ''./opt/../lib//m.ko'') = canonicalisePath ''./opt/../lib//m.ko''"
    using canonicalisePath_canonical by blast
qed

end
