(* ===== verification/Sign_Pipeline.thy ===== *)
theory Sign_Pipeline
  imports Module_Reconciler Sign_Image
begin

text \<open>
  From the controller to the signed image: the command line that the sign job carries
  (\<open>internal/sign/job/signer.go\<close>) is the one \<open>cmd/signimage\<close> parses, and the image the build job
  pushes is the one the sign job starts from.  \<open>flag_Parse\<close> is Go's \<open>flag.Parse\<close> for the flags that
  \<open>main\<close> declares.
\<close>

section \<open>The command line\<close>

definition zero_flags :: flags where
  "zero_flags = \<lparr>fl_unsignedimage = '''', fl_signedimage = '''', fl_filestosign = '''', fl_key = '''', fl_cert = '''',
     fl_secretdir = '''', fl_no_push = False, fl_insecure_pull = False, fl_skip_tls_verify_pull = False,
     fl_insecure = False, fl_skip_tls_verify = False\<rparr>"

definition string_flag :: "string \<Rightarrow> (string \<Rightarrow> flags \<Rightarrow> flags) option" where
  "string_flag = map_of [
     (''unsignedimage'', \<lambda>v fl. fl\<lparr>fl_unsignedimage := v\<rparr>),
     (''signedimage'', \<lambda>v fl. fl\<lparr>fl_signedimage := v\<rparr>),
     (''filestosign'', \<lambda>v fl. fl\<lparr>fl_filestosign := v\<rparr>),
     (''key'', \<lambda>v fl. fl\<lparr>fl_key := v\<rparr>),
     (''cert'', \<lambda>v fl. fl\<lparr>fl_cert := v\<rparr>),
     (''secretdir'', \<lambda>v fl. fl\<lparr>fl_secretdir := v\<rparr>)]"

definition bool_flag :: "string \<Rightarrow> (bool \<Rightarrow> flags \<Rightarrow> flags) option" where
  "bool_flag = map_of [
     (''no-push'', \<lambda>v fl. fl\<lparr>fl_no_push := v\<rparr>),
     (''insecure-pull'', \<lambda>v fl. fl\<lparr>fl_insecure_pull := v\<rparr>),
     (''skip-tls-verify-pull'', \<lambda>v fl. fl\<lparr>fl_skip_tls_verify_pull := v\<rparr>),
     (''insecure'', \<lambda>v fl. fl\<lparr>fl_insecure := v\<rparr>),
     (''skip-tls-verify'', \<lambda>v fl. fl\<lparr>fl_skip_tls_verify := v\<rparr>)]"

text \<open>
  One or two dashes start a flag; a value follows after an equals sign or, for a string flag, as the
  next argument; \<open>--\<close> and the first argument that is no flag end the flags.  A syntax error, an unknown
  flag and a missing value end the program with code 2, a request for help with code 0.
\<close>

definition flag_name :: "string \<Rightarrow> string option" where
  "flag_name s =
     (let name = (if take 2 s = ''--'' then drop 2 s else drop 1 s)
      in if name = '''' \<or> hd name = CHR ''-'' \<or> hd name = CHR ''='' then None else Some name)"

fun flag_Parse :: "string list \<Rightarrow> flags \<Rightarrow> nat + flags" where
  "flag_Parse [] fl = Inr fl"
| "flag_Parse (s # args) fl =
     (if length s < 2 \<or> hd s \<noteq> CHR ''-'' \<or> s = ''--'' then Inr fl
      else case flag_name s of
        None \<Rightarrow> Inl 2
      | Some nv \<Rightarrow>
          let name = takeWhile (\<lambda>c. c \<noteq> CHR ''='') nv; hasValue = (CHR ''='' \<in> set nv); value = drop (Suc (length name)) nv
          in case bool_flag name of
               Some set_flag \<Rightarrow>
                 (case (if hasValue then ParseBool value else Some True) of
                    None \<Rightarrow> Inl 2
                  | Some b \<Rightarrow> flag_Parse args (set_flag b fl))
             | None \<Rightarrow>
                 (case string_flag name of
                    Some set_flag \<Rightarrow>
                      (if hasValue then flag_Parse args (set_flag value fl)
                       else case args of
                         [] \<Rightarrow> Inl 2
                       | v # rest \<Rightarrow> flag_Parse rest (set_flag v fl))
                  | None \<Rightarrow> if name = ''help'' \<or> name = ''h'' then Inl 0 else Inl 2))"

text \<open>The whole program, from its arguments on.\<close>

definition signimage :: "world \<Rightarrow> string list \<Rightarrow> (sign_state, nat) go" where
  "signimage W args =
     (case flag_Parse args zero_flags of Inl code \<Rightarrow> ret code | Inr fl \<Rightarrow> main W fl)"

section \<open>Lemmas\<close>

text \<open>The flags a sign job uses, one by one.\<close>

lemma flag_Parse_string:
  "flag_Parse (''-unsignedimage'' # v # rest) fl = flag_Parse rest (fl\<lparr>fl_unsignedimage := v\<rparr>)"
  "flag_Parse (''-signedimage'' # v # rest) fl = flag_Parse rest (fl\<lparr>fl_signedimage := v\<rparr>)"
  "flag_Parse (''-filestosign'' # v # rest) fl = flag_Parse rest (fl\<lparr>fl_filestosign := v\<rparr>)"
  "flag_Parse (''-key'' # v # rest) fl = flag_Parse rest (fl\<lparr>fl_key := v\<rparr>)"
  "flag_Parse (''-cert'' # v # rest) fl = flag_Parse rest (fl\<lparr>fl_cert := v\<rparr>)"
  "flag_Parse (''-secretdir'' # v # rest) fl = flag_Parse rest (fl\<lparr>fl_secretdir := v\<rparr>)"
  by (simp_all add: flag_name_def bool_flag_def string_flag_def)

lemma flag_Parse_bool:
  "flag_Parse (''-no-push'' # rest) fl = flag_Parse rest (fl\<lparr>fl_no_push := True\<rparr>)"
  "flag_Parse (''--insecure'' # rest) fl = flag_Parse rest (fl\<lparr>fl_insecure := True\<rparr>)"
  "flag_Parse (''--skip-tls-verify'' # rest) fl = flag_Parse rest (fl\<lparr>fl_skip_tls_verify := True\<rparr>)"
  "flag_Parse (''--insecure-pull'' # rest) fl = flag_Parse rest (fl\<lparr>fl_insecure_pull := True\<rparr>)"
  "flag_Parse (''--skip-tls-verify-pull'' # rest) fl = flag_Parse rest (fl\<lparr>fl_skip_tls_verify_pull := True\<rparr>)"
  by (simp_all add: flag_name_def bool_flag_def)

declare flag_Parse.simps(2) [simp del]

lemmas flag_Parse_rules = flag_Parse_string flag_Parse_bool flag_Parse.simps(1)

text \<open>What the program reads back from the arguments of a sign job.\<close>

definition flags_of_job :: "ModuleLoaderData \<Rightarrow> Sign \<Rightarrow> string \<Rightarrow> bool \<Rightarrow> TLSOptions \<Rightarrow> flags" where
  "flags_of_job mld sc img push tls = \<lparr>
     fl_unsignedimage = (if img \<noteq> '''' then img else sign_UnsignedImage sc),
     fl_signedimage = (if push then mld_ContainerImage mld else ''''),
     fl_filestosign = Join (sign_FilesToSign sc) '':'',
     fl_key = ''/signingkey/key.priv'', fl_cert = ''/signingcert/public.der'', fl_secretdir = ''/docker_config/'',
     fl_no_push = (\<not> push),
     fl_insecure_pull = tls_Insecure (sign_UnsignedImageRegistryTLS sc),
     fl_skip_tls_verify_pull = tls_InsecureSkipTLSVerify (sign_UnsignedImageRegistryTLS sc),
     fl_insecure = (push \<and> tls_Insecure tls), fl_skip_tls_verify = (push \<and> tls_InsecureSkipTLSVerify tls)\<rparr>"

text \<open>
  The name under which the result is pushed: the image of the Module or, were that empty, the name
  \<open>main\<close> derives from the unsigned image.
\<close>

definition pushed_name :: "ModuleLoaderData \<Rightarrow> Sign \<Rightarrow> string \<Rightarrow> string" where
  "pushed_name mld sc img = (if mld_ContainerImage mld \<noteq> '''' then mld_ContainerImage mld
     else (if img \<noteq> '''' then img else sign_UnsignedImage sc) @ ''signed'')"

lemma flag_Parse_tail:
  assumes "fl_insecure_pull fl = False" and "fl_skip_tls_verify_pull fl = False" and "fl_filestosign fl = ''''"
  shows "flag_Parse ([''-unsignedimage'', u] @ [''-key'', k] @ [''-cert'', c]
       @ (if files \<noteq> [] then [''-filestosign'', Join files '':''] else [])
       @ (if a then [''--insecure-pull''] else []) @ (if b then [''--skip-tls-verify-pull''] else [])
       @ [''-secretdir'', d]) fl =
     Inr (fl\<lparr>fl_unsignedimage := u, fl_key := k, fl_cert := c, fl_filestosign := Join files '':'',
       fl_insecure_pull := a, fl_skip_tls_verify_pull := b, fl_secretdir := d\<rparr>)"
  using assms by (cases fl; cases files; cases a; cases b) (simp_all add: flag_Parse_rules)

lemma flag_Parse_sign_args:
  assumes "sign_args mld sc img push = Ok args"
  shows "\<exists>tls. (push \<longrightarrow> mld_RegistryTLS mld = Some tls) \<and> flag_Parse args zero_flags = Inr (flags_of_job mld sc img push tls)"
proof -
  let ?u = "if img \<noteq> '''' then img else sign_UnsignedImage sc"
  let ?tail = "[''-unsignedimage'', ?u] @ [''-key'', ''/signingkey/key.priv''] @ [''-cert'', ''/signingcert/public.der'']
       @ (if sign_FilesToSign sc \<noteq> [] then [''-filestosign'', Join (sign_FilesToSign sc) '':''] else [])
       @ (if tls_Insecure (sign_UnsignedImageRegistryTLS sc) then [''--insecure-pull''] else [])
       @ (if tls_InsecureSkipTLSVerify (sign_UnsignedImageRegistryTLS sc) then [''--skip-tls-verify-pull''] else [])
       @ [''-secretdir'', ''/docker_config/'']"
  have image_arg: "img \<noteq> '''' \<or> sign_UnsignedImage sc \<noteq> ''''"
    using sign_args_shape [OF assms] by blast
  show ?thesis
  proof (cases push)
    case False
    with assms image_arg have "args = ''-no-push'' # ?tail" by (auto simp: sign_args_def split: if_splits)
    with False show ?thesis
      by (simp only: flag_Parse_bool) (simp add: flag_Parse_tail zero_flags_def flags_of_job_def del: append_Cons append_Nil)
  next
    case True
    with assms obtain tls where tls: "mld_RegistryTLS mld = Some tls"
      by (cases "mld_RegistryTLS mld") (auto simp: sign_args_def)
    with True assms image_arg have "args = [''-signedimage'', mld_ContainerImage mld]
        @ (if tls_Insecure tls then [''--insecure''] else [])
        @ (if tls_InsecureSkipTLSVerify tls then [''--skip-tls-verify''] else []) @ ?tail"
      by (auto simp: sign_args_def split: if_splits)
    then show ?thesis
      using tls True by (cases "tls_Insecure tls"; cases "tls_InsecureSkipTLSVerify tls")
        (simp_all add: flag_Parse_rules flag_Parse_tail zero_flags_def flags_of_job_def)
  qed
qed

text \<open>The sign jobs the Module controller creates, and where its build jobs push to.\<close>

definition signs_what_was_built :: "env \<Rightarrow> ModuleLoaderData \<Rightarrow> event \<Rightarrow> bool" where
  "signs_what_was_built L mld e =
     (case e of Write (CreateJob j) \<Rightarrow> \<exists>h. sign_made L mld (if ShouldBeBuilt mld
          then IntermediateImageName (mld_Name mld) (mld_Namespace mld) (mld_ContainerImage mld) else '''') True (mld_Owner mld) j h
      | _ \<Rightarrow> True)"

lemma signs_read [simp]: "signs_what_was_built L mld (Read r)"
  by (simp add: signs_what_was_built_def)

lemma reads_F: "list_all is_read rs \<Longrightarrow> (\<And>r. F (Read r)) \<Longrightarrow> list_all F rs"
  by (induction rs) (auto simp: is_read_def split: event.splits)

lemma emits_SignSync_made:
  assumes "\<And>r. F (Read r)" and "\<And>j. F (Write (DeleteJob j))"
    and "\<And>j h. sign_made L mld img push owner j h \<Longrightarrow> F (Write (CreateJob j))"
  shows "emits F (SignSync L mld img push owner)"
  unfolding emits_iff
proof (intro allI impI)
  fix s r t
  assume "SignSync L mld img push owner s = (r, t)"
  then show "\<exists>evs. history t = history s @ evs \<and> list_all F evs"
  proof (cases rule: sign_jobs.Sync_cases)
    case (failed rs)
    with reads_F [of rs F] assms(1) show ?thesis by auto
  next
    case (listed rs ws jobs tmpl)
    have "list_all F rs" using listed(1) assms(1) by (rule reads_F)
    moreover have "list_all F (map Write ws)"
      using sign_jobs.outcome_single_write [OF listed(5)] assms(2) assms(3) [OF listed(4)] by auto
    ultimately show ?thesis using listed(2) assms(1) by auto
  qed
qed

lemma emits_handleSigning_made: "emits (signs_what_was_built L mld) (handleSigning L mld)"
proof -
  have sync: "emits (signs_what_was_built L mld) (SignSync L mld (if ShouldBeBuilt mld
      then IntermediateImageName (mld_Name mld) (mld_Namespace mld) (mld_ContainerImage mld) else '''') True (mld_Owner mld))"
    by (rule emits_SignSync_made) (auto simp: signs_what_was_built_def)
  have result: "emits F (stage_result mld stage st)" for F stage st
    by (auto simp: emits_iff stage_result_def SetCompletedStage_def go_simps)
  show ?thesis
    unfolding handleSigning_def Let_def
    by (intro emits_check sign_jobs.emits_ShouldSync emits_if sync result emits_rules) simp
qed

lemma BuildMake_destination:
  assumes "BuildMakeJobTemplate L mld owner True s = (Ok job, t)"
  shows "\<exists>c. ps_Containers (pt_Spec (job_Template job)) = [c] \<and> take 2 (c_Args c) = [''--destination'', build_target mld]"
proof -
  obtain b where b: "mld_Build mld = Some b"
    using assms by (cases "mld_Build mld") (auto simp: BuildMakeJobTemplate_def go_simps)
  obtain pt where pt: "specTemplate L mld b (build_target mld) (mld_RegistryTLS mld) True = Ok pt"
    and job: "job_Template job = pt"
    using assms b
    by (cases "specTemplate L mld b (build_target mld) (mld_RegistryTLS mld) True")
      (auto simp: BuildMakeJobTemplate_def build_target_def [symmetric] go_simps job_with_owner_def
        split: prod.splits res.splits)
  from pt obtain args where "containerArgs b (mld_KernelVersion mld) (build_target mld) (mld_RegistryTLS mld) True = Ok args"
    and spec: "\<exists>c. ps_Containers (pt_Spec pt) = [c] \<and> c_Args c = args"
    by (auto simp: specTemplate_def check_res_Ok_iff)
  from containerArgs_shape [OF this(1)] spec job show ?thesis by auto
qed

lemma Join_ne: "fs \<noteq> [] \<Longrightarrow> \<forall>f \<in> set fs. f \<noteq> [] \<Longrightarrow> Join fs sep \<noteq> []"
  by (induction fs sep rule: Join.induct) auto

section \<open>Properties\<close>

text \<open>
  C18. What a sign job does with the files of the Module.  Let a sign job be made from the signing section of a
  Module, with pushing, and let its container run \<open>signimage\<close> with the arguments of the job.
  If the Module lists files to sign, with non-empty names without a colon (the separator of the flag), then
  exit code 0 means that the image the job was made for was pulled, the new layer holds exactly the
  listed files, signed, and the result is pushed under the image name of the Module (or, were that
  empty, under the name \<open>main\<close> derives from the unsigned image); with any other outcome nothing is pushed.  If the Module lists no files, the job leaves the flag out and \<open>signimage\<close>
  exits with 0 at once: nothing is pulled, signed or pushed, though the API says that all kernel modules
  are signed in this case.
\<close>

theorem sign_job_signs_the_files:
  assumes "SignMakeJobTemplate L mld labels img True owner s0 = (Ok job, s1)"
    and "mld_Sign mld = Some sc" and "ps_Containers (pt_Spec (job_Template job)) = [c]"
    and "signimage W (c_Args c) s = (r, t)"
  shows "(sign_FilesToSign sc = [] \<longrightarrow> r = Ok 0 \<and> t = s) \<and>
     (sign_FilesToSign sc \<noteq> [] \<and> (\<forall>f \<in> set (sign_FilesToSign sc). f \<noteq> '''' \<and> CHR '':'' \<notin> set f) \<longrightarrow>
       r \<noteq> Ok 0 \<and> sg_pushed t = sg_pushed s \<or>
       r = Ok 0 \<and> (\<exists>source popts result opts.
         cr_Pull W (if img \<noteq> '''' then img else sign_UnsignedImage sc) popts = Inr source \<and>
         signed_result W ''/signingkey/key.priv'' ''/signingcert/public.der'' (sign_FilesToSign sc) source result \<and>
         sg_pushed t = sg_pushed s @ [(pushed_name mld sc img, opts, result)]))"
proof (intro conjI impI; (elim conjE)?)
  have args: "sign_args mld sc img True = Ok (c_Args c)"
    by (rule SignMake_Ok [OF assms(1)]) (use assms(2,3) in auto)
  obtain tls where parse: "flag_Parse (c_Args c) zero_flags = Inr (flags_of_job mld sc img True tls)"
    using flag_Parse_sign_args [OF args] by blast
  let ?fl = "flags_of_job mld sc img True tls"
  have source: "(if img \<noteq> '''' then img else sign_UnsignedImage sc) \<noteq> ''''"
    using sign_args_shape [OF args] by auto
  show "r = Ok 0" "t = s" if "sign_FilesToSign sc = []"
    using assms(4) signimage_without_files [of ?fl W s] that by (simp_all add: signimage_def parse flags_of_job_def)
  assume listed: "sign_FilesToSign sc \<noteq> []" "\<forall>f \<in> set (sign_FilesToSign sc). f \<noteq> '''' \<and> CHR '':'' \<notin> set f"
  have files: "Join (sign_FilesToSign sc) '':'' \<noteq> ''''" using listed by (intro Join_ne) auto
  have split: "split_by (\<lambda>c. c = CHR '':'') (Join (sign_FilesToSign sc) '':'') = sign_FilesToSign sc"
    using listed by (intro split_by_Join) auto
  show "r \<noteq> Ok 0 \<and> sg_pushed t = sg_pushed s \<or>
       r = Ok 0 \<and> (\<exists>source popts result opts.
         cr_Pull W (if img \<noteq> '''' then img else sign_UnsignedImage sc) popts = Inr source \<and>
         signed_result W ''/signingkey/key.priv'' ''/signingcert/public.der'' (sign_FilesToSign sc) source result \<and>
         sg_pushed t = sg_pushed s @ [(pushed_name mld sc img, opts, result)])"
  proof -
    have "sign_image W ?fl (if img \<noteq> '''' then img else sign_UnsignedImage sc) (pushed_name mld sc img)
        (Join (sign_FilesToSign sc) '':'') ''/signingkey/key.priv'' ''/signingcert/public.der'' ''/docker_config/'' s = (r, t)"
      using assms(4) source files
      by (cases "img = ''''"; cases "mld_ContainerImage mld = ''''")
        (simp_all add: signimage_def parse main_def checkArg_def flags_of_job_def pushed_name_def)
    from sign_image_outcome [OF this files] show ?thesis by (simp add: split flags_of_job_def)
  qed
qed

theorem sign_job_signs_the_files_witness:
  "\<exists>job s1 c t opts result. SignMakeJobTemplate (job_cluster []) (sample_mld None (Some (sample_sign [''/a.ko'']))) []
       ''reg/img:tmp'' True sample_owner fresh_state = (Ok job, s1) \<and>
     ps_Containers (pt_Spec (job_Template job)) = [c] \<and>
     signimage sample_world (c_Args c) sample_sign_state = (Ok 0, t) \<and> sg_pushed t = [(''reg/img:1'', opts, result)]"
proof -
  let ?mld = "sample_mld None (Some (sample_sign [''/a.ko'']))"
  obtain job s1 where make: "SignMakeJobTemplate (job_cluster []) ?mld [] ''reg/img:tmp'' True sample_owner fresh_state = (Ok job, s1)"
    by (simp add: sign_make_defs Let_def go_simps job_cluster_def sample_defs label_defs)
  obtain c where c: "ps_Containers (pt_Spec (job_Template job)) = [c]" "sign_args ?mld (sample_sign [''/a.ko'']) ''reg/img:tmp'' True = Ok (c_Args c)"
    by (rule SignMake_Ok [OF make]) (auto simp: sample_mld_def)
  have "fst (signimage sample_world (case sign_args ?mld (sample_sign [''/a.ko'']) ''reg/img:tmp'' True of Ok a \<Rightarrow> a | _ \<Rightarrow> []) sample_sign_state) = Ok 0"
    by code_simp
  then obtain t where run: "signimage sample_world (c_Args c) sample_sign_state = (Ok 0, t)"
    unfolding c(2) by (metis prod.collapse res.case(1))
  have "mld_Sign ?mld = Some (sample_sign [''/a.ko''])" "sign_FilesToSign (sample_sign [''/a.ko'']) = [''/a.ko'']"
    "mld_ContainerImage ?mld = ''reg/img:1''"
    by (simp_all add: sample_mld_def sample_sign_def)
  moreover from this have "pushed_name ?mld (sample_sign [''/a.ko'']) ''reg/img:tmp'' = ''reg/img:1''"
    by (simp add: pushed_name_def)
  ultimately have "\<exists>opts result. sg_pushed t = [(''reg/img:1'', opts, result)]"
    using sign_job_signs_the_files [OF make _ c(1) run]
    by (auto simp: sample_sign_state_def)
  with make c(1) run show ?thesis by blast
qed

text \<open>
  C21. Signing starts from what was built.  For a Module that is built and signed, the build job pushes to an
  intermediate image, and every sign job the Module controller creates takes exactly this image, which
  is not the final one, and pushes to the final one.
\<close>

theorem build_feeds_sign:
  assumes "ShouldBeBuilt mld" and "ShouldBeSigned mld"
    and "BuildMakeJobTemplate L mld owner True s0 = (Ok bj, s1)"
    and "handleSigning L mld s = (r, t)" and "history t = history s @ evs" and "Write (CreateJob sj) \<in> set evs"
  shows "\<exists>bc scn built fl. ps_Containers (pt_Spec (job_Template bj)) = [bc] \<and> take 2 (c_Args bc) = [''--destination'', built] \<and>
     ps_Containers (pt_Spec (job_Template sj)) = [scn] \<and> flag_Parse (c_Args scn) zero_flags = Inr fl \<and>
     fl_unsignedimage fl = built \<and> fl_signedimage fl = mld_ContainerImage mld \<and> \<not> fl_no_push fl \<and>
     built \<noteq> mld_ContainerImage mld"
proof -
  let ?built = "IntermediateImageName (mld_Name mld) (mld_Namespace mld) (mld_ContainerImage mld)"
  have ne: "?built \<noteq> ''''" "?built \<noteq> mld_ContainerImage mld"
    by (auto simp: IntermediateImageName_def AppendToTag_def)
  obtain bc where bc: "ps_Containers (pt_Spec (job_Template bj)) = [bc]" "take 2 (c_Args bc) = [''--destination'', ?built]"
    using BuildMake_destination [OF assms(3)] assms(2) by (auto simp: build_target_def)
  have "list_all (signs_what_was_built L mld) evs"
    using emitsE [OF emits_handleSigning_made assms(4)] assms(5) by auto
  with assms(1,6) obtain h where "sign_made L mld ?built True (mld_Owner mld) sj h"
    by (auto simp: list_all_iff signs_what_was_built_def dest!: bspec)
  then obtain s2 s3 where make: "SignMakeJobTemplate L mld (job_labels_of JobTypeSign mld) ?built True (mld_Owner mld) s2 = (Ok sj, s3)"
    unfolding sign_made_def by blast
  obtain sc scn where scn: "ps_Containers (pt_Spec (job_Template sj)) = [scn]" and args: "sign_args mld sc ?built True = Ok (c_Args scn)"
    by (rule SignMake_Ok [OF make]) auto
  obtain tls where "flag_Parse (c_Args scn) zero_flags = Inr (flags_of_job mld sc ?built True tls)"
    using flag_Parse_sign_args [OF args] by blast
  with bc scn ne show ?thesis by (auto simp: flags_of_job_def)
qed

theorem build_feeds_sign_witness:
  "\<exists>sj scn fl. Write (CreateJob sj) \<in> set (history (snd (handleSigning (job_cluster [])
       (sample_mld (Some sample_build) (Some (sample_sign [''/a.ko'']))) fresh_state))) \<and>
     ps_Containers (pt_Spec (job_Template sj)) = [scn] \<and> flag_Parse (c_Args scn) zero_flags = Inr fl \<and>
     fl_unsignedimage fl = ''reg/img:1_ns_mod_kmm_unsigned'' \<and> fl_signedimage fl = ''reg/img:1''"
proof -
  let ?L = "job_cluster []" and ?mld = "sample_mld (Some sample_build) (Some (sample_sign [''/a.ko'']))"
  obtain bj s1 where build: "BuildMakeJobTemplate ?L ?mld sample_owner True fresh_state = (Ok bj, s1)"
    by (simp add: build_make_defs Let_def go_simps
        job_cluster_def sample_defs label_defs)
  obtain r t where run: "handleSigning ?L ?mld fresh_state = (r, t)" by fastforce
  have "case writes (history (snd (handleSigning ?L ?mld fresh_state))) of [CreateJob sj] \<Rightarrow> True | _ \<Rightarrow> False"
    by code_simp
  then obtain sj where sj: "Write (CreateJob sj) \<in> set (history t)"
    unfolding run in_writes_iff [symmetric] by (auto split: list.splits write_call.splits)
  have "ShouldBeBuilt ?mld" "ShouldBeSigned ?mld" by (simp_all add: ShouldBeBuilt_def ShouldBeSigned_def sample_mld_def)
  from build_feeds_sign [OF this build run _ sj] obtain bc scn fl where
    "ps_Containers (pt_Spec (job_Template bj)) = [bc]" "take 2 (c_Args bc) = [''--destination'', fl_unsignedimage fl]"
    "ps_Containers (pt_Spec (job_Template sj)) = [scn]" "flag_Parse (c_Args scn) zero_flags = Inr fl"
    "fl_signedimage fl = mld_ContainerImage ?mld"
    by (auto simp: fresh_state_def)
  moreover have "build_target ?mld = ''reg/img:1_ns_mod_kmm_unsigned''" by code_simp
  ultimately show ?thesis
    using BuildMake_destination [OF build] sj run by (auto simp: sample_mld_def)
qed

end
