(* ===== verification/Tar_Reader.thy ===== *)
theory Tar_Reader
  imports Sign_Image
begin

text \<open>
  The loop of \<open>ExtractBytesFromTar\<close> in \<open>internal/registry/registry.go\<close> against a reader that is asked
  again and again.  \<open>Sign_Image\<close> takes the answers of the reader as a finite list; here the reader is a
  state that every \<open>Read\<close> changes, the loop may run forever, and it is shown for the reader of
  \<open>archive/tar\<close> when it ends and that the list is then what the reader answered.
\<close>

section \<open>The loop on a reader\<close>

text \<open>
  \<open>rd r n\<close> is \<open>r.Read\<close> on a buffer of \<open>n\<close> bytes: the bytes read, how the call ended, and the reader
  afterwards.  The value \<open>None\<close> of the loop is that it never returns.
\<close>

type_synonym 'r reader = "'r \<Rightarrow> nat \<Rightarrow> string \<times> read_end \<times> 'r"

definition store_bytes :: "string \<Rightarrow> nat \<Rightarrow> string \<Rightarrow> string" where
  "store_bytes contents offset bytes = take offset contents @ bytes @ drop (offset + length bytes) contents"

partial_function (option) read_loop :: "'r reader \<Rightarrow> 'r \<Rightarrow> string \<Rightarrow> nat \<Rightarrow> string res option" where
  "read_loop rd tarreader contents offset =
     (case rd tarreader (length contents - offset) of (bytes, st, tarreader') \<Rightarrow>
       (case st of
          ReadErr e \<Rightarrow> Some (Err (Errorf ''could not read from tar: %v '' [AE e]))
        | EOF \<Rightarrow> Some (Ok (store_bytes contents offset bytes))
        | More \<Rightarrow> read_loop rd tarreader' (store_bytes contents offset bytes) (offset + length bytes)))"

definition read_ExtractBytesFromTar :: "'r reader \<Rightarrow> nat \<Rightarrow> 'r \<Rightarrow> string res option" where
  "read_ExtractBytesFromTar rd sz tarreader = read_loop rd tarreader (replicate sz (CHR 0x00)) 0"

section \<open>The reader of an archive\<close>

text \<open>
  An entry of the archive: the bytes of it that are still to come, and the reads of the source below,
  each with the number of bytes it can give and how it ends; after them the source is at its end.
\<close>

record tar_entry =
  te_rest :: string
  te_source :: "(nat \<times> read_end) list"

text \<open>
  \<open>Read\<close> of \<open>archive/tar\<close>: it never reads past the entry, does not ask the source for nothing, reports
  the end of the source within the entry as an error, and the end of the entry as \<open>EOF\<close>.
\<close>

definition source_Read :: "tar_entry \<Rightarrow> nat \<Rightarrow> nat \<times> read_end \<times> (nat \<times> read_end) list" where
  "source_Read e n =
     (if n = 0 then (0, More, te_source e)
      else case te_source e of [] \<Rightarrow> (0, EOF, []) | (k, st) # src \<Rightarrow> (min k n, st, src))"

definition tar_Read :: "tar_entry reader" where
  "tar_Read e n =
     (case source_Read e (min n (length (te_rest e))) of (k, st, src) \<Rightarrow>
        let rest = drop k (te_rest e) in
        (take k (te_rest e),
         if st = EOF \<and> rest \<noteq> [] then ReadErr (LibError ''unexpected EOF'')
         else if st = More \<and> rest = [] then EOF else st,
         e\<lparr>te_rest := rest, te_source := src\<rparr>))"

section \<open>Lemmas\<close>

text \<open>The answers up to the one that ends the loop.\<close>

inductive answers :: "'r reader \<Rightarrow> 'r \<Rightarrow> nat \<Rightarrow> (string \<times> read_end) list \<Rightarrow> bool" for rd where
  last: "rd r n = (bytes, st, r') \<Longrightarrow> st \<noteq> More \<Longrightarrow> answers rd r n [(bytes, st)]"
| more: "rd r n = (bytes, More, r') \<Longrightarrow> answers rd r' (n - length bytes) rs \<Longrightarrow> answers rd r n ((bytes, More) # rs)"

text \<open>What every reader promises: it writes no more than the buffer holds.\<close>

locale io_Reader =
  fixes rd :: "'r reader"
  assumes fits: "rd r n = (bytes, st, r') \<Longrightarrow> length bytes \<le> n"
begin

lemma answers_loop:
  assumes "answers rd r n rs" and "n = length contents - offset" and "offset \<le> length contents"
  shows "read_loop rd r contents offset = Some (extract_loop rs contents offset)"
  using assms
proof (induction arbitrary: contents offset rule: answers.induct)
  case (last r n bytes st r')
  then have "length bytes \<le> length contents - offset" using fits by auto
  with last show ?case
    by (cases st) (simp_all add: read_loop.simps [of rd r] store_bytes_def Let_def)
next
  case (more r n bytes r' rs)
  then have le: "length bytes \<le> length contents - offset" using fits by auto
  let ?c = "store_bytes contents offset bytes"
  have len: "length ?c = length contents" using le more.prems(2) by (simp add: store_bytes_def)
  have "read_loop rd r' ?c (offset + length bytes) = Some (extract_loop rs ?c (offset + length bytes))"
    by (rule more.IH) (use len le more.prems in auto)
  then show ?case
    using more le by (simp add: read_loop.simps [of rd r] store_bytes_def Let_def)
qed

lemma loop_answers:
  assumes "read_loop rd r contents offset = Some x" and "offset \<le> length contents"
  shows "\<exists>rs. answers rd r (length contents - offset) rs"
proof -
  have "rd = rd \<longrightarrow> offset \<le> length contents \<longrightarrow> (\<exists>rs. answers rd r (length contents - offset) rs)"
  proof (rule read_loop.raw_induct [where P = "\<lambda>rd' r contents offset x. rd' = rd \<longrightarrow> offset \<le> length contents \<longrightarrow>
      (\<exists>rs. answers rd' r (length contents - offset) rs)", OF _ assms(1)])
    fix f :: "'r reader \<Rightarrow> 'r \<Rightarrow> string \<Rightarrow> nat \<Rightarrow> string res option" and rd' r contents offset x
    assume IH: "\<And>rd' r contents offset x. f rd' r contents offset = Some x \<Longrightarrow> rd' = rd \<longrightarrow> offset \<le> length contents \<longrightarrow>
        (\<exists>rs. answers rd' r (length contents - offset) rs)"
      and eq: "(case rd' r (length contents - offset) of (bytes, st, r') \<Rightarrow>
       (case st of
          ReadErr e \<Rightarrow> Some (Err (Errorf ''could not read from tar: %v '' [AE e]))
        | EOF \<Rightarrow> Some (Ok (store_bytes contents offset bytes))
        | More \<Rightarrow> f rd' r' (store_bytes contents offset bytes) (offset + length bytes))) = Some x"
    show "rd' = rd \<longrightarrow> offset \<le> length contents \<longrightarrow> (\<exists>rs. answers rd' r (length contents - offset) rs)"
    proof (intro impI)
      assume rd: "rd' = rd" and off: "offset \<le> length contents"
      obtain bytes st r' where read: "rd r (length contents - offset) = (bytes, st, r')" by (cases "rd r (length contents - offset)")
      show "\<exists>rs. answers rd' r (length contents - offset) rs"
      proof (cases "st = More")
        case True
        let ?c = "store_bytes contents offset bytes"
        have len: "length ?c = length contents" "offset + length bytes \<le> length contents"
          using fits [OF read] off by (simp_all add: store_bytes_def)
        have "f rd r' ?c (offset + length bytes) = Some x" using eq rd read True by simp
        then have "\<exists>rs. answers rd r' (length ?c - (offset + length bytes)) rs"
          by (rule IH [THEN mp, OF _ refl, THEN mp]) (simp add: len)
        then obtain rs where "answers rd r' (length ?c - (offset + length bytes)) rs" by (elim exE)
        then have "answers rd r (length contents - offset) ((bytes, More) # rs)"
          using read True by (intro answers.more) (simp_all add: len(1))
        then show ?thesis using rd by blast
      qed (use read rd in \<open>blast intro: answers.last\<close>)
    qed
  qed
  then show ?thesis using assms(2) by blast
qed

text \<open>The loop returns exactly when the reader comes to an end, and then what the list of answers gives.\<close>

lemma extract_returns:
  "read_ExtractBytesFromTar rd sz r = Some x \<longleftrightarrow> (\<exists>rs. answers rd r sz rs \<and> x = ExtractBytesFromTar sz rs)"
proof
  assume "read_ExtractBytesFromTar rd sz r = Some x"
  then obtain rs where "answers rd r (length (replicate sz (CHR 0x00)) - 0) rs"
    using loop_answers [of r "replicate sz (CHR 0x00)" 0 x] by (auto simp: read_ExtractBytesFromTar_def)
  then show "\<exists>rs. answers rd r sz rs \<and> x = ExtractBytesFromTar sz rs"
    using \<open>read_ExtractBytesFromTar rd sz r = Some x\<close> answers_loop [of r sz rs "replicate sz (CHR 0x00)" 0]
    by (auto simp: read_ExtractBytesFromTar_def ExtractBytesFromTar_def)
next
  assume "\<exists>rs. answers rd r sz rs \<and> x = ExtractBytesFromTar sz rs"
  then show "read_ExtractBytesFromTar rd sz r = Some x"
    using answers_loop [of r sz _ "replicate sz (CHR 0x00)" 0]
    by (auto simp: read_ExtractBytesFromTar_def ExtractBytesFromTar_def)
qed

end

interpretation tar: io_Reader tar_Read
  by unfold_locales (auto simp: tar_Read_def source_Read_def Let_def split: prod.splits list.splits if_splits)

lemma tar_ends:
  assumes "length (te_rest e) \<le> n"
  shows "\<exists>rs. answers tar_Read e n rs \<and> (read_fails rs \<or> delivered rs = te_rest e)"
  using assms
proof (induction "te_source e" arbitrary: e n)
  case Nil
  then show ?case
    by (cases "te_rest e = []") (fastforce intro: answers.last simp: tar_Read_def source_Read_def)+
next
  case (Cons x src)
  obtain bytes st e' where read: "tar_Read e n = (bytes, st, e')" by (cases "tar_Read e n")
  obtain k st0 where x: "te_source e = (k, st0) # src" using Cons.hyps(2) by (metis surj_pair)
  have min: "min n (length (te_rest e)) = length (te_rest e)" using Cons.prems by simp
  show ?case
  proof (cases "st = More")
    case True
    then have e': "te_source e' = src" "te_rest e = bytes @ te_rest e'"
      using read x by (auto simp: tar_Read_def source_Read_def min Let_def split: if_splits)
    then have "length (te_rest e') \<le> n - length bytes" using Cons.prems by simp
    from Cons.hyps(1) [OF e'(1) [symmetric] this] obtain rs
      where "answers tar_Read e' (n - length bytes) rs" "read_fails rs \<or> delivered rs = te_rest e'" by blast
    then show ?thesis
      using read True e'(2) by (intro exI [of _ "(bytes, More) # rs"]) (auto intro: answers.more)
  next
    case False
    have "st = EOF \<longrightarrow> bytes = te_rest e"
      using read by (auto simp: tar_Read_def Let_def split: prod.splits if_splits)
    then show ?thesis
      using read False by (intro exI [of _ "[(bytes, st)]"]) (cases st; auto intro: answers.last)
  qed
qed

lemma tar_never_ends:
  assumes "answers tar_Read e n rs" and "n < length (te_rest e)" and "\<forall>(k, st) \<in> set (te_source e). st = More"
    and "n \<le> sum_list (map fst (te_source e))"
  shows False
  using assms
proof (induction rule: answers.induct)
  case (last e n bytes st e')
  then show ?case
    by (cases "te_source e") (auto simp: tar_Read_def source_Read_def Let_def split: if_splits)
next
  case (more e n bytes e' rs)
  show ?case
  proof (cases "n = 0")
    case True
    with more show ?thesis by (auto simp: tar_Read_def source_Read_def Let_def)
  next
    case False
    then obtain k src where src: "te_source e = (k, More) # src"
      using more.prems by (cases "te_source e") auto
    show ?thesis
      by (rule more.IH) (use more.hyps(1) more.prems False src in \<open>auto simp: tar_Read_def source_Read_def Let_def min_def split: if_splits\<close>)
  qed
qed

section \<open>Properties\<close>

text \<open>
  C31. Extracting a file from an archive comes to an end.  The loop reads until the reader reports
  \<open>EOF\<close>; whatever the pieces in which the archive arrives, for an entry no longer than the size asked
  for it returns: an error if the archive is cut off or cannot be read, else the bytes of the entry,
  with zero bytes for what is missing.  The bound matters: for an entry that is longer, once the buffer
  is full every further read asks for nothing, and the loop never returns.
\<close>

theorem ExtractBytesFromTar_terminates:
  "(length (te_rest e) \<le> sz \<longrightarrow> (\<exists>r rs. read_ExtractBytesFromTar tar_Read sz e = Some r \<and>
       answers tar_Read e sz rs \<and> r = ExtractBytesFromTar sz rs \<and>
       ((\<exists>err. r = Err err) \<or> r = Ok (te_rest e @ replicate (sz - length (te_rest e)) (CHR 0x00))))) \<and>
   (sz < length (te_rest e) \<and> sz \<le> sum_list (map fst (te_source e)) \<and> snd ` set (te_source e) \<subseteq> {More} \<longrightarrow>
      read_ExtractBytesFromTar tar_Read sz e = None)"
proof (intro conjI impI)
  assume le: "length (te_rest e) \<le> sz"
  then obtain rs where rs: "answers tar_Read e sz rs" "read_fails rs \<or> delivered rs = te_rest e"
    using tar_ends by blast
  then have "read_ExtractBytesFromTar tar_Read sz e = Some (ExtractBytesFromTar sz rs)"
    by (auto simp: tar.extract_returns)
  moreover have "(\<exists>err. ExtractBytesFromTar sz rs = Err err) \<or>
      ExtractBytesFromTar sz rs = Ok (te_rest e @ replicate (sz - length (te_rest e)) (CHR 0x00))"
  proof (cases "read_fails rs")
    case True
    then show ?thesis
      using extract_loop_fails [of rs "replicate sz (CHR 0x00)" 0] by (simp add: ExtractBytesFromTar_def)
  next
    case False
    then show ?thesis using rs(2) le by (simp add: ExtractBytes_eq)
  qed
  ultimately show "\<exists>r rs. read_ExtractBytesFromTar tar_Read sz e = Some r \<and>
       answers tar_Read e sz rs \<and> r = ExtractBytesFromTar sz rs \<and>
       ((\<exists>err. r = Err err) \<or> r = Ok (te_rest e @ replicate (sz - length (te_rest e)) (CHR 0x00)))"
    using rs(1) by blast
next
  assume "sz < length (te_rest e) \<and> sz \<le> sum_list (map fst (te_source e)) \<and> snd ` set (te_source e) \<subseteq> {More}"
  then show "read_ExtractBytesFromTar tar_Read sz e = None"
    using tar_never_ends [of e sz] by (fastforce simp: tar.extract_returns not_Some_eq [symmetric] simp del: not_Some_eq)
qed

theorem ExtractBytesFromTar_terminates_witness:
  "(\<exists>r. read_ExtractBytesFromTar tar_Read 3 \<lparr>te_rest = ''abc'', te_source = [(2, More), (5, EOF)]\<rparr> = Some r \<and> r = Ok ''abc'') \<and>
   read_ExtractBytesFromTar tar_Read 2 \<lparr>te_rest = ''abc'', te_source = [(2, More)]\<rparr> = None"
proof
  let ?e = "\<lparr>te_rest = ''abc'', te_source = [(2, More), (5, EOF)]\<rparr>"
  have "read_ExtractBytesFromTar tar_Read 3 ?e = Some (Ok ''abc'')"
    by (simp add: read_ExtractBytesFromTar_def read_loop.simps tar_Read_def source_Read_def store_bytes_def
        numeral_eq_Suc)
  with ExtractBytesFromTar_terminates [of ?e 3]
  show "\<exists>r. read_ExtractBytesFromTar tar_Read 3 ?e = Some r \<and> r = Ok ''abc''" by simp
  show "read_ExtractBytesFromTar tar_Read 2 \<lparr>te_rest = ''abc'', te_source = [(2, More)]\<rparr> = None"
    using ExtractBytesFromTar_terminates [of "\<lparr>te_rest = ''abc'', te_source = [(2, More)]\<rparr>" 2] by simp
qed

end
