(* ===== verification/Start_Up.thy ===== *)
theory Start_Up
  imports Preflight Hub
begin

text \<open>
  The two programs, \<open>cmd/manager/main.go\<close> and \<open>cmd/manager-hub/main.go\<close>, with
  \<open>internal/cmd/cmdutils.go\<close>, and the \<open>SetupWithManager\<close> functions of the controllers: what a controller
  watches, which events pass and which requests they become.  The libraries a program starts with
  (configuration, manager, health checks) answer with an error or not; these answers are the fields
  of the record \<open>host\<close>.
\<close>

section \<open>Controllers\<close>

datatype kind =
    ModuleKind | DaemonSetKind | JobKind | NodeKind | PodKind | PreflightValidationKind | ClusterClaimKind
  | ManagedClusterModuleKind | ManifestWorkKind | ManagedClusterKind

record watch =
  wa_Kind :: kind
  wa_Requests :: "client_Object \<Rightarrow> (op_state, NamespacedName list) go"
  wa_Predicate :: obj_predicate

record controller =
  ctl_Name :: string
  ctl_For :: kind
  ctl_ForPredicate :: obj_predicate
  ctl_Owns :: "kind list"
  ctl_Watches :: "watch list"
  ctl_EventFilter :: obj_predicate
  ctl_MaxConcurrentReconciles :: nat

text \<open>A controller for one kind, without predicates, with the default of one worker.\<close>

definition NewControllerManagedBy :: "string \<Rightarrow> kind \<Rightarrow> controller" where
  "NewControllerManagedBy name k = \<lparr>ctl_Name = name, ctl_For = k, ctl_ForPredicate = predicate_And [], ctl_Owns = [],
     ctl_Watches = [], ctl_EventFilter = predicate_And [], ctl_MaxConcurrentReconciles = 1\<rparr>"

definition ModuleReconcilerName :: string where
  "ModuleReconcilerName = ''Module''"

definition NodeKernelReconcilerName :: string where
  "NodeKernelReconcilerName = ''NodeKernel''"

definition PodNodeModuleReconcilerName :: string where
  "PodNodeModuleReconcilerName = ''PodNodeModule''"

definition PreflightValidationReconcilerName :: string where
  "PreflightValidationReconcilerName = ''PreflightValidation''"

definition NodeKernelClusterClaimReconcilerName :: string where
  "NodeKernelClusterClaimReconcilerName = ''NodeKernelClusterClaim''"

definition ManagedClusterModuleReconcilerName :: string where
  "ManagedClusterModuleReconcilerName = ''ManagedClusterModule''"

definition Module_SetupWithManager :: "env \<Rightarrow> string \<Rightarrow> controller" where
  "Module_SetupWithManager L kernelLabel = (NewControllerManagedBy ModuleReconcilerName ModuleKind)\<lparr>
     ctl_Owns := [DaemonSetKind, JobKind],
     ctl_Watches := [\<lparr>wa_Kind = NodeKind, wa_Requests = FindModulesForNode L,
       wa_Predicate = ModuleReconcilerNodePredicate L kernelLabel\<rparr>]\<rparr>"

definition NodeKernel_SetupWithManager :: "string \<Rightarrow> controller" where
  "NodeKernel_SetupWithManager labelName = (NewControllerManagedBy NodeKernelReconcilerName NodeKind)\<lparr>
     ctl_EventFilter := NodeKernelReconcilerPredicate labelName\<rparr>"

definition PodNodeModule_SetupWithManager :: "env \<Rightarrow> controller" where
  "PodNodeModule_SetupWithManager L = (NewControllerManagedBy PodNodeModuleReconcilerName PodKind)\<lparr>
     ctl_EventFilter := pod_predicate L\<rparr>"

text \<open>\<open>PreflightReconcilerUpdatePredicate\<close> is a predicate of controller-runtime, an argument here.\<close>

definition Preflight_SetupWithManager :: "env \<Rightarrow> obj_predicate \<Rightarrow> controller" where
  "Preflight_SetupWithManager L generationChanged =
     (NewControllerManagedBy PreflightValidationReconcilerName PreflightValidationKind)\<lparr>
       ctl_ForPredicate := generationChanged,
       ctl_Owns := [JobKind],
       ctl_Watches := [\<lparr>wa_Kind = ModuleKind, wa_Requests = EnqueueAllPreflightValidations L,
         wa_Predicate = generationChanged\<rparr>],
       ctl_MaxConcurrentReconciles := 1\<rparr>"

definition NodeKernelClusterClaim_SetupWithManager :: controller where
  "NodeKernelClusterClaim_SetupWithManager = (NewControllerManagedBy NodeKernelClusterClaimReconcilerName NodeKind)\<lparr>
     ctl_ForPredicate := NodeUpdateKernelChangedPredicate,
     ctl_Watches := [\<lparr>wa_Kind = ClusterClaimKind,
       wa_Requests = (\<lambda>_. ret [\<lparr>nn_Namespace = '''', nn_Name = ''''\<rparr>]),
       wa_Predicate = NewPredicateFuncs (\<lambda>x. Ok (om_Name (obj_Meta x) = KernelVersionsClusterClaimName))\<rparr>]\<rparr>"

definition ManagedClusterModule_SetupWithManager :: "env \<Rightarrow> controller" where
  "ManagedClusterModule_SetupWithManager L = (NewControllerManagedBy ManagedClusterModuleReconcilerName ManagedClusterModuleKind)\<lparr>
     ctl_Owns := [ManifestWorkKind, JobKind],
     ctl_Watches := [\<lparr>wa_Kind = ManagedClusterKind, wa_Requests = FindManagedClusterModulesForCluster L,
       wa_Predicate = ManagedClusterModuleReconcilerManagedClusterPredicate L\<rparr>]\<rparr>"

section \<open>The programs\<close>

record host =
  ho_Getenv :: "string \<Rightarrow> string"
  ho_BuildInfo :: "(string \<times> string) list option"
  ho_LoadConfig :: "string \<Rightarrow> error + unit"
  ho_NewManager :: "error + unit"
  ho_Complete :: "string \<Rightarrow> error + unit"
  ho_InstallClusterAPI :: "error + unit"
  ho_AddHealthzCheck :: "error + unit"
  ho_AddReadyzCheck :: "error + unit"
  ho_Start :: "error + unit"

text \<open>The controllers registered so far, and whether the manager was started.\<close>

record start_state =
  su_Controllers :: "controller list"
  su_Started :: bool

definition OperatorNamespaceEnvVar :: string where
  "OperatorNamespaceEnvVar = ''OPERATOR_NAMESPACE''"

fun find_setting :: "(string \<times> string) list \<Rightarrow> string \<Rightarrow> string option" where
  "find_setting [] key = None"
| "find_setting ((k, v) # settings) key = (if k = key then Some v else find_setting settings key)"

definition GitCommit :: "host \<Rightarrow> string res" where
  "GitCommit H =
     (case ho_BuildInfo H of
        None \<Rightarrow> Err (Errorf ''build info is not available'' [])
      | Some settings \<Rightarrow>
          (case find_setting settings ''vcs.revision'' of
             Some v \<Rightarrow> Ok v
           | None \<Rightarrow> Err (Errorf ''%s not found in build info settings'' [AS ''vcs.revision''])))"

text \<open>\<open>FatalError\<close> ends the program with code 1; it is an error of the model's programs.\<close>

definition FatalError :: "error \<Rightarrow> (start_state, 'a) go" where
  "FatalError e = raise e"

definition or_fatal :: "error + unit \<Rightarrow> (start_state, unit) go" where
  "or_fatal r = (case r of Inl e \<Rightarrow> FatalError e | Inr _ \<Rightarrow> ret ())"

definition GetEnvOrFatalError :: "host \<Rightarrow> string \<Rightarrow> (start_state, string) go" where
  "GetEnvOrFatalError H name =
     (let val = ho_Getenv H name in
      if val = '''' then FatalError (Errorf ''empty value'' []) else ret val)"

definition GetBoolEnv :: "host \<Rightarrow> string \<Rightarrow> bool res" where
  "GetBoolEnv H s =
     (let envValue = ho_Getenv H s in
      if envValue = '''' then Ok False
      else case ParseBool envValue of
        None \<Rightarrow> Err (Errorf ''%q: invalid value for %s'' [AS envValue, AS s])
      | Some b \<Rightarrow> Ok b)"

text \<open>One call of \<open>SetupWithManager\<close>: the controller is registered unless \<open>Complete\<close> fails.\<close>

definition setup_controller :: "host \<Rightarrow> controller \<Rightarrow> (start_state, unit) go" where
  "setup_controller H c = bind_go (or_fatal (ho_Complete H (ctl_Name c)))
     (\<lambda>_ s. (Ok (), s\<lparr>su_Controllers := su_Controllers s @ [c]\<rparr>))"

definition start_manager :: "host \<Rightarrow> (start_state, unit) go" where
  "start_manager H =
     bind_go (or_fatal (ho_AddHealthzCheck H)) (\<lambda>_.
     bind_go (or_fatal (ho_AddReadyzCheck H)) (\<lambda>_.
     bind_go (\<lambda>s. (Ok (), s\<lparr>su_Started := True\<rparr>)) (\<lambda>_.
     or_fatal (ho_Start H))))"

definition manager_main :: "env \<Rightarrow> obj_predicate \<Rightarrow> host \<Rightarrow> string \<Rightarrow> (start_state, unit) go" where
  "manager_main L generationChanged H configFile =
     attempt (pure_go (GitCommit H)) (\<lambda>commit.
     bind_go (GetEnvOrFatalError H OperatorNamespaceEnvVar) (\<lambda>operatorNamespace.
     attempt (pure_go (GetBoolEnv H ''KMM_MANAGED'')) (\<lambda>r.
     let managed = (case r of Inl e \<Rightarrow> False | Inr b \<Rightarrow> b) in
     bind_go (or_fatal (ho_LoadConfig H configFile)) (\<lambda>_.
     bind_go (or_fatal (ho_NewManager H)) (\<lambda>_.
     bind_go (setup_controller H (Module_SetupWithManager L KernelLabel)) (\<lambda>_.
     bind_go (setup_controller H (NodeKernel_SetupWithManager KernelLabel)) (\<lambda>_.
     bind_go (setup_controller H (PodNodeModule_SetupWithManager L)) (\<lambda>_.
     bind_go (setup_controller H (Preflight_SetupWithManager L generationChanged)) (\<lambda>_.
     bind_go (if managed
        then bind_go (or_fatal (ho_InstallClusterAPI H)) (\<lambda>_. setup_controller H NodeKernelClusterClaim_SetupWithManager)
        else ret ()) (\<lambda>_.
     start_manager H))))))))))"

definition hub_main :: "env \<Rightarrow> host \<Rightarrow> string \<Rightarrow> (start_state, unit) go" where
  "hub_main L H configFile =
     attempt (pure_go (GitCommit H)) (\<lambda>commit.
     bind_go (or_fatal (ho_LoadConfig H configFile)) (\<lambda>_.
     bind_go (or_fatal (ho_NewManager H)) (\<lambda>_.
     bind_go (GetEnvOrFatalError H OperatorNamespaceEnvVar) (\<lambda>operatorNamespace.
     bind_go (setup_controller H (ManagedClusterModule_SetupWithManager L)) (\<lambda>_.
     start_manager H)))))"

section \<open>Lemmas\<close>

definition registered :: "start_state \<Rightarrow> string list" where
  "registered s = map ctl_Name (su_Controllers s)"

lemmas setup_defs = Module_SetupWithManager_def NodeKernel_SetupWithManager_def PodNodeModule_SetupWithManager_def
  Preflight_SetupWithManager_def NodeKernelClusterClaim_SetupWithManager_def ManagedClusterModule_SetupWithManager_def
  NewControllerManagedBy_def

text \<open>
  A part of a program that starts nothing and registers the controllers \<open>cs\<close>, one after the other; if it
  fails, it has registered the first few of them.
\<close>

definition registers :: "controller list \<Rightarrow> (start_state, 'a) go \<Rightarrow> bool" where
  "registers cs m \<longleftrightarrow> (\<forall>s r t. m s = (r, t) \<longrightarrow> r \<noteq> Panic \<and> su_Started t = su_Started s \<and>
     (\<exists>ds rest. cs = ds @ rest \<and> su_Controllers t = su_Controllers s @ ds \<and> ((\<exists>a. r = Ok a) \<longrightarrow> rest = [])))"

lemma registersE:
  assumes "registers cs m" and "m s = (r, t)"
  obtains es fs where "r \<noteq> Panic" and "su_Started t = su_Started s" and "cs = es @ fs"
    and "su_Controllers t = su_Controllers s @ es" and "(\<exists>a. r = Ok a) \<longrightarrow> fs = []"
  using assms unfolding registers_def by blast

lemma or_fatal_run [go_simps]: "or_fatal x s = (of_sum x, s)"
  by (cases x) (simp_all add: or_fatal_def FatalError_def go_simps)

lemma setup_run [go_simps]:
  "setup_controller H c s = (case ho_Complete H (ctl_Name c) of Inl e \<Rightarrow> (Err e, s)
     | Inr _ \<Rightarrow> (Ok (), s\<lparr>su_Controllers := su_Controllers s @ [c]\<rparr>))"
  by (simp add: setup_controller_def go_simps of_sum_def split: sum.split)

lemma start_manager_run:
  assumes "start_manager H s = (r, t)"
  shows "r \<noteq> Panic \<and> su_Controllers t = su_Controllers s \<and> (r = Ok () \<longrightarrow> su_Started t) \<and>
     (\<not> su_Started s \<longrightarrow> (su_Started t \<longleftrightarrow> ho_AddHealthzCheck H = Inr () \<and> ho_AddReadyzCheck H = Inr ()))"
  using assms
  by (cases "ho_AddHealthzCheck H"; cases "ho_AddReadyzCheck H"; cases "ho_Start H") (auto simp: start_manager_def go_simps)

lemma registers_or_fatal: "registers [] (or_fatal x)"
  by (cases x) (auto simp: registers_def go_simps)

lemma registers_env: "registers [] (GetEnvOrFatalError H name)"
  by (auto simp: registers_def GetEnvOrFatalError_def FatalError_def Let_def go_simps)

lemma registers_setup: "registers [c] (setup_controller H c)"
proof (cases "ho_Complete H (ctl_Name c)")
  case (Inl e)
  then show ?thesis by (simp add: registers_def go_simps)
next
  case (Inr u)
  then show ?thesis by (auto simp: registers_def go_simps intro!: exI [of _ "[c]"])
qed

lemma registers_ret: "registers [] (ret a)"
  by (simp add: registers_def go_simps)

lemmas registers_simple = registers_ret registers_or_fatal registers_env registers_setup

lemma registers_bind:
  assumes "registers cs m" and "\<And>a. registers ds (k a)"
  shows "registers (cs @ ds) (bind_go m k)"
  unfolding registers_def
proof (intro allI impI)
  fix s r t
  assume run: "bind_go m k s = (r, t)"
  obtain r1 s1 where m: "m s = (r1, s1)" by fastforce
  obtain es fs where first: "r1 \<noteq> Panic" "su_Started s1 = su_Started s" "cs = es @ fs"
    "su_Controllers s1 = su_Controllers s @ es" "(\<exists>a. r1 = Ok a) \<longrightarrow> fs = []"
    by (rule registersE [OF assms(1) m])
  show "r \<noteq> Panic \<and> su_Started t = su_Started s \<and> (\<exists>es fs. cs @ ds = es @ fs \<and>
      su_Controllers t = su_Controllers s @ es \<and> ((\<exists>a. r = Ok a) \<longrightarrow> fs = []))"
  proof (cases r1)
    case (Ok a)
    with run m have "k a s1 = (r, t)" by (simp add: bind_go_run)
    then obtain gs hs where "r \<noteq> Panic" "su_Started t = su_Started s1" "ds = gs @ hs"
      "su_Controllers t = su_Controllers s1 @ gs" "(\<exists>a. r = Ok a) \<longrightarrow> hs = []"
      by (rule registersE [OF assms(2)])
    with first Ok show ?thesis by (intro conjI exI [of _ "es @ gs"] exI [of _ hs]) auto
  next
    case (Err e)
    with run m have "r = Err e" "t = s1" by (simp_all add: bind_go_run)
    with first show ?thesis by (intro conjI exI [of _ es] exI [of _ "fs @ ds"]) auto
  qed (use first in simp)
qed

text \<open>The manager is started after all controllers are registered, or not at all.\<close>

definition runs_with :: "controller list \<Rightarrow> (start_state, unit) go \<Rightarrow> bool" where
  "runs_with cs m \<longleftrightarrow> (\<forall>s r t. m s = (r, t) \<longrightarrow> \<not> su_Started s \<longrightarrow> r \<noteq> Panic \<and> (r = Ok () \<longrightarrow> su_Started t) \<and>
     (\<exists>es fs. cs = es @ fs \<and> su_Controllers t = su_Controllers s @ es \<and> (su_Started t \<longrightarrow> fs = [])))"

lemma runs_withE:
  assumes "runs_with cs m" and "m s = (r, t)" and "\<not> su_Started s"
  obtains es fs where "r \<noteq> Panic" and "r = Ok () \<longrightarrow> su_Started t" and "cs = es @ fs"
    and "su_Controllers t = su_Controllers s @ es" and "su_Started t \<longrightarrow> fs = []"
  using assms unfolding runs_with_def by metis

lemma runs_with_start: "runs_with [] (start_manager H)"
  using start_manager_run [of H] unfolding runs_with_def by simp

lemma runs_with_bind:
  assumes "registers cs m" and "\<And>a. runs_with ds (k a)"
  shows "runs_with (cs @ ds) (bind_go m k)"
  unfolding runs_with_def
proof (intro allI impI)
  fix s r t
  assume run: "bind_go m k s = (r, t)" and fresh: "\<not> su_Started s"
  obtain r1 s1 where m: "m s = (r1, s1)" by fastforce
  obtain es fs where first: "r1 \<noteq> Panic" "su_Started s1 = su_Started s" "cs = es @ fs"
    "su_Controllers s1 = su_Controllers s @ es" "(\<exists>a. r1 = Ok a) \<longrightarrow> fs = []"
    by (rule registersE [OF assms(1) m])
  show "r \<noteq> Panic \<and> (r = Ok () \<longrightarrow> su_Started t) \<and> (\<exists>es fs. cs @ ds = es @ fs \<and>
      su_Controllers t = su_Controllers s @ es \<and> (su_Started t \<longrightarrow> fs = []))"
  proof (cases r1)
    case (Ok a)
    with run m have "k a s1 = (r, t)" by (simp add: bind_go_run)
    then obtain gs hs where "r \<noteq> Panic" "r = Ok () \<longrightarrow> su_Started t" "ds = gs @ hs"
      "su_Controllers t = su_Controllers s1 @ gs" "su_Started t \<longrightarrow> hs = []"
      using fresh first(2) by (auto elim: runs_withE [OF assms(2)])
    with first Ok show ?thesis by (intro conjI exI [of _ "es @ gs"] exI [of _ hs]) auto
  next
    case (Err e)
    with run m have "r = Err e" "t = s1" by (simp_all add: bind_go_run)
    with first fresh show ?thesis by (intro conjI exI [of _ es] exI [of _ "fs @ ds"]) auto
  qed (use first in simp)
qed

definition is_managed :: "host \<Rightarrow> bool" where
  "is_managed H \<longleftrightarrow> ParseBool (ho_Getenv H ''KMM_MANAGED'') = Some True"

lemma GetBoolEnv_managed:
  "(case GetBoolEnv H ''KMM_MANAGED'' of Ok b \<Rightarrow> b | _ \<Rightarrow> False) = is_managed H" "GetBoolEnv H ''KMM_MANAGED'' \<noteq> Panic"
  by (auto simp: GetBoolEnv_def is_managed_def Let_def ParseBool_def split: option.splits)

lemma GitCommit_not_Panic: "GitCommit H \<noteq> Panic"
  by (simp add: GitCommit_def split: option.split)

lemma attempt_pure:
  "r \<noteq> Panic \<Longrightarrow> attempt (pure_go r) k = k (case r of Ok a \<Rightarrow> Inr a | Err e \<Rightarrow> Inl e | Panic \<Rightarrow> undefined)"
  by (cases r) (auto simp: fun_eq_iff go_simps)

definition manager_controllers :: "env \<Rightarrow> obj_predicate \<Rightarrow> host \<Rightarrow> controller list" where
  "manager_controllers L generationChanged H =
     [Module_SetupWithManager L KernelLabel, NodeKernel_SetupWithManager KernelLabel, PodNodeModule_SetupWithManager L,
      Preflight_SetupWithManager L generationChanged]
     @ (if is_managed H then [NodeKernelClusterClaim_SetupWithManager] else [])"

lemma manager_main_runs: "runs_with (manager_controllers L generationChanged H) (manager_main L generationChanged H configFile)"
proof -
  let ?managed = "case (case GetBoolEnv H ''KMM_MANAGED'' of Ok a \<Rightarrow> Inr a | Err e \<Rightarrow> Inl e | Panic \<Rightarrow> undefined) of
    Inl e \<Rightarrow> False | Inr b \<Rightarrow> b"
  have managed: "?managed = is_managed H"
    using GetBoolEnv_managed [of H] by (auto split: res.splits)
  have claim: "registers (if is_managed H then [NodeKernelClusterClaim_SetupWithManager] else [])
     (if is_managed H then bind_go (or_fatal (ho_InstallClusterAPI H)) (\<lambda>_. setup_controller H NodeKernelClusterClaim_SetupWithManager) else ret ())"
    using registers_bind [of "[]" "or_fatal (ho_InstallClusterAPI H)" "[NodeKernelClusterClaim_SetupWithManager]"
        "\<lambda>_. setup_controller H NodeKernelClusterClaim_SetupWithManager"] by (auto intro: registers_simple)
  have "runs_with ([] @ [] @ [] @ [Module_SetupWithManager L KernelLabel] @ [NodeKernel_SetupWithManager KernelLabel]
      @ [PodNodeModule_SetupWithManager L] @ [Preflight_SetupWithManager L generationChanged]
      @ (if is_managed H then [NodeKernelClusterClaim_SetupWithManager] else []) @ []) (manager_main L generationChanged H configFile)"
    unfolding manager_main_def attempt_pure [OF GitCommit_not_Panic] attempt_pure [OF GetBoolEnv_managed(2)] Let_def managed
    by (intro runs_with_bind registers_simple claim runs_with_start)
  then show ?thesis by (simp add: manager_controllers_def)
qed

lemma hub_main_runs: "runs_with [ManagedClusterModule_SetupWithManager L] (hub_main L H configFile)"
proof -
  have "runs_with ([] @ [] @ [] @ [ManagedClusterModule_SetupWithManager L] @ []) (hub_main L H configFile)"
    unfolding hub_main_def attempt_pure [OF GitCommit_not_Panic]
    by (intro runs_with_bind registers_simple runs_with_start)
  then show ?thesis by simp
qed

lemma ParseBool_empty: "ParseBool '''' = None"
  by (simp add: ParseBool_def)

definition unstarted :: start_state where
  "unstarted = \<lparr>su_Controllers = [], su_Started = False\<rparr>"

lemma unstarted_simps [simp]: "su_Controllers unstarted = []" "\<not> su_Started unstarted"
  by (simp_all add: unstarted_def)

lemma manager_main_started:
  assumes "manager_main L generationChanged H configFile unstarted = (r, t)" and "su_Started t"
  shows "su_Controllers t = manager_controllers L generationChanged H"
  by (rule runs_withE [OF manager_main_runs assms(1)]) (use assms(2) in auto)

section \<open>Properties\<close>

text \<open>
  Which controllers a program runs.  The operator registers the controllers for Modules, for the
  kernel label, for the pods and for preflight validation, in this order, and after them the one for the
  cluster claim exactly if \<open>KMM_MANAGED\<close> has a value that means true, so a value that cannot be read
  counts as false; the hub registers its one controller.  A manager is started only when all of them
  are registered; a start that is cut off by a failure leaves a first part of the list; and without
  the namespace of the operator in the environment nothing is started.
\<close>

theorem programs_register_controllers:
  assumes "manager_main L generationChanged H configFile unstarted = (r, t)" and "hub_main L H configFile unstarted = (r', t')"
  shows "r \<noteq> Panic \<and> r' \<noteq> Panic \<and> (r = Ok () \<longrightarrow> su_Started t) \<and> (r' = Ok () \<longrightarrow> su_Started t') \<and>
     (\<exists>rest. map ctl_Name (su_Controllers t) @ rest =
        [''Module'', ''NodeKernel'', ''PodNodeModule'', ''PreflightValidation'']
        @ (if ParseBool (ho_Getenv H ''KMM_MANAGED'') = Some True then [''NodeKernelClusterClaim''] else []) \<and>
        (su_Started t \<longrightarrow> rest = [])) \<and>
     (\<exists>rest. map ctl_Name (su_Controllers t') @ rest = [''ManagedClusterModule''] \<and> (su_Started t' \<longrightarrow> rest = [])) \<and>
     (ho_Getenv H OperatorNamespaceEnvVar = '''' \<longrightarrow> \<not> su_Started t \<and> \<not> su_Started t')"
proof -
  have names: "map ctl_Name (manager_controllers L generationChanged H) =
      [''Module'', ''NodeKernel'', ''PodNodeModule'', ''PreflightValidation'']
        @ (if ParseBool (ho_Getenv H ''KMM_MANAGED'') = Some True then [''NodeKernelClusterClaim''] else [])"
    "map ctl_Name [ManagedClusterModule_SetupWithManager L] = [''ManagedClusterModule'']"
    by (simp_all add: manager_controllers_def is_managed_def setup_defs ModuleReconcilerName_def NodeKernelReconcilerName_def
        PodNodeModuleReconcilerName_def PreflightValidationReconcilerName_def NodeKernelClusterClaimReconcilerName_def
        ManagedClusterModuleReconcilerName_def)
  obtain es fs where m: "r \<noteq> Panic" "r = Ok () \<longrightarrow> su_Started t" "manager_controllers L generationChanged H = es @ fs"
    "su_Controllers t = es" "su_Started t \<longrightarrow> fs = []"
    by (rule runs_withE [OF manager_main_runs assms(1)]) auto
  obtain es' fs' where h: "r' \<noteq> Panic" "r' = Ok () \<longrightarrow> su_Started t'" "[ManagedClusterModule_SetupWithManager L] = es' @ fs'"
    "su_Controllers t' = es'" "su_Started t' \<longrightarrow> fs' = []"
    by (rule runs_withE [OF hub_main_runs assms(2)]) auto
  have "\<not> su_Started t \<and> \<not> su_Started t'" if "ho_Getenv H OperatorNamespaceEnvVar = ''''"
    using assms that
    by (auto simp: manager_main_def hub_main_def GetEnvOrFatalError_def FatalError_def attempt_pure [OF GitCommit_not_Panic]
        Let_def go_simps of_sum_def split: sum.splits)
  moreover have "map ctl_Name (su_Controllers t) @ map ctl_Name fs = map ctl_Name (manager_controllers L generationChanged H)"
    "map ctl_Name (su_Controllers t') @ map ctl_Name fs' = map ctl_Name [ManagedClusterModule_SetupWithManager L]"
    using m(3,4) h(3,4) by simp_all
  ultimately show ?thesis using m(1,2,5) h(1,2,5) unfolding names by blast
qed

definition sample_host :: "string \<Rightarrow> host" where
  "sample_host managed = \<lparr>ho_Getenv = (\<lambda>n. if n = OperatorNamespaceEnvVar then ''kmm'' else if n = ''KMM_MANAGED'' then managed else ''''),
     ho_BuildInfo = None, ho_LoadConfig = (\<lambda>_. Inr ()), ho_NewManager = Inr (), ho_Complete = (\<lambda>_. Inr ()),
     ho_InstallClusterAPI = Inr (), ho_AddHealthzCheck = Inr (), ho_AddReadyzCheck = Inr (), ho_Start = Inr ()\<rparr>"

theorem programs_register_controllers_witness:
  "\<exists>t. manager_main empty_cluster (predicate_And []) (sample_host ''yes'') ''c'' unstarted = (Ok (), t) \<and>
     map ctl_Name (su_Controllers t) = [''Module'', ''NodeKernel'', ''PodNodeModule'', ''PreflightValidation'']"
proof -
  obtain t where run: "manager_main empty_cluster (predicate_And []) (sample_host ''yes'') ''c'' unstarted = (Ok (), t)"
    by (simp add: manager_main_def GitCommit_def GetEnvOrFatalError_def GetBoolEnv_def ParseBool_def start_manager_def
        Let_def go_simps sample_host_def OperatorNamespaceEnvVar_def)
  obtain r' t' where "hub_main empty_cluster (sample_host ''yes'') ''c'' unstarted = (r', t')" by fastforce
  from programs_register_controllers [OF run this] run show ?thesis
    by (auto simp: sample_host_def OperatorNamespaceEnvVar_def ParseBool_def)
qed

end
