(* ===== verification/Go_Memory.thy ===== *)
theory Go_Memory
  imports Go_Prelude "HOL-Library.Sublist"
begin

text \<open>
  Go's memory, for the parts of the sources whose correctness depends on aliasing: objects at
  addresses, pointers, slices and maps that share them, \<open>new\<close>, \<open>make\<close>, \<open>copy\<close> and the loops that
  controller-gen writes to copy a value.  A \<^emph>\<open>view\<close> reads from the memory the tree of values an
  object denotes, labelled with the addresses the tree is stored at; the locale \<open>deep_copier\<close> is the
  contract of a copying function over a view, and it is closed under pointers, slices, maps and
  structs.
\<close>

section \<open>Memory\<close>

text \<open>
  A memory is the list of the objects allocated so far and an address is a position in it, so a new
  object gets an address that no object had before.  Which objects there are is the type
  \<open>'c\<close>; a function of type \<open>'c \<Rightarrow> 't option\<close> reads an object as a \<open>'t\<close>.  Reading an address
  that holds no \<open>'t\<close> panics: in Go that is the dereference of \<open>nil\<close>, as the language has no
  dangling pointers.
\<close>

type_synonym addr = nat
type_synonym 'c mem = "'c list"

definition peek :: "('c \<Rightarrow> 't option) \<Rightarrow> 'c mem \<Rightarrow> addr \<Rightarrow> 't option" where
  "peek prj h a = (if a < length h then prj (h ! a) else None)"

definition load_obj :: "('c \<Rightarrow> 't option) \<Rightarrow> addr \<Rightarrow> ('c mem, 't) go" where
  "load_obj prj a = (\<lambda>h. case peek prj h a of Some x \<Rightarrow> (Ok x, h) | None \<Rightarrow> (Panic, h))"

definition new_obj :: "'c \<Rightarrow> ('c mem, addr) go" where
  "new_obj c = (\<lambda>h. (Ok (length h), h @ [c]))"

definition store_obj :: "addr \<Rightarrow> 'c \<Rightarrow> ('c mem, unit) go" where
  "store_obj a c = (\<lambda>h. if a < length h then (Ok (), h[a := c]) else (Panic, h))"

section \<open>Slices\<close>

text \<open>A slice that is not \<open>nil\<close>: a window of an array.  Several slices can share one array.\<close>

record slice =
  sl_Array :: addr
  sl_Off :: nat
  sl_Len :: nat
  sl_Cap :: nat

definition window :: "slice \<Rightarrow> 'e list \<Rightarrow> 'e list" where
  "window s xs = take (sl_Len s) (drop (sl_Off s) xs)"

text \<open>Every slice lies in its array, with room up to its capacity.\<close>

definition slice_ok :: "slice \<Rightarrow> 'e list \<Rightarrow> bool" where
  "slice_ok s xs \<longleftrightarrow> sl_Len s \<le> sl_Cap s \<and> sl_Off s + sl_Cap s \<le> length xs"

definition make_slice :: "('e list \<Rightarrow> 'c) \<Rightarrow> 'e \<Rightarrow> nat \<Rightarrow> ('c mem, slice) go" where
  "make_slice emb zero n = bind_go (new_obj (emb (replicate n zero)))
     (\<lambda>a. ret \<lparr>sl_Array = a, sl_Off = 0, sl_Len = n, sl_Cap = n\<rparr>)"

definition slice_get :: "('c \<Rightarrow> 'e list option) \<Rightarrow> slice \<Rightarrow> nat \<Rightarrow> ('c mem, 'e) go" where
  "slice_get prj s i = bind_go (load_obj prj (sl_Array s))
     (\<lambda>xs. pure_go (if i < length (window s xs) then Ok (window s xs ! i) else Panic))"

definition slice_set ::
    "('e list \<Rightarrow> 'c) \<Rightarrow> ('c \<Rightarrow> 'e list option) \<Rightarrow> slice \<Rightarrow> nat \<Rightarrow> 'e \<Rightarrow> ('c mem, unit) go" where
  "slice_set emb prj s i v = bind_go (load_obj prj (sl_Array s))
     (\<lambda>xs. if i < length (window s xs) then store_obj (sl_Array s) (emb (xs[sl_Off s + i := v]))
           else pure_go Panic)"

text \<open>The builtin \<open>copy(dst, src)\<close>, which copies as many elements as both slices have.\<close>

definition slice_copy ::
    "('e list \<Rightarrow> 'c) \<Rightarrow> ('c \<Rightarrow> 'e list option) \<Rightarrow> slice \<Rightarrow> slice \<Rightarrow> ('c mem, unit) go" where
  "slice_copy emb prj dst src = bind_go (load_obj prj (sl_Array src))
     (\<lambda>xs. bind_go (load_obj prj (sl_Array dst))
     (\<lambda>ys. let n = min (length (window dst ys)) (length (window src xs)) in
       store_obj (sl_Array dst)
         (emb (take (sl_Off dst) ys @ take n (window src xs) @ drop (sl_Off dst + n) ys))))"

text \<open>
  The builtin \<open>append\<close>: within the capacity it writes behind the slice into the shared array, beyond it
  it moves to a new array, with as much room to spare as the run time likes (\<open>grow\<close>).
\<close>

definition slice_append :: "('e list \<Rightarrow> 'c) \<Rightarrow> ('c \<Rightarrow> 'e list option) \<Rightarrow> 'e \<Rightarrow> (nat \<Rightarrow> nat) \<Rightarrow>
    slice option \<Rightarrow> 'e list \<Rightarrow> ('c mem, slice option) go" where
  "slice_append emb prj zero grow p vs =
     (if vs = [] then ret p else case p of
        None \<Rightarrow> bind_go (new_obj (emb (vs @ replicate (grow (length vs)) zero)))
          (\<lambda>a. ret (Some \<lparr>sl_Array = a, sl_Off = 0, sl_Len = length vs,
             sl_Cap = length vs + grow (length vs)\<rparr>))
      | Some s \<Rightarrow> bind_go (load_obj prj (sl_Array s))
          (\<lambda>xs. let n = sl_Len s + length vs; b = sl_Off s + sl_Len s in
             if n \<le> sl_Cap s
             then bind_go (store_obj (sl_Array s) (emb (take b xs @ vs @ drop (b + length vs) xs)))
               (\<lambda>_. ret (Some (s\<lparr>sl_Len := n\<rparr>)))
             else bind_go (new_obj (emb (window s xs @ vs @ replicate (grow n) zero)))
               (\<lambda>a. ret (Some \<lparr>sl_Array = a, sl_Off = 0, sl_Len = n, sl_Cap = n + grow n\<rparr>))))"

text \<open>The elements of a slice, as \<open>xs...\<close> passes them.\<close>

definition slice_elems :: "('c \<Rightarrow> 'e list option) \<Rightarrow> slice option \<Rightarrow> ('c mem, 'e list) go" where
  "slice_elems prj p = (case p of
      None \<Rightarrow> ret []
    | Some s \<Rightarrow> bind_go (load_obj prj (sl_Array s)) (\<lambda>xs. ret (window s xs)))"

section \<open>Maps\<close>

text \<open>A map that is not \<open>nil\<close> is the address of its entries.\<close>

definition make_map :: "(('k \<times> 'v) list \<Rightarrow> 'c) \<Rightarrow> ('c mem, addr) go" where
  "make_map emb = new_obj (emb [])"

definition map_set :: "(('k \<times> 'v) list \<Rightarrow> 'c) \<Rightarrow> ('c \<Rightarrow> ('k \<times> 'v) list option) \<Rightarrow> addr \<Rightarrow> 'k \<Rightarrow> 'v
    \<Rightarrow> ('c mem, unit) go" where
  "map_set emb prj a k v = bind_go (load_obj prj a) (\<lambda>m. store_obj a (emb (mput m k v)))"

section \<open>The copying code of controller-gen\<close>

text \<open>
  The four shapes the generator emits.  \<open>into\<close> is the \<open>DeepCopyInto\<close> of what is referred to, as a
  function from the value of \<open>*in\<close> to the value it leaves in \<open>*out\<close>; \<open>ret\<close> stands for a plain
  assignment.
\<close>

text \<open>
  \<open>if in == nil { return nil }; out := new(T); in.DeepCopyInto(out); return out\<close>, and the same on a
  field: \<open>if in.F != nil { *out = new(T); (*in).DeepCopyInto(*out) }\<close>.
\<close>

definition copy_ptr :: "('t \<Rightarrow> 'c) \<Rightarrow> ('c \<Rightarrow> 't option) \<Rightarrow> 't \<Rightarrow> ('t \<Rightarrow> ('c mem, 't) go)
    \<Rightarrow> addr option \<Rightarrow> ('c mem, addr option) go" where
  "copy_ptr emb prj zero into p = (case p of
      None \<Rightarrow> ret None
    | Some a \<Rightarrow> bind_go (new_obj (emb zero))
        (\<lambda>out. bind_go (load_obj prj a)
        (\<lambda>x. bind_go (into x)
        (\<lambda>y. bind_go (store_obj out (emb y)) (\<lambda>_. ret (Some out))))))"

text \<open>\<open>if in.F != nil { *out = make([]T, len(*in)); copy(*out, *in) }\<close>\<close>

definition copy_slice :: "('e list \<Rightarrow> 'c) \<Rightarrow> ('c \<Rightarrow> 'e list option) \<Rightarrow> 'e \<Rightarrow> slice option
    \<Rightarrow> ('c mem, slice option) go" where
  "copy_slice emb prj zero p = (case p of
      None \<Rightarrow> ret None
    | Some src \<Rightarrow> bind_go (make_slice emb zero (sl_Len src))
        (\<lambda>out. bind_go (slice_copy emb prj out src) (\<lambda>_. ret (Some out))))"

text \<open>
  \<open>if in.F != nil { *out = make([]T, len(*in)); for i := range *in { (*in)[i].DeepCopyInto(&(*out)[i]) } }\<close>
\<close>

definition copy_each :: "('e list \<Rightarrow> 'c) \<Rightarrow> ('c \<Rightarrow> 'e list option) \<Rightarrow> 'e \<Rightarrow> ('e \<Rightarrow> ('c mem, 'e) go)
    \<Rightarrow> slice option \<Rightarrow> ('c mem, slice option) go" where
  "copy_each emb prj zero into p = (case p of
      None \<Rightarrow> ret None
    | Some src \<Rightarrow> bind_go (make_slice emb zero (sl_Len src))
        (\<lambda>out. bind_go (loop [0..<sl_Len src]
           (\<lambda>i _. bind_go (slice_get prj src i)
           (\<lambda>x. bind_go (into x) (\<lambda>y. slice_set emb prj out i y))) ())
        (\<lambda>_. ret (Some out))))"

text \<open>
  \<open>if in.F != nil { *out = make(map, len(*in)); for key, val := range *in { (*out)[key] = copy(val) } }\<close>,
  in the order \<open>order\<close> picks.
\<close>

definition copy_map :: "('k list \<Rightarrow> 'k list) \<Rightarrow> (('k \<times> 'v) list \<Rightarrow> 'c) \<Rightarrow> ('c \<Rightarrow> ('k \<times> 'v) list option)
    \<Rightarrow> ('v \<Rightarrow> ('c mem, 'v) go) \<Rightarrow> addr option \<Rightarrow> ('c mem, addr option) go" where
  "copy_map order emb prj into p = (case p of
      None \<Rightarrow> ret None
    | Some a \<Rightarrow> bind_go (make_map emb)
        (\<lambda>out. bind_go (load_obj prj a)
        (\<lambda>m. bind_go (loop (range_map order m)
           (\<lambda>kv _. bind_go (into (snd kv)) (\<lambda>v. map_set emb prj out (fst kv) v)) ())
        (\<lambda>_. ret (Some out)))))"

section \<open>What a piece of memory denotes\<close>

text \<open>
  The tree of values below an object.  Every pointer, slice and map in it carries a label; with
  addresses as labels the tree says where the value is stored, and \<open>forget\<close> leaves the value
  alone, with \<open>nil\<close> kept apart from the empty slice and the empty map, as \<open>reflect.DeepEqual\<close>
  compares it.
\<close>

datatype 'a gval =
    GStr string
  | GBool bool
  | GInt int
  | GNil
  | GPtr 'a "'a gval"
  | GSlice 'a "'a gval list"
  | GMap 'a "string \<Rightarrow> 'a gval option"
  | GStruct "'a gval list"

abbreviation addresses :: "addr gval \<Rightarrow> addr set" where
  "addresses t \<equiv> set_gval t"

definition forget :: "addr gval \<Rightarrow> unit gval" where
  "forget t = map_gval (\<lambda>_. ()) t"

type_synonym ('c, 't) view = "'c mem \<Rightarrow> 't \<Rightarrow> addr gval option"

definition flat_view :: "('t \<Rightarrow> addr gval) \<Rightarrow> ('c, 't) view" where
  "flat_view g h x = (if addresses (g x) = {} then Some (g x) else None)"

definition field_view :: "('c, 'f) view \<Rightarrow> ('t \<Rightarrow> 'f) \<Rightarrow> ('c, 't) view" where
  "field_view vw get h x = vw h (get x)"

definition struct_view :: "('c, 't) view list \<Rightarrow> ('c, 't) view" where
  "struct_view vs h x = map_option GStruct (those (map (\<lambda>vw. vw h x) vs))"

definition ptr_view :: "('c \<Rightarrow> 't option) \<Rightarrow> ('c, 't) view \<Rightarrow> ('c, addr option) view" where
  "ptr_view prj vw h p = (case p of
      None \<Rightarrow> Some GNil
    | Some a \<Rightarrow> (case peek prj h a of None \<Rightarrow> None | Some x \<Rightarrow> map_option (GPtr a) (vw h x)))"

definition slice_view :: "('c \<Rightarrow> 'e list option) \<Rightarrow> ('c, 'e) view \<Rightarrow> ('c, slice option) view" where
  "slice_view prj vw h p = (case p of
      None \<Rightarrow> Some GNil
    | Some s \<Rightarrow> (case peek prj h (sl_Array s) of
        None \<Rightarrow> None
      | Some xs \<Rightarrow> if slice_ok s xs
          then map_option (GSlice (sl_Array s)) (those (map (vw h) (window s xs))) else None))"

definition map_view :: "('c \<Rightarrow> (string \<times> 'v) list option) \<Rightarrow> ('c, 'v) view \<Rightarrow> ('c, addr option) view" where
  "map_view prj vw h p = (case p of
      None \<Rightarrow> Some GNil
    | Some a \<Rightarrow> (case peek prj h a of
        None \<Rightarrow> None
      | Some m \<Rightarrow> if distinct (map fst m) \<and> list_all (\<lambda>kv. vw h (snd kv) \<noteq> None) m
          then Some (GMap a (\<lambda>k. Option.bind (map_of m k) (vw h))) else None))"

section \<open>Reading memory\<close>

text \<open>
  A view is local when it reads allocated addresses only and depends on nothing but the objects at
  the addresses it reports.
\<close>

definition local_view :: "('c, 't) view \<Rightarrow> bool" where
  "local_view vw \<longleftrightarrow> (\<forall>h x t. vw h x = Some t \<longrightarrow>
     addresses t \<subseteq> {..<length h} \<and>
     (\<forall>h'. (\<forall>a\<in>addresses t. a < length h' \<and> h' ! a = h ! a) \<longrightarrow> vw h' x = Some t))"

text \<open>
  \<open>fresh_from n vw t h y\<close>: in the memory \<open>h\<close> the object \<open>y\<close> has the value of the tree \<open>t\<close>, stored in
  objects that were allocated from the address \<open>n\<close> on.  \<open>fresh_copy h0 vw x h y\<close>: nothing of the
  memory \<open>h0\<close> has changed, \<open>x\<close> had a value then, and \<open>y\<close> has it now, in new objects.
\<close>

definition fresh_from :: "addr \<Rightarrow> ('c, 't) view \<Rightarrow> addr gval \<Rightarrow> 'c mem \<Rightarrow> 't \<Rightarrow> bool" where
  "fresh_from n vw t h y \<longleftrightarrow>
     (\<exists>u. vw h y = Some u \<and> forget u = forget t \<and> addresses u \<subseteq> {n..<length h})"

definition fresh_copy :: "'c mem \<Rightarrow> ('c, 't) view \<Rightarrow> 't \<Rightarrow> 'c mem \<Rightarrow> 't \<Rightarrow> bool" where
  "fresh_copy h0 vw x h y \<longleftrightarrow>
     prefix h0 h \<and> (\<exists>t. vw h0 x = Some t \<and> fresh_from (length h0) vw t h y)"

text \<open>Running a piece of code to its end, with nothing changed of the memory it started from.\<close>

definition runs :: "('c mem, 'a) go \<Rightarrow> 'c mem \<Rightarrow> ('a \<Rightarrow> 'c mem \<Rightarrow> bool) \<Rightarrow> bool" where
  "runs m h Q \<longleftrightarrow> (\<exists>y h'. m h = (Ok y, h') \<and> prefix h h' \<and> Q y h')"

text \<open>The two memories have the same objects at the addresses from \<open>n\<close> on that the first one has.\<close>

definition agree_from :: "addr \<Rightarrow> 'c mem \<Rightarrow> 'c mem \<Rightarrow> bool" where
  "agree_from n h h' \<longleftrightarrow> length h \<le> length h' \<and> (\<forall>a. n \<le> a \<and> a < length h \<longrightarrow> h' ! a = h ! a)"

text \<open>
  An independent copy: the code ends, changes nothing of the old memory, and the copy has the value of
  the original; whatever happens afterwards to the objects allocated since leaves the original as it
  is, and whatever happens to the older ones leaves the copy as it is.
\<close>

definition independent_copy :: "('t \<Rightarrow> ('c mem, 't) go) \<Rightarrow> ('c, 't) view \<Rightarrow> 'c mem \<Rightarrow> 't \<Rightarrow> bool" where
  "independent_copy copy vw h x \<longleftrightarrow> (\<forall>t. vw h x = Some t \<longrightarrow>
     (\<exists>y h' u. copy x h = (Ok y, h') \<and> prefix h h' \<and> vw h' y = Some u \<and> forget u = forget t \<and>
       (\<forall>h''. prefix h h'' \<longrightarrow> vw h'' x = Some t) \<and>
       (\<forall>h''. agree_from (length h) h' h'' \<longrightarrow> vw h'' y = Some u)))"

named_theorems memory_simps \<open>running the memory operations\<close>
named_theorems view_intros \<open>locality of views and freshness of copies\<close>

lemma peek_append [memory_simps]:
  "peek prj (h @ [c]) a = (if a = length h then prj c else peek prj h a)"
  by (auto simp: peek_def nth_append)

lemma peek_update [memory_simps]:
  "peek prj (h[b := c]) a = (if a = b \<and> b < length h then prj c else peek prj h a)"
  by (auto simp: peek_def nth_list_update)

lemma peek_Some_less: "peek prj h a = Some x \<Longrightarrow> a < length h"
  by (auto simp: peek_def split: if_splits)

lemma peek_cong: "a < length h \<Longrightarrow> a < length h' \<Longrightarrow> h' ! a = h ! a \<Longrightarrow> peek prj h' a = peek prj h a"
  by (simp add: peek_def)

lemma prefix_peek:
  assumes "prefix h h'" and "peek prj h a = Some x"
  shows "peek prj h' a = Some x"
  using assms by (auto simp: peek_def prefix_def nth_append split: if_splits)

lemma prefix_nth: "prefix h h' \<Longrightarrow> a < length h \<Longrightarrow> h' ! a = h ! a"
  by (auto simp: prefix_def nth_append)

lemma prefix_update: "prefix h h' \<Longrightarrow> length h \<le> a \<Longrightarrow> prefix h (h'[a := c])"
  by (auto simp: prefix_def list_update_append)

lemma agree_from_prefix: "prefix h h' \<Longrightarrow> agree_from n h h'"
  by (auto simp: agree_from_def prefix_nth prefix_length_le)

lemma agree_from_update: "a < n \<Longrightarrow> agree_from n h (h[a := c])"
  by (auto simp: agree_from_def)

lemma prefix_agree_trans: "prefix h h1 \<Longrightarrow> agree_from n h1 h2 \<Longrightarrow> agree_from n h h2"
  unfolding agree_from_def using prefix_length_le [of h h1] prefix_nth [of h h1] by force

lemma load_run [memory_simps]: "peek prj h a = Some x \<Longrightarrow> load_obj prj a h = (Ok x, h)"
  by (simp add: load_obj_def)

lemma new_run [memory_simps]: "new_obj c h = (Ok (length h), h @ [c])"
  by (simp add: new_obj_def)

lemma store_run [memory_simps]: "a < length h \<Longrightarrow> store_obj a c h = (Ok (), h[a := c])"
  by (simp add: store_obj_def)

lemma window_make [simp]: "length xs = n \<Longrightarrow> window \<lparr>sl_Array = a, sl_Off = 0, sl_Len = n, sl_Cap = c\<rparr> xs = xs"
  by (simp add: window_def)

lemma length_window [simp]: "slice_ok s xs \<Longrightarrow> length (window s xs) = sl_Len s"
  by (auto simp: window_def slice_ok_def)

lemma those_Some_iff: "those os = Some xs \<longleftrightarrow> os = map Some xs"
  by (induction os arbitrary: xs) (auto split: option.splits simp: map_eq_Cons_conv)

lemma those_None_iff: "those os = None \<longleftrightarrow> None \<in> set os"
  by (induction os) (auto split: option.splits)

section \<open>Local views\<close>

lemma local_viewI:
  assumes "\<And>h x t. vw h x = Some t \<Longrightarrow> addresses t \<subseteq> {..<length h}"
    and "\<And>h x t h'. vw h x = Some t \<Longrightarrow> \<forall>a\<in>addresses t. a < length h \<and> a < length h' \<and> h' ! a = h ! a
          \<Longrightarrow> vw h' x = Some t"
  shows "local_view vw"
  unfolding local_view_def using assms by blast

lemma local_view_bounded: "local_view vw \<Longrightarrow> vw h x = Some t \<Longrightarrow> addresses t \<subseteq> {..<length h}"
  unfolding local_view_def by blast

lemma local_view_frame:
  "local_view vw \<Longrightarrow> vw h x = Some t \<Longrightarrow> \<forall>a\<in>addresses t. a < length h' \<and> h' ! a = h ! a \<Longrightarrow> vw h' x = Some t"
  unfolding local_view_def by blast

lemma local_view_prefix:
  assumes "local_view vw" and "vw h x = Some t" and "prefix h h'"
  shows "vw h' x = Some t"
proof (rule local_view_frame [OF assms(1,2)])
  show "\<forall>a\<in>addresses t. a < length h' \<and> h' ! a = h ! a"
    using local_view_bounded [OF assms(1,2)] prefix_length_le [OF assms(3)] prefix_nth [OF assms(3)]
    by fastforce
qed

lemma local_flat_view [view_intros]: "local_view (flat_view g)"
  by (rule local_viewI) (auto simp: flat_view_def split: if_splits)

lemma local_field_view [view_intros]:
  assumes "local_view vw"
  shows "local_view (field_view vw get)"
  unfolding local_view_def field_view_def
  using local_view_bounded [OF assms] local_view_frame [OF assms] by blast

lemma local_struct_view:
  assumes "\<forall>vw\<in>set vs. local_view vw"
  shows "local_view (struct_view vs)"
proof (rule local_viewI)
  fix h x t
  assume "struct_view vs h x = Some t"
  then obtain us where t: "t = GStruct us" and us: "map (\<lambda>vw. vw h x) vs = map Some us"
    by (auto simp: struct_view_def those_Some_iff)
  have at: "vw h x = Some u \<and> local_view vw" if "(vw, u) \<in> set (zip vs us)" for vw u
    using that us assms by (auto simp: set_zip list_eq_iff_nth_eq)
  have len: "length vs = length us"
    using us by (metis length_map)
  have mem: "\<exists>vw. (vw, u) \<in> set (zip vs us)" if "u \<in> set us" for u
    using that len by (metis in_set_impl_in_set_zip2)
  show "addresses t \<subseteq> {..<length h}"
    using mem at local_view_bounded t by fastforce
  fix h'
  assume same: "\<forall>a\<in>addresses t. a < length h \<and> a < length h' \<and> h' ! a = h ! a"
  have "vw h' x = Some u" if "(vw, u) \<in> set (zip vs us)" for vw u
    using that at same t local_view_frame [of vw h x u h'] set_zip_rightD [OF that] by auto
  then have "map (\<lambda>vw. vw h' x) vs = map Some us"
    using len by (simp add: list_eq_iff_nth_eq set_zip) blast
  then show "struct_view vs h' x = Some t"
    by (simp add: struct_view_def t those_Some_iff)
qed

lemma view_None [simp]:
  "ptr_view prj vw h None = Some GNil" "slice_view prj' vw' h None = Some GNil"
  "map_view prj'' vw'' h None = Some GNil"
  by (simp_all add: ptr_view_def slice_view_def map_view_def)

lemma ptr_view_Some_iff: "ptr_view prj vw h (Some a) = Some t \<longleftrightarrow>
    (\<exists>x u. peek prj h a = Some x \<and> vw h x = Some u \<and> t = GPtr a u)"
  by (auto simp: ptr_view_def split: option.splits)

lemma slice_view_Some_iff: "slice_view prj vw h (Some s) = Some t \<longleftrightarrow>
    (\<exists>xs us. peek prj h (sl_Array s) = Some xs \<and> slice_ok s xs \<and>
       those (map (vw h) (window s xs)) = Some us \<and> t = GSlice (sl_Array s) us)"
  by (auto simp: slice_view_def split: option.splits)

lemma map_view_Some_iff: "map_view prj vw h (Some a) = Some t \<longleftrightarrow>
    (\<exists>m. peek prj h a = Some m \<and> distinct (map fst m) \<and> (\<forall>kv\<in>set m. vw h (snd kv) \<noteq> None) \<and>
       t = GMap a (\<lambda>k. Option.bind (map_of m k) (vw h)))"
  by (auto simp: map_view_def list_all_iff split: option.splits)

lemma local_ref_viewI:
  assumes "\<And>h. vw h None = Some GNil"
    and "\<And>h p t. vw h (Some p) = Some t \<Longrightarrow> addresses t \<subseteq> {..<length h}"
    and "\<And>h p t h'. vw h (Some p) = Some t \<Longrightarrow>
          \<forall>a\<in>addresses t. a < length h \<and> a < length h' \<and> h' ! a = h ! a \<Longrightarrow> vw h' (Some p) = Some t"
  shows "local_view vw"
proof (rule local_viewI)
  fix h p t
  assume *: "vw h p = Some t"
  show "addresses t \<subseteq> {..<length h}"
    using * assms(1,2) by (cases p) auto
  fix h'
  assume "\<forall>a\<in>addresses t. a < length h \<and> a < length h' \<and> h' ! a = h ! a"
  then show "vw h' p = Some t"
    using * assms(1) assms(3) [of h _ t h'] by (cases p) auto
qed

lemma local_ptr_view [view_intros]:
  assumes "local_view vw"
  shows "local_view (ptr_view prj vw)"
proof (rule local_ref_viewI)
  fix h a t
  assume "ptr_view prj vw h (Some a) = Some t"
  then obtain x u where x: "peek prj h a = Some x" "vw h x = Some u" and t: "t = GPtr a u"
    by (auto simp: ptr_view_Some_iff)
  show "addresses t \<subseteq> {..<length h}"
    using local_view_bounded [OF assms x(2)] peek_Some_less [OF x(1)] by (simp add: t)
  fix h'
  assume same: "\<forall>b\<in>addresses t. b < length h \<and> b < length h' \<and> h' ! b = h ! b"
  then have "peek prj h' a = Some x"
    using x(1) peek_cong [of a h h' prj] by (simp add: t)
  then show "ptr_view prj vw h' (Some a) = Some t"
    using local_view_frame [OF assms x(2), of h'] same by (simp add: t ptr_view_Some_iff)
qed simp

lemma those_frame:
  assumes "local_view vw" and "those (map (vw h) xs) = Some us"
    and "\<forall>u\<in>set us. \<forall>a\<in>addresses u. a < length h' \<and> h' ! a = h ! a"
  shows "those (map (vw h') xs) = Some us"
  using assms(2,3)
proof (induction xs arbitrary: us)
  case (Cons x xs)
  then show ?case
    using local_view_frame [OF assms(1), of h x _ h'] by (fastforce split: option.splits)
qed simp

lemma those_bounded:
  assumes "local_view vw" and "those (map (vw h) xs) = Some us" and "u \<in> set us"
  shows "addresses u \<subseteq> {..<length h}"
proof -
  obtain x where "vw h x = Some u"
    using assms(2,3) by (auto simp: those_Some_iff in_set_conv_nth list_eq_iff_nth_eq)
  then show ?thesis by (rule local_view_bounded [OF assms(1)])
qed

lemma local_slice_view [view_intros]:
  assumes "local_view vw"
  shows "local_view (slice_view prj vw)"
proof (rule local_ref_viewI)
  fix h s t
  assume "slice_view prj vw h (Some s) = Some t"
  then obtain xs us where xs: "peek prj h (sl_Array s) = Some xs" "slice_ok s xs"
      "those (map (vw h) (window s xs)) = Some us" and t: "t = GSlice (sl_Array s) us"
    by (auto simp: slice_view_Some_iff)
  show "addresses t \<subseteq> {..<length h}"
    using those_bounded [OF assms xs(3)] peek_Some_less [OF xs(1)] by (auto simp: t)
  fix h'
  assume same: "\<forall>b\<in>addresses t. b < length h \<and> b < length h' \<and> h' ! b = h ! b"
  then have "peek prj h' (sl_Array s) = Some xs"
    using xs(1) peek_cong [of "sl_Array s" h h' prj] by (simp add: t)
  moreover have "those (map (vw h') (window s xs)) = Some us"
    using those_frame [OF assms xs(3), of h'] same by (simp add: t)
  ultimately show "slice_view prj vw h' (Some s) = Some t"
    using xs(2) by (simp add: t slice_view_Some_iff)
qed simp

lemma addresses_GMap: "a \<in> addresses (GMap b f) \<longleftrightarrow> a = b \<or> (\<exists>k u. f k = Some u \<and> a \<in> addresses u)"
proof -
  have "(\<exists>x\<in>range f. \<exists>u\<in>set_option x. a \<in> addresses u) \<longleftrightarrow> (\<exists>k u. f k = Some u \<and> a \<in> addresses u)"
    by auto
  then show ?thesis by auto
qed

declare gval.set(7) [simp del]

lemma map_view_entry:
  assumes "distinct (map fst m)" and "(k, v) \<in> set m" and "vw h v = Some u"
  shows "addresses u \<subseteq> addresses (GMap b (\<lambda>k. Option.bind (map_of m k) (vw h)))"
proof -
  have "map_of m k = Some v"
    using assms(1,2) by simp
  then have "Option.bind (map_of m k) (vw h) = Some u"
    using assms(3) by simp
  then show ?thesis
    by (auto simp: addresses_GMap)
qed

lemma local_map_view [view_intros]:
  assumes "local_view vw"
  shows "local_view (map_view prj vw)"
proof (rule local_ref_viewI)
  fix h b t
  assume "map_view prj vw h (Some b) = Some t"
  then obtain m where m: "peek prj h b = Some m" "distinct (map fst m)"
      "\<forall>kv\<in>set m. vw h (snd kv) \<noteq> None" and t: "t = GMap b (\<lambda>k. Option.bind (map_of m k) (vw h))"
    by (auto simp: map_view_Some_iff)
  show "addresses t \<subseteq> {..<length h}"
    using local_view_bounded [OF assms] peek_Some_less [OF m(1)]
    by (fastforce simp: t addresses_GMap bind_eq_Some_conv)
  fix h'
  assume same: "\<forall>a\<in>addresses t. a < length h \<and> a < length h' \<and> h' ! a = h ! a"
  have eq: "vw h' v = vw h v" if kv: "(k, v) \<in> set m" for k v
  proof -
    obtain u where u: "vw h v = Some u" using m(3) kv by auto
    show ?thesis
      using map_view_entry [OF m(2) kv, of vw h, OF u] u same local_view_frame [OF assms u, of h']
      by (auto simp: t)
  qed
  have "peek prj h' b = Some m"
    using same peek_cong [of b h h' prj] m(1) by (simp add: t addresses_GMap)
  moreover have "Option.bind (map_of m k) (vw h') = Option.bind (map_of m k) (vw h)" for k
    using eq map_of_SomeD [of m k] by (cases "map_of m k") auto
  ultimately show "map_view prj vw h' (Some b) = Some t"
    using m eq by (auto simp: map_view_Some_iff t)
qed simp

section \<open>Fresh copies\<close>

lemma fresh_from_agree:
  assumes "fresh_from n vw t h y" and "local_view vw" and "agree_from n h h'"
  shows "fresh_from n vw t h' y"
proof -
  obtain u where u: "vw h y = Some u" "forget u = forget t" "addresses u \<subseteq> {n..<length h}"
    using assms(1) by (auto simp: fresh_from_def)
  have "vw h' y = Some u"
    using local_view_frame [OF assms(2) u(1), of h'] u(3) assms(3) by (force simp: agree_from_def)
  then show ?thesis
    using u assms(3) by (force simp: fresh_from_def agree_from_def)
qed

lemma fresh_from_mono: "fresh_from n vw t h y \<Longrightarrow> m \<le> n \<Longrightarrow> fresh_from m vw t h y"
  unfolding fresh_from_def by fastforce

lemma fresh_copy_prefix:
  "fresh_copy h0 vw x h y \<Longrightarrow> local_view vw \<Longrightarrow> prefix h h' \<Longrightarrow> fresh_copy h0 vw x h' y"
  by (auto simp: fresh_copy_def intro: fresh_from_agree agree_from_prefix prefix_order.trans)

lemma fresh_copy_field [simp]: "fresh_copy h0 (field_view vw get) x h y = fresh_copy h0 vw (get x) h (get y)"
  by (simp add: fresh_copy_def fresh_from_def field_view_def)

lemma fresh_copy_flat:
  "flat_view g h0 x \<noteq> None \<Longrightarrow> prefix h0 h \<Longrightarrow> g y = g x \<Longrightarrow> fresh_copy h0 (flat_view g) x h y"
  by (auto simp: fresh_copy_def fresh_from_def flat_view_def split: if_splits)

lemma forget_simps [simp]:
  "forget GNil = GNil" "forget (GPtr a t) = GPtr () (forget t)"
  "forget (GSlice a ts) = GSlice () (map forget ts)" "forget (GStruct ts) = GStruct (map forget ts)"
  "forget (GStr x) = GStr x" "forget (GBool b) = GBool b" "forget (GInt i) = GInt i"
  "forget (GMap a f) = GMap () (\<lambda>k. map_option forget (f k))"
  by (simp_all add: forget_def [abs_def] fun_eq_iff comp_def)

lemma struct_view_defined: "struct_view vs h x \<noteq> None \<longleftrightarrow> (\<forall>vw\<in>set vs. vw h x \<noteq> None)"
  by (simp add: struct_view_def those_None_iff image_iff) (metis option.exhaust option.distinct(1))

lemma fresh_copy_struct:
  assumes "\<forall>vw\<in>set vs. fresh_copy h0 vw x h y" and "prefix h0 h"
  shows "fresh_copy h0 (struct_view vs) x h y"
proof -
  have "\<exists>ts us. those (map (\<lambda>vw. vw h0 x) vs) = Some ts \<and> those (map (\<lambda>vw. vw h y) vs) = Some us \<and>
      map forget us = map forget ts \<and> (\<forall>u\<in>set us. addresses u \<subseteq> {length h0..<length h})"
    using assms(1)
  proof (induction vs)
    case (Cons vw vs)
    then obtain ts us t u where "those (map (\<lambda>vw. vw h0 x) vs) = Some ts"
        "those (map (\<lambda>vw. vw h y) vs) = Some us" "map forget us = map forget ts"
        "\<forall>u\<in>set us. addresses u \<subseteq> {length h0..<length h}"
        "vw h0 x = Some t" "vw h y = Some u" "forget u = forget t" "addresses u \<subseteq> {length h0..<length h}"
      by (auto simp: fresh_copy_def fresh_from_def)
    then show ?case by auto
  qed simp
  then show ?thesis
    using assms(2) by (fastforce simp: fresh_copy_def fresh_from_def struct_view_def)
qed

section \<open>The contract of a copy\<close>

text \<open>
  \<open>into\<close> copies over the view \<open>vw\<close>: started on a value that the memory has, it ends without a panic,
  changes nothing that was there, and leaves the same value in objects that are all new.
\<close>

locale deep_copier =
  fixes into :: "'t \<Rightarrow> ('c mem, 't) go" and vw :: "('c, 't) view"
  assumes local: "local_view vw"
    and copies: "vw h x \<noteq> None \<Longrightarrow> runs (into x) h (\<lambda>y h'. fresh_copy h vw x h' y)"
begin

lemma copies_later:
  assumes "vw h0 x \<noteq> None" and "prefix h0 h"
  shows "runs (into x) h (\<lambda>y h'. fresh_copy h0 vw x h' y \<and> (\<exists>t. vw h0 x = Some t \<and> fresh_from (length h) vw t h' y))"
proof -
  obtain t where t: "vw h0 x = Some t"
    using assms(1) by auto
  then have th: "vw h x = Some t"
    using local_view_prefix [OF local _ assms(2)] by simp
  obtain y h' where run: "into x h = (Ok y, h')" "prefix h h'" "fresh_from (length h) vw t h' y"
    using copies [of h x] th by (auto simp: runs_def fresh_copy_def)
  have "fresh_copy h0 vw x h' y"
    using run t assms(2) fresh_from_mono [OF run(3), of "length h0"]
    by (auto simp: fresh_copy_def prefix_length_le intro: prefix_order.trans)
  then show ?thesis using run t by (auto simp: runs_def)
qed

text \<open>One statement of a \<open>DeepCopyInto\<close>: copy a part, go on.\<close>

lemma copy_then:
  assumes "vw h0 x \<noteq> None" and "prefix h0 h"
    and "\<And>y h'. prefix h h' \<Longrightarrow> prefix h0 h' \<Longrightarrow> fresh_copy h0 vw x h' y \<Longrightarrow> runs (k y) h' Q"
  shows "runs (bind_go (into x) k) h Q"
proof -
  obtain y h' where y: "into x h = (Ok y, h')" "prefix h h'" "fresh_copy h0 vw x h' y"
    using copies_later [OF assms(1,2)] by (auto simp: runs_def)
  then have "runs (k y) h' Q"
    using assms(2,3) prefix_order.trans by blast
  then show ?thesis
    using y by (auto simp: runs_def bind_go_run intro: prefix_order.trans)
qed

lemma copy_is_independent: "independent_copy into vw h x"
  unfolding independent_copy_def
proof (intro allI impI)
  fix t
  assume t: "vw h x = Some t"
  obtain y h' u where y: "into x h = (Ok y, h')" "prefix h h'" "vw h' y = Some u" "forget u = forget t"
      "addresses u \<subseteq> {length h..<length h'}"
    using copies [of h x] t by (auto simp: runs_def fresh_copy_def fresh_from_def)
  have "vw h'' y = Some u" if "agree_from (length h) h' h''" for h''
    using local_view_frame [OF local y(3), of h''] y(5) that by (force simp: agree_from_def)
  then show "\<exists>y h' u. into x h = (Ok y, h') \<and> prefix h h' \<and> vw h' y = Some u \<and> forget u = forget t \<and>
      (\<forall>h''. prefix h h'' \<longrightarrow> vw h'' x = Some t) \<and>
      (\<forall>h''. agree_from (length h) h' h'' \<longrightarrow> vw h'' y = Some u)"
    using y local_view_prefix [OF local t] by blast
qed

end

named_theorems copier_intros \<open>copying functions built from others\<close>

lemma copier_flat [copier_intros]: "deep_copier ret (flat_view g)"
  by unfold_locales (auto simp: local_flat_view runs_def ret_run intro!: fresh_copy_flat)

lemma ptr_view_freshI:
  assumes "fresh_from (Suc a) vw t h y" and "peek prj h a = Some y"
  shows "fresh_from a (ptr_view prj vw) (GPtr b t) h (Some a)"
proof -
  obtain u where u: "vw h y = Some u" "forget u = forget t" "addresses u \<subseteq> {Suc a..<length h}"
    using assms(1) by (auto simp: fresh_from_def)
  have "addresses (GPtr a u) \<subseteq> {a..<length h}"
    using u(3) peek_Some_less [OF assms(2)] by force
  then show ?thesis
    unfolding fresh_from_def
    using u assms(2) by (intro exI [of _ "GPtr a u"]) (simp add: ptr_view_Some_iff)
qed

lemma copier_ptr [copier_intros]:
  assumes "deep_copier into vw" and [simp]: "\<And>x. prj (emb x) = Some x"
  shows "deep_copier (copy_ptr emb prj zero into) (ptr_view prj vw)"
proof (rule deep_copier.intro)
  note into = assms(1)
  show "local_view (ptr_view prj vw)"
    by (rule local_ptr_view [OF deep_copier.local [OF into]])
  fix h p
  assume def: "ptr_view prj vw h p \<noteq> None"
  show "runs (copy_ptr emb prj zero into p) h (\<lambda>q h'. fresh_copy h (ptr_view prj vw) p h' q)"
  proof (cases p)
    case None
    then show ?thesis
      by (simp add: copy_ptr_def runs_def ret_run fresh_copy_def fresh_from_def)
  next
    case (Some a)
    then obtain x t where x: "peek prj h a = Some x" "vw h x = Some t"
      using def by (auto simp: ptr_view_Some_iff)
    define o' where "o' = length h"
    define h1 where "h1 = h @ [emb zero]"
    have "prefix h h1" by (simp add: h1_def)
    obtain y h2 where y: "into x h1 = (Ok y, h2)" "prefix h1 h2" "fresh_from (Suc o') vw t h2 y"
      using deep_copier.copies_later [OF into, of h x h1] x(2) \<open>prefix h h1\<close>
      by (auto simp: runs_def h1_def o'_def)
    have o': "o' < length h2"
      using prefix_length_le [OF y(2)] by (simp add: h1_def o'_def)
    define h3 where "h3 = h2[o' := emb y]"
    have "fresh_from (Suc o') vw t h3 y"
      using fresh_from_agree [OF y(3) deep_copier.local [OF into] agree_from_update] by (simp add: h3_def)
    moreover have "peek prj h3 o' = Some y"
      using o' by (simp add: h3_def memory_simps)
    ultimately have "fresh_from o' (ptr_view prj vw) (GPtr a t) h3 (Some o')"
      by (rule ptr_view_freshI)
    moreover have "prefix h h3"
      using prefix_update [OF prefix_order.trans [OF \<open>prefix h h1\<close> y(2)]] by (simp add: h3_def o'_def)
    moreover have "copy_ptr emb prj zero into p h = (Ok (Some o'), h3)"
      using x(1) y(1) o' peek_Some_less [OF x(1)]
      by (simp add: Some copy_ptr_def go_simps memory_simps h1_def o'_def h3_def)
    ultimately show ?thesis
      using x by (auto simp: runs_def fresh_copy_def ptr_view_Some_iff Some o'_def)
  qed
qed

text \<open>
  Slices: the copy has an array of its own, filled from the front.  \<open>filled\<close> describes the memory
  once \<open>k\<close> elements are there.
\<close>

lemma slice_view_freshI:
  assumes "peek prj h' (sl_Array s) = Some ys" and "sl_Off s = 0 \<and> sl_Cap s = sl_Len s"
    and "length ys = sl_Len s" and "length us = sl_Len s" and "n \<le> sl_Array s"
    and "\<And>i. i < sl_Len s \<Longrightarrow> fresh_from n vw (us ! i) h' (ys ! i)"
  shows "fresh_from n (slice_view prj vw) (GSlice b us) h' (Some s)"
proof -
  have ws: "window s ys = ys"
    using assms(2,3) by (simp add: window_def)
  obtain f where f: "\<And>i. i < sl_Len s \<Longrightarrow> vw h' (ys ! i) = Some (f i) \<and> forget (f i) = forget (us ! i)
      \<and> addresses (f i) \<subseteq> {n..<length h'}"
    using assms(6) unfolding fresh_from_def by metis
  define vs where "vs = map f [0..<sl_Len s]"
  have "those (map (vw h') ys) = Some vs"
    using f assms(3) by (simp add: those_Some_iff vs_def list_eq_iff_nth_eq)
  moreover have "map forget vs = map forget us"
    using f assms(4) by (simp add: vs_def list_eq_iff_nth_eq)
  moreover have "addresses (GSlice (sl_Array s) vs) \<subseteq> {n..<length h'}"
    using f assms(5) peek_Some_less [OF assms(1)] by (fastforce simp: vs_def)
  ultimately show ?thesis
    unfolding fresh_from_def
    using assms(1-3) ws
    by (intro exI [of _ "GSlice (sl_Array s) vs"]) (simp add: slice_view_Some_iff slice_ok_def)
qed

definition filled ::
    "('c \<Rightarrow> 'e list option) \<Rightarrow> ('c, 'e) view \<Rightarrow> addr gval list \<Rightarrow> 'c mem \<Rightarrow> nat \<Rightarrow> 'c mem \<Rightarrow> bool" where
  "filled prj vw us h k h' \<longleftrightarrow> prefix h h' \<and> (\<exists>ys. peek prj h' (length h) = Some ys \<and>
     length ys = length us \<and> (\<forall>i<k. fresh_from (Suc (length h)) vw (us ! i) h' (ys ! i)))"

lemma fill_step:
  assumes "deep_copier into vw" and [simp]: "\<And>xs. prj (emb xs) = Some xs"
    and src: "peek prj h (sl_Array src) = Some xs" "k < length (window src xs)"
      "those (map (vw h) (window src xs)) = Some us"
    and out: "out = \<lparr>sl_Array = length h, sl_Off = 0, sl_Len = length us, sl_Cap = c\<rparr>"
    and "filled prj vw us h k h1"
  shows "\<exists>h2. bind_go (slice_get prj src k) (\<lambda>x. bind_go (into x) (\<lambda>y. slice_set emb prj out k y)) h1
      = (Ok (), h2) \<and> filled prj vw us h (Suc k) h2"
proof -
  note loc = deep_copier.local [OF assms(1)]
  define x where "x = window src xs ! k"
  have len: "length us = length (window src xs)" and vx: "vw h x = Some (us ! k)"
    using src(2,3) by (auto simp: those_Some_iff x_def list_eq_iff_nth_eq dest: map_eq_imp_length_eq)
  obtain ys where h1: "prefix h h1" and ys: "peek prj h1 (length h) = Some ys" "length ys = length us"
      "\<forall>i<k. fresh_from (Suc (length h)) vw (us ! i) h1 (ys ! i)"
    using assms(7) by (auto simp: filled_def)
  obtain y h2 where y: "into x h1 = (Ok y, h2)" "prefix h1 h2" "fresh_from (length h1) vw (us ! k) h2 y"
    using deep_copier.copies_later [OF assms(1), of h x h1] vx h1 by (auto simp: runs_def)
  have o1: "length h < length h1" and o2: "length h < length h2"
    using peek_Some_less [OF ys(1)] prefix_length_le [OF y(2)] by auto
  define h3 where "h3 = h2[length h := emb (ys[k := y])]"
  have ag: "agree_from (Suc (length h)) h2 h3"
    unfolding h3_def by (rule agree_from_update) simp
  have "fresh_from (Suc (length h)) vw (us ! k) h3 y"
    using fresh_from_agree [OF fresh_from_mono [OF y(3)] loc ag] o1 by simp
  moreover have "fresh_from (Suc (length h)) vw (us ! i) h3 (ys ! i)" if "i < k" for i
    using that ys(3) fresh_from_agree [OF _ loc prefix_agree_trans [OF y(2) ag]] by blast
  ultimately have "filled prj vw us h (Suc k) h3"
    unfolding filled_def
    using o2 h1 y(2) ys(2) src(2) len prefix_update [of h h2] prefix_order.trans
    by (auto simp: h3_def memory_simps less_Suc_eq nth_list_update intro!: prefix_update)
  moreover have "peek prj h1 (sl_Array src) = Some xs"
    by (rule prefix_peek [OF h1 src(1)])
  moreover have "slice_set emb prj out k y h2 = (Ok (), h3)"
    using prefix_peek [OF y(2) ys(1)] o2 src(2) len ys(2)
    by (simp add: slice_set_def out go_simps memory_simps h3_def)
  ultimately show ?thesis
    using y(1) src(2) by (auto simp: slice_get_def go_simps memory_simps x_def)
qed

lemma fill_loop:
  assumes "deep_copier into vw" and "\<And>xs. prj (emb xs) = Some xs"
    and "peek prj h (sl_Array src) = Some xs" and "n = length (window src xs)"
    and "those (map (vw h) (window src xs)) = Some us"
    and "out = \<lparr>sl_Array = length h, sl_Off = 0, sl_Len = length us, sl_Cap = c\<rparr>"
    and "filled prj vw us h k h1" and "k \<le> n"
  shows "\<exists>h2. loop [k..<n] (\<lambda>i _. bind_go (slice_get prj src i)
      (\<lambda>x. bind_go (into x) (\<lambda>y. slice_set emb prj out i y))) () h1 = (Ok (), h2) \<and>
      filled prj vw us h n h2"
  using assms(8,7)
proof (induction "n - k" arbitrary: k h1)
  case 0
  then show ?case by (simp add: ret_run)
next
  case (Suc m)
  then have "k < n" by simp
  then obtain h2 where h2: "bind_go (slice_get prj src k)
      (\<lambda>x. bind_go (into x) (\<lambda>y. slice_set emb prj out k y)) h1 = (Ok (), h2)"
      "filled prj vw us h (Suc k) h2"
    using fill_step [OF assms(1-3) _ assms(5,6) Suc.prems(2)] assms(4) by blast
  then show ?case
    using Suc.hyps(1) [of "Suc k" h2] Suc.hyps(2) \<open>k < n\<close>
    by (auto simp: upt_conv_Cons bind_go_run [of _ "\<lambda>b. loop xs f b" for xs f])
qed

lemma copier_each [copier_intros]:
  assumes "deep_copier into vw" and prj: "\<And>xs. prj (emb xs) = Some xs"
  shows "deep_copier (copy_each emb prj zero into) (slice_view prj vw)"
proof (rule deep_copier.intro)
  show "local_view (slice_view prj vw)"
    by (rule local_slice_view [OF deep_copier.local [OF assms(1)]])
  fix h p
  assume def: "slice_view prj vw h p \<noteq> None"
  show "runs (copy_each emb prj zero into p) h (\<lambda>q h'. fresh_copy h (slice_view prj vw) p h' q)"
  proof (cases p)
    case None
    then show ?thesis
      by (simp add: copy_each_def runs_def ret_run fresh_copy_def fresh_from_def)
  next
    case (Some src)
    then obtain xs us where src: "peek prj h (sl_Array src) = Some xs"
        "slice_ok src xs" "those (map (vw h) (window src xs)) = Some us"
      using def by (auto simp: slice_view_Some_iff)
    have n: "sl_Len src = length (window src xs)" and len: "length us = sl_Len src"
      using src(2,3) by (auto simp: those_Some_iff dest: map_eq_imp_length_eq)
    define out where
      "out = \<lparr>sl_Array = length h, sl_Off = 0, sl_Len = length us, sl_Cap = length us\<rparr>"
    define h1 where "h1 = h @ [emb (replicate (sl_Len src) zero)]"
    have "filled prj vw us h 0 h1"
      by (simp add: filled_def h1_def memory_simps prj len)
    then obtain h2 where h2: "loop [0..<sl_Len src] (\<lambda>i _. bind_go (slice_get prj src i)
        (\<lambda>x. bind_go (into x) (\<lambda>y. slice_set emb prj out i y))) () h1 = (Ok (), h2)"
        "filled prj vw us h (sl_Len src) h2"
      using fill_loop [OF assms src(1) n src(3) out_def] by blast
    obtain ys where ys: "peek prj h2 (length h) = Some ys" "length ys = length us"
        "\<forall>i < sl_Len src. fresh_from (length h) vw (us ! i) h2 (ys ! i)"
      using h2(2) fresh_from_mono [of "Suc (length h)" vw _ h2 _ "length h"] by (auto simp: filled_def)
    have "fresh_from (length h) (slice_view prj vw) (GSlice (sl_Array src) us) h2 (Some out)"
      by (rule slice_view_freshI [where ys = ys]) (use ys len in \<open>simp_all add: out_def\<close>)
    moreover have "copy_each emb prj zero into p h = (Ok (Some out), h2)"
      using h2(1) by (simp add: Some copy_each_def make_slice_def go_simps memory_simps h1_def out_def len)
    ultimately show ?thesis
      using src h2(2) by (auto simp: runs_def fresh_copy_def slice_view_Some_iff Some filled_def)
  qed
qed

lemma copier_slice [copier_intros]:
  assumes prj: "\<And>xs. prj (emb xs) = Some xs"
  shows "deep_copier (copy_slice emb prj zero) (slice_view prj (flat_view g))"
proof (rule deep_copier.intro)
  show "local_view (slice_view prj (flat_view g))"
    by (intro view_intros)
  fix h p
  assume def: "slice_view prj (flat_view g) h p \<noteq> None"
  show "runs (copy_slice emb prj zero p) h (\<lambda>q h'. fresh_copy h (slice_view prj (flat_view g)) p h' q)"
  proof (cases p)
    case None
    then show ?thesis
      by (simp add: copy_slice_def runs_def ret_run fresh_copy_def fresh_from_def)
  next
    case (Some src)
    then obtain xs us where src: "peek prj h (sl_Array src) = Some xs"
        "slice_ok src xs" "those (map (flat_view g h) (window src xs)) = Some us"
      using def by (auto simp: slice_view_Some_iff)
    have n: "length (window src xs) = sl_Len src" and len: "length us = sl_Len src"
      using src(2,3) by (auto simp: those_Some_iff dest: map_eq_imp_length_eq)
    have us: "us ! i = g (window src xs ! i) \<and> addresses (g (window src xs ! i)) = {}"
      if "i < sl_Len src" for i
    proof -
      have "flat_view g h (window src xs ! i) = Some (us ! i)"
        using src(3) that n by (auto simp: those_Some_iff list_eq_iff_nth_eq)
      then show ?thesis by (auto simp: flat_view_def split: if_splits)
    qed
    define out where
      "out = \<lparr>sl_Array = length h, sl_Off = 0, sl_Len = sl_Len src, sl_Cap = sl_Len src\<rparr>"
    define h2 where "h2 = h @ [emb (window src xs)]"
    have "fresh_from (length h) (slice_view prj (flat_view g)) (GSlice (sl_Array src) us) h2 (Some out)"
      using us by (intro slice_view_freshI [where ys = "window src xs"])
        (simp_all add: out_def h2_def memory_simps prj n len fresh_from_def flat_view_def)
    moreover have "copy_slice emb prj zero p h = (Ok (Some out), h2)"
      using src(1) peek_Some_less [OF src(1)]
      by (simp add: Some copy_slice_def make_slice_def slice_copy_def go_simps memory_simps prj n
          out_def h2_def)
    ultimately show ?thesis
      using src by (auto simp: runs_def fresh_copy_def slice_view_Some_iff Some h2_def)
  qed
qed

text \<open>
  Maps: the loop visits every key once, in some order, and puts a copy of its value under it.
  \<open>entered\<close> describes the memory once the keys \<open>K\<close> are there.
\<close>

definition entered :: "('c \<Rightarrow> (string \<times> 'v) list option) \<Rightarrow> ('c, 'v) view \<Rightarrow> (string \<times> 'v) list \<Rightarrow>
    'c mem \<Rightarrow> string set \<Rightarrow> 'c mem \<Rightarrow> bool" where
  "entered prj vw m h K h' \<longleftrightarrow> prefix h h' \<and> (\<exists>m'. peek prj h' (length h) = Some m' \<and>
     distinct (map fst m') \<and> fst ` set m' = K \<and> (\<forall>k v'. map_of m' k = Some v' \<longrightarrow>
       (\<exists>v t. map_of m k = Some v \<and> vw h v = Some t \<and> fresh_from (Suc (length h)) vw t h' v')))"

lemma enter_step:
  assumes "deep_copier into vw" and [simp]: "\<And>m. prj (emb m) = Some m"
    and kv: "map_of m k = Some v" "vw h v \<noteq> None"
    and "entered prj vw m h K h1"
  shows "\<exists>h2. bind_go (into v) (\<lambda>v'. map_set emb prj (length h) k v') h1 = (Ok (), h2) \<and>
      entered prj vw m h (insert k K) h2"
proof -
  note loc = deep_copier.local [OF assms(1)]
  obtain m' where h1: "prefix h h1" and m': "peek prj h1 (length h) = Some m'" "distinct (map fst m')"
      "fst ` set m' = K" and fr: "\<And>k v'. map_of m' k = Some v' \<Longrightarrow>
       (\<exists>v t. map_of m k = Some v \<and> vw h v = Some t \<and> fresh_from (Suc (length h)) vw t h1 v')"
    using assms(5) by (auto simp: entered_def)
  obtain t y h2 where y: "vw h v = Some t" "into v h1 = (Ok y, h2)" "prefix h1 h2"
      "fresh_from (length h1) vw t h2 y"
    using deep_copier.copies_later [OF assms(1) kv(2) h1] by (auto simp: runs_def)
  have o1: "length h < length h1" and o2: "length h < length h2"
    using peek_Some_less [OF m'(1)] prefix_length_le [OF y(3)] by auto
  define h3 where "h3 = h2[length h := emb (mput m' k y)]"
  have ag: "agree_from (Suc (length h)) h2 h3"
    unfolding h3_def by (rule agree_from_update) simp
  have "fresh_from (Suc (length h)) vw t h3 y"
    using fresh_from_agree [OF fresh_from_mono [OF y(4)] loc ag] o1 by simp
  moreover have "\<exists>v t. map_of m k' = Some v \<and> vw h v = Some t \<and> fresh_from (Suc (length h)) vw t h3 v'"
    if "map_of m' k' = Some v'" for k' v'
    using fr [OF that] fresh_from_agree [OF _ loc prefix_agree_trans [OF y(3) ag]] by blast
  moreover have "prefix h h3"
    using prefix_update [OF prefix_order.trans [OF h1 y(3)]] by (simp add: h3_def)
  moreover have "peek prj h3 (length h) = Some (mput m' k y)"
    using o2 by (simp add: h3_def memory_simps)
  ultimately have "entered prj vw m h (insert k K) h3"
    unfolding entered_def using kv(1) y(1) m'(2,3) by (auto simp: distinct_mput)
  moreover have "map_set emb prj (length h) k y h2 = (Ok (), h3)"
    using prefix_peek [OF y(3) m'(1)] o2 by (simp add: map_set_def go_simps memory_simps h3_def)
  ultimately show ?thesis
    using y(2) by (auto simp: go_simps)
qed

lemma enter_loop:
  assumes "deep_copier into vw" and "\<And>m. prj (emb m) = Some m"
    and "\<forall>kv\<in>set kvs. map_of m (fst kv) = Some (snd kv) \<and> vw h (snd kv) \<noteq> None"
    and "entered prj vw m h K h1"
  shows "\<exists>h2. loop kvs (\<lambda>kv _. bind_go (into (snd kv)) (\<lambda>v. map_set emb prj (length h) (fst kv) v)) () h1
      = (Ok (), h2) \<and> entered prj vw m h (fst ` set kvs \<union> K) h2"
  using assms(3,4)
proof (induction kvs arbitrary: K h1)
  case (Cons kv kvs)
  obtain h2 where h2: "bind_go (into (snd kv)) (\<lambda>v'. map_set emb prj (length h) (fst kv) v') h1 = (Ok (), h2)"
      "entered prj vw m h (insert (fst kv) K) h2"
    using enter_step [OF assms(1,2) _ _ Cons.prems(2)] Cons.prems(1) by fastforce
  then show ?case
    using Cons.IH [of "insert (fst kv) K" h2] Cons.prems(1)
    by (auto simp: bind_go_run [of _ "\<lambda>b. loop xs f b" for xs f])
qed (simp add: ret_run)

lemma map_view_freshI:
  assumes "peek prj h' b = Some m'" and "distinct (map fst m')" and "fst ` set m' = fst ` set m"
    and "n \<le> b"
    and "\<And>k v'. map_of m' k = Some v' \<Longrightarrow>
       \<exists>v t. map_of m k = Some v \<and> vw h v = Some t \<and> fresh_from n vw t h' v'"
  shows "fresh_from n (map_view prj vw) (GMap a (\<lambda>k. Option.bind (map_of m k) (vw h))) h' (Some b)"
proof -
  define f where "f k = Option.bind (map_of m' k) (vw h')" for k
  have fk: "\<exists>u t. f k = Some u \<and> Option.bind (map_of m k) (vw h) = Some t \<and> forget u = forget t
      \<and> addresses u \<subseteq> {n..<length h'}" if "map_of m' k = Some v'" for k v'
    using assms(5) [OF that] that by (auto simp: f_def fresh_from_def)
  have none: "map_of m k = None" if "map_of m' k = None" for k
    using that assms(3) by (simp add: map_of_eq_None_iff)
  have "map_option forget (f k) = map_option forget (Option.bind (map_of m k) (vw h))" for k
  proof (cases "map_of m' k")
    case None
    then show ?thesis using none by (simp add: f_def)
  next
    case (Some v')
    then show ?thesis using fk by fastforce
  qed
  then have "forget (GMap b f) = forget (GMap a (\<lambda>k. Option.bind (map_of m k) (vw h)))"
    by simp
  moreover have "addresses (GMap b f) \<subseteq> {n..<length h'}"
    using fk peek_Some_less [OF assms(1)] assms(4)
    by (fastforce simp: addresses_GMap f_def bind_eq_Some_conv)
  moreover have "map_view prj vw h' (Some b) = Some (GMap b f)"
    unfolding map_view_Some_iff f_def [abs_def]
  proof (intro exI [of _ m'] conjI ballI)
    fix kv
    assume "kv \<in> set m'"
    then have "map_of m' (fst kv) = Some (snd kv)"
      using assms(2) by simp
    then show "vw h' (snd kv) \<noteq> None"
      using fk [of "fst kv" "snd kv"] by (auto simp: f_def)
  qed (use assms in simp_all)
  ultimately show ?thesis
    unfolding fresh_from_def by blast
qed

lemma copier_map [copier_intros]:
  assumes "deep_copier into vw" and prj: "\<And>m. prj (emb m) = Some m"
  shows "deep_copier (copy_map order emb prj into) (map_view prj vw)"
proof (rule deep_copier.intro)
  show "local_view (map_view prj vw)"
    by (rule local_map_view [OF deep_copier.local [OF assms(1)]])
  fix h p
  assume def: "map_view prj vw h p \<noteq> None"
  show "runs (copy_map order emb prj into p) h (\<lambda>q h'. fresh_copy h (map_view prj vw) p h' q)"
  proof (cases p)
    case None
    then show ?thesis
      by (simp add: copy_map_def runs_def ret_run fresh_copy_def fresh_from_def)
  next
    case (Some a)
    then obtain m where m: "peek prj h a = Some m" "distinct (map fst m)"
        "\<forall>kv\<in>set m. vw h (snd kv) \<noteq> None"
      using def by (auto simp: map_view_Some_iff)
    have init: "entered prj vw m h {} (h @ [emb []])"
      by (simp add: entered_def memory_simps prj)
    have entries: "\<forall>kv\<in>set (range_map order m). map_of m (fst kv) = Some (snd kv) \<and> vw h (snd kv) \<noteq> None"
      using m(2,3) by (simp add: set_range_map)
    obtain h2 where h2: "loop (range_map order m)
        (\<lambda>kv _. bind_go (into (snd kv)) (\<lambda>v. map_set emb prj (length h) (fst kv) v)) () (h @ [emb []])
        = (Ok (), h2)" "entered prj vw m h (fst ` set m) h2"
      using enter_loop [OF assms entries init] m(2) by (auto simp: set_range_map)
    have "fresh_from (length h) (map_view prj vw) (GMap a (\<lambda>k. Option.bind (map_of m k) (vw h)))
        h2 (Some (length h))"
    proof -
      obtain m' where m': "peek prj h2 (length h) = Some m'" "distinct (map fst m')"
          "fst ` set m' = fst ` set m" "\<forall>k v'. map_of m' k = Some v' \<longrightarrow>
           (\<exists>v t. map_of m k = Some v \<and> vw h v = Some t \<and> fresh_from (Suc (length h)) vw t h2 v')"
        using h2(2) by (auto simp: entered_def)
      have "\<exists>v t. map_of m k = Some v \<and> vw h v = Some t \<and> fresh_from (length h) vw t h2 v'"
        if "map_of m' k = Some v'" for k v'
        using m'(4) that fresh_from_mono [of "Suc (length h)" vw _ h2 v' "length h"] by fastforce
      then show ?thesis
        by (rule map_view_freshI [OF m'(1-3) order_refl])
    qed
    moreover have "copy_map order emb prj into p h = (Ok (Some (length h)), h2)"
      using h2(1) m(1) peek_Some_less [OF m(1)]
      by (simp add: Some copy_map_def make_map_def go_simps memory_simps)
    ultimately show ?thesis
      using m h2(2) by (auto simp: runs_def fresh_copy_def map_view_Some_iff Some entered_def)
  qed
qed

section \<open>Structs\<close>

text \<open>
  A struct is copied part by part.  \<open>copying h0 P h\<close>: the code has come from the memory \<open>h0\<close> to \<open>h\<close>
  without changing anything of \<open>h0\<close>, and has established \<open>P\<close>, which further allocation keeps.  The
  rules \<open>copy_steps\<close> take the next statement of a \<open>DeepCopyInto\<close>, \<open>copying_done\<close> its end.
\<close>

definition copying :: "'c mem \<Rightarrow> ('c mem \<Rightarrow> bool) \<Rightarrow> 'c mem \<Rightarrow> bool" where
  "copying h0 P h \<longleftrightarrow> prefix h0 h \<and> P h \<and> (\<forall>h1 h2. P h1 \<longrightarrow> prefix h1 h2 \<longrightarrow> P h2)"

lemma copier_struct:
  assumes "\<forall>vw\<in>set vs. local_view vw"
    and "\<And>h x. \<forall>vw\<in>set vs. vw h x \<noteq> None \<Longrightarrow> copying h (\<lambda>_. True) h \<Longrightarrow>
      runs (into x) h (\<lambda>y h'. prefix h h' \<and> (\<forall>vw\<in>set vs. fresh_copy h vw x h' y))"
  shows "deep_copier into (struct_view vs)"
proof (rule deep_copier.intro)
  show "local_view (struct_view vs)"
    by (rule local_struct_view [OF assms(1)])
  fix h x
  assume "struct_view vs h x \<noteq> None"
  then show "runs (into x) h (\<lambda>y h'. fresh_copy h (struct_view vs) x h' y)"
    using assms(2) [of h x] fresh_copy_struct [of vs h x]
    unfolding struct_view_defined runs_def copying_def by blast
qed

lemma copying_step:
  assumes "copying h0 P h" and "vw h0 x \<noteq> None" and "deep_copier into vw"
    and "\<And>y h'. copying h0 (\<lambda>h. P h \<and> fresh_copy h0 vw x h y) h' \<Longrightarrow> runs (k y) h' Q"
  shows "runs (bind_go (into x) k) h Q"
proof (rule deep_copier.copy_then [OF assms(3,2)])
  fix y h'
  assume h': "prefix h h'" "prefix h0 h'" "fresh_copy h0 vw x h' y"
  note fresh_copy_prefix [OF _ deep_copier.local [OF assms(3)]]
  then have "copying h0 (\<lambda>h. P h \<and> fresh_copy h0 vw x h y) h'"
    using h' assms(1) unfolding copying_def by blast
  then show "runs (k y) h' Q" by (rule assms(4))
qed (use assms(1) in \<open>simp add: copying_def\<close>)

lemma copying_done:
  assumes "copying h0 P h" and "P h \<Longrightarrow> prefix h0 h \<Longrightarrow> Q y h"
  shows "runs (ret y) h Q"
  using assms by (auto simp: runs_def ret_run copying_def)

named_theorems copy_steps \<open>the statements of a copying function\<close>

lemmas [copy_steps] =
  copying_step [where into = "copy_slice emb prj zero" and vw = "slice_view prj (flat_view g)"
    for emb prj zero g, OF _ _ copier_slice]
  copying_step [where into = "copy_each emb prj zero into" and vw = "slice_view prj vw"
    for emb prj zero into vw, OF _ _ copier_each]
  copying_step [where into = "copy_ptr emb prj zero into" and vw = "ptr_view prj vw"
    for emb prj zero into vw, OF _ _ copier_ptr]
  copying_step [where into = "copy_map order emb prj into" and vw = "map_view prj vw"
    for order emb prj into vw, OF _ _ copier_map]
  copying_done

lemma field_view_defined [simp]: "field_view vw get h x = None \<longleftrightarrow> vw h (get x) = None"
  by (simp add: field_view_def)

end
