(* ===== verification/API_Memory.thy ===== *)
theory API_Memory
  imports Go_Memory KMM_Types
begin

text \<open>
  The API types of \<open>api/v1beta1\<close> and \<open>api-hub/v1beta1\<close> as they lie in memory: a pointer is the
  address of an object or \<open>nil\<close>, a slice a window of an array, a map the address of its entries.
  A struct with references has a layout record here (suffix \<open>_L\<close>); one without is the record of
  \<open>KMM_Types\<close>.  The types of the Kubernetes libraries that the API embeds are not known here: their
  values are of the type \<open>'x\<close>, and what they refer to is up to those libraries.
\<close>

section \<open>Layouts\<close>

record Build_L =
  bl_BuildArgs :: "slice option"
  bl_DockerfileConfigMap :: "addr option"
  bl_BaseImageRegistryTLS :: TLSOptions
  bl_Secrets :: "slice option"
  bl_KanikoParams :: "addr option"

record Sign_L =
  sgl_UnsignedImage :: string
  sgl_UnsignedImageRegistryTLS :: TLSOptions
  sgl_KeySecret :: "addr option"
  sgl_CertSecret :: "addr option"
  sgl_FilesToSign :: "slice option"

record KernelMapping_L =
  kml_Build :: "addr option"
  kml_Sign :: "addr option"
  kml_ContainerImage :: string
  kml_Literal :: string
  kml_RegistryTLS :: "addr option"
  kml_Regexp :: string

record ModprobeArgs_L =
  mal_Load :: "slice option"
  mal_Unload :: "slice option"

record ModprobeSpec_L =
  mpl_ModuleName :: string
  mpl_Parameters :: "slice option"
  mpl_DirName :: string
  mpl_Args :: "addr option"
  mpl_RawArgs :: "addr option"
  mpl_FirmwarePath :: string

record ModuleLoaderContainerSpec_L =
  mlcl_Build :: "addr option"
  mlcl_Sign :: "addr option"
  mlcl_ContainerImage :: string
  mlcl_ImagePullPolicy :: string
  mlcl_KernelMappings :: "slice option"
  mlcl_Modprobe :: ModprobeSpec_L
  mlcl_RegistryTLS :: TLSOptions

record ModuleLoaderSpec_L =
  mll_Container :: ModuleLoaderContainerSpec_L
  mll_ServiceAccountName :: string

record 'x DevicePluginContainerSpec_L =
  dpcl_Command :: "slice option"
  dpcl_Args :: "slice option"
  dpcl_Env :: "slice option"
  dpcl_Image :: string
  dpcl_ImagePullPolicy :: string
  dpcl_Resources :: 'x
  dpcl_VolumeMounts :: "slice option"

record 'x DevicePluginSpec_L =
  dpl_Container :: "'x DevicePluginContainerSpec_L"
  dpl_ServiceAccountName :: string
  dpl_Volumes :: "slice option"

record ModuleSpec_L =
  msl_DevicePlugin :: "addr option"
  msl_ModuleLoader :: ModuleLoaderSpec_L
  msl_ImageRepoSecret :: "addr option"
  msl_Selector :: "addr option"

record TypeMeta =
  tm_Kind :: string
  tm_APIVersion :: string

record 'x Module_L =
  modl_TypeMeta :: TypeMeta
  modl_ObjectMeta :: 'x
  modl_Spec :: ModuleSpec_L
  modl_Status :: ModuleStatus

record 'x ModuleList_L =
  modlist_TypeMeta :: TypeMeta
  modlist_ListMeta :: 'x
  modlist_Items :: "slice option"

record 'x CRStatus_L =
  crl_VerificationStatus :: string
  crl_StatusReason :: string
  crl_VerificationStage :: string
  crl_LastTransitionTime :: 'x

record PreflightValidationStatus_L =
  pvstl_CRStatuses :: "addr option"

record 'x PreflightValidation_L =
  pvl_TypeMeta :: TypeMeta
  pvl_ObjectMeta :: 'x
  pvl_Spec :: PreflightValidationSpec
  pvl_Status :: PreflightValidationStatus_L

record 'x PreflightValidationList_L =
  pvlist_TypeMeta :: TypeMeta
  pvlist_ListMeta :: 'x
  pvlist_Items :: "slice option"

record ManagedClusterModuleSpec_L =
  mcmsl_ModuleSpec :: ModuleSpec_L
  mcmsl_SpokeNamespace :: string
  mcmsl_Selector :: "addr option"

record 'x ManagedClusterModule_L =
  mcml_TypeMeta :: TypeMeta
  mcml_ObjectMeta :: 'x
  mcml_Spec :: ManagedClusterModuleSpec_L
  mcml_Status :: ManagedClusterModuleStatus

record 'x ManagedClusterModuleList_L =
  mcmlist_TypeMeta :: TypeMeta
  mcmlist_ListMeta :: 'x
  mcmlist_Items :: "slice option"

section \<open>Objects\<close>

text \<open>
  What can stand at an address: a struct that a pointer refers to, the array of a slice, the entries
  of a map, or an object of the Kubernetes libraries.
\<close>

datatype 'x cell =
    CBuildArg BuildArg
  | CLocalObjectReference LocalObjectReference
  | CKanikoParams KanikoParams
  | CTLSOptions TLSOptions
  | CBuild Build_L
  | CSign Sign_L
  | CKernelMapping KernelMapping_L
  | CModprobeArgs ModprobeArgs_L
  | CModprobeSpec ModprobeSpec_L
  | CModuleLoaderContainerSpec ModuleLoaderContainerSpec_L
  | CModuleLoaderSpec ModuleLoaderSpec_L
  | CDevicePluginContainerSpec "'x DevicePluginContainerSpec_L"
  | CDevicePluginSpec "'x DevicePluginSpec_L"
  | CModuleSpec ModuleSpec_L
  | CDaemonSetStatus DaemonSetStatus
  | CModuleStatus ModuleStatus
  | CModule "'x Module_L"
  | CModuleList "'x ModuleList_L"
  | CCRStatus "'x CRStatus_L"
  | CPreflightValidationSpec PreflightValidationSpec
  | CPreflightValidationStatus PreflightValidationStatus_L
  | CPreflightValidation "'x PreflightValidation_L"
  | CPreflightValidationList "'x PreflightValidationList_L"
  | CManagedClusterModuleSpec ManagedClusterModuleSpec_L
  | CManagedClusterModuleStatus ManagedClusterModuleStatus
  | CManagedClusterModule "'x ManagedClusterModule_L"
  | CManagedClusterModuleList "'x ManagedClusterModuleList_L"
  | CStrings "string list"
  | CBuildArgs "BuildArg list"
  | CLocalObjectReferences "LocalObjectReference list"
  | CKernelMappings "KernelMapping_L list"
  | CForeigns "'x list"
  | CModules "'x Module_L list"
  | CPreflightValidations "'x PreflightValidation_L list"
  | CManagedClusterModules "'x ManagedClusterModule_L list"
  | CStringMap "(string \<times> string) list"
  | CCRStatusMap "(string \<times> addr option) list"
  | CForeign "'x"

text \<open>Reading an object at its type.\<close>

definition un_BuildArg :: "'x cell \<Rightarrow> BuildArg option" where
  "un_BuildArg c = (case c of CBuildArg x \<Rightarrow> Some x | _ \<Rightarrow> None)"

definition un_LocalObjectReference :: "'x cell \<Rightarrow> LocalObjectReference option" where
  "un_LocalObjectReference c = (case c of CLocalObjectReference x \<Rightarrow> Some x | _ \<Rightarrow> None)"

definition un_KanikoParams :: "'x cell \<Rightarrow> KanikoParams option" where
  "un_KanikoParams c = (case c of CKanikoParams x \<Rightarrow> Some x | _ \<Rightarrow> None)"

definition un_TLSOptions :: "'x cell \<Rightarrow> TLSOptions option" where
  "un_TLSOptions c = (case c of CTLSOptions x \<Rightarrow> Some x | _ \<Rightarrow> None)"

definition un_Build :: "'x cell \<Rightarrow> Build_L option" where
  "un_Build c = (case c of CBuild x \<Rightarrow> Some x | _ \<Rightarrow> None)"

definition un_Sign :: "'x cell \<Rightarrow> Sign_L option" where
  "un_Sign c = (case c of CSign x \<Rightarrow> Some x | _ \<Rightarrow> None)"

definition un_KernelMapping :: "'x cell \<Rightarrow> KernelMapping_L option" where
  "un_KernelMapping c = (case c of CKernelMapping x \<Rightarrow> Some x | _ \<Rightarrow> None)"

definition un_ModprobeArgs :: "'x cell \<Rightarrow> ModprobeArgs_L option" where
  "un_ModprobeArgs c = (case c of CModprobeArgs x \<Rightarrow> Some x | _ \<Rightarrow> None)"

definition un_ModprobeSpec :: "'x cell \<Rightarrow> ModprobeSpec_L option" where
  "un_ModprobeSpec c = (case c of CModprobeSpec x \<Rightarrow> Some x | _ \<Rightarrow> None)"

definition un_ModuleLoaderContainerSpec :: "'x cell \<Rightarrow> ModuleLoaderContainerSpec_L option" where
  "un_ModuleLoaderContainerSpec c = (case c of CModuleLoaderContainerSpec x \<Rightarrow> Some x | _ \<Rightarrow> None)"

definition un_ModuleLoaderSpec :: "'x cell \<Rightarrow> ModuleLoaderSpec_L option" where
  "un_ModuleLoaderSpec c = (case c of CModuleLoaderSpec x \<Rightarrow> Some x | _ \<Rightarrow> None)"

definition un_DevicePluginContainerSpec :: "'x cell \<Rightarrow> ('x DevicePluginContainerSpec_L) option" where
  "un_DevicePluginContainerSpec c = (case c of CDevicePluginContainerSpec x \<Rightarrow> Some x | _ \<Rightarrow> None)"

definition un_DevicePluginSpec :: "'x cell \<Rightarrow> ('x DevicePluginSpec_L) option" where
  "un_DevicePluginSpec c = (case c of CDevicePluginSpec x \<Rightarrow> Some x | _ \<Rightarrow> None)"

definition un_ModuleSpec :: "'x cell \<Rightarrow> ModuleSpec_L option" where
  "un_ModuleSpec c = (case c of CModuleSpec x \<Rightarrow> Some x | _ \<Rightarrow> None)"

definition un_DaemonSetStatus :: "'x cell \<Rightarrow> DaemonSetStatus option" where
  "un_DaemonSetStatus c = (case c of CDaemonSetStatus x \<Rightarrow> Some x | _ \<Rightarrow> None)"

definition un_ModuleStatus :: "'x cell \<Rightarrow> ModuleStatus option" where
  "un_ModuleStatus c = (case c of CModuleStatus x \<Rightarrow> Some x | _ \<Rightarrow> None)"

definition un_Module :: "'x cell \<Rightarrow> ('x Module_L) option" where
  "un_Module c = (case c of CModule x \<Rightarrow> Some x | _ \<Rightarrow> None)"

definition un_ModuleList :: "'x cell \<Rightarrow> ('x ModuleList_L) option" where
  "un_ModuleList c = (case c of CModuleList x \<Rightarrow> Some x | _ \<Rightarrow> None)"

definition un_CRStatus :: "'x cell \<Rightarrow> ('x CRStatus_L) option" where
  "un_CRStatus c = (case c of CCRStatus x \<Rightarrow> Some x | _ \<Rightarrow> None)"

definition un_PreflightValidationSpec :: "'x cell \<Rightarrow> PreflightValidationSpec option" where
  "un_PreflightValidationSpec c = (case c of CPreflightValidationSpec x \<Rightarrow> Some x | _ \<Rightarrow> None)"

definition un_PreflightValidationStatus :: "'x cell \<Rightarrow> PreflightValidationStatus_L option" where
  "un_PreflightValidationStatus c = (case c of CPreflightValidationStatus x \<Rightarrow> Some x | _ \<Rightarrow> None)"

definition un_PreflightValidation :: "'x cell \<Rightarrow> ('x PreflightValidation_L) option" where
  "un_PreflightValidation c = (case c of CPreflightValidation x \<Rightarrow> Some x | _ \<Rightarrow> None)"

definition un_PreflightValidationList :: "'x cell \<Rightarrow> ('x PreflightValidationList_L) option" where
  "un_PreflightValidationList c = (case c of CPreflightValidationList x \<Rightarrow> Some x | _ \<Rightarrow> None)"

definition un_ManagedClusterModuleSpec :: "'x cell \<Rightarrow> ManagedClusterModuleSpec_L option" where
  "un_ManagedClusterModuleSpec c = (case c of CManagedClusterModuleSpec x \<Rightarrow> Some x | _ \<Rightarrow> None)"

definition un_ManagedClusterModuleStatus :: "'x cell \<Rightarrow> ManagedClusterModuleStatus option" where
  "un_ManagedClusterModuleStatus c = (case c of CManagedClusterModuleStatus x \<Rightarrow> Some x | _ \<Rightarrow> None)"

definition un_ManagedClusterModule :: "'x cell \<Rightarrow> ('x ManagedClusterModule_L) option" where
  "un_ManagedClusterModule c = (case c of CManagedClusterModule x \<Rightarrow> Some x | _ \<Rightarrow> None)"

definition un_ManagedClusterModuleList :: "'x cell \<Rightarrow> ('x ManagedClusterModuleList_L) option" where
  "un_ManagedClusterModuleList c = (case c of CManagedClusterModuleList x \<Rightarrow> Some x | _ \<Rightarrow> None)"

definition un_Strings :: "'x cell \<Rightarrow> (string list) option" where
  "un_Strings c = (case c of CStrings x \<Rightarrow> Some x | _ \<Rightarrow> None)"

definition un_BuildArgs :: "'x cell \<Rightarrow> (BuildArg list) option" where
  "un_BuildArgs c = (case c of CBuildArgs x \<Rightarrow> Some x | _ \<Rightarrow> None)"

definition un_LocalObjectReferences :: "'x cell \<Rightarrow> (LocalObjectReference list) option" where
  "un_LocalObjectReferences c = (case c of CLocalObjectReferences x \<Rightarrow> Some x | _ \<Rightarrow> None)"

definition un_KernelMappings :: "'x cell \<Rightarrow> (KernelMapping_L list) option" where
  "un_KernelMappings c = (case c of CKernelMappings x \<Rightarrow> Some x | _ \<Rightarrow> None)"

definition un_Foreigns :: "'x cell \<Rightarrow> ('x list) option" where
  "un_Foreigns c = (case c of CForeigns x \<Rightarrow> Some x | _ \<Rightarrow> None)"

definition un_Modules :: "'x cell \<Rightarrow> ('x Module_L list) option" where
  "un_Modules c = (case c of CModules x \<Rightarrow> Some x | _ \<Rightarrow> None)"

definition un_PreflightValidations :: "'x cell \<Rightarrow> ('x PreflightValidation_L list) option" where
  "un_PreflightValidations c = (case c of CPreflightValidations x \<Rightarrow> Some x | _ \<Rightarrow> None)"

definition un_ManagedClusterModules :: "'x cell \<Rightarrow> ('x ManagedClusterModule_L list) option" where
  "un_ManagedClusterModules c = (case c of CManagedClusterModules x \<Rightarrow> Some x | _ \<Rightarrow> None)"

definition un_StringMap :: "'x cell \<Rightarrow> ((string \<times> string) list) option" where
  "un_StringMap c = (case c of CStringMap x \<Rightarrow> Some x | _ \<Rightarrow> None)"

definition un_CRStatusMap :: "'x cell \<Rightarrow> ((string \<times> addr option) list) option" where
  "un_CRStatusMap c = (case c of CCRStatusMap x \<Rightarrow> Some x | _ \<Rightarrow> None)"

lemma un_cell [simp]:
  "un_BuildArg (CBuildArg x0) = Some x0"
  "un_LocalObjectReference (CLocalObjectReference x1) = Some x1"
  "un_KanikoParams (CKanikoParams x2) = Some x2"
  "un_TLSOptions (CTLSOptions x3) = Some x3"
  "un_Build (CBuild x4) = Some x4"
  "un_Sign (CSign x5) = Some x5"
  "un_KernelMapping (CKernelMapping x6) = Some x6"
  "un_ModprobeArgs (CModprobeArgs x7) = Some x7"
  "un_ModprobeSpec (CModprobeSpec x8) = Some x8"
  "un_ModuleLoaderContainerSpec (CModuleLoaderContainerSpec x9) = Some x9"
  "un_ModuleLoaderSpec (CModuleLoaderSpec x10) = Some x10"
  "un_DevicePluginContainerSpec (CDevicePluginContainerSpec x11) = Some x11"
  "un_DevicePluginSpec (CDevicePluginSpec x12) = Some x12"
  "un_ModuleSpec (CModuleSpec x13) = Some x13"
  "un_DaemonSetStatus (CDaemonSetStatus x14) = Some x14"
  "un_ModuleStatus (CModuleStatus x15) = Some x15"
  "un_Module (CModule x16) = Some x16"
  "un_ModuleList (CModuleList x17) = Some x17"
  "un_CRStatus (CCRStatus x18) = Some x18"
  "un_PreflightValidationSpec (CPreflightValidationSpec x19) = Some x19"
  "un_PreflightValidationStatus (CPreflightValidationStatus x20) = Some x20"
  "un_PreflightValidation (CPreflightValidation x21) = Some x21"
  "un_PreflightValidationList (CPreflightValidationList x22) = Some x22"
  "un_ManagedClusterModuleSpec (CManagedClusterModuleSpec x23) = Some x23"
  "un_ManagedClusterModuleStatus (CManagedClusterModuleStatus x24) = Some x24"
  "un_ManagedClusterModule (CManagedClusterModule x25) = Some x25"
  "un_ManagedClusterModuleList (CManagedClusterModuleList x26) = Some x26"
  "un_Strings (CStrings x27) = Some x27"
  "un_BuildArgs (CBuildArgs x28) = Some x28"
  "un_LocalObjectReferences (CLocalObjectReferences x29) = Some x29"
  "un_KernelMappings (CKernelMappings x30) = Some x30"
  "un_Foreigns (CForeigns x31) = Some x31"
  "un_Modules (CModules x32) = Some x32"
  "un_PreflightValidations (CPreflightValidations x33) = Some x33"
  "un_ManagedClusterModules (CManagedClusterModules x34) = Some x34"
  "un_StringMap (CStringMap x35) = Some x35"
  "un_CRStatusMap (CCRStatusMap x36) = Some x36"
  by (simp_all add: un_BuildArg_def un_LocalObjectReference_def un_KanikoParams_def
    un_TLSOptions_def un_Build_def un_Sign_def un_KernelMapping_def un_ModprobeArgs_def
    un_ModprobeSpec_def un_ModuleLoaderContainerSpec_def un_ModuleLoaderSpec_def
    un_DevicePluginContainerSpec_def un_DevicePluginSpec_def un_ModuleSpec_def
    un_DaemonSetStatus_def un_ModuleStatus_def un_Module_def un_ModuleList_def un_CRStatus_def
    un_PreflightValidationSpec_def un_PreflightValidationStatus_def un_PreflightValidation_def
    un_PreflightValidationList_def un_ManagedClusterModuleSpec_def
    un_ManagedClusterModuleStatus_def un_ManagedClusterModule_def un_ManagedClusterModuleList_def
    un_Strings_def un_BuildArgs_def un_LocalObjectReferences_def un_KernelMappings_def
    un_Foreigns_def un_Modules_def un_PreflightValidations_def un_ManagedClusterModules_def
    un_StringMap_def un_CRStatusMap_def)

text \<open>The value \<open>new(T)\<close> and \<open>make([]T, n)\<close> put into memory.\<close>

definition blank_BuildArg :: BuildArg where
  "blank_BuildArg = \<lparr>ba_Name = '''', ba_Value = ''''\<rparr>"

definition blank_LocalObjectReference :: LocalObjectReference where
  "blank_LocalObjectReference = \<lparr>lor_Name = ''''\<rparr>"

definition blank_KanikoParams :: KanikoParams where
  "blank_KanikoParams = \<lparr>kaniko_Tag = ''''\<rparr>"

definition blank_TLSOptions :: TLSOptions where
  "blank_TLSOptions = \<lparr>tls_Insecure = False, tls_InsecureSkipTLSVerify = False\<rparr>"

definition blank_Build :: Build_L where
  "blank_Build = \<lparr>bl_BuildArgs = None, bl_DockerfileConfigMap = None,
     bl_BaseImageRegistryTLS = blank_TLSOptions, bl_Secrets = None, bl_KanikoParams = None\<rparr>"

definition blank_Sign :: Sign_L where
  "blank_Sign = \<lparr>sgl_UnsignedImage = '''', sgl_UnsignedImageRegistryTLS = blank_TLSOptions,
     sgl_KeySecret = None, sgl_CertSecret = None, sgl_FilesToSign = None\<rparr>"

definition blank_KernelMapping :: KernelMapping_L where
  "blank_KernelMapping = \<lparr>kml_Build = None, kml_Sign = None, kml_ContainerImage = '''',
     kml_Literal = '''', kml_RegistryTLS = None, kml_Regexp = ''''\<rparr>"

definition blank_ModprobeArgs :: ModprobeArgs_L where
  "blank_ModprobeArgs = \<lparr>mal_Load = None, mal_Unload = None\<rparr>"

definition blank_ModprobeSpec :: ModprobeSpec_L where
  "blank_ModprobeSpec = \<lparr>mpl_ModuleName = '''', mpl_Parameters = None, mpl_DirName = '''',
     mpl_Args = None, mpl_RawArgs = None, mpl_FirmwarePath = ''''\<rparr>"

definition blank_ModuleLoaderContainerSpec :: ModuleLoaderContainerSpec_L where
  "blank_ModuleLoaderContainerSpec = \<lparr>mlcl_Build = None, mlcl_Sign = None, mlcl_ContainerImage = '''',
     mlcl_ImagePullPolicy = '''', mlcl_KernelMappings = None, mlcl_Modprobe = blank_ModprobeSpec,
     mlcl_RegistryTLS = blank_TLSOptions\<rparr>"

definition blank_ModuleLoaderSpec :: ModuleLoaderSpec_L where
  "blank_ModuleLoaderSpec =
     \<lparr>mll_Container = blank_ModuleLoaderContainerSpec, mll_ServiceAccountName = ''''\<rparr>"

definition blank_ModuleSpec :: ModuleSpec_L where
  "blank_ModuleSpec = \<lparr>msl_DevicePlugin = None, msl_ModuleLoader = blank_ModuleLoaderSpec,
     msl_ImageRepoSecret = None, msl_Selector = None\<rparr>"

definition blank_DaemonSetStatus :: DaemonSetStatus where
  "blank_DaemonSetStatus = \<lparr>dst_NodesMatchingSelectorNumber = 0, dst_DesiredNumber = 0,
     dst_AvailableNumber = 0\<rparr>"

definition blank_ModuleStatus :: ModuleStatus where
  "blank_ModuleStatus =
     \<lparr>st_DevicePlugin = blank_DaemonSetStatus, st_ModuleLoader = blank_DaemonSetStatus\<rparr>"

definition blank_TypeMeta :: TypeMeta where
  "blank_TypeMeta = \<lparr>tm_Kind = '''', tm_APIVersion = ''''\<rparr>"

definition blank_PreflightValidationSpec :: PreflightValidationSpec where
  "blank_PreflightValidationSpec = \<lparr>pvs_KernelVersion = '''', pvs_PushBuiltImage = False\<rparr>"

definition blank_PreflightValidationStatus :: PreflightValidationStatus_L where
  "blank_PreflightValidationStatus = \<lparr>pvstl_CRStatuses = None\<rparr>"

definition blank_ManagedClusterModuleSpec :: ManagedClusterModuleSpec_L where
  "blank_ManagedClusterModuleSpec = \<lparr>mcmsl_ModuleSpec = blank_ModuleSpec,
     mcmsl_SpokeNamespace = '''', mcmsl_Selector = None\<rparr>"

definition blank_ManagedClusterModuleStatus :: ManagedClusterModuleStatus where
  "blank_ManagedClusterModuleStatus =
     \<lparr>mcmst_NumberDesired = 0, mcmst_NumberApplied = 0, mcmst_NumberDegraded = 0\<rparr>"

section \<open>The Kubernetes libraries\<close>

text \<open>
  A type of \<open>k8s.io\<close> that the API embeds: its zero value, what a value of it denotes, and its
  \<open>DeepCopyInto\<close>.  \<open>k8s\<close> has the types the generated code copies, and the order in which the run
  time ranges over the keys of a map.  \<open>k8s_copies\<close> is what the libraries promise: their
  \<open>DeepCopyInto\<close> functions are deep copies.
\<close>

record 'x foreign =
  f_Zero :: 'x
  f_View :: "('x cell, 'x) view"
  f_DeepCopyInto :: "'x \<Rightarrow> ('x cell mem, 'x) go"

record 'x k8s =
  k_ObjectMeta :: "'x foreign"
  k_ListMeta :: "'x foreign"
  k_EnvVar :: "'x foreign"
  k_ResourceRequirements :: "'x foreign"
  k_VolumeMount :: "'x foreign"
  k_Volume :: "'x foreign"
  k_Time :: "'x foreign"
  k_Range :: "string list \<Rightarrow> string list"

definition copies_deeply :: "'x foreign \<Rightarrow> bool" where
  "copies_deeply f = deep_copier (f_DeepCopyInto f) (f_View f)"

definition k8s_copies :: "'x k8s \<Rightarrow> bool" where
  "k8s_copies K = (copies_deeply (k_ObjectMeta K) \<and> copies_deeply (k_ListMeta K) \<and>
     copies_deeply (k_EnvVar K) \<and> copies_deeply (k_ResourceRequirements K) \<and>
     copies_deeply (k_VolumeMount K) \<and> copies_deeply (k_Volume K) \<and> copies_deeply (k_Time K))"

definition blank_DevicePluginContainerSpec :: "'x k8s \<Rightarrow> 'x DevicePluginContainerSpec_L" where
  "blank_DevicePluginContainerSpec K = \<lparr>dpcl_Command = None, dpcl_Args = None, dpcl_Env = None,
     dpcl_Image = '''', dpcl_ImagePullPolicy = '''', dpcl_Resources = f_Zero (k_ResourceRequirements K),
     dpcl_VolumeMounts = None\<rparr>"

definition blank_DevicePluginSpec :: "'x k8s \<Rightarrow> 'x DevicePluginSpec_L" where
  "blank_DevicePluginSpec K = \<lparr>dpl_Container = blank_DevicePluginContainerSpec K,
     dpl_ServiceAccountName = '''', dpl_Volumes = None\<rparr>"

definition blank_Module :: "'x k8s \<Rightarrow> 'x Module_L" where
  "blank_Module K = \<lparr>modl_TypeMeta = blank_TypeMeta, modl_ObjectMeta = f_Zero (k_ObjectMeta K),
     modl_Spec = blank_ModuleSpec, modl_Status = blank_ModuleStatus\<rparr>"

definition blank_ModuleList :: "'x k8s \<Rightarrow> 'x ModuleList_L" where
  "blank_ModuleList K = \<lparr>modlist_TypeMeta = blank_TypeMeta, modlist_ListMeta = f_Zero (k_ListMeta K),
     modlist_Items = None\<rparr>"

definition blank_CRStatus :: "'x k8s \<Rightarrow> 'x CRStatus_L" where
  "blank_CRStatus K = \<lparr>crl_VerificationStatus = '''', crl_StatusReason = '''',
     crl_VerificationStage = '''', crl_LastTransitionTime = f_Zero (k_Time K)\<rparr>"

definition blank_PreflightValidation :: "'x k8s \<Rightarrow> 'x PreflightValidation_L" where
  "blank_PreflightValidation K = \<lparr>pvl_TypeMeta = blank_TypeMeta,
     pvl_ObjectMeta = f_Zero (k_ObjectMeta K), pvl_Spec = blank_PreflightValidationSpec,
     pvl_Status = blank_PreflightValidationStatus\<rparr>"

definition blank_PreflightValidationList :: "'x k8s \<Rightarrow> 'x PreflightValidationList_L" where
  "blank_PreflightValidationList K = \<lparr>pvlist_TypeMeta = blank_TypeMeta,
     pvlist_ListMeta = f_Zero (k_ListMeta K), pvlist_Items = None\<rparr>"

definition blank_ManagedClusterModule :: "'x k8s \<Rightarrow> 'x ManagedClusterModule_L" where
  "blank_ManagedClusterModule K = \<lparr>mcml_TypeMeta = blank_TypeMeta,
     mcml_ObjectMeta = f_Zero (k_ObjectMeta K), mcml_Spec = blank_ManagedClusterModuleSpec,
     mcml_Status = blank_ManagedClusterModuleStatus\<rparr>"

definition blank_ManagedClusterModuleList :: "'x k8s \<Rightarrow> 'x ManagedClusterModuleList_L" where
  "blank_ManagedClusterModuleList K = \<lparr>mcmlist_TypeMeta = blank_TypeMeta,
     mcmlist_ListMeta = f_Zero (k_ListMeta K), mcmlist_Items = None\<rparr>"

section \<open>What the layouts denote\<close>

definition String_tree :: "string \<Rightarrow> addr gval" where
  "String_tree s = GStr s"

definition BuildArg_tree :: "BuildArg \<Rightarrow> addr gval" where
  "BuildArg_tree x = GStruct [GStr (ba_Name x), GStr (ba_Value x)]"

definition LocalObjectReference_tree :: "LocalObjectReference \<Rightarrow> addr gval" where
  "LocalObjectReference_tree x = GStruct [GStr (lor_Name x)]"

definition KanikoParams_tree :: "KanikoParams \<Rightarrow> addr gval" where
  "KanikoParams_tree x = GStruct [GStr (kaniko_Tag x)]"

definition TLSOptions_tree :: "TLSOptions \<Rightarrow> addr gval" where
  "TLSOptions_tree x = GStruct [GBool (tls_Insecure x), GBool (tls_InsecureSkipTLSVerify x)]"

definition TypeMeta_tree :: "TypeMeta \<Rightarrow> addr gval" where
  "TypeMeta_tree x = GStruct [GStr (tm_Kind x), GStr (tm_APIVersion x)]"

definition DaemonSetStatus_tree :: "DaemonSetStatus \<Rightarrow> addr gval" where
  "DaemonSetStatus_tree x = GStruct [GInt (sint (dst_NodesMatchingSelectorNumber x)),
     GInt (sint (dst_DesiredNumber x)), GInt (sint (dst_AvailableNumber x))]"

definition ModuleStatus_tree :: "ModuleStatus \<Rightarrow> addr gval" where
  "ModuleStatus_tree x =
     GStruct [DaemonSetStatus_tree (st_DevicePlugin x), DaemonSetStatus_tree (st_ModuleLoader x)]"

definition PreflightValidationSpec_tree :: "PreflightValidationSpec \<Rightarrow> addr gval" where
  "PreflightValidationSpec_tree x =
     GStruct [GStr (pvs_KernelVersion x), GBool (pvs_PushBuiltImage x)]"

definition ManagedClusterModuleStatus_tree :: "ManagedClusterModuleStatus \<Rightarrow> addr gval" where
  "ManagedClusterModuleStatus_tree x = GStruct [GInt (sint (mcmst_NumberDesired x)),
     GInt (sint (mcmst_NumberApplied x)), GInt (sint (mcmst_NumberDegraded x))]"

abbreviation strings_view :: "('x cell, slice option) view" where
  "strings_view \<equiv> slice_view un_Strings (flat_view String_tree)"

abbreviation reference_view :: "('x cell, addr option) view" where
  "reference_view \<equiv> ptr_view un_LocalObjectReference (flat_view LocalObjectReference_tree)"

definition Build_view :: "('x cell, Build_L) view" where
  "Build_view = struct_view
    [field_view (slice_view un_BuildArgs (flat_view BuildArg_tree)) bl_BuildArgs,
     field_view reference_view bl_DockerfileConfigMap,
     field_view (flat_view TLSOptions_tree) bl_BaseImageRegistryTLS,
     field_view (slice_view un_LocalObjectReferences (flat_view LocalObjectReference_tree)) bl_Secrets,
     field_view (ptr_view un_KanikoParams (flat_view KanikoParams_tree)) bl_KanikoParams]"

definition Sign_view :: "('x cell, Sign_L) view" where
  "Sign_view = struct_view
    [field_view (flat_view String_tree) sgl_UnsignedImage,
     field_view (flat_view TLSOptions_tree) sgl_UnsignedImageRegistryTLS,
     field_view reference_view sgl_KeySecret,
     field_view reference_view sgl_CertSecret,
     field_view strings_view sgl_FilesToSign]"

definition KernelMapping_view :: "('x cell, KernelMapping_L) view" where
  "KernelMapping_view = struct_view
    [field_view (ptr_view un_Build Build_view) kml_Build,
     field_view (ptr_view un_Sign Sign_view) kml_Sign,
     field_view (flat_view String_tree) kml_ContainerImage,
     field_view (flat_view String_tree) kml_Literal,
     field_view (ptr_view un_TLSOptions (flat_view TLSOptions_tree)) kml_RegistryTLS,
     field_view (flat_view String_tree) kml_Regexp]"

definition ModprobeArgs_view :: "('x cell, ModprobeArgs_L) view" where
  "ModprobeArgs_view = struct_view
    [field_view strings_view mal_Load, field_view strings_view mal_Unload]"

definition ModprobeSpec_view :: "('x cell, ModprobeSpec_L) view" where
  "ModprobeSpec_view = struct_view
    [field_view (flat_view String_tree) mpl_ModuleName,
     field_view strings_view mpl_Parameters,
     field_view (flat_view String_tree) mpl_DirName,
     field_view (ptr_view un_ModprobeArgs ModprobeArgs_view) mpl_Args,
     field_view (ptr_view un_ModprobeArgs ModprobeArgs_view) mpl_RawArgs,
     field_view (flat_view String_tree) mpl_FirmwarePath]"

definition ModuleLoaderContainerSpec_view :: "('x cell, ModuleLoaderContainerSpec_L) view" where
  "ModuleLoaderContainerSpec_view = struct_view
    [field_view (ptr_view un_Build Build_view) mlcl_Build,
     field_view (ptr_view un_Sign Sign_view) mlcl_Sign,
     field_view (flat_view String_tree) mlcl_ContainerImage,
     field_view (flat_view String_tree) mlcl_ImagePullPolicy,
     field_view (slice_view un_KernelMappings KernelMapping_view) mlcl_KernelMappings,
     field_view ModprobeSpec_view mlcl_Modprobe,
     field_view (flat_view TLSOptions_tree) mlcl_RegistryTLS]"

definition ModuleLoaderSpec_view :: "('x cell, ModuleLoaderSpec_L) view" where
  "ModuleLoaderSpec_view = struct_view
    [field_view ModuleLoaderContainerSpec_view mll_Container,
     field_view (flat_view String_tree) mll_ServiceAccountName]"

definition DevicePluginContainerSpec_view ::
    "'x k8s \<Rightarrow> ('x cell, 'x DevicePluginContainerSpec_L) view" where
  "DevicePluginContainerSpec_view K = struct_view
    [field_view strings_view dpcl_Command,
     field_view strings_view dpcl_Args,
     field_view (slice_view un_Foreigns (f_View (k_EnvVar K))) dpcl_Env,
     field_view (flat_view String_tree) dpcl_Image,
     field_view (flat_view String_tree) dpcl_ImagePullPolicy,
     field_view (f_View (k_ResourceRequirements K)) dpcl_Resources,
     field_view (slice_view un_Foreigns (f_View (k_VolumeMount K))) dpcl_VolumeMounts]"

definition DevicePluginSpec_view :: "'x k8s \<Rightarrow> ('x cell, 'x DevicePluginSpec_L) view" where
  "DevicePluginSpec_view K = struct_view
    [field_view (DevicePluginContainerSpec_view K) dpl_Container,
     field_view (flat_view String_tree) dpl_ServiceAccountName,
     field_view (slice_view un_Foreigns (f_View (k_Volume K))) dpl_Volumes]"

abbreviation string_map_view :: "('x cell, addr option) view" where
  "string_map_view \<equiv> map_view un_StringMap (flat_view String_tree)"

definition ModuleSpec_view :: "'x k8s \<Rightarrow> ('x cell, ModuleSpec_L) view" where
  "ModuleSpec_view K = struct_view
    [field_view (ptr_view un_DevicePluginSpec (DevicePluginSpec_view K)) msl_DevicePlugin,
     field_view ModuleLoaderSpec_view msl_ModuleLoader,
     field_view reference_view msl_ImageRepoSecret,
     field_view string_map_view msl_Selector]"

definition Module_view :: "'x k8s \<Rightarrow> ('x cell, 'x Module_L) view" where
  "Module_view K = struct_view
    [field_view (flat_view TypeMeta_tree) modl_TypeMeta,
     field_view (f_View (k_ObjectMeta K)) modl_ObjectMeta,
     field_view (ModuleSpec_view K) modl_Spec,
     field_view (flat_view ModuleStatus_tree) modl_Status]"

definition ModuleList_view :: "'x k8s \<Rightarrow> ('x cell, 'x ModuleList_L) view" where
  "ModuleList_view K = struct_view
    [field_view (flat_view TypeMeta_tree) modlist_TypeMeta,
     field_view (f_View (k_ListMeta K)) modlist_ListMeta,
     field_view (slice_view un_Modules (Module_view K)) modlist_Items]"

definition CRStatus_view :: "'x k8s \<Rightarrow> ('x cell, 'x CRStatus_L) view" where
  "CRStatus_view K = struct_view
    [field_view (flat_view String_tree) crl_VerificationStatus,
     field_view (flat_view String_tree) crl_StatusReason,
     field_view (flat_view String_tree) crl_VerificationStage,
     field_view (f_View (k_Time K)) crl_LastTransitionTime]"

definition PreflightValidationStatus_view ::
    "'x k8s \<Rightarrow> ('x cell, PreflightValidationStatus_L) view" where
  "PreflightValidationStatus_view K = struct_view
    [field_view (map_view un_CRStatusMap (ptr_view un_CRStatus (CRStatus_view K))) pvstl_CRStatuses]"

definition PreflightValidation_view :: "'x k8s \<Rightarrow> ('x cell, 'x PreflightValidation_L) view" where
  "PreflightValidation_view K = struct_view
    [field_view (flat_view TypeMeta_tree) pvl_TypeMeta,
     field_view (f_View (k_ObjectMeta K)) pvl_ObjectMeta,
     field_view (flat_view PreflightValidationSpec_tree) pvl_Spec,
     field_view (PreflightValidationStatus_view K) pvl_Status]"

definition PreflightValidationList_view ::
    "'x k8s \<Rightarrow> ('x cell, 'x PreflightValidationList_L) view" where
  "PreflightValidationList_view K = struct_view
    [field_view (flat_view TypeMeta_tree) pvlist_TypeMeta,
     field_view (f_View (k_ListMeta K)) pvlist_ListMeta,
     field_view (slice_view un_PreflightValidations (PreflightValidation_view K)) pvlist_Items]"

definition ManagedClusterModuleSpec_view ::
    "'x k8s \<Rightarrow> ('x cell, ManagedClusterModuleSpec_L) view" where
  "ManagedClusterModuleSpec_view K = struct_view
    [field_view (ModuleSpec_view K) mcmsl_ModuleSpec,
     field_view (flat_view String_tree) mcmsl_SpokeNamespace,
     field_view string_map_view mcmsl_Selector]"

definition ManagedClusterModule_view :: "'x k8s \<Rightarrow> ('x cell, 'x ManagedClusterModule_L) view" where
  "ManagedClusterModule_view K = struct_view
    [field_view (flat_view TypeMeta_tree) mcml_TypeMeta,
     field_view (f_View (k_ObjectMeta K)) mcml_ObjectMeta,
     field_view (ManagedClusterModuleSpec_view K) mcml_Spec,
     field_view (flat_view ManagedClusterModuleStatus_tree) mcml_Status]"

definition ManagedClusterModuleList_view ::
    "'x k8s \<Rightarrow> ('x cell, 'x ManagedClusterModuleList_L) view" where
  "ManagedClusterModuleList_view K = struct_view
    [field_view (flat_view TypeMeta_tree) mcmlist_TypeMeta,
     field_view (f_View (k_ListMeta K)) mcmlist_ListMeta,
     field_view (slice_view un_ManagedClusterModules (ManagedClusterModule_view K)) mcmlist_Items]"

end
