(* ===== verification/Deep_Copy.thy ===== *)
theory Deep_Copy
  imports API_Memory
begin

text \<open>
  The generated copying functions of the API types, \<open>zz_generated.deepcopy.go\<close> in \<open>api/v1beta1\<close>
  and in \<open>api-hub/v1beta1\<close>, over Go's memory.  \<open>T_DeepCopyInto\<close> takes the struct \<open>*in\<close> and gives the
  struct the function leaves in \<open>*out\<close>: it starts as \<open>*out = *in\<close>, and every statement replaces a
  field by a copy of what the field of \<open>in\<close> refers to.  \<open>T_DeepCopy\<close> takes and gives a pointer.  Each
  function keeps the contract \<open>deep_copier\<close>; the functions of the Kubernetes libraries that they call
  are parameters with that contract.
\<close>

section \<open>The copying functions\<close>

subsection \<open>Build and sign settings\<close>

definition BuildArg_DeepCopyInto :: "BuildArg \<Rightarrow> ('x cell mem, BuildArg) go" where
  "BuildArg_DeepCopyInto inp = ret inp"

definition KanikoParams_DeepCopyInto :: "KanikoParams \<Rightarrow> ('x cell mem, KanikoParams) go" where
  "KanikoParams_DeepCopyInto inp = ret inp"

definition TLSOptions_DeepCopyInto :: "TLSOptions \<Rightarrow> ('x cell mem, TLSOptions) go" where
  "TLSOptions_DeepCopyInto inp = ret inp"

definition Build_DeepCopyInto :: "Build_L \<Rightarrow> ('x cell mem, Build_L) go" where
  "Build_DeepCopyInto inp =
     bind_go (copy_slice CBuildArgs un_BuildArgs blank_BuildArg (bl_BuildArgs inp)) (\<lambda>args.
     bind_go (copy_ptr CLocalObjectReference un_LocalObjectReference blank_LocalObjectReference ret
       (bl_DockerfileConfigMap inp)) (\<lambda>cm.
     bind_go (copy_slice CLocalObjectReferences un_LocalObjectReferences blank_LocalObjectReference
       (bl_Secrets inp)) (\<lambda>secrets.
     bind_go (copy_ptr CKanikoParams un_KanikoParams blank_KanikoParams ret (bl_KanikoParams inp)) (\<lambda>kaniko.
     ret (inp\<lparr>bl_BuildArgs := args, bl_DockerfileConfigMap := cm,
       bl_BaseImageRegistryTLS := bl_BaseImageRegistryTLS inp, bl_Secrets := secrets,
       bl_KanikoParams := kaniko\<rparr>)))))"

definition Sign_DeepCopyInto :: "Sign_L \<Rightarrow> ('x cell mem, Sign_L) go" where
  "Sign_DeepCopyInto inp =
     bind_go (copy_ptr CLocalObjectReference un_LocalObjectReference blank_LocalObjectReference ret
       (sgl_KeySecret inp)) (\<lambda>key.
     bind_go (copy_ptr CLocalObjectReference un_LocalObjectReference blank_LocalObjectReference ret
       (sgl_CertSecret inp)) (\<lambda>cert.
     bind_go (copy_slice CStrings un_Strings '''' (sgl_FilesToSign inp)) (\<lambda>files.
     ret (inp\<lparr>sgl_UnsignedImageRegistryTLS := sgl_UnsignedImageRegistryTLS inp, sgl_KeySecret := key,
       sgl_CertSecret := cert, sgl_FilesToSign := files\<rparr>))))"

subsection \<open>The module loader\<close>

definition KernelMapping_DeepCopyInto :: "KernelMapping_L \<Rightarrow> ('x cell mem, KernelMapping_L) go" where
  "KernelMapping_DeepCopyInto inp =
     bind_go (copy_ptr CBuild un_Build blank_Build Build_DeepCopyInto (kml_Build inp)) (\<lambda>build.
     bind_go (copy_ptr CSign un_Sign blank_Sign Sign_DeepCopyInto (kml_Sign inp)) (\<lambda>sign.
     bind_go (copy_ptr CTLSOptions un_TLSOptions blank_TLSOptions ret (kml_RegistryTLS inp)) (\<lambda>tls.
     ret (inp\<lparr>kml_Build := build, kml_Sign := sign, kml_RegistryTLS := tls\<rparr>))))"

definition ModprobeArgs_DeepCopyInto :: "ModprobeArgs_L \<Rightarrow> ('x cell mem, ModprobeArgs_L) go" where
  "ModprobeArgs_DeepCopyInto inp =
     bind_go (copy_slice CStrings un_Strings '''' (mal_Load inp)) (\<lambda>load.
     bind_go (copy_slice CStrings un_Strings '''' (mal_Unload inp)) (\<lambda>unload.
     ret (inp\<lparr>mal_Load := load, mal_Unload := unload\<rparr>)))"

definition ModprobeSpec_DeepCopyInto :: "ModprobeSpec_L \<Rightarrow> ('x cell mem, ModprobeSpec_L) go" where
  "ModprobeSpec_DeepCopyInto inp =
     bind_go (copy_slice CStrings un_Strings '''' (mpl_Parameters inp)) (\<lambda>parameters.
     bind_go (copy_ptr CModprobeArgs un_ModprobeArgs blank_ModprobeArgs ModprobeArgs_DeepCopyInto
       (mpl_Args inp)) (\<lambda>args.
     bind_go (copy_ptr CModprobeArgs un_ModprobeArgs blank_ModprobeArgs ModprobeArgs_DeepCopyInto
       (mpl_RawArgs inp)) (\<lambda>raw.
     ret (inp\<lparr>mpl_Parameters := parameters, mpl_Args := args, mpl_RawArgs := raw\<rparr>))))"

definition ModuleLoaderContainerSpec_DeepCopyInto ::
    "ModuleLoaderContainerSpec_L \<Rightarrow> ('x cell mem, ModuleLoaderContainerSpec_L) go" where
  "ModuleLoaderContainerSpec_DeepCopyInto inp =
     bind_go (copy_ptr CBuild un_Build blank_Build Build_DeepCopyInto (mlcl_Build inp)) (\<lambda>build.
     bind_go (copy_ptr CSign un_Sign blank_Sign Sign_DeepCopyInto (mlcl_Sign inp)) (\<lambda>sign.
     bind_go (copy_each CKernelMappings un_KernelMappings blank_KernelMapping
       KernelMapping_DeepCopyInto (mlcl_KernelMappings inp)) (\<lambda>mappings.
     bind_go (ModprobeSpec_DeepCopyInto (mlcl_Modprobe inp)) (\<lambda>modprobe.
     ret (inp\<lparr>mlcl_Build := build, mlcl_Sign := sign, mlcl_KernelMappings := mappings,
       mlcl_Modprobe := modprobe, mlcl_RegistryTLS := mlcl_RegistryTLS inp\<rparr>)))))"

definition ModuleLoaderSpec_DeepCopyInto ::
    "ModuleLoaderSpec_L \<Rightarrow> ('x cell mem, ModuleLoaderSpec_L) go" where
  "ModuleLoaderSpec_DeepCopyInto inp =
     bind_go (ModuleLoaderContainerSpec_DeepCopyInto (mll_Container inp)) (\<lambda>container.
     ret (inp\<lparr>mll_Container := container\<rparr>))"

subsection \<open>The device plugin\<close>

definition DevicePluginContainerSpec_DeepCopyInto ::
    "'x k8s \<Rightarrow> 'x DevicePluginContainerSpec_L \<Rightarrow> ('x cell mem, 'x DevicePluginContainerSpec_L) go" where
  "DevicePluginContainerSpec_DeepCopyInto K inp =
     bind_go (copy_slice CStrings un_Strings '''' (dpcl_Command inp)) (\<lambda>command.
     bind_go (copy_slice CStrings un_Strings '''' (dpcl_Args inp)) (\<lambda>args.
     bind_go (copy_each CForeigns un_Foreigns (f_Zero (k_EnvVar K)) (f_DeepCopyInto (k_EnvVar K))
       (dpcl_Env inp)) (\<lambda>env.
     bind_go (f_DeepCopyInto (k_ResourceRequirements K) (dpcl_Resources inp)) (\<lambda>resources.
     bind_go (copy_each CForeigns un_Foreigns (f_Zero (k_VolumeMount K))
       (f_DeepCopyInto (k_VolumeMount K)) (dpcl_VolumeMounts inp)) (\<lambda>mounts.
     ret (inp\<lparr>dpcl_Command := command, dpcl_Args := args, dpcl_Env := env,
       dpcl_Resources := resources, dpcl_VolumeMounts := mounts\<rparr>))))))"

definition DevicePluginSpec_DeepCopyInto ::
    "'x k8s \<Rightarrow> 'x DevicePluginSpec_L \<Rightarrow> ('x cell mem, 'x DevicePluginSpec_L) go" where
  "DevicePluginSpec_DeepCopyInto K inp =
     bind_go (DevicePluginContainerSpec_DeepCopyInto K (dpl_Container inp)) (\<lambda>container.
     bind_go (copy_each CForeigns un_Foreigns (f_Zero (k_Volume K)) (f_DeepCopyInto (k_Volume K))
       (dpl_Volumes inp)) (\<lambda>volumes.
     ret (inp\<lparr>dpl_Container := container, dpl_Volumes := volumes\<rparr>)))"

subsection \<open>Modules\<close>

definition ModuleSpec_DeepCopyInto :: "'x k8s \<Rightarrow> ModuleSpec_L \<Rightarrow> ('x cell mem, ModuleSpec_L) go" where
  "ModuleSpec_DeepCopyInto K inp =
     bind_go (copy_ptr CDevicePluginSpec un_DevicePluginSpec (blank_DevicePluginSpec K)
       (DevicePluginSpec_DeepCopyInto K) (msl_DevicePlugin inp)) (\<lambda>plugin.
     bind_go (ModuleLoaderSpec_DeepCopyInto (msl_ModuleLoader inp)) (\<lambda>loader.
     bind_go (copy_ptr CLocalObjectReference un_LocalObjectReference blank_LocalObjectReference ret
       (msl_ImageRepoSecret inp)) (\<lambda>secret.
     bind_go (copy_map (k_Range K) CStringMap un_StringMap ret (msl_Selector inp)) (\<lambda>selector.
     ret (inp\<lparr>msl_DevicePlugin := plugin, msl_ModuleLoader := loader, msl_ImageRepoSecret := secret,
       msl_Selector := selector\<rparr>)))))"

definition DaemonSetStatus_DeepCopyInto :: "DaemonSetStatus \<Rightarrow> ('x cell mem, DaemonSetStatus) go" where
  "DaemonSetStatus_DeepCopyInto inp = ret inp"

definition ModuleStatus_DeepCopyInto :: "ModuleStatus \<Rightarrow> ('x cell mem, ModuleStatus) go" where
  "ModuleStatus_DeepCopyInto inp =
     ret (inp\<lparr>st_DevicePlugin := st_DevicePlugin inp, st_ModuleLoader := st_ModuleLoader inp\<rparr>)"

definition Module_DeepCopyInto :: "'x k8s \<Rightarrow> 'x Module_L \<Rightarrow> ('x cell mem, 'x Module_L) go" where
  "Module_DeepCopyInto K inp =
     bind_go (f_DeepCopyInto (k_ObjectMeta K) (modl_ObjectMeta inp)) (\<lambda>meta.
     bind_go (ModuleSpec_DeepCopyInto K (modl_Spec inp)) (\<lambda>spec.
     ret (inp\<lparr>modl_TypeMeta := modl_TypeMeta inp, modl_ObjectMeta := meta, modl_Spec := spec,
       modl_Status := modl_Status inp\<rparr>)))"

definition ModuleList_DeepCopyInto ::
    "'x k8s \<Rightarrow> 'x ModuleList_L \<Rightarrow> ('x cell mem, 'x ModuleList_L) go" where
  "ModuleList_DeepCopyInto K inp =
     bind_go (f_DeepCopyInto (k_ListMeta K) (modlist_ListMeta inp)) (\<lambda>meta.
     bind_go (copy_each CModules un_Modules (blank_Module K) (Module_DeepCopyInto K)
       (modlist_Items inp)) (\<lambda>items.
     ret (inp\<lparr>modlist_TypeMeta := modlist_TypeMeta inp, modlist_ListMeta := meta,
       modlist_Items := items\<rparr>)))"

subsection \<open>Preflight validations\<close>

definition CRStatus_DeepCopyInto :: "'x k8s \<Rightarrow> 'x CRStatus_L \<Rightarrow> ('x cell mem, 'x CRStatus_L) go" where
  "CRStatus_DeepCopyInto K inp =
     bind_go (f_DeepCopyInto (k_Time K) (crl_LastTransitionTime inp)) (\<lambda>time.
     ret (inp\<lparr>crl_LastTransitionTime := time\<rparr>))"

definition PreflightValidationSpec_DeepCopyInto ::
    "PreflightValidationSpec \<Rightarrow> ('x cell mem, PreflightValidationSpec) go" where
  "PreflightValidationSpec_DeepCopyInto inp = ret inp"

text \<open>
  The statuses: a \<open>nil\<close> entry is put into the new map twice, an entry that points to a status once,
  as the address of a new status.
\<close>

definition copy_CRStatuses :: "'x k8s \<Rightarrow> addr option \<Rightarrow> ('x cell mem, addr option) go" where
  "copy_CRStatuses K p = (case p of
      None \<Rightarrow> ret None
    | Some a \<Rightarrow> bind_go (make_map CCRStatusMap)
        (\<lambda>out. bind_go (load_obj un_CRStatusMap a)
        (\<lambda>m. bind_go (loop (range_map (k_Range K) m)
           (\<lambda>kv _. bind_go
              (if snd kv = None
               then bind_go (map_set CCRStatusMap un_CRStatusMap out (fst kv) None) (\<lambda>_. ret None)
               else copy_ptr CCRStatus un_CRStatus (blank_CRStatus K) (CRStatus_DeepCopyInto K) (snd kv))
              (\<lambda>outVal. map_set CCRStatusMap un_CRStatusMap out (fst kv) outVal)) ())
        (\<lambda>_. ret (Some out)))))"

definition PreflightValidationStatus_DeepCopyInto ::
    "'x k8s \<Rightarrow> PreflightValidationStatus_L \<Rightarrow> ('x cell mem, PreflightValidationStatus_L) go" where
  "PreflightValidationStatus_DeepCopyInto K inp =
     bind_go (copy_CRStatuses K (pvstl_CRStatuses inp)) (\<lambda>statuses.
     ret (inp\<lparr>pvstl_CRStatuses := statuses\<rparr>))"

definition PreflightValidation_DeepCopyInto ::
    "'x k8s \<Rightarrow> 'x PreflightValidation_L \<Rightarrow> ('x cell mem, 'x PreflightValidation_L) go" where
  "PreflightValidation_DeepCopyInto K inp =
     bind_go (f_DeepCopyInto (k_ObjectMeta K) (pvl_ObjectMeta inp)) (\<lambda>meta.
     bind_go (PreflightValidationStatus_DeepCopyInto K (pvl_Status inp)) (\<lambda>status.
     ret (inp\<lparr>pvl_TypeMeta := pvl_TypeMeta inp, pvl_ObjectMeta := meta, pvl_Spec := pvl_Spec inp,
       pvl_Status := status\<rparr>)))"

definition PreflightValidationList_DeepCopyInto ::
    "'x k8s \<Rightarrow> 'x PreflightValidationList_L \<Rightarrow> ('x cell mem, 'x PreflightValidationList_L) go" where
  "PreflightValidationList_DeepCopyInto K inp =
     bind_go (f_DeepCopyInto (k_ListMeta K) (pvlist_ListMeta inp)) (\<lambda>meta.
     bind_go (copy_each CPreflightValidations un_PreflightValidations (blank_PreflightValidation K)
       (PreflightValidation_DeepCopyInto K) (pvlist_Items inp)) (\<lambda>items.
     ret (inp\<lparr>pvlist_TypeMeta := pvlist_TypeMeta inp, pvlist_ListMeta := meta,
       pvlist_Items := items\<rparr>)))"

subsection \<open>Managed cluster modules\<close>

definition ManagedClusterModuleSpec_DeepCopyInto ::
    "'x k8s \<Rightarrow> ManagedClusterModuleSpec_L \<Rightarrow> ('x cell mem, ManagedClusterModuleSpec_L) go" where
  "ManagedClusterModuleSpec_DeepCopyInto K inp =
     bind_go (ModuleSpec_DeepCopyInto K (mcmsl_ModuleSpec inp)) (\<lambda>spec.
     bind_go (copy_map (k_Range K) CStringMap un_StringMap ret (mcmsl_Selector inp)) (\<lambda>selector.
     ret (inp\<lparr>mcmsl_ModuleSpec := spec, mcmsl_Selector := selector\<rparr>)))"

definition ManagedClusterModuleStatus_DeepCopyInto ::
    "ManagedClusterModuleStatus \<Rightarrow> ('x cell mem, ManagedClusterModuleStatus) go" where
  "ManagedClusterModuleStatus_DeepCopyInto inp = ret inp"

definition ManagedClusterModule_DeepCopyInto ::
    "'x k8s \<Rightarrow> 'x ManagedClusterModule_L \<Rightarrow> ('x cell mem, 'x ManagedClusterModule_L) go" where
  "ManagedClusterModule_DeepCopyInto K inp =
     bind_go (f_DeepCopyInto (k_ObjectMeta K) (mcml_ObjectMeta inp)) (\<lambda>meta.
     bind_go (ManagedClusterModuleSpec_DeepCopyInto K (mcml_Spec inp)) (\<lambda>spec.
     ret (inp\<lparr>mcml_TypeMeta := mcml_TypeMeta inp, mcml_ObjectMeta := meta, mcml_Spec := spec,
       mcml_Status := mcml_Status inp\<rparr>)))"

definition ManagedClusterModuleList_DeepCopyInto ::
    "'x k8s \<Rightarrow> 'x ManagedClusterModuleList_L \<Rightarrow> ('x cell mem, 'x ManagedClusterModuleList_L) go" where
  "ManagedClusterModuleList_DeepCopyInto K inp =
     bind_go (f_DeepCopyInto (k_ListMeta K) (mcmlist_ListMeta inp)) (\<lambda>meta.
     bind_go (copy_each CManagedClusterModules un_ManagedClusterModules (blank_ManagedClusterModule K)
       (ManagedClusterModule_DeepCopyInto K) (mcmlist_Items inp)) (\<lambda>items.
     ret (inp\<lparr>mcmlist_TypeMeta := mcmlist_TypeMeta inp, mcmlist_ListMeta := meta,
       mcmlist_Items := items\<rparr>)))"

section \<open>The pointer versions\<close>

definition Build_DeepCopy :: "addr option \<Rightarrow> ('x cell mem, addr option) go" where
  "Build_DeepCopy inp = copy_ptr CBuild un_Build blank_Build Build_DeepCopyInto inp"

definition BuildArg_DeepCopy :: "addr option \<Rightarrow> ('x cell mem, addr option) go" where
  "BuildArg_DeepCopy inp = copy_ptr CBuildArg un_BuildArg blank_BuildArg BuildArg_DeepCopyInto inp"

definition CRStatus_DeepCopy ::
    "'x k8s \<Rightarrow> addr option \<Rightarrow> ('x cell mem, addr option) go" where
  "CRStatus_DeepCopy K inp =
     copy_ptr CCRStatus un_CRStatus (blank_CRStatus K) (CRStatus_DeepCopyInto K) inp"

definition DaemonSetStatus_DeepCopy :: "addr option \<Rightarrow> ('x cell mem, addr option) go" where
  "DaemonSetStatus_DeepCopy inp =
     copy_ptr CDaemonSetStatus un_DaemonSetStatus blank_DaemonSetStatus DaemonSetStatus_DeepCopyInto inp"

definition DevicePluginContainerSpec_DeepCopy ::
    "'x k8s \<Rightarrow> addr option \<Rightarrow> ('x cell mem, addr option) go" where
  "DevicePluginContainerSpec_DeepCopy K inp =
     copy_ptr CDevicePluginContainerSpec un_DevicePluginContainerSpec (blank_DevicePluginContainerSpec K) (DevicePluginContainerSpec_DeepCopyInto K) inp"

definition DevicePluginSpec_DeepCopy ::
    "'x k8s \<Rightarrow> addr option \<Rightarrow> ('x cell mem, addr option) go" where
  "DevicePluginSpec_DeepCopy K inp =
     copy_ptr CDevicePluginSpec un_DevicePluginSpec (blank_DevicePluginSpec K) (DevicePluginSpec_DeepCopyInto K) inp"

definition KanikoParams_DeepCopy :: "addr option \<Rightarrow> ('x cell mem, addr option) go" where
  "KanikoParams_DeepCopy inp =
     copy_ptr CKanikoParams un_KanikoParams blank_KanikoParams KanikoParams_DeepCopyInto inp"

definition KernelMapping_DeepCopy :: "addr option \<Rightarrow> ('x cell mem, addr option) go" where
  "KernelMapping_DeepCopy inp =
     copy_ptr CKernelMapping un_KernelMapping blank_KernelMapping KernelMapping_DeepCopyInto inp"

definition ModprobeArgs_DeepCopy :: "addr option \<Rightarrow> ('x cell mem, addr option) go" where
  "ModprobeArgs_DeepCopy inp =
     copy_ptr CModprobeArgs un_ModprobeArgs blank_ModprobeArgs ModprobeArgs_DeepCopyInto inp"

definition ModprobeSpec_DeepCopy :: "addr option \<Rightarrow> ('x cell mem, addr option) go" where
  "ModprobeSpec_DeepCopy inp =
     copy_ptr CModprobeSpec un_ModprobeSpec blank_ModprobeSpec ModprobeSpec_DeepCopyInto inp"

definition Module_DeepCopy ::
    "'x k8s \<Rightarrow> addr option \<Rightarrow> ('x cell mem, addr option) go" where
  "Module_DeepCopy K inp = copy_ptr CModule un_Module (blank_Module K) (Module_DeepCopyInto K) inp"

definition ModuleList_DeepCopy ::
    "'x k8s \<Rightarrow> addr option \<Rightarrow> ('x cell mem, addr option) go" where
  "ModuleList_DeepCopy K inp =
     copy_ptr CModuleList un_ModuleList (blank_ModuleList K) (ModuleList_DeepCopyInto K) inp"

definition ModuleLoaderContainerSpec_DeepCopy ::
    "addr option \<Rightarrow> ('x cell mem, addr option) go" where
  "ModuleLoaderContainerSpec_DeepCopy inp =
     copy_ptr CModuleLoaderContainerSpec un_ModuleLoaderContainerSpec blank_ModuleLoaderContainerSpec ModuleLoaderContainerSpec_DeepCopyInto inp"

definition ModuleLoaderSpec_DeepCopy :: "addr option \<Rightarrow> ('x cell mem, addr option) go" where
  "ModuleLoaderSpec_DeepCopy inp =
     copy_ptr CModuleLoaderSpec un_ModuleLoaderSpec blank_ModuleLoaderSpec ModuleLoaderSpec_DeepCopyInto inp"

definition ModuleSpec_DeepCopy ::
    "'x k8s \<Rightarrow> addr option \<Rightarrow> ('x cell mem, addr option) go" where
  "ModuleSpec_DeepCopy K inp =
     copy_ptr CModuleSpec un_ModuleSpec blank_ModuleSpec (ModuleSpec_DeepCopyInto K) inp"

definition ModuleStatus_DeepCopy :: "addr option \<Rightarrow> ('x cell mem, addr option) go" where
  "ModuleStatus_DeepCopy inp =
     copy_ptr CModuleStatus un_ModuleStatus blank_ModuleStatus ModuleStatus_DeepCopyInto inp"

definition PreflightValidation_DeepCopy ::
    "'x k8s \<Rightarrow> addr option \<Rightarrow> ('x cell mem, addr option) go" where
  "PreflightValidation_DeepCopy K inp =
     copy_ptr CPreflightValidation un_PreflightValidation (blank_PreflightValidation K) (PreflightValidation_DeepCopyInto K) inp"

definition PreflightValidationList_DeepCopy ::
    "'x k8s \<Rightarrow> addr option \<Rightarrow> ('x cell mem, addr option) go" where
  "PreflightValidationList_DeepCopy K inp =
     copy_ptr CPreflightValidationList un_PreflightValidationList (blank_PreflightValidationList K) (PreflightValidationList_DeepCopyInto K) inp"

definition PreflightValidationSpec_DeepCopy ::
    "addr option \<Rightarrow> ('x cell mem, addr option) go" where
  "PreflightValidationSpec_DeepCopy inp =
     copy_ptr CPreflightValidationSpec un_PreflightValidationSpec blank_PreflightValidationSpec PreflightValidationSpec_DeepCopyInto inp"

definition PreflightValidationStatus_DeepCopy ::
    "'x k8s \<Rightarrow> addr option \<Rightarrow> ('x cell mem, addr option) go" where
  "PreflightValidationStatus_DeepCopy K inp =
     copy_ptr CPreflightValidationStatus un_PreflightValidationStatus blank_PreflightValidationStatus (PreflightValidationStatus_DeepCopyInto K) inp"

definition Sign_DeepCopy :: "addr option \<Rightarrow> ('x cell mem, addr option) go" where
  "Sign_DeepCopy inp = copy_ptr CSign un_Sign blank_Sign Sign_DeepCopyInto inp"

definition TLSOptions_DeepCopy :: "addr option \<Rightarrow> ('x cell mem, addr option) go" where
  "TLSOptions_DeepCopy inp =
     copy_ptr CTLSOptions un_TLSOptions blank_TLSOptions TLSOptions_DeepCopyInto inp"

definition ManagedClusterModule_DeepCopy ::
    "'x k8s \<Rightarrow> addr option \<Rightarrow> ('x cell mem, addr option) go" where
  "ManagedClusterModule_DeepCopy K inp =
     copy_ptr CManagedClusterModule un_ManagedClusterModule (blank_ManagedClusterModule K) (ManagedClusterModule_DeepCopyInto K) inp"

definition ManagedClusterModuleList_DeepCopy ::
    "'x k8s \<Rightarrow> addr option \<Rightarrow> ('x cell mem, addr option) go" where
  "ManagedClusterModuleList_DeepCopy K inp =
     copy_ptr CManagedClusterModuleList un_ManagedClusterModuleList (blank_ManagedClusterModuleList K) (ManagedClusterModuleList_DeepCopyInto K) inp"

definition ManagedClusterModuleSpec_DeepCopy ::
    "'x k8s \<Rightarrow> addr option \<Rightarrow> ('x cell mem, addr option) go" where
  "ManagedClusterModuleSpec_DeepCopy K inp =
     copy_ptr CManagedClusterModuleSpec un_ManagedClusterModuleSpec blank_ManagedClusterModuleSpec (ManagedClusterModuleSpec_DeepCopyInto K) inp"

definition ManagedClusterModuleStatus_DeepCopy ::
    "addr option \<Rightarrow> ('x cell mem, addr option) go" where
  "ManagedClusterModuleStatus_DeepCopy inp =
     copy_ptr CManagedClusterModuleStatus un_ManagedClusterModuleStatus blank_ManagedClusterModuleStatus ManagedClusterModuleStatus_DeepCopyInto inp"

text \<open>
  \<open>DeepCopyObject\<close> gives an interface value, which is \<open>nil\<close> for a \<open>nil\<close> pointer, and not an interface
  that holds a \<open>nil\<close> pointer.
\<close>

datatype runtime_Object =
    ObjModule addr
  | ObjModuleList addr
  | ObjPreflightValidation addr
  | ObjPreflightValidationList addr
  | ObjManagedClusterModule addr
  | ObjManagedClusterModuleList addr

definition Module_DeepCopyObject ::
    "'x k8s \<Rightarrow> addr option \<Rightarrow> ('x cell mem, runtime_Object option) go" where
  "Module_DeepCopyObject K inp = bind_go (Module_DeepCopy K inp)
     (\<lambda>p. case p of Some c \<Rightarrow> ret (Some (ObjModule c)) | None \<Rightarrow> ret None)"

definition ModuleList_DeepCopyObject ::
    "'x k8s \<Rightarrow> addr option \<Rightarrow> ('x cell mem, runtime_Object option) go" where
  "ModuleList_DeepCopyObject K inp = bind_go (ModuleList_DeepCopy K inp)
     (\<lambda>p. case p of Some c \<Rightarrow> ret (Some (ObjModuleList c)) | None \<Rightarrow> ret None)"

definition PreflightValidation_DeepCopyObject ::
    "'x k8s \<Rightarrow> addr option \<Rightarrow> ('x cell mem, runtime_Object option) go" where
  "PreflightValidation_DeepCopyObject K inp = bind_go (PreflightValidation_DeepCopy K inp)
     (\<lambda>p. case p of Some c \<Rightarrow> ret (Some (ObjPreflightValidation c)) | None \<Rightarrow> ret None)"

definition PreflightValidationList_DeepCopyObject ::
    "'x k8s \<Rightarrow> addr option \<Rightarrow> ('x cell mem, runtime_Object option) go" where
  "PreflightValidationList_DeepCopyObject K inp = bind_go (PreflightValidationList_DeepCopy K inp)
     (\<lambda>p. case p of Some c \<Rightarrow> ret (Some (ObjPreflightValidationList c)) | None \<Rightarrow> ret None)"

definition ManagedClusterModule_DeepCopyObject ::
    "'x k8s \<Rightarrow> addr option \<Rightarrow> ('x cell mem, runtime_Object option) go" where
  "ManagedClusterModule_DeepCopyObject K inp = bind_go (ManagedClusterModule_DeepCopy K inp)
     (\<lambda>p. case p of Some c \<Rightarrow> ret (Some (ObjManagedClusterModule c)) | None \<Rightarrow> ret None)"

definition ManagedClusterModuleList_DeepCopyObject ::
    "'x k8s \<Rightarrow> addr option \<Rightarrow> ('x cell mem, runtime_Object option) go" where
  "ManagedClusterModuleList_DeepCopyObject K inp = bind_go (ManagedClusterModuleList_DeepCopy K inp)
     (\<lambda>p. case p of Some c \<Rightarrow> ret (Some (ObjManagedClusterModuleList c)) | None \<Rightarrow> ret None)"

text \<open>
  The call of the method on an interface value, which Go directs to the type of the pointer it holds;
  the kind it has; and the value it stands for, which there is only if the pointer leads to an object of
  that type, and so on for the pointers in it.
\<close>

definition call_DeepCopyObject :: "'x k8s \<Rightarrow> runtime_Object \<Rightarrow> ('x cell mem, runtime_Object option) go" where
  "call_DeepCopyObject K ob = (case ob of
      ObjModule a \<Rightarrow> Module_DeepCopyObject K (Some a)
    | ObjModuleList a \<Rightarrow> ModuleList_DeepCopyObject K (Some a)
    | ObjPreflightValidation a \<Rightarrow> PreflightValidation_DeepCopyObject K (Some a)
    | ObjPreflightValidationList a \<Rightarrow> PreflightValidationList_DeepCopyObject K (Some a)
    | ObjManagedClusterModule a \<Rightarrow> ManagedClusterModule_DeepCopyObject K (Some a)
    | ObjManagedClusterModuleList a \<Rightarrow> ManagedClusterModuleList_DeepCopyObject K (Some a))"

definition object_kind :: "runtime_Object \<Rightarrow> string" where
  "object_kind ob = (case ob of
      ObjModule a \<Rightarrow> ''Module''
    | ObjModuleList a \<Rightarrow> ''ModuleList''
    | ObjPreflightValidation a \<Rightarrow> ''PreflightValidation''
    | ObjPreflightValidationList a \<Rightarrow> ''PreflightValidationList''
    | ObjManagedClusterModule a \<Rightarrow> ''ManagedClusterModule''
    | ObjManagedClusterModuleList a \<Rightarrow> ''ManagedClusterModuleList'')"

definition object_view :: "'x k8s \<Rightarrow> ('x cell, runtime_Object) view" where
  "object_view K h ob = (case ob of
      ObjModule a \<Rightarrow> ptr_view un_Module (Module_view K) h (Some a)
    | ObjModuleList a \<Rightarrow> ptr_view un_ModuleList (ModuleList_view K) h (Some a)
    | ObjPreflightValidation a \<Rightarrow> ptr_view un_PreflightValidation (PreflightValidation_view K) h (Some a)
    | ObjPreflightValidationList a \<Rightarrow> ptr_view un_PreflightValidationList (PreflightValidationList_view K) h (Some a)
    | ObjManagedClusterModule a \<Rightarrow> ptr_view un_ManagedClusterModule (ManagedClusterModule_view K) h (Some a)
    | ObjManagedClusterModuleList a \<Rightarrow> ptr_view un_ManagedClusterModuleList (ManagedClusterModuleList_view K) h (Some a))"

section \<open>The contract of the parts\<close>

lemmas [copy_steps] =
  copying_step [where into = "f_DeepCopyInto f" and vw = "f_View f" for f]

lemma assign_copier [copier_intros]:
  "deep_copier BuildArg_DeepCopyInto (flat_view BuildArg_tree)"
  "deep_copier KanikoParams_DeepCopyInto (flat_view KanikoParams_tree)"
  "deep_copier TLSOptions_DeepCopyInto (flat_view TLSOptions_tree)"
  "deep_copier DaemonSetStatus_DeepCopyInto (flat_view DaemonSetStatus_tree)"
  "deep_copier ModuleStatus_DeepCopyInto (flat_view ModuleStatus_tree)"
  "deep_copier PreflightValidationSpec_DeepCopyInto (flat_view PreflightValidationSpec_tree)"
  "deep_copier ManagedClusterModuleStatus_DeepCopyInto (flat_view ManagedClusterModuleStatus_tree)"
  by (simp_all add: BuildArg_DeepCopyInto_def [abs_def] KanikoParams_DeepCopyInto_def [abs_def]
      TLSOptions_DeepCopyInto_def [abs_def] DaemonSetStatus_DeepCopyInto_def [abs_def]
      ModuleStatus_DeepCopyInto_def [abs_def] PreflightValidationSpec_DeepCopyInto_def [abs_def]
      ManagedClusterModuleStatus_DeepCopyInto_def [abs_def] copier_flat)

lemma Build_copier [copier_intros]: "deep_copier Build_DeepCopyInto Build_view"
  unfolding Build_view_def Build_DeepCopyInto_def [abs_def]
  by (rule copier_struct, simp add: view_intros, simp del: not_None_eq, (elim conjE)?,
      (rule copy_steps | assumption | simp add: copier_intros; fail)+, (simp add: fresh_copy_flat)?)

lemmas Build_local [view_intros] = deep_copier.local [OF Build_copier]
lemmas Build_step [copy_steps] = copying_step [OF _ _ Build_copier]

lemma Sign_copier [copier_intros]: "deep_copier Sign_DeepCopyInto Sign_view"
  unfolding Sign_view_def Sign_DeepCopyInto_def [abs_def]
  by (rule copier_struct, simp add: view_intros, simp del: not_None_eq, (elim conjE)?,
      (rule copy_steps | assumption | simp add: copier_intros; fail)+, (simp add: fresh_copy_flat)?)

lemmas Sign_local [view_intros] = deep_copier.local [OF Sign_copier]
lemmas Sign_step [copy_steps] = copying_step [OF _ _ Sign_copier]

lemma KernelMapping_copier [copier_intros]: "deep_copier KernelMapping_DeepCopyInto KernelMapping_view"
  unfolding KernelMapping_view_def KernelMapping_DeepCopyInto_def [abs_def]
  by (rule copier_struct, simp add: view_intros, simp del: not_None_eq, (elim conjE)?,
      (rule copy_steps | assumption | simp add: copier_intros; fail)+, (simp add: fresh_copy_flat)?)

lemmas KernelMapping_local [view_intros] = deep_copier.local [OF KernelMapping_copier]
lemmas KernelMapping_step [copy_steps] = copying_step [OF _ _ KernelMapping_copier]

lemma ModprobeArgs_copier [copier_intros]: "deep_copier ModprobeArgs_DeepCopyInto ModprobeArgs_view"
  unfolding ModprobeArgs_view_def ModprobeArgs_DeepCopyInto_def [abs_def]
  by (rule copier_struct, simp add: view_intros, simp del: not_None_eq, (elim conjE)?,
      (rule copy_steps | assumption | simp add: copier_intros; fail)+, (simp add: fresh_copy_flat)?)

lemmas ModprobeArgs_local [view_intros] = deep_copier.local [OF ModprobeArgs_copier]
lemmas ModprobeArgs_step [copy_steps] = copying_step [OF _ _ ModprobeArgs_copier]

lemma ModprobeSpec_copier [copier_intros]: "deep_copier ModprobeSpec_DeepCopyInto ModprobeSpec_view"
  unfolding ModprobeSpec_view_def ModprobeSpec_DeepCopyInto_def [abs_def]
  by (rule copier_struct, simp add: view_intros, simp del: not_None_eq, (elim conjE)?,
      (rule copy_steps | assumption | simp add: copier_intros; fail)+, (simp add: fresh_copy_flat)?)

lemmas ModprobeSpec_local [view_intros] = deep_copier.local [OF ModprobeSpec_copier]
lemmas ModprobeSpec_step [copy_steps] = copying_step [OF _ _ ModprobeSpec_copier]

lemma ModuleLoaderContainerSpec_copier [copier_intros]: "deep_copier ModuleLoaderContainerSpec_DeepCopyInto ModuleLoaderContainerSpec_view"
  unfolding ModuleLoaderContainerSpec_view_def ModuleLoaderContainerSpec_DeepCopyInto_def [abs_def]
  by (rule copier_struct, simp add: view_intros, simp del: not_None_eq, (elim conjE)?,
      (rule copy_steps | assumption | simp add: copier_intros; fail)+, (simp add: fresh_copy_flat)?)

lemmas ModuleLoaderContainerSpec_local [view_intros] = deep_copier.local [OF ModuleLoaderContainerSpec_copier]
lemmas ModuleLoaderContainerSpec_step [copy_steps] = copying_step [OF _ _ ModuleLoaderContainerSpec_copier]

lemma ModuleLoaderSpec_copier [copier_intros]: "deep_copier ModuleLoaderSpec_DeepCopyInto ModuleLoaderSpec_view"
  unfolding ModuleLoaderSpec_view_def ModuleLoaderSpec_DeepCopyInto_def [abs_def]
  by (rule copier_struct, simp add: view_intros, simp del: not_None_eq, (elim conjE)?,
      (rule copy_steps | assumption | simp add: copier_intros; fail)+, (simp add: fresh_copy_flat)?)

lemmas ModuleLoaderSpec_local [view_intros] = deep_copier.local [OF ModuleLoaderSpec_copier]
lemmas ModuleLoaderSpec_step [copy_steps] = copying_step [OF _ _ ModuleLoaderSpec_copier]

lemma foreign_copier [copier_intros]:
  assumes "k8s_copies K"
  shows "deep_copier (f_DeepCopyInto (k_ObjectMeta K)) (f_View (k_ObjectMeta K))"
    and "deep_copier (f_DeepCopyInto (k_ListMeta K)) (f_View (k_ListMeta K))"
    and "deep_copier (f_DeepCopyInto (k_EnvVar K)) (f_View (k_EnvVar K))"
    and "deep_copier (f_DeepCopyInto (k_ResourceRequirements K)) (f_View (k_ResourceRequirements K))"
    and "deep_copier (f_DeepCopyInto (k_VolumeMount K)) (f_View (k_VolumeMount K))"
    and "deep_copier (f_DeepCopyInto (k_Volume K)) (f_View (k_Volume K))"
    and "deep_copier (f_DeepCopyInto (k_Time K)) (f_View (k_Time K))"
  using assms by (simp_all add: k8s_copies_def copies_deeply_def)

lemmas foreign_local [view_intros] = foreign_copier [THEN deep_copier.local]

lemma DevicePluginContainerSpec_copier [copier_intros]:
  assumes "k8s_copies K"
  shows "deep_copier (DevicePluginContainerSpec_DeepCopyInto K) (DevicePluginContainerSpec_view K)"
  unfolding DevicePluginContainerSpec_view_def DevicePluginContainerSpec_DeepCopyInto_def [abs_def]
  by (rule copier_struct, simp add: view_intros assms, simp del: not_None_eq, (elim conjE)?,
      (rule copy_steps | assumption | simp add: copier_intros assms; fail)+, (simp add: fresh_copy_flat)?)

lemmas DevicePluginContainerSpec_local [view_intros] = DevicePluginContainerSpec_copier [THEN deep_copier.local]
lemmas DevicePluginContainerSpec_step [copy_steps] = copying_step [OF _ _ DevicePluginContainerSpec_copier]

lemma DevicePluginSpec_copier [copier_intros]:
  assumes "k8s_copies K"
  shows "deep_copier (DevicePluginSpec_DeepCopyInto K) (DevicePluginSpec_view K)"
  unfolding DevicePluginSpec_view_def DevicePluginSpec_DeepCopyInto_def [abs_def]
  by (rule copier_struct, simp add: view_intros assms, simp del: not_None_eq, (elim conjE)?,
      (rule copy_steps | assumption | simp add: copier_intros assms; fail)+, (simp add: fresh_copy_flat)?)

lemmas DevicePluginSpec_local [view_intros] = DevicePluginSpec_copier [THEN deep_copier.local]
lemmas DevicePluginSpec_step [copy_steps] = copying_step [OF _ _ DevicePluginSpec_copier]

lemma ModuleSpec_copier [copier_intros]:
  assumes "k8s_copies K"
  shows "deep_copier (ModuleSpec_DeepCopyInto K) (ModuleSpec_view K)"
  unfolding ModuleSpec_view_def ModuleSpec_DeepCopyInto_def [abs_def]
  by (rule copier_struct, simp add: view_intros assms, simp del: not_None_eq, (elim conjE)?,
      (rule copy_steps | assumption | simp add: copier_intros assms; fail)+, (simp add: fresh_copy_flat)?)

lemmas ModuleSpec_local [view_intros] = ModuleSpec_copier [THEN deep_copier.local]
lemmas ModuleSpec_step [copy_steps] = copying_step [OF _ _ ModuleSpec_copier]

lemma Module_copier [copier_intros]:
  assumes "k8s_copies K"
  shows "deep_copier (Module_DeepCopyInto K) (Module_view K)"
  unfolding Module_view_def Module_DeepCopyInto_def [abs_def]
  by (rule copier_struct, simp add: view_intros assms, simp del: not_None_eq, (elim conjE)?,
      (rule copy_steps | assumption | simp add: copier_intros assms; fail)+, (simp add: fresh_copy_flat)?)

lemmas Module_local [view_intros] = Module_copier [THEN deep_copier.local]
lemmas Module_step [copy_steps] = copying_step [OF _ _ Module_copier]

lemma ModuleList_copier [copier_intros]:
  assumes "k8s_copies K"
  shows "deep_copier (ModuleList_DeepCopyInto K) (ModuleList_view K)"
  unfolding ModuleList_view_def ModuleList_DeepCopyInto_def [abs_def]
  by (rule copier_struct, simp add: view_intros assms, simp del: not_None_eq, (elim conjE)?,
      (rule copy_steps | assumption | simp add: copier_intros assms; fail)+, (simp add: fresh_copy_flat)?)

lemmas ModuleList_local [view_intros] = ModuleList_copier [THEN deep_copier.local]
lemmas ModuleList_step [copy_steps] = copying_step [OF _ _ ModuleList_copier]

lemma CRStatus_copier [copier_intros]:
  assumes "k8s_copies K"
  shows "deep_copier (CRStatus_DeepCopyInto K) (CRStatus_view K)"
  unfolding CRStatus_view_def CRStatus_DeepCopyInto_def [abs_def]
  by (rule copier_struct, simp add: view_intros assms, simp del: not_None_eq, (elim conjE)?,
      (rule copy_steps | assumption | simp add: copier_intros assms; fail)+, (simp add: fresh_copy_flat)?)

lemmas CRStatus_local [view_intros] = CRStatus_copier [THEN deep_copier.local]
lemmas CRStatus_step [copy_steps] = copying_step [OF _ _ CRStatus_copier]

text \<open>The double assignment of a \<open>nil\<close> status is one assignment, so the loop is that of any other map.\<close>

lemma mput_same [simp]: "mput (mput m k v) k v = mput m k v"
  by (induction m) auto

lemma bind_go_ret_assoc: "bind_go (bind_go m (\<lambda>_. ret a)) k = bind_go m (\<lambda>_. k a)"
  by (rule ext) (simp add: go_simps split: prod.split res.split)

lemma bind_go_ret [simp]: "bind_go (ret a) k = k a"
  by (rule ext) (simp add: go_simps)

lemma map_set_twice:
  assumes "\<And>m. prj (emb m) = Some m"
  shows "bind_go (map_set emb prj a k v) (\<lambda>_. map_set emb prj a k v) = map_set emb prj a k v"
proof
  fix h
  show "bind_go (map_set emb prj a k v) (\<lambda>_. map_set emb prj a k v) h = map_set emb prj a k v h"
  proof (cases "peek prj h a")
    case None
    then show ?thesis by (simp add: map_set_def load_obj_def go_simps)
  next
    case (Some m)
    then show ?thesis
      using peek_Some_less [OF Some] by (simp add: map_set_def go_simps memory_simps assms)
  qed
qed

lemma copy_CRStatuses_copy_map:
  "copy_CRStatuses K = copy_map (k_Range K) CCRStatusMap un_CRStatusMap
     (copy_ptr CCRStatus un_CRStatus (blank_CRStatus K) (CRStatus_DeepCopyInto K))"
proof -
  have "bind_go
      (if v = None then bind_go (map_set CCRStatusMap un_CRStatusMap out k None) (\<lambda>_. ret None)
       else copy_ptr CCRStatus un_CRStatus (blank_CRStatus K) (CRStatus_DeepCopyInto K) v)
      (\<lambda>outVal. map_set CCRStatusMap un_CRStatusMap out k outVal) =
    bind_go (copy_ptr CCRStatus un_CRStatus (blank_CRStatus K) (CRStatus_DeepCopyInto K) v)
      (\<lambda>v. map_set CCRStatusMap un_CRStatusMap out k v)" for out k v
  proof (cases v)
    case None
    then show ?thesis
      using map_set_twice [of un_CRStatusMap CCRStatusMap out k None]
      by (simp add: copy_ptr_def bind_go_ret_assoc)
  qed simp
  then show ?thesis
    unfolding copy_CRStatuses_def [abs_def] copy_map_def [abs_def] by simp
qed

lemmas CRStatuses_step [copy_steps] =
  copying_step [where into = "copy_CRStatuses K" and
    vw = "map_view un_CRStatusMap (ptr_view un_CRStatus (CRStatus_view K))" for K]

lemma CRStatuses_copier [copier_intros]:
  "k8s_copies K \<Longrightarrow> deep_copier (copy_CRStatuses K)
     (map_view un_CRStatusMap (ptr_view un_CRStatus (CRStatus_view K)))"
  unfolding copy_CRStatuses_copy_map by (simp add: copier_intros)

lemma PreflightValidationStatus_copier [copier_intros]:
  assumes "k8s_copies K"
  shows "deep_copier (PreflightValidationStatus_DeepCopyInto K) (PreflightValidationStatus_view K)"
  unfolding PreflightValidationStatus_view_def PreflightValidationStatus_DeepCopyInto_def [abs_def]
  by (rule copier_struct, simp add: view_intros assms, simp del: not_None_eq, (elim conjE)?,
      (rule copy_steps | assumption | simp add: copier_intros assms; fail)+, (simp add: fresh_copy_flat)?)

lemmas PreflightValidationStatus_local [view_intros] = PreflightValidationStatus_copier [THEN deep_copier.local]
lemmas PreflightValidationStatus_step [copy_steps] = copying_step [OF _ _ PreflightValidationStatus_copier]

lemma PreflightValidation_copier [copier_intros]:
  assumes "k8s_copies K"
  shows "deep_copier (PreflightValidation_DeepCopyInto K) (PreflightValidation_view K)"
  unfolding PreflightValidation_view_def PreflightValidation_DeepCopyInto_def [abs_def]
  by (rule copier_struct, simp add: view_intros assms, simp del: not_None_eq, (elim conjE)?,
      (rule copy_steps | assumption | simp add: copier_intros assms; fail)+, (simp add: fresh_copy_flat)?)

lemmas PreflightValidation_local [view_intros] = PreflightValidation_copier [THEN deep_copier.local]
lemmas PreflightValidation_step [copy_steps] = copying_step [OF _ _ PreflightValidation_copier]

lemma PreflightValidationList_copier [copier_intros]:
  assumes "k8s_copies K"
  shows "deep_copier (PreflightValidationList_DeepCopyInto K) (PreflightValidationList_view K)"
  unfolding PreflightValidationList_view_def PreflightValidationList_DeepCopyInto_def [abs_def]
  by (rule copier_struct, simp add: view_intros assms, simp del: not_None_eq, (elim conjE)?,
      (rule copy_steps | assumption | simp add: copier_intros assms; fail)+, (simp add: fresh_copy_flat)?)

lemmas PreflightValidationList_local [view_intros] = PreflightValidationList_copier [THEN deep_copier.local]
lemmas PreflightValidationList_step [copy_steps] = copying_step [OF _ _ PreflightValidationList_copier]

lemma ManagedClusterModuleSpec_copier [copier_intros]:
  assumes "k8s_copies K"
  shows "deep_copier (ManagedClusterModuleSpec_DeepCopyInto K) (ManagedClusterModuleSpec_view K)"
  unfolding ManagedClusterModuleSpec_view_def ManagedClusterModuleSpec_DeepCopyInto_def [abs_def]
  by (rule copier_struct, simp add: view_intros assms, simp del: not_None_eq, (elim conjE)?,
      (rule copy_steps | assumption | simp add: copier_intros assms; fail)+, (simp add: fresh_copy_flat)?)

lemmas ManagedClusterModuleSpec_local [view_intros] = ManagedClusterModuleSpec_copier [THEN deep_copier.local]
lemmas ManagedClusterModuleSpec_step [copy_steps] = copying_step [OF _ _ ManagedClusterModuleSpec_copier]

lemma ManagedClusterModule_copier [copier_intros]:
  assumes "k8s_copies K"
  shows "deep_copier (ManagedClusterModule_DeepCopyInto K) (ManagedClusterModule_view K)"
  unfolding ManagedClusterModule_view_def ManagedClusterModule_DeepCopyInto_def [abs_def]
  by (rule copier_struct, simp add: view_intros assms, simp del: not_None_eq, (elim conjE)?,
      (rule copy_steps | assumption | simp add: copier_intros assms; fail)+, (simp add: fresh_copy_flat)?)

lemmas ManagedClusterModule_local [view_intros] = ManagedClusterModule_copier [THEN deep_copier.local]
lemmas ManagedClusterModule_step [copy_steps] = copying_step [OF _ _ ManagedClusterModule_copier]

lemma ManagedClusterModuleList_copier [copier_intros]:
  assumes "k8s_copies K"
  shows "deep_copier (ManagedClusterModuleList_DeepCopyInto K) (ManagedClusterModuleList_view K)"
  unfolding ManagedClusterModuleList_view_def ManagedClusterModuleList_DeepCopyInto_def [abs_def]
  by (rule copier_struct, simp add: view_intros assms, simp del: not_None_eq, (elim conjE)?,
      (rule copy_steps | assumption | simp add: copier_intros assms; fail)+, (simp add: fresh_copy_flat)?)

lemmas ManagedClusterModuleList_local [view_intros] = ManagedClusterModuleList_copier [THEN deep_copier.local]
lemmas ManagedClusterModuleList_step [copy_steps] = copying_step [OF _ _ ManagedClusterModuleList_copier]

section \<open>Interpretations\<close>

text \<open>The copying functions that need nothing of the Kubernetes libraries keep the contract as they stand.\<close>

interpretation build_copy: deep_copier Build_DeepCopyInto Build_view
  by (rule Build_copier)

interpretation sign_copy: deep_copier Sign_DeepCopyInto Sign_view
  by (rule Sign_copier)

interpretation loader_copy: deep_copier ModuleLoaderSpec_DeepCopyInto ModuleLoaderSpec_view
  by (rule ModuleLoaderSpec_copier)

lemma Build_DeepCopy_copier: "deep_copier Build_DeepCopy (ptr_view un_Build Build_view)"
  unfolding Build_DeepCopy_def [abs_def] by (simp add: copier_intros)

lemma Sign_DeepCopy_copier: "deep_copier Sign_DeepCopy (ptr_view un_Sign Sign_view)"
  unfolding Sign_DeepCopy_def [abs_def] by (simp add: copier_intros)

interpretation build_pointer: deep_copier Build_DeepCopy "ptr_view un_Build Build_view"
  by (rule Build_DeepCopy_copier)

interpretation sign_pointer: deep_copier Sign_DeepCopy "ptr_view un_Sign Sign_view"
  by (rule Sign_DeepCopy_copier)

section \<open>Correctness\<close>

lemma resource_copier:
  assumes "k8s_copies K"
  shows "deep_copier (Module_DeepCopy K) (ptr_view un_Module (Module_view K))"
    and "deep_copier (ModuleList_DeepCopy K) (ptr_view un_ModuleList (ModuleList_view K))"
    and "deep_copier (PreflightValidation_DeepCopy K)
          (ptr_view un_PreflightValidation (PreflightValidation_view K))"
    and "deep_copier (PreflightValidationList_DeepCopy K)
          (ptr_view un_PreflightValidationList (PreflightValidationList_view K))"
    and "deep_copier (ManagedClusterModule_DeepCopy K)
          (ptr_view un_ManagedClusterModule (ManagedClusterModule_view K))"
    and "deep_copier (ManagedClusterModuleList_DeepCopy K)
          (ptr_view un_ManagedClusterModuleList (ManagedClusterModuleList_view K))"
  unfolding Module_DeepCopy_def [abs_def] ModuleList_DeepCopy_def [abs_def]
    PreflightValidation_DeepCopy_def [abs_def] PreflightValidationList_DeepCopy_def [abs_def]
    ManagedClusterModule_DeepCopy_def [abs_def] ManagedClusterModuleList_DeepCopy_def [abs_def]
  by (simp_all add: copier_intros assms)

text \<open>
  C11. A deep copy of a resource of the API, or of a list of them, is an independent copy: \<open>DeepCopy\<close>
  returns (\<open>nil\<close> for \<open>nil\<close>), nothing that was in memory changes, the copy has exactly the value of the
  original (every field, with \<open>nil\<close> kept apart from empty), and the two share no object, so that no
  later change through one of them shows in the other.
\<close>

theorem API_DeepCopy_independent:
  assumes "k8s_copies K"
  shows "independent_copy (Module_DeepCopy K) (ptr_view un_Module (Module_view K)) h p \<and>
    independent_copy (ModuleList_DeepCopy K) (ptr_view un_ModuleList (ModuleList_view K)) h p \<and>
    independent_copy (PreflightValidation_DeepCopy K)
      (ptr_view un_PreflightValidation (PreflightValidation_view K)) h p \<and>
    independent_copy (PreflightValidationList_DeepCopy K)
      (ptr_view un_PreflightValidationList (PreflightValidationList_view K)) h p \<and>
    independent_copy (ManagedClusterModule_DeepCopy K)
      (ptr_view un_ManagedClusterModule (ManagedClusterModule_view K)) h p \<and>
    independent_copy (ManagedClusterModuleList_DeepCopy K)
      (ptr_view un_ManagedClusterModuleList (ManagedClusterModuleList_view K)) h p"
  by (intro conjI resource_copier [OF assms, THEN deep_copier.copy_is_independent])

text \<open>Wrapping the copy into an interface value.\<close>

lemma object_copier:
  assumes "deep_copier copy (ptr_view prj vw)" and "ptr_view prj vw h (Some a) = Some t"
  shows "\<exists>c h' u. bind_go (copy (Some a)) (\<lambda>p. case p of Some c \<Rightarrow> ret (Some (wrap c)) | None \<Rightarrow> ret None) h = (Ok (Some (wrap c)), h') \<and>
    prefix h h' \<and> ptr_view prj vw h' (Some c) = Some u \<and> forget u = forget t"
proof -
  obtain q h' u where q: "copy (Some a) h = (Ok q, h')" "prefix h h'" "ptr_view prj vw h' q = Some u" "forget u = forget t"
    using deep_copier.copy_is_independent [OF assms(1), of h "Some a"] assms(2) unfolding independent_copy_def by blast
  then obtain c where "q = Some c"
    using assms(2) by (cases q) (auto simp: ptr_view_Some_iff)
  then show ?thesis using q by (auto simp: bind_go_run ret_run)
qed

lemmas DeepCopyObject_defs = Module_DeepCopyObject_def ModuleList_DeepCopyObject_def PreflightValidation_DeepCopyObject_def
  PreflightValidationList_DeepCopyObject_def ManagedClusterModule_DeepCopyObject_def ManagedClusterModuleList_DeepCopyObject_def

lemma nil_DeepCopyObject:
  "Module_DeepCopyObject K None h = (Ok None, h)"
  "ModuleList_DeepCopyObject K None h = (Ok None, h)"
  "PreflightValidation_DeepCopyObject K None h = (Ok None, h)"
  "PreflightValidationList_DeepCopyObject K None h = (Ok None, h)"
  "ManagedClusterModule_DeepCopyObject K None h = (Ok None, h)"
  "ManagedClusterModuleList_DeepCopyObject K None h = (Ok None, h)"
  by (simp_all add: DeepCopyObject_defs Module_DeepCopy_def ModuleList_DeepCopy_def PreflightValidation_DeepCopy_def
      PreflightValidationList_DeepCopy_def ManagedClusterModule_DeepCopy_def ManagedClusterModuleList_DeepCopy_def
      copy_ptr_def bind_go_run ret_run)

text \<open>
  C30. \<open>DeepCopyObject\<close> keeps the dynamic type.  Called on an interface value that holds a pointer to a
  well-typed object (every pointer, slice and map in it leads to memory of its type), it returns an
  interface value of the same kind that holds a pointer to a well-typed object again, with the same
  value; the old memory is unchanged.  On a \<open>nil\<close> pointer of any kind it returns the \<open>nil\<close> interface.
\<close>

theorem DeepCopyObject_keeps_type:
  assumes "k8s_copies K" and "object_view K h ob = Some t"
  shows "\<exists>ob' h' u. call_DeepCopyObject K ob h = (Ok (Some ob'), h') \<and> prefix h h' \<and> object_kind ob' = object_kind ob \<and>
      object_view K h' ob' = Some u \<and> forget u = forget t \<and>
    Module_DeepCopyObject K None h = (Ok None, h) \<and>
    ModuleList_DeepCopyObject K None h = (Ok None, h) \<and>
    PreflightValidation_DeepCopyObject K None h = (Ok None, h) \<and>
    PreflightValidationList_DeepCopyObject K None h = (Ok None, h) \<and>
    ManagedClusterModule_DeepCopyObject K None h = (Ok None, h) \<and>
    ManagedClusterModuleList_DeepCopyObject K None h = (Ok None, h)"
proof -
  note copier = resource_copier [OF assms(1)]
  note nil = nil_DeepCopyObject [of K h]
  show ?thesis
    using assms(2)
  proof (cases ob)
    case (ObjModule a)
    then show ?thesis
      using object_copier [OF copier(1), of h a t ObjModule] assms(2) nil
      by (auto simp: call_DeepCopyObject_def object_view_def object_kind_def DeepCopyObject_defs)
  next
    case (ObjModuleList a)
    then show ?thesis
      using object_copier [OF copier(2), of h a t ObjModuleList] assms(2) nil
      by (auto simp: call_DeepCopyObject_def object_view_def object_kind_def DeepCopyObject_defs)
  next
    case (ObjPreflightValidation a)
    then show ?thesis
      using object_copier [OF copier(3), of h a t ObjPreflightValidation] assms(2) nil
      by (auto simp: call_DeepCopyObject_def object_view_def object_kind_def DeepCopyObject_defs)
  next
    case (ObjPreflightValidationList a)
    then show ?thesis
      using object_copier [OF copier(4), of h a t ObjPreflightValidationList] assms(2) nil
      by (auto simp: call_DeepCopyObject_def object_view_def object_kind_def DeepCopyObject_defs)
  next
    case (ObjManagedClusterModule a)
    then show ?thesis
      using object_copier [OF copier(5), of h a t ObjManagedClusterModule] assms(2) nil
      by (auto simp: call_DeepCopyObject_def object_view_def object_kind_def DeepCopyObject_defs)
  next
    case (ObjManagedClusterModuleList a)
    then show ?thesis
      using object_copier [OF copier(6), of h a t ObjManagedClusterModuleList] assms(2) nil
      by (auto simp: call_DeepCopyObject_def object_view_def object_kind_def DeepCopyObject_defs)
  qed
qed

text \<open>
  A sample memory: a Module whose loader has one kernel mapping with a build section, a selector
  and an image secret.  The libraries' types are strings here, without references.
\<close>

definition plain_foreign :: "string foreign" where
  "plain_foreign = \<lparr>f_Zero = '''', f_View = flat_view String_tree, f_DeepCopyInto = ret\<rparr>"

definition plain_k8s :: "string k8s" where
  "plain_k8s = \<lparr>k_ObjectMeta = plain_foreign, k_ListMeta = plain_foreign, k_EnvVar = plain_foreign,
     k_ResourceRequirements = plain_foreign, k_VolumeMount = plain_foreign, k_Volume = plain_foreign,
     k_Time = plain_foreign, k_Range = rev\<rparr>"

lemma plain_k8s_copies: "k8s_copies plain_k8s"
  by (simp add: k8s_copies_def copies_deeply_def plain_k8s_def plain_foreign_def copier_flat)

definition sample_build_L :: Build_L where
  "sample_build_L = blank_Build\<lparr>bl_BuildArgs := Some \<lparr>sl_Array = 0, sl_Off = 0, sl_Len = 1, sl_Cap = 1\<rparr>\<rparr>"

definition sample_mapping_L :: KernelMapping_L where
  "sample_mapping_L = blank_KernelMapping\<lparr>kml_Build := Some 1, kml_Literal := ''5.14''\<rparr>"

definition sample_spec_L :: ModuleSpec_L where
  "sample_spec_L = blank_ModuleSpec
     \<lparr>msl_ModuleLoader := blank_ModuleLoaderSpec\<lparr>mll_Container := blank_ModuleLoaderContainerSpec
        \<lparr>mlcl_KernelMappings := Some \<lparr>sl_Array = 2, sl_Off = 0, sl_Len = 1, sl_Cap = 2\<rparr>\<rparr>\<rparr>,
      msl_ImageRepoSecret := Some 3, msl_Selector := Some 4\<rparr>"

definition sample_memory :: "string cell mem" where
  "sample_memory =
     [CBuildArgs [\<lparr>ba_Name = ''A'', ba_Value = ''1''\<rparr>], CBuild sample_build_L,
      CKernelMappings [sample_mapping_L, blank_KernelMapping],
      CLocalObjectReference \<lparr>lor_Name = ''pull''\<rparr>, CStringMap [(''zone'', ''a''), (''arch'', ''x86'')],
      CModule ((blank_Module plain_k8s)\<lparr>modl_ObjectMeta := ''kmm'', modl_Spec := sample_spec_L\<rparr>)]"

lemmas blank_defs = blank_Build_def blank_KernelMapping_def blank_ModuleSpec_def
  blank_ModuleLoaderSpec_def blank_ModuleLoaderContainerSpec_def blank_ModprobeSpec_def
  blank_TLSOptions_def blank_Module_def blank_TypeMeta_def blank_ModuleStatus_def
  blank_DaemonSetStatus_def blank_BuildArg_def blank_LocalObjectReference_def

lemmas sample_memory_defs = sample_memory_def sample_spec_L_def sample_mapping_L_def
  sample_build_L_def plain_k8s_def plain_foreign_def blank_defs

lemmas view_defs = ptr_view_def slice_view_def map_view_def struct_view_def field_view_def
  flat_view_def peek_def window_def slice_ok_def String_tree_def BuildArg_tree_def
  LocalObjectReference_tree_def TLSOptions_tree_def TypeMeta_tree_def DaemonSetStatus_tree_def
  ModuleStatus_tree_def Module_view_def ModuleSpec_view_def ModuleLoaderSpec_view_def
  ModuleLoaderContainerSpec_view_def ModprobeSpec_view_def KernelMapping_view_def Build_view_def

lemma sample_memory_view:
  "ptr_view un_Module (Module_view plain_k8s) sample_memory (Some 5) \<noteq> None"
  by (simp add: sample_memory_defs view_defs)

theorem API_DeepCopy_independent_witness:
  "k8s_copies plain_k8s \<and>
   (\<exists>q h'. Module_DeepCopy plain_k8s (Some 5) sample_memory = (Ok q, h') \<and> prefix sample_memory h' \<and>
     map_option forget (ptr_view un_Module (Module_view plain_k8s) h' q) =
     map_option forget (ptr_view un_Module (Module_view plain_k8s) sample_memory (Some 5)))"
  using API_DeepCopy_independent [OF plain_k8s_copies, of sample_memory "Some 5"] sample_memory_view
    plain_k8s_copies
  unfolding independent_copy_def by fastforce

theorem DeepCopyObject_keeps_type_witness:
  "k8s_copies plain_k8s \<and>
   (\<exists>ob' h'. call_DeepCopyObject plain_k8s (ObjModule 5) sample_memory = (Ok (Some ob'), h') \<and> object_kind ob' = ''Module'')"
proof -
  obtain t where "object_view plain_k8s sample_memory (ObjModule 5) = Some t"
    using sample_memory_view by (auto simp: object_view_def)
  from DeepCopyObject_keeps_type [OF plain_k8s_copies this] plain_k8s_copies show ?thesis
    by (auto simp: object_kind_def)
qed

end
