(* ===== verification/Config_Memory.thy ===== *)
theory Config_Memory
  imports Deep_Copy Config_Helpers
begin

text \<open>
  \<open>internal/build/helper.go\<close> over Go's memory.  \<open>Config_Helpers\<close> has the same functions on values; the
  code itself writes arguments in place and appends to slices, which is safe only because it works
  on a deep copy.  Here the in-place code is modelled with its writes, and shown to compute the value
  of \<open>Config_Helpers\<close> without changing anything that was in memory before: neither the Module nor the
  kernel mapping, which both live in objects that other code reads.
\<close>

section \<open>The code\<close>

definition update_obj :: "('t \<Rightarrow> 'c) \<Rightarrow> ('c \<Rightarrow> 't option) \<Rightarrow> addr \<Rightarrow> ('t \<Rightarrow> 't) \<Rightarrow> ('c mem, unit) go" where
  "update_obj emb prj a f = bind_go (load_obj prj a) (\<lambda>x. store_obj a (emb (f x)))"

text \<open>
  The loop \<open>for i := 0; i < len(args); i++\<close>: an argument with an override is overwritten, and the
  override counts as used.  The map of overrides is local to the function.
\<close>

definition mem_override_args ::
    "(string \<times> BuildArg) list \<Rightarrow> slice option \<Rightarrow> string list \<Rightarrow> ('x cell mem, string list) go" where
  "mem_override_args overridesMap args unusedOverrides = (case args of
      None \<Rightarrow> ret unusedOverrides
    | Some s \<Rightarrow> loop [0..<sl_Len s]
        (\<lambda>i unused. bind_go (slice_get un_BuildArgs s i)
        (\<lambda>a. case map_of overridesMap (ba_Name a) of
            None \<Rightarrow> ret unused
          | Some ov \<Rightarrow> bind_go (slice_set CBuildArgs un_BuildArgs s i ov)
              (\<lambda>_. ret (removeAll (ba_Name a) unused)))) unusedOverrides)"

definition mem_ApplyBuildArgOverrides ::
    "(nat \<Rightarrow> nat) \<Rightarrow> slice option \<Rightarrow> slice option \<Rightarrow> ('x cell mem, slice option) go" where
  "mem_ApplyBuildArgOverrides grow args overrides =
     bind_go (slice_elems un_BuildArgs overrides) (\<lambda>ovs.
     let overridesMap = mputs [] (map (\<lambda>ov. (ba_Name ov, ov)) ovs) in
     bind_go (mem_override_args overridesMap args (map fst overridesMap)) (\<lambda>unusedOverrides.
     loop (sort unusedOverrides)
       (\<lambda>name args. slice_append CBuildArgs un_BuildArgs blank_BuildArg grow args
          [the (map_of overridesMap name)]) args))"

definition mem_GetRelevantBuild ::
    "(nat \<Rightarrow> nat) \<Rightarrow> addr option \<Rightarrow> addr option \<Rightarrow> ('x cell mem, addr option) go" where
  "mem_GetRelevantBuild grow moduleBuild mappingBuild = (case moduleBuild of
      None \<Rightarrow> Build_DeepCopy mappingBuild
    | Some mb \<Rightarrow> (case mappingBuild of
        None \<Rightarrow> Build_DeepCopy moduleBuild
      | Some kb \<Rightarrow>
          bind_go (Build_DeepCopy moduleBuild) (\<lambda>p.
          bind_go (pure_go (deref p)) (\<lambda>buildConfig.
          bind_go (load_obj un_Build kb) (\<lambda>k.
          bind_go (if bl_DockerfileConfigMap k \<noteq> None
              then update_obj CBuild un_Build buildConfig
                (\<lambda>b. b\<lparr>bl_DockerfileConfigMap := bl_DockerfileConfigMap k\<rparr>)
              else ret ()) (\<lambda>_.
          bind_go (load_obj un_Build buildConfig) (\<lambda>b.
          bind_go (mem_ApplyBuildArgOverrides grow (bl_BuildArgs b) (bl_BuildArgs k)) (\<lambda>args.
          bind_go (update_obj CBuild un_Build buildConfig (\<lambda>b. b\<lparr>bl_BuildArgs := args\<rparr>)) (\<lambda>_.
          bind_go (load_obj un_Build buildConfig) (\<lambda>b.
          bind_go (slice_elems un_LocalObjectReferences (bl_Secrets k)) (\<lambda>extra.
          bind_go (slice_append CLocalObjectReferences un_LocalObjectReferences
              blank_LocalObjectReference grow (bl_Secrets b) extra) (\<lambda>secrets.
          bind_go (update_obj CBuild un_Build buildConfig (\<lambda>b. b\<lparr>bl_Secrets := secrets\<rparr>)) (\<lambda>_.
          ret (Some buildConfig))))))))))))))"

section \<open>Values in memory\<close>

definition slice_value :: "('c \<Rightarrow> 'e list option) \<Rightarrow> 'c mem \<Rightarrow> slice option \<Rightarrow> 'e list" where
  "slice_value prj h p = (case p of
      None \<Rightarrow> []
    | Some s \<Rightarrow> (case peek prj h (sl_Array s) of None \<Rightarrow> [] | Some xs \<Rightarrow> window s xs))"

definition ptr_value :: "('c \<Rightarrow> 't option) \<Rightarrow> 'c mem \<Rightarrow> addr option \<Rightarrow> 't option" where
  "ptr_value prj h p = Option.bind p (peek prj h)"

definition Build_value :: "'x cell mem \<Rightarrow> Build_L \<Rightarrow> Build" where
  "Build_value h b = \<lparr>build_BuildArgs = slice_value un_BuildArgs h (bl_BuildArgs b),
     build_DockerfileConfigMap = ptr_value un_LocalObjectReference h (bl_DockerfileConfigMap b),
     build_BaseImageRegistryTLS = bl_BaseImageRegistryTLS b,
     build_Secrets = slice_value un_LocalObjectReferences h (bl_Secrets b),
     build_KanikoParams = ptr_value un_KanikoParams h (bl_KanikoParams b)\<rparr>"

definition build_at :: "'x cell mem \<Rightarrow> addr option \<Rightarrow> Build option" where
  "build_at h p = map_option (Build_value h) (ptr_value un_Build h p)"

text \<open>A slice that the code may write: its array is at an address from \<open>n\<close> on.\<close>

definition owns :: "addr \<Rightarrow> ('c \<Rightarrow> 'e list option) \<Rightarrow> 'c mem \<Rightarrow> slice option \<Rightarrow> 'e list \<Rightarrow> bool" where
  "owns n prj h p xs \<longleftrightarrow> (case p of
      None \<Rightarrow> xs = []
    | Some s \<Rightarrow> n \<le> sl_Array s \<and>
        (\<exists>ys. peek prj h (sl_Array s) = Some ys \<and> slice_ok s ys \<and> window s ys = xs))"

text \<open>Only objects from the address \<open>n\<close> on that can be read with \<open>prj\<close> have changed.\<close>

definition touches :: "addr \<Rightarrow> ('c \<Rightarrow> 't option) \<Rightarrow> 'c mem \<Rightarrow> 'c mem \<Rightarrow> bool" where
  "touches n prj h h' \<longleftrightarrow> length h \<le> length h' \<and>
     (\<forall>a<length h. h' ! a = h ! a \<or> n \<le> a \<and> prj (h ! a) \<noteq> None)"

section \<open>Lemmas\<close>

lemma touches_refl [simp]: "touches n prj h h"
  by (simp add: touches_def)

lemma touches_trans: "touches n prj h h1 \<Longrightarrow> touches n prj h1 h2 \<Longrightarrow> touches n prj h h2"
  unfolding touches_def by (metis le_trans less_le_trans)

lemma touches_new: "touches n prj h (h @ [c])"
  by (simp add: touches_def nth_append)

lemma touches_update: "peek prj h a = Some x \<Longrightarrow> n \<le> a \<Longrightarrow> touches n prj h (h[a := c])"
  by (auto simp: touches_def peek_def nth_list_update split: if_splits)

lemma touches_prefix:
  assumes "prefix h0 h" and "touches n prj h h'" and "length h0 \<le> n"
  shows "prefix h0 h'"
proof -
  have "take (length h0) h' = h0"
  proof (rule nth_equalityI)
    show "length (take (length h0) h') = length h0"
      using assms(1,2) prefix_length_le [OF assms(1)] by (simp add: touches_def)
    fix i
    assume "i < length (take (length h0) h')"
    then have "i < length h0" by simp
    then have "i < length h \<and> \<not> n \<le> i"
      using assms(3) prefix_length_le [OF assms(1)] by simp
    then have "h' ! i = h ! i"
      using assms(2) by (auto simp: touches_def)
    then show "take (length h0) h' ! i = h0 ! i"
      using \<open>i < length h0\<close> prefix_nth [OF assms(1)] by simp
  qed
  then show ?thesis by (metis take_is_prefix)
qed

lemma touches_peek:
  assumes "touches n prj h h'" and "peek prj' h a = Some x" and "a < n \<or> (\<forall>c. prj' c \<noteq> None \<longrightarrow> prj c = None)"
  shows "peek prj' h' a = Some x"
  using assms by (auto simp: touches_def peek_def split: if_splits)

lemma owns_frame:
  assumes "owns n prj h p xs" and "touches m prj' h h'" and "\<forall>c. prj c \<noteq> None \<longrightarrow> prj' c = None"
  shows "owns n prj h' p xs"
  using assms touches_peek [OF assms(2)] by (fastforce simp: owns_def split: option.splits)

lemma owns_value: "owns n prj h p xs \<Longrightarrow> slice_value prj h p = xs"
  by (auto simp: owns_def slice_value_def split: option.splits)

lemma window_append:
  assumes "slice_ok s xs" and "sl_Len s + length vs \<le> sl_Cap s"
  shows "window (s\<lparr>sl_Len := sl_Len s + length vs\<rparr>)
      (take (sl_Off s + sl_Len s) xs @ vs @ drop (sl_Off s + sl_Len s + length vs) xs) = window s xs @ vs"
  using assms by (simp add: window_def slice_ok_def drop_take)

lemma append_owns:
  assumes prj: "\<And>xs. prj (emb xs) = Some xs" and "owns n prj h p xs" and "n \<le> length h"
  shows "\<exists>p' h'. slice_append emb prj zero grow p vs h = (Ok p', h') \<and> owns n prj h' p' (xs @ vs) \<and>
      touches n prj h h'"
proof (cases "vs = []")
  case True
  then show ?thesis using assms(2) by (simp add: slice_append_def ret_run)
next
  case False
  show ?thesis
  proof (cases p)
    case None
    then show ?thesis
      using False assms by (simp add: slice_append_def go_simps memory_simps owns_def window_def
          slice_ok_def touches_new)
  next
    case (Some s)
    then obtain ys where ys: "peek prj h (sl_Array s) = Some ys" "slice_ok s ys" "window s ys = xs"
        "n \<le> sl_Array s"
      using assms(2) by (auto simp: owns_def)
    have a: "sl_Array s < length h" by (rule peek_Some_less [OF ys(1)])
    show ?thesis
    proof (cases "sl_Len s + length vs \<le> sl_Cap s")
      case True
      have "slice_ok (s\<lparr>sl_Len := sl_Len s + length vs\<rparr>)
          (take (sl_Off s + sl_Len s) ys @ vs @ drop (sl_Off s + sl_Len s + length vs) ys)"
        using True ys(2) by (simp add: slice_ok_def)
      then show ?thesis
        using False True ys a window_append [OF ys(2) True]
        by (simp add: slice_append_def Some go_simps memory_simps owns_def prj touches_update Let_def)
    next
      case full: False
      have "length xs = sl_Len s" using ys(2,3) by auto
      then have "window \<lparr>sl_Array = length h, sl_Off = 0, sl_Len = sl_Len s + length vs, sl_Cap = c\<rparr>
          (xs @ vs @ zs) = xs @ vs" for c zs
        by (simp add: window_def)
      then show ?thesis
        using False full ys assms(3) \<open>length xs = sl_Len s\<close>
        by (simp add: slice_append_def Some go_simps memory_simps owns_def prj touches_new slice_ok_def
            Let_def)
    qed
  qed
qed

lemma set_owns:
  assumes prj: "\<And>xs. prj (emb xs) = Some xs" and "owns n prj h (Some s) xs" and "i < length xs"
  shows "\<exists>h'. slice_set emb prj s i v h = (Ok (), h') \<and> owns n prj h' (Some s) (xs[i := v]) \<and>
      touches n prj h h'"
proof -
  obtain ys where ys: "peek prj h (sl_Array s) = Some ys" "slice_ok s ys" "window s ys = xs"
      "n \<le> sl_Array s"
    using assms(2) by (auto simp: owns_def)
  have "window s (ys[sl_Off s + i := v]) = xs[i := v]"
    using ys(3) by (auto simp: window_def drop_update_swap take_update_swap)
  moreover have "slice_ok s (ys[sl_Off s + i := v])"
    using ys(2) by (simp add: slice_ok_def)
  ultimately show ?thesis
    using ys assms(3) peek_Some_less [OF ys(1)]
    by (simp add: slice_set_def go_simps memory_simps owns_def prj touches_update)
qed

lemma get_owns: "owns n prj h (Some s) xs \<Longrightarrow> i < length xs \<Longrightarrow> slice_get prj s i h = (Ok (xs ! i), h)"
  by (auto simp: owns_def slice_get_def go_simps memory_simps)

lemma elems_owns: "owns n prj h p xs \<Longrightarrow> slice_elems prj p h = (Ok xs, h)"
  by (auto simp: owns_def slice_elems_def go_simps memory_simps split: option.splits)

lemma override_loop:
  assumes body: "body = (\<lambda>i unused. bind_go (slice_get un_BuildArgs s i)
        (\<lambda>a. case map_of m (ba_Name a) of
            None \<Rightarrow> ret unused
          | Some ov \<Rightarrow> bind_go (slice_set CBuildArgs un_BuildArgs s i ov)
              (\<lambda>_. ret (removeAll (ba_Name a) unused))))"
    and "owns n un_BuildArgs h (Some s) (xs @ rest)" and "sl_Len s = length xs + length rest"
  shows "\<exists>h'. loop [length xs..<sl_Len s] body unused h = (Ok (snd (override_args m rest unused)), h') \<and>
      owns n un_BuildArgs h' (Some s) (xs @ fst (override_args m rest unused)) \<and>
      touches n un_BuildArgs h h'"
  using assms(2,3)
proof (induction rest arbitrary: xs h unused)
  case Nil
  then show ?case by (simp add: ret_run)
next
  case (Cons a rest)
  have upt: "[length xs..<sl_Len s] = length xs # [length (xs @ [b])..<sl_Len s]" for b
    using upt_conv_Cons [of "length xs" "sl_Len s"] Cons.prems(2) by (simp del: upt_Suc)
  have get: "slice_get un_BuildArgs s (length xs) h = (Ok a, h)"
    using get_owns [OF Cons.prems(1), of "length xs"] by simp
  show ?case
  proof (cases "map_of m (ba_Name a)")
    case None
    then have "body (length xs) unused h = (Ok unused, h)"
      using get by (simp add: body bind_go_run ret_run)
    then show ?thesis
      using Cons.IH [of h "xs @ [a]" unused] Cons.prems None
      unfolding upt [of a] by (auto simp: bind_go_run case_prod_beta simp del: upt_Suc)
  next
    case (Some ov)
    obtain h1 where h1: "slice_set CBuildArgs un_BuildArgs s (length xs) ov h = (Ok (), h1)"
        "owns n un_BuildArgs h1 (Some s) ((xs @ [ov]) @ rest)" "touches n un_BuildArgs h h1"
      using set_owns [OF un_cell(29) Cons.prems(1), of "length xs" ov] by auto
    have "body (length xs) unused h = (Ok (removeAll (ba_Name a) unused), h1)"
      using get Some h1(1) by (simp add: body bind_go_run ret_run)
    then show ?thesis
      using Cons.IH [OF h1(2), of "removeAll (ba_Name a) unused"] Cons.prems(2) Some h1(3)
      unfolding upt [of ov]
      by (auto simp: bind_go_run case_prod_beta simp del: upt_Suc intro: touches_trans)
  qed
qed

lemma override_mem:
  assumes "owns n un_BuildArgs h p xs"
  shows "\<exists>h'. mem_override_args m p unused h = (Ok (snd (override_args m xs unused)), h') \<and>
      owns n un_BuildArgs h' p (fst (override_args m xs unused)) \<and> touches n un_BuildArgs h h'"
proof (cases p)
  case None
  then show ?thesis using assms by (simp add: mem_override_args_def owns_def ret_run)
next
  case (Some s)
  then have "sl_Len s = length xs"
    using assms by (auto simp: owns_def)
  then show ?thesis
    using override_loop [OF refl, of n h s "[]" xs m unused] assms Some
    by (simp add: mem_override_args_def)
qed

lemma append_loop:
  assumes "owns n un_BuildArgs h p xs" and "n \<le> length h"
  shows "\<exists>p' h'. loop names (\<lambda>name args. slice_append CBuildArgs un_BuildArgs blank_BuildArg grow args [f name]) p h
      = (Ok p', h') \<and> owns n un_BuildArgs h' p' (xs @ map f names) \<and> touches n un_BuildArgs h h'"
  using assms
proof (induction names arbitrary: p xs h)
  case (Cons name names)
  obtain p1 h1 where h1: "slice_append CBuildArgs un_BuildArgs blank_BuildArg grow p [f name] h = (Ok p1, h1)"
      "owns n un_BuildArgs h1 p1 (xs @ [f name])" "touches n un_BuildArgs h h1"
    using append_owns [OF un_cell(29) Cons.prems] by blast
  then have "n \<le> length h1"
    using Cons.prems(2) by (simp add: touches_def)
  then show ?case
    using Cons.IH [OF h1(2)] h1 by (auto simp: bind_go_run intro: touches_trans)
qed (simp add: ret_run)

lemma mem_ApplyBuildArgOverrides_refines:
  assumes "owns n un_BuildArgs h args xs" and "owns 0 un_BuildArgs h overrides ovs" and "n \<le> length h"
  shows "\<exists>p h'. mem_ApplyBuildArgOverrides grow args overrides h = (Ok p, h') \<and>
      owns n un_BuildArgs h' p (ApplyBuildArgOverrides xs ovs) \<and> touches n un_BuildArgs h h'"
proof -
  define m where "m = mputs [] (map (\<lambda>ov. (ba_Name ov, ov)) ovs)"
  obtain h1 where h1: "mem_override_args m args (map fst m) h = (Ok (snd (override_args m xs (map fst m))), h1)"
      "owns n un_BuildArgs h1 args (fst (override_args m xs (map fst m)))" "touches n un_BuildArgs h h1"
    using override_mem [OF assms(1)] by blast
  have "n \<le> length h1"
    using assms(3) h1(3) by (simp add: touches_def)
  then obtain p h2 where "loop (sort (snd (override_args m xs (map fst m)))) (\<lambda>name args.
        slice_append CBuildArgs un_BuildArgs blank_BuildArg grow args [the (map_of m name)]) args h1 = (Ok p, h2)"
      "owns n un_BuildArgs h2 p (ApplyBuildArgOverrides xs ovs)" "touches n un_BuildArgs h1 h2"
    using append_loop [OF h1(2), of "sort (snd (override_args m xs (map fst m)))" grow "\<lambda>name. the (map_of m name)"]
    by (auto simp: ApplyBuildArgOverrides_def m_def [symmetric] case_prod_beta Let_def)
  then show ?thesis
    using elems_owns [OF assms(2)] h1 touches_trans
    by (fastforce simp: mem_ApplyBuildArgOverrides_def bind_go_run m_def [symmetric] Let_def)
qed

subsection \<open>Trees and values\<close>

lemma flat_those: "those (map (flat_view g h) xs) = Some us \<Longrightarrow> us = map g xs"
  by (induction xs arbitrary: us) (auto simp: flat_view_def split: if_splits option.splits)

lemma slice_value_tree:
  assumes "slice_view prj (flat_view g) h p = Some t" and "slice_view prj (flat_view g) h' p' = Some t'"
    and "forget t = forget t'" and "inj (\<lambda>x. forget (g x))"
  shows "slice_value prj h p = slice_value prj h' p'"
proof (cases p; cases p')
  fix s s'
  assume p: "p = Some s" "p' = Some s'"
  obtain xs us where xs: "peek prj h (sl_Array s) = Some xs"
      "those (map (flat_view g h) (window s xs)) = Some us" "t = GSlice (sl_Array s) us"
    using assms(1) p by (auto simp: slice_view_Some_iff)
  obtain xs' us' where xs': "peek prj h' (sl_Array s') = Some xs'"
      "those (map (flat_view g h') (window s' xs')) = Some us'" "t' = GSlice (sl_Array s') us'"
    using assms(2) p by (auto simp: slice_view_Some_iff)
  have "map (\<lambda>x. forget (g x)) (window s xs) = map (\<lambda>x. forget (g x)) (window s' xs')"
    using assms(3) flat_those [OF xs(2)] flat_those [OF xs'(2)] xs(3) xs'(3) by (simp add: comp_def)
  then have "window s xs = window s' xs'"
    using assms(4) by (simp add: inj_map_eq_map)
  then show ?thesis
    using xs(1) xs'(1) p by (simp add: slice_value_def)
qed (use assms in \<open>auto simp: slice_value_def slice_view_Some_iff\<close>)

lemma ptr_value_tree:
  assumes "ptr_view prj (flat_view g) h p = Some t" and "ptr_view prj (flat_view g) h' p' = Some t'"
    and "forget t = forget t'" and "inj (\<lambda>x. forget (g x))"
  shows "ptr_value prj h p = ptr_value prj h' p'"
proof (cases p; cases p')
  fix a a'
  assume p: "p = Some a" "p' = Some a'"
  then obtain x x' where "peek prj h a = Some x" "peek prj h' a' = Some x'" "forget (g x) = forget (g x')"
    using assms(1-3) by (auto simp: ptr_view_Some_iff flat_view_def split: if_splits)
  then show ?thesis
    using p assms(4) by (simp add: ptr_value_def inj_def)
qed (use assms in \<open>auto simp: ptr_value_def ptr_view_Some_iff\<close>)

lemma inj_trees:
  "inj (\<lambda>x. forget (BuildArg_tree x))" "inj (\<lambda>x. forget (LocalObjectReference_tree x))"
  "inj (\<lambda>x. forget (KanikoParams_tree x))"
  by (auto simp: inj_def BuildArg_tree_def LocalObjectReference_tree_def KanikoParams_tree_def)

lemma Build_view_Some_iff:
  "Build_view h b = Some t \<longleftrightarrow> (\<exists>t1 t2 t4 t5.
     slice_view un_BuildArgs (flat_view BuildArg_tree) h (bl_BuildArgs b) = Some t1 \<and>
     reference_view h (bl_DockerfileConfigMap b) = Some t2 \<and>
     slice_view un_LocalObjectReferences (flat_view LocalObjectReference_tree) h (bl_Secrets b) = Some t4 \<and>
     ptr_view un_KanikoParams (flat_view KanikoParams_tree) h (bl_KanikoParams b) = Some t5 \<and>
     t = GStruct [t1, t2, TLSOptions_tree (bl_BaseImageRegistryTLS b), t4, t5])"
  by (auto simp: Build_view_def struct_view_def field_view_def flat_view_def TLSOptions_tree_def
      split: option.splits)

lemma Build_value_tree:
  fixes h h' :: "'x cell mem"
  assumes "Build_view h b = Some t" and "Build_view h' b' = Some t'" and "forget t = forget t'"
  shows "Build_value h b = Build_value h' b'"
proof -
  obtain t1 t2 t4 t5 where t: "slice_view un_BuildArgs (flat_view BuildArg_tree) h (bl_BuildArgs b) = Some t1"
      "reference_view h (bl_DockerfileConfigMap b) = Some t2"
      "slice_view un_LocalObjectReferences (flat_view LocalObjectReference_tree) h (bl_Secrets b) = Some t4"
      "ptr_view un_KanikoParams (flat_view KanikoParams_tree) h (bl_KanikoParams b) = Some t5"
      "t = GStruct [t1, t2, TLSOptions_tree (bl_BaseImageRegistryTLS b), t4, t5]"
    using assms(1) by (auto simp: Build_view_Some_iff)
  obtain u1 u2 u4 u5 where u: "slice_view un_BuildArgs (flat_view BuildArg_tree) h' (bl_BuildArgs b') = Some u1"
      "reference_view h' (bl_DockerfileConfigMap b') = Some u2"
      "slice_view un_LocalObjectReferences (flat_view LocalObjectReference_tree) h' (bl_Secrets b') = Some u4"
      "ptr_view un_KanikoParams (flat_view KanikoParams_tree) h' (bl_KanikoParams b') = Some u5"
      "t' = GStruct [u1, u2, TLSOptions_tree (bl_BaseImageRegistryTLS b'), u4, u5]"
    using assms(2) by (auto simp: Build_view_Some_iff)
  have eq: "forget t1 = forget u1" "forget t2 = forget u2" "forget t4 = forget u4" "forget t5 = forget u5"
      "bl_BaseImageRegistryTLS b = bl_BaseImageRegistryTLS b'"
    using assms(3) t(5) u(5) by (auto simp: TLSOptions_tree_def)
  show ?thesis
    using slice_value_tree [OF t(1) u(1) eq(1) inj_trees(1)] ptr_value_tree [OF t(2) u(2) eq(2) inj_trees(2)]
      slice_value_tree [OF t(3) u(3) eq(3) inj_trees(2)] ptr_value_tree [OF t(4) u(4) eq(4) inj_trees(3)] eq(5)
    by (simp add: Build_value_def)
qed

lemma owns_view:
  assumes "slice_view prj vw h p = Some t" and "addresses t \<subseteq> {n..}"
  shows "owns n prj h p (slice_value prj h p)"
  using assms by (cases p) (auto simp: owns_def slice_value_def slice_view_Some_iff)

lemma owns_prefix: "owns n prj h p xs \<Longrightarrow> prefix h h' \<Longrightarrow> owns n prj h' p xs"
  using prefix_peek [of h h' prj] by (fastforce simp: owns_def split: option.splits)

lemma ptr_value_frame:
  assumes "touches n prj' h h'" and "\<forall>c. prj c \<noteq> None \<longrightarrow> prj' c = None"
    and "ptr_view prj vw h p \<noteq> None"
  shows "ptr_value prj h' p = ptr_value prj h p"
proof (cases p)
  case (Some a)
  then obtain x where "peek prj h a = Some x"
    using assms(3) by (auto simp: ptr_view_Some_iff)
  then show ?thesis
    using touches_peek [OF assms(1), of prj a x] assms(2) Some by (simp add: ptr_value_def)
qed (simp add: ptr_value_def)

lemma un_disjoint:
  "un_Build c \<noteq> None \<longrightarrow> un_BuildArgs c = None" "un_Build c \<noteq> None \<longrightarrow> un_LocalObjectReferences c = None"
  "un_BuildArgs c \<noteq> None \<longrightarrow> un_Build c = None"
  "un_BuildArgs c \<noteq> None \<longrightarrow> un_LocalObjectReferences c = None"
  "un_LocalObjectReferences c \<noteq> None \<longrightarrow> un_Build c = None"
  "un_LocalObjectReferences c \<noteq> None \<longrightarrow> un_BuildArgs c = None"
  "un_LocalObjectReference c \<noteq> None \<longrightarrow> un_Build c = None"
  "un_LocalObjectReference c \<noteq> None \<longrightarrow> un_BuildArgs c = None"
  "un_LocalObjectReference c \<noteq> None \<longrightarrow> un_LocalObjectReferences c = None"
  "un_KanikoParams c \<noteq> None \<longrightarrow> un_Build c = None"
  "un_KanikoParams c \<noteq> None \<longrightarrow> un_BuildArgs c = None"
  "un_KanikoParams c \<noteq> None \<longrightarrow> un_LocalObjectReferences c = None"
  by (cases c; simp add: un_Build_def un_BuildArgs_def un_LocalObjectReferences_def
      un_LocalObjectReference_def un_KanikoParams_def)+

subsection \<open>The steps of the code\<close>

text \<open>The build settings under construction: an object of our own, with slices of our own.\<close>

definition config :: "addr \<Rightarrow> 'x cell mem \<Rightarrow> addr \<Rightarrow> Build \<Rightarrow> bool" where
  "config n h a v \<longleftrightarrow> n \<le> a \<and> (\<exists>b. peek un_Build h a = Some b \<and> Build_value h b = v \<and>
     owns n un_BuildArgs h (bl_BuildArgs b) (build_BuildArgs v) \<and>
     owns n un_LocalObjectReferences h (bl_Secrets b) (build_Secrets v) \<and>
     reference_view h (bl_DockerfileConfigMap b) \<noteq> None \<and>
     ptr_view un_KanikoParams (flat_view KanikoParams_tree) h (bl_KanikoParams b) \<noteq> None)"

lemma touches_any: "touches n prj h h' \<Longrightarrow> touches n Some h h'"
  by (auto simp: touches_def)

lemma ptr_view_frame:
  assumes "touches n prj' h h'" and "\<forall>c. prj c \<noteq> None \<longrightarrow> prj' c = None"
    and "ptr_view prj (flat_view g) h p \<noteq> None"
  shows "ptr_view prj (flat_view g) h' p \<noteq> None"
proof (cases p)
  case (Some a)
  then obtain x where "peek prj h a = Some x" "flat_view g h x \<noteq> None"
    using assms(3) by (auto simp: ptr_view_Some_iff)
  then show ?thesis
    using touches_peek [OF assms(1), of prj a x] assms(2) Some
    by (auto simp: ptr_view_def flat_view_def split: if_splits)
qed simp

lemma update_run:
  assumes "peek prj h a = Some x"
  shows "update_obj emb prj a f h = (Ok (), h[a := emb (f x)])"
  using assms peek_Some_less [OF assms] by (simp add: update_obj_def go_simps memory_simps)

text \<open>Writing a field of the settings, once the new contents are in memory.\<close>

lemma config_write:
  assumes "peek un_Build h a = Some b" and "n \<le> a" and "h' = h[a := CBuild b']"
    and "owns n un_BuildArgs h (bl_BuildArgs b') (build_BuildArgs v)"
    and "owns n un_LocalObjectReferences h (bl_Secrets b') (build_Secrets v)"
    and "reference_view h (bl_DockerfileConfigMap b') \<noteq> None"
    and "ptr_view un_KanikoParams (flat_view KanikoParams_tree) h (bl_KanikoParams b') \<noteq> None"
    and "Build_value h b' = v"
  shows "config n h' a v \<and> touches n un_Build h h'"
proof -
  have t: "touches n un_Build h h'"
    unfolding assms(3) by (rule touches_update [OF assms(1,2)])
  have o: "owns n un_BuildArgs h' (bl_BuildArgs b') (build_BuildArgs v)"
      "owns n un_LocalObjectReferences h' (bl_Secrets b') (build_Secrets v)"
    using owns_frame [OF assms(4) t] owns_frame [OF assms(5) t] un_disjoint(3,5) by blast+
  have p: "reference_view h' (bl_DockerfileConfigMap b') \<noteq> None"
      "ptr_view un_KanikoParams (flat_view KanikoParams_tree) h' (bl_KanikoParams b') \<noteq> None"
    using ptr_view_frame [OF t _ assms(6)] ptr_view_frame [OF t _ assms(7)] un_disjoint(7,10) by blast+
  have q: "ptr_value un_LocalObjectReference h' (bl_DockerfileConfigMap b') =
        ptr_value un_LocalObjectReference h (bl_DockerfileConfigMap b')"
      "ptr_value un_KanikoParams h' (bl_KanikoParams b') = ptr_value un_KanikoParams h (bl_KanikoParams b')"
    using ptr_value_frame [OF t _ assms(6)] ptr_value_frame [OF t _ assms(7)] un_disjoint(7,10) by blast+
  have "Build_value h' b' = v"
    using owns_value [OF o(1)] owns_value [OF o(2)] q assms(8) by (auto simp: Build_value_def)
  moreover have "peek un_Build h' a = Some b'"
    using peek_Some_less [OF assms(1)] by (simp add: assms(3) memory_simps)
  ultimately show ?thesis
    using t o p assms(2) by (auto simp: config_def)
qed

lemma config_DockerfileConfigMap:
  assumes "config n h a v" and "reference_view h p \<noteq> None"
  shows "\<exists>h'. update_obj CBuild un_Build a (\<lambda>b. b\<lparr>bl_DockerfileConfigMap := p\<rparr>) h = (Ok (), h') \<and>
    touches n Some h h' \<and>
    config n h' a (v\<lparr>build_DockerfileConfigMap := ptr_value un_LocalObjectReference h p\<rparr>)"
proof -
  obtain b where b: "n \<le> a" "peek un_Build h a = Some b" "Build_value h b = v"
      "owns n un_BuildArgs h (bl_BuildArgs b) (build_BuildArgs v)"
      "owns n un_LocalObjectReferences h (bl_Secrets b) (build_Secrets v)"
      "ptr_view un_KanikoParams (flat_view KanikoParams_tree) h (bl_KanikoParams b) \<noteq> None"
    using assms(1) by (auto simp: config_def)
  have "Build_value h (b\<lparr>bl_DockerfileConfigMap := p\<rparr>) =
      v\<lparr>build_DockerfileConfigMap := ptr_value un_LocalObjectReference h p\<rparr>"
    using b(3) by (auto simp: Build_value_def)
  then show ?thesis
    using config_write [OF b(2,1) refl, of "b\<lparr>bl_DockerfileConfigMap := p\<rparr>"
        "v\<lparr>build_DockerfileConfigMap := ptr_value un_LocalObjectReference h p\<rparr>"] b assms(2) touches_any
    by (fastforce simp: update_run [OF b(2)])
qed

lemma config_BuildArgs:
  assumes "config n h a v" and "n \<le> length h" and "owns 0 un_BuildArgs h p ovs"
  shows "\<exists>b q h1 h2. load_obj un_Build a h = (Ok b, h) \<and>
    mem_ApplyBuildArgOverrides grow (bl_BuildArgs b) p h = (Ok q, h1) \<and>
    update_obj CBuild un_Build a (\<lambda>b. b\<lparr>bl_BuildArgs := q\<rparr>) h1 = (Ok (), h2) \<and> touches n Some h h2 \<and>
    config n h2 a (v\<lparr>build_BuildArgs := ApplyBuildArgOverrides (build_BuildArgs v) ovs\<rparr>)"
proof -
  obtain b where b: "n \<le> a" "peek un_Build h a = Some b" "Build_value h b = v"
      "owns n un_BuildArgs h (bl_BuildArgs b) (build_BuildArgs v)"
      "owns n un_LocalObjectReferences h (bl_Secrets b) (build_Secrets v)"
      "reference_view h (bl_DockerfileConfigMap b) \<noteq> None"
      "ptr_view un_KanikoParams (flat_view KanikoParams_tree) h (bl_KanikoParams b) \<noteq> None"
    using assms(1) by (auto simp: config_def)
  obtain q h1 where q: "mem_ApplyBuildArgOverrides grow (bl_BuildArgs b) p h = (Ok q, h1)"
      "owns n un_BuildArgs h1 q (ApplyBuildArgOverrides (build_BuildArgs v) ovs)"
      "touches n un_BuildArgs h h1"
    using mem_ApplyBuildArgOverrides_refines [OF b(4) assms(3,2)] by blast
  have b1: "peek un_Build h1 a = Some b" "owns n un_LocalObjectReferences h1 (bl_Secrets b) (build_Secrets v)"
      "reference_view h1 (bl_DockerfileConfigMap b) \<noteq> None"
      "ptr_view un_KanikoParams (flat_view KanikoParams_tree) h1 (bl_KanikoParams b) \<noteq> None"
      "ptr_value un_LocalObjectReference h1 (bl_DockerfileConfigMap b) =
        ptr_value un_LocalObjectReference h (bl_DockerfileConfigMap b)"
      "ptr_value un_KanikoParams h1 (bl_KanikoParams b) = ptr_value un_KanikoParams h (bl_KanikoParams b)"
    using touches_peek [OF q(3) b(2)] owns_frame [OF b(5) q(3)] ptr_view_frame [OF q(3) _ b(6)]
      ptr_view_frame [OF q(3) _ b(7)] ptr_value_frame [OF q(3) _ b(6)] ptr_value_frame [OF q(3) _ b(7)]
      un_disjoint(1,6,8,11) by blast+
  have "Build_value h1 (b\<lparr>bl_BuildArgs := q\<rparr>) =
      v\<lparr>build_BuildArgs := ApplyBuildArgOverrides (build_BuildArgs v) ovs\<rparr>"
    using b(3) b1(5,6) owns_value [OF q(2)] owns_value [OF b1(2)] by (auto simp: Build_value_def)
  then have "config n (h1[a := CBuild (b\<lparr>bl_BuildArgs := q\<rparr>)]) a
        (v\<lparr>build_BuildArgs := ApplyBuildArgOverrides (build_BuildArgs v) ovs\<rparr>) \<and>
      touches n un_Build h1 (h1[a := CBuild (b\<lparr>bl_BuildArgs := q\<rparr>)])"
    using q(2) b1(2-4) by (intro config_write [OF b1(1) b(1) refl]) simp_all
  then show ?thesis
    using q(1) update_run [OF b1(1)] load_run [OF b(2)]
      touches_trans [OF touches_any [OF q(3)] touches_any] by blast
qed

lemma config_Secrets:
  assumes "config n h a v" and "n \<le> length h"
  shows "\<exists>b q h1 h2. load_obj un_Build a h = (Ok b, h) \<and>
    slice_append CLocalObjectReferences un_LocalObjectReferences blank_LocalObjectReference grow
      (bl_Secrets b) extra h = (Ok q, h1) \<and>
    update_obj CBuild un_Build a (\<lambda>b. b\<lparr>bl_Secrets := q\<rparr>) h1 = (Ok (), h2) \<and> touches n Some h h2 \<and>
    config n h2 a (v\<lparr>build_Secrets := build_Secrets v @ extra\<rparr>)"
proof -
  obtain b where b: "n \<le> a" "peek un_Build h a = Some b" "Build_value h b = v"
      "owns n un_BuildArgs h (bl_BuildArgs b) (build_BuildArgs v)"
      "owns n un_LocalObjectReferences h (bl_Secrets b) (build_Secrets v)"
      "reference_view h (bl_DockerfileConfigMap b) \<noteq> None"
      "ptr_view un_KanikoParams (flat_view KanikoParams_tree) h (bl_KanikoParams b) \<noteq> None"
    using assms(1) by (auto simp: config_def)
  obtain q h1 where q: "slice_append CLocalObjectReferences un_LocalObjectReferences
        blank_LocalObjectReference grow (bl_Secrets b) extra h = (Ok q, h1)"
      "owns n un_LocalObjectReferences h1 q (build_Secrets v @ extra)"
      "touches n un_LocalObjectReferences h h1"
    using append_owns [OF un_cell(30) b(5) assms(2)] by blast
  have b1: "peek un_Build h1 a = Some b" "owns n un_BuildArgs h1 (bl_BuildArgs b) (build_BuildArgs v)"
      "reference_view h1 (bl_DockerfileConfigMap b) \<noteq> None"
      "ptr_view un_KanikoParams (flat_view KanikoParams_tree) h1 (bl_KanikoParams b) \<noteq> None"
      "ptr_value un_LocalObjectReference h1 (bl_DockerfileConfigMap b) =
        ptr_value un_LocalObjectReference h (bl_DockerfileConfigMap b)"
      "ptr_value un_KanikoParams h1 (bl_KanikoParams b) = ptr_value un_KanikoParams h (bl_KanikoParams b)"
    using touches_peek [OF q(3) b(2)] owns_frame [OF b(4) q(3)] ptr_view_frame [OF q(3) _ b(6)]
      ptr_view_frame [OF q(3) _ b(7)] ptr_value_frame [OF q(3) _ b(6)] ptr_value_frame [OF q(3) _ b(7)]
      un_disjoint(2,4,9,12) by blast+
  have "Build_value h1 (b\<lparr>bl_Secrets := q\<rparr>) = v\<lparr>build_Secrets := build_Secrets v @ extra\<rparr>"
    using b(3) b1(5,6) owns_value [OF q(2)] owns_value [OF b1(2)] by (auto simp: Build_value_def)
  then have "config n (h1[a := CBuild (b\<lparr>bl_Secrets := q\<rparr>)]) a
        (v\<lparr>build_Secrets := build_Secrets v @ extra\<rparr>) \<and>
      touches n un_Build h1 (h1[a := CBuild (b\<lparr>bl_Secrets := q\<rparr>)])"
    using q(2) b1(2-4) by (intro config_write [OF b1(1) b(1) refl]) simp_all
  then show ?thesis
    using q(1) update_run [OF b1(1)] load_run [OF b(2)]
      touches_trans [OF touches_any [OF q(3)] touches_any] by blast
qed

text \<open>The settings as \<open>DeepCopy\<close> leaves them.\<close>

lemma Build_DeepCopy_value:
  assumes "ptr_view un_Build Build_view h p \<noteq> None"
  shows "\<exists>q h'. Build_DeepCopy p h = (Ok q, h') \<and> prefix h h' \<and> build_at h' q = build_at h p \<and>
    (\<forall>a. q = Some a \<longrightarrow> (\<exists>v. build_at h p = Some v \<and> config (length h) h' a v))"
proof -
  obtain t q h' u where q: "ptr_view un_Build Build_view h p = Some t" "Build_DeepCopy p h = (Ok q, h')"
      "prefix h h'" "ptr_view un_Build Build_view h' q = Some u" "forget u = forget t"
      "addresses u \<subseteq> {length h..<length h'}"
    using build_pointer.copies [OF assms] by (auto simp: runs_def fresh_copy_def fresh_from_def)
  show ?thesis
  proof (cases q)
    case None
    then have "p = None" using q by (cases p) (auto simp: ptr_view_Some_iff)
    then show ?thesis using q None by (simp add: build_at_def ptr_value_def)
  next
    case (Some a)
    then obtain b tb where b: "peek un_Build h' a = Some b" "Build_view h' b = Some tb" "u = GPtr a tb"
      using q(4) by (auto simp: ptr_view_Some_iff)
    then obtain a0 b0 t0 where p: "p = Some a0" "peek un_Build h a0 = Some b0" "Build_view h b0 = Some t0"
        "t = GPtr a0 t0"
      using q(1,5) by (cases p) (auto simp: ptr_view_Some_iff)
    have v: "Build_value h' b = Build_value h b0"
      using Build_value_tree [OF b(2) p(3)] q(5) b(3) p(4) by simp
    have "addresses tb \<subseteq> {length h..}" and a: "length h \<le> a"
      using q(6) b(3) by auto
    then have "config (length h) h' a (Build_value h' b)"
      using b(1,2) owns_view [of un_BuildArgs _ h' "bl_BuildArgs b"]
        owns_view [of un_LocalObjectReferences _ h' "bl_Secrets b"]
      by (fastforce simp: config_def Build_view_Some_iff Build_value_def)
    then show ?thesis
      using q(2,3) b(1) p(1,2) v Some by (auto simp: build_at_def ptr_value_def)
  qed
qed

lemma build_at_Some:
  assumes "ptr_view un_Build Build_view h (Some a) \<noteq> None"
  obtains b where "peek un_Build h a = Some b" "build_at h (Some a) = Some (Build_value h b)"
    "owns 0 un_BuildArgs h (bl_BuildArgs b) (build_BuildArgs (Build_value h b))"
    "owns 0 un_LocalObjectReferences h (bl_Secrets b) (build_Secrets (Build_value h b))"
    "reference_view h (bl_DockerfileConfigMap b) \<noteq> None"
    "bl_DockerfileConfigMap b = None \<longleftrightarrow> build_DockerfileConfigMap (Build_value h b) = None"
proof -
  obtain b t where b: "peek un_Build h a = Some b" "Build_view h b = Some t"
    using assms by (auto simp: ptr_view_Some_iff)
  obtain t1 t2 t4 where t: "slice_view un_BuildArgs (flat_view BuildArg_tree) h (bl_BuildArgs b) = Some t1"
      "reference_view h (bl_DockerfileConfigMap b) = Some t2"
      "slice_view un_LocalObjectReferences (flat_view LocalObjectReference_tree) h (bl_Secrets b) = Some t4"
    using b(2) by (auto simp: Build_view_Some_iff)
  show thesis
  proof (rule that)
    show "bl_DockerfileConfigMap b = None \<longleftrightarrow> build_DockerfileConfigMap (Build_value h b) = None"
      using t(2) by (cases "bl_DockerfileConfigMap b")
        (auto simp: Build_value_def ptr_value_def ptr_view_Some_iff)
  qed (use b t owns_view [OF t(1), of 0] owns_view [OF t(3), of 0] in
      \<open>simp_all add: build_at_def ptr_value_def Build_value_def\<close>)
qed

lemma config_set_DockerfileConfigMap:
  assumes "config n h a v" and "reference_view h p \<noteq> None"
  shows "\<exists>h'. (if p \<noteq> None then update_obj CBuild un_Build a (\<lambda>b. b\<lparr>bl_DockerfileConfigMap := p\<rparr>)
      else ret ()) h = (Ok (), h') \<and> touches n Some h h' \<and>
    config n h' a (v\<lparr>build_DockerfileConfigMap :=
      if p \<noteq> None then ptr_value un_LocalObjectReference h p else build_DockerfileConfigMap v\<rparr>)"
  using config_DockerfileConfigMap [OF assms] assms(1) by (cases "p = None") (simp_all add: ret_run)

lemma config_build_at: "config n h a v \<Longrightarrow> build_at h (Some a) = Some v"
  by (auto simp: config_def build_at_def ptr_value_def)

lemma reference_value_prefix:
  assumes "reference_view h p \<noteq> None" and "prefix h h'"
  shows "reference_view h' p \<noteq> None \<and>
    ptr_value un_LocalObjectReference h' p = ptr_value un_LocalObjectReference h p"
proof (cases p)
  case (Some a)
  then obtain x where "peek un_LocalObjectReference h a = Some x"
    using assms(1) by (auto simp: ptr_view_Some_iff)
  moreover have "reference_view h' p \<noteq> None"
    using assms local_view_prefix [OF local_ptr_view [OF local_flat_view]] by blast
  ultimately show ?thesis
    using prefix_peek [OF assms(2)] Some by (simp add: ptr_value_def)
qed (simp add: ptr_value_def)

lemma mem_GetRelevantBuild_both:
  assumes "ptr_view un_Build Build_view h (Some mb) \<noteq> None" and "ptr_view un_Build Build_view h (Some kb) \<noteq> None"
  shows "\<exists>q h'. mem_GetRelevantBuild grow (Some mb) (Some kb) h = (Ok q, h') \<and> prefix h h' \<and>
    build_at h' q = GetRelevantBuild (build_at h (Some mb)) (build_at h (Some kb))"
proof -
  let ?n = "length h"
  obtain k where k: "peek un_Build h kb = Some k" "build_at h (Some kb) = Some (Build_value h k)"
      "owns 0 un_BuildArgs h (bl_BuildArgs k) (build_BuildArgs (Build_value h k))"
      "owns 0 un_LocalObjectReferences h (bl_Secrets k) (build_Secrets (Build_value h k))"
      "reference_view h (bl_DockerfileConfigMap k) \<noteq> None"
      "bl_DockerfileConfigMap k = None \<longleftrightarrow> build_DockerfileConfigMap (Build_value h k) = None"
    by (rule build_at_Some [OF assms(2)])
  obtain m where m: "build_at h (Some mb) = Some (Build_value h m)"
    by (rule build_at_Some [OF assms(1)])
  obtain v a h1 where h1: "build_at h (Some mb) = Some v" "Build_DeepCopy (Some mb) h = (Ok (Some a), h1)"
      "prefix h h1" "config ?n h1 a v"
  proof -
    obtain q h1 where "Build_DeepCopy (Some mb) h = (Ok q, h1)" "prefix h h1"
        "build_at h1 q = build_at h (Some mb)"
        "\<forall>a. q = Some a \<longrightarrow> (\<exists>v. build_at h (Some mb) = Some v \<and> config ?n h1 a v)"
      using Build_DeepCopy_value [OF assms(1)] by blast
    moreover from this m obtain a where "q = Some a"
      by (cases q) (auto simp: build_at_def ptr_value_def)
    ultimately show thesis using that by blast
  qed
  define v2 where "v2 = v\<lparr>build_DockerfileConfigMap :=
      if bl_DockerfileConfigMap k \<noteq> None then ptr_value un_LocalObjectReference h (bl_DockerfileConfigMap k)
      else build_DockerfileConfigMap v\<rparr>"
  obtain h2 where h2: "(if bl_DockerfileConfigMap k \<noteq> None then update_obj CBuild un_Build a
        (\<lambda>b. b\<lparr>bl_DockerfileConfigMap := bl_DockerfileConfigMap k\<rparr>) else ret ()) h1 = (Ok (), h2)"
      "touches ?n Some h1 h2" "config ?n h2 a v2"
    using config_set_DockerfileConfigMap [OF h1(4), of "bl_DockerfileConfigMap k"]
      reference_value_prefix [OF k(5) h1(3)] by (auto simp only: v2_def)
  have p2: "prefix h h2" by (rule touches_prefix [OF h1(3) h2(2) order_refl])
  obtain b2 q3 h3 h4 where h4: "load_obj un_Build a h2 = (Ok b2, h2)"
      "mem_ApplyBuildArgOverrides grow (bl_BuildArgs b2) (bl_BuildArgs k) h2 = (Ok q3, h3)"
      "update_obj CBuild un_Build a (\<lambda>b. b\<lparr>bl_BuildArgs := q3\<rparr>) h3 = (Ok (), h4)" "touches ?n Some h2 h4"
      "config ?n h4 a (v2\<lparr>build_BuildArgs :=
        ApplyBuildArgOverrides (build_BuildArgs v2) (build_BuildArgs (Build_value h k))\<rparr>)"
    using config_BuildArgs [OF h2(3) prefix_length_le [OF p2] owns_prefix [OF k(3) p2]] by blast
  have p4: "prefix h h4" by (rule touches_prefix [OF p2 h4(4) order_refl])
  let ?extra = "build_Secrets (Build_value h k)"
  obtain b4 q5 h5 h6 where h6: "load_obj un_Build a h4 = (Ok b4, h4)"
      "slice_append CLocalObjectReferences un_LocalObjectReferences blank_LocalObjectReference grow
        (bl_Secrets b4) ?extra h4 = (Ok q5, h5)"
      "update_obj CBuild un_Build a (\<lambda>b. b\<lparr>bl_Secrets := q5\<rparr>) h5 = (Ok (), h6)" "touches ?n Some h4 h6"
      "config ?n h6 a (v2\<lparr>build_BuildArgs := ApplyBuildArgOverrides (build_BuildArgs v2)
        (build_BuildArgs (Build_value h k)), build_Secrets := build_Secrets v2 @ ?extra\<rparr>)"
    using config_Secrets [OF h4(5) prefix_length_le [OF p4], of grow ?extra] by auto
  have "mem_GetRelevantBuild grow (Some mb) (Some kb) h = (Ok (Some a), h6)"
    using h1(2) load_run [OF prefix_peek [OF h1(3) k(1)]] h2(1) h4(1-3) h6(1-3)
      elems_owns [OF owns_prefix [OF k(4) p4]]
    by (simp add: mem_GetRelevantBuild_def bind_go_run pure_go_run ret_run)
  moreover have "prefix h h6" by (rule touches_prefix [OF p4 h6(4) order_refl])
  moreover have "build_at h6 (Some a) = GetRelevantBuild (build_at h (Some mb)) (build_at h (Some kb))"
    using config_build_at [OF h6(5)] k(2,6)
    by (auto simp: GetRelevantBuild_def h1(1) v2_def Build_value_def)
  ultimately show ?thesis by blast
qed

lemma build_at_None: "build_at h None = None"
  by (simp add: build_at_def ptr_value_def)

lemma build_at_prefix:
  assumes "ptr_view un_Build Build_view h p \<noteq> None" and "prefix h h'"
  shows "build_at h' p = build_at h p"
proof (cases p)
  case None
  then show ?thesis by (simp add: build_at_def ptr_value_def)
next
  case (Some a)
  then obtain b t where b: "peek un_Build h a = Some b" "Build_view h b = Some t"
    using assms(1) by (auto simp: ptr_view_Some_iff)
  have "Build_view h' b = Some t"
    by (rule local_view_prefix [OF Build_local b(2) assms(2)])
  then have "Build_value h' b = Build_value h b"
    using Build_value_tree [OF _ b(2)] by blast
  then show ?thesis
    using b(1) prefix_peek [OF assms(2) b(1)] Some by (simp add: build_at_def ptr_value_def)
qed

section \<open>The result\<close>

text \<open>
  C9. \<open>GetRelevantBuild\<close> run on memory, with its writes in place, returns settings whose value is what
  the function of \<open>Config_Helpers\<close> computes from the values of the Module and of the mapping (either
  may be \<open>nil\<close>), whatever room \<open>append\<close> leaves in its arrays, and it writes no object that existed
  before: the Module and the kernel mapping keep their values.
\<close>

theorem mem_GetRelevantBuild_refines:
  assumes "ptr_view un_Build Build_view h moduleBuild \<noteq> None"
    and "ptr_view un_Build Build_view h mappingBuild \<noteq> None"
  shows "\<exists>q h'. mem_GetRelevantBuild grow moduleBuild mappingBuild h = (Ok q, h') \<and> prefix h h' \<and>
    build_at h' q = GetRelevantBuild (build_at h moduleBuild) (build_at h mappingBuild) \<and>
    build_at h' moduleBuild = build_at h moduleBuild \<and> build_at h' mappingBuild = build_at h mappingBuild"
proof -
  have "\<exists>q h'. mem_GetRelevantBuild grow moduleBuild mappingBuild h = (Ok q, h') \<and> prefix h h' \<and>
    build_at h' q = GetRelevantBuild (build_at h moduleBuild) (build_at h mappingBuild)"
  proof (cases moduleBuild)
    case None
    then show ?thesis
      using Build_DeepCopy_value [OF assms(2)]
      by (auto simp: mem_GetRelevantBuild_def GetRelevantBuild_def build_at_None)
  next
    case mb: (Some mb)
    show ?thesis
    proof (cases mappingBuild)
      case None
      obtain q h' where "Build_DeepCopy moduleBuild h = (Ok q, h')" "prefix h h'"
          "build_at h' q = build_at h moduleBuild"
        using Build_DeepCopy_value [OF assms(1)] by blast
      then show ?thesis
        using None mb
        by (simp add: mem_GetRelevantBuild_def GetRelevantBuild_def build_at_None split: option.split)
    next
      case (Some kb)
      then show ?thesis
        using mem_GetRelevantBuild_both [of h mb kb grow] assms mb by simp
    qed
  qed
  then show ?thesis
    using build_at_prefix [OF assms(1)] build_at_prefix [OF assms(2)] by blast
qed

text \<open>
  A sample: the Module's build has the argument \<open>A=1\<close> in an array with room for one more, the mapping's
  build overrides \<open>A\<close> and adds \<open>B\<close>.
\<close>

definition two_builds :: "string cell mem" where
  "two_builds =
     [CBuildArgs [\<lparr>ba_Name = ''A'', ba_Value = ''1''\<rparr>, blank_BuildArg],
      CBuild (blank_Build\<lparr>bl_BuildArgs := Some \<lparr>sl_Array = 0, sl_Off = 0, sl_Len = 1, sl_Cap = 2\<rparr>\<rparr>),
      CBuildArgs [\<lparr>ba_Name = ''A'', ba_Value = ''2''\<rparr>, \<lparr>ba_Name = ''B'', ba_Value = ''3''\<rparr>],
      CBuild (blank_Build\<lparr>bl_BuildArgs := Some \<lparr>sl_Array = 2, sl_Off = 0, sl_Len = 2, sl_Cap = 2\<rparr>\<rparr>)]"

lemma two_builds_view:
  "ptr_view un_Build Build_view two_builds (Some 1) \<noteq> None"
  "ptr_view un_Build Build_view two_builds (Some 3) \<noteq> None"
  by (simp_all add: two_builds_def view_defs blank_defs numeral_2_eq_2 numeral_3_eq_3)

lemma two_builds_value:
  "build_at two_builds (Some 1) = Some \<lparr>build_BuildArgs = [\<lparr>ba_Name = ''A'', ba_Value = ''1''\<rparr>],
     build_DockerfileConfigMap = None, build_BaseImageRegistryTLS = blank_TLSOptions,
     build_Secrets = [], build_KanikoParams = None\<rparr>"
  "build_at two_builds (Some 3) = Some \<lparr>build_BuildArgs = [\<lparr>ba_Name = ''A'', ba_Value = ''2''\<rparr>,
       \<lparr>ba_Name = ''B'', ba_Value = ''3''\<rparr>],
     build_DockerfileConfigMap = None, build_BaseImageRegistryTLS = blank_TLSOptions,
     build_Secrets = [], build_KanikoParams = None\<rparr>"
  by (simp_all add: build_at_def ptr_value_def slice_value_def Build_value_def two_builds_def peek_def
      window_def blank_defs numeral_2_eq_2 numeral_3_eq_3)

theorem mem_GetRelevantBuild_refines_witness:
  "\<exists>q h'. mem_GetRelevantBuild (\<lambda>n. n) (Some 1) (Some 3) two_builds = (Ok q, h') \<and> prefix two_builds h' \<and>
     map_option build_BuildArgs (build_at h' q) =
       Some [\<lparr>ba_Name = ''A'', ba_Value = ''2''\<rparr>, \<lparr>ba_Name = ''B'', ba_Value = ''3''\<rparr>] \<and>
     map_option build_BuildArgs (build_at h' (Some 1)) = Some [\<lparr>ba_Name = ''A'', ba_Value = ''1''\<rparr>]"
proof -
  obtain q h' where "mem_GetRelevantBuild (\<lambda>n. n) (Some 1) (Some 3) two_builds = (Ok q, h')"
      "prefix two_builds h'"
      "build_at h' q = GetRelevantBuild (build_at two_builds (Some 1)) (build_at two_builds (Some 3))"
      "build_at h' (Some 1) = build_at two_builds (Some 1)"
    using mem_GetRelevantBuild_refines [OF two_builds_view, of "\<lambda>n. n"] by blast
  then show ?thesis
    by (simp add: two_builds_value [unfolded One_nat_def] GetRelevantBuild_def ApplyBuildArgOverrides_def)
qed

section \<open>Clearing the kernel mappings of a hub module\<close>

text \<open>
  The loop of \<open>SetManifestWorkAsDesired\<close> in \<open>internal/manifestwork/manifestwork.go\<close>.  The function gets
  the ManagedClusterModule by value, but the slice in it refers to the array of the caller's object.
\<close>

definition mem_clear_mappings :: "slice option \<Rightarrow> ('x cell mem, unit) go" where
  "mem_clear_mappings kernelMappings = (case kernelMappings of
      None \<Rightarrow> ret ()
    | Some s \<Rightarrow> loop [0..<sl_Len s]
        (\<lambda>i _. bind_go (slice_get un_KernelMappings s i)
        (\<lambda>km. slice_set CKernelMappings un_KernelMappings s i (km\<lparr>kml_Build := None, kml_Sign := None\<rparr>))) ())"

lemma clear_loop:
  assumes body: "body = (\<lambda>i (_ :: unit). bind_go (slice_get un_KernelMappings s i)
        (\<lambda>km. slice_set CKernelMappings un_KernelMappings s i (km\<lparr>kml_Build := None, kml_Sign := None\<rparr>)))"
    and "owns n un_KernelMappings h (Some s) (xs @ rest)" and "sl_Len s = length xs + length rest"
  shows "\<exists>h'. loop [length xs..<sl_Len s] body () h = (Ok (), h') \<and>
      owns n un_KernelMappings h' (Some s) (xs @ map (\<lambda>km. km\<lparr>kml_Build := None, kml_Sign := None\<rparr>) rest) \<and>
      touches n un_KernelMappings h h'"
  using assms(2,3)
proof (induction rest arbitrary: xs h)
  case (Cons a rest)
  let ?a = "a\<lparr>kml_Build := None, kml_Sign := None\<rparr>"
  have upt: "[length xs..<sl_Len s] = length xs # [length (xs @ [?a])..<sl_Len s]"
    using upt_conv_Cons [of "length xs" "sl_Len s"] Cons.prems(2) by (simp del: upt_Suc)
  obtain h1 where h1: "slice_set CKernelMappings un_KernelMappings s (length xs) ?a h = (Ok (), h1)"
      "owns n un_KernelMappings h1 (Some s) ((xs @ [?a]) @ rest)" "touches n un_KernelMappings h h1"
    using set_owns [OF un_cell(31) Cons.prems(1), of "length xs" ?a] by auto
  have "body (length xs) () h = (Ok (), h1)"
    using get_owns [OF Cons.prems(1), of "length xs"] h1(1) by (simp add: body bind_go_run)
  then show ?case
    using Cons.IH [OF h1(2)] Cons.prems(2) h1(3) unfolding upt
    by (auto simp: bind_go_run simp del: upt_Suc intro: touches_trans)
qed (simp add: ret_run)

text \<open>
  Every holder of the slice sees the mappings cleared: what \<open>Hub\<close> states with the array as a part of
  its state is what happens in memory.
\<close>

lemma mem_clear_mappings_shared:
  assumes "owns 0 un_KernelMappings h kernelMappings kms"
  shows "\<exists>h'. mem_clear_mappings kernelMappings h = (Ok (), h') \<and>
    slice_value un_KernelMappings h' kernelMappings = map (\<lambda>km. km\<lparr>kml_Build := None, kml_Sign := None\<rparr>) kms \<and>
    touches 0 un_KernelMappings h h'"
proof (cases kernelMappings)
  case None
  then show ?thesis
    using assms by (simp add: mem_clear_mappings_def ret_run owns_def slice_value_def)
next
  case (Some s)
  then have "sl_Len s = length kms"
    using assms by (auto simp: owns_def)
  then show ?thesis
    using clear_loop [OF refl, of 0 h s "[]" kms] assms Some owns_value
    by (fastforce simp: mem_clear_mappings_def)
qed

end
