(* ===== verification/Sign_Memory.thy ===== *)
theory Sign_Memory
  imports Config_Memory
begin

text \<open>
  \<open>internal/sign/helper.go\<close> over Go's memory, as \<open>Config_Memory\<close> has it for the build settings, with the
  slices that \<open>ReplaceInTemplates\<close> makes.  The merged settings take over the pointers to the secrets of
  the kernel mapping; the code never writes through them, so the Module and the mapping stay as they
  are also when a template cannot be substituted half way through.
\<close>

section \<open>The code\<close>

definition mem_ReplaceInTemplates ::
    "env \<Rightarrow> (nat \<Rightarrow> nat) \<Rightarrow> string list \<Rightarrow> string list \<Rightarrow> ('x cell mem, slice option) go" where
  "mem_ReplaceInTemplates L grow envvars templates =
     bind_go (new_obj (CStrings (replicate (length templates) ''''))) (\<lambda>a.
     loop templates
       (\<lambda>v replacedStrings. case EnvsubstParse L envvars v of
            Inl e \<Rightarrow> raise (Errorf ''failed to substitute %q: %v'' [AS v, AE e])
          | Inr resultString \<Rightarrow> slice_append CStrings un_Strings '''' grow replacedStrings [resultString])
       (Some \<lparr>sl_Array = a, sl_Off = 0, sl_Len = 0, sl_Cap = length templates\<rparr>))"

definition mem_merge_sign ::
    "(nat \<Rightarrow> nat) \<Rightarrow> addr option \<Rightarrow> addr option \<Rightarrow> ('x cell mem, addr option) go" where
  "mem_merge_sign grow moduleSign mappingSign = (case moduleSign of
      None \<Rightarrow> Sign_DeepCopy mappingSign
    | Some ms \<Rightarrow> (case mappingSign of
        None \<Rightarrow> Sign_DeepCopy moduleSign
      | Some ks \<Rightarrow>
          bind_go (Sign_DeepCopy moduleSign) (\<lambda>p.
          bind_go (pure_go (deref p)) (\<lambda>signConfig.
          bind_go (load_obj un_Sign ks) (\<lambda>k.
          bind_go (if sgl_UnsignedImage k \<noteq> ''''
              then update_obj CSign un_Sign signConfig (\<lambda>s. s\<lparr>sgl_UnsignedImage := sgl_UnsignedImage k\<rparr>)
              else ret ()) (\<lambda>_.
          bind_go (if sgl_KeySecret k \<noteq> None
              then update_obj CSign un_Sign signConfig (\<lambda>s. s\<lparr>sgl_KeySecret := sgl_KeySecret k\<rparr>)
              else ret ()) (\<lambda>_.
          bind_go (if sgl_CertSecret k \<noteq> None
              then update_obj CSign un_Sign signConfig (\<lambda>s. s\<lparr>sgl_CertSecret := sgl_CertSecret k\<rparr>)
              else ret ()) (\<lambda>_.
          bind_go (load_obj un_Sign signConfig) (\<lambda>s.
          bind_go (slice_elems un_Strings (sgl_FilesToSign k)) (\<lambda>extra.
          bind_go (slice_append CStrings un_Strings '''' grow (sgl_FilesToSign s) extra) (\<lambda>files.
          bind_go (update_obj CSign un_Sign signConfig (\<lambda>s. s\<lparr>sgl_FilesToSign := files\<rparr>)) (\<lambda>_.
          ret (Some signConfig)))))))))))))"

definition mem_GetRelevantSign ::
    "env \<Rightarrow> (nat \<Rightarrow> nat) \<Rightarrow> addr option \<Rightarrow> addr option \<Rightarrow> string \<Rightarrow> ('x cell mem, addr option) go" where
  "mem_GetRelevantSign L grow moduleSign mappingSign kern =
     bind_go (mem_merge_sign grow moduleSign mappingSign) (\<lambda>p.
     bind_go (pure_go (KernelComponentsAsEnvVars kern)) (\<lambda>osConfigEnvVars.
     bind_go (pure_go (deref p)) (\<lambda>signConfig.
     bind_go (load_obj un_Sign signConfig) (\<lambda>s.
     bind_go (mem_ReplaceInTemplates L grow osConfigEnvVars [sgl_UnsignedImage s]) (\<lambda>unsignedImage.
     bind_go (pure_go (deref unsignedImage)) (\<lambda>u.
     bind_go (slice_get un_Strings u 0) (\<lambda>img.
     bind_go (update_obj CSign un_Sign signConfig (\<lambda>s. s\<lparr>sgl_UnsignedImage := img\<rparr>)) (\<lambda>_.
     bind_go (load_obj un_Sign signConfig) (\<lambda>s.
     bind_go (slice_elems un_Strings (sgl_FilesToSign s)) (\<lambda>templates.
     bind_go (mem_ReplaceInTemplates L grow osConfigEnvVars templates) (\<lambda>filesToSign.
     bind_go (update_obj CSign un_Sign signConfig (\<lambda>s. s\<lparr>sgl_FilesToSign := filesToSign\<rparr>)) (\<lambda>_.
     ret p))))))))))))"

section \<open>Values in memory\<close>

definition Sign_value :: "'x cell mem \<Rightarrow> Sign_L \<Rightarrow> Sign" where
  "Sign_value h s = \<lparr>sign_UnsignedImage = sgl_UnsignedImage s,
     sign_UnsignedImageRegistryTLS = sgl_UnsignedImageRegistryTLS s,
     sign_KeySecret = ptr_value un_LocalObjectReference h (sgl_KeySecret s),
     sign_CertSecret = ptr_value un_LocalObjectReference h (sgl_CertSecret s),
     sign_FilesToSign = slice_value un_Strings h (sgl_FilesToSign s)\<rparr>"

definition sign_at :: "'x cell mem \<Rightarrow> addr option \<Rightarrow> Sign option" where
  "sign_at h p = map_option (Sign_value h) (ptr_value un_Sign h p)"

text \<open>Settings of the given value, whose list of files the code may write.\<close>

definition sign_here :: "addr \<Rightarrow> 'x cell mem \<Rightarrow> Sign_L \<Rightarrow> Sign \<Rightarrow> bool" where
  "sign_here n h s v \<longleftrightarrow> Sign_value h s = v \<and> owns n un_Strings h (sgl_FilesToSign s) (sign_FilesToSign v) \<and>
     reference_view h (sgl_KeySecret s) \<noteq> None \<and> reference_view h (sgl_CertSecret s) \<noteq> None"

section \<open>Templates\<close>

lemma touches_own: "touches (length h) prj h h' \<Longrightarrow> prefix h h'"
  by (rule touches_prefix [OF prefix_order.refl _ order_refl])

lemma replace_loop:
  assumes "owns n un_Strings h p xs" and "n \<le> length h"
  shows "\<exists>r h'. loop templates
       (\<lambda>v replacedStrings. case EnvsubstParse L envvars v of
            Inl e \<Rightarrow> raise (Errorf ''failed to substitute %q: %v'' [AS v, AE e])
          | Inr resultString \<Rightarrow> slice_append CStrings un_Strings '''' grow replacedStrings [resultString]) p h = (r, h') \<and>
     touches n un_Strings h h' \<and>
     rel_res (\<lambda>q rs. owns n un_Strings h' q (xs @ rs)) r (ReplaceInTemplates L envvars templates)"
  using assms
proof (induction templates arbitrary: p xs h)
  case Nil
  then show ?case by (simp add: ret_run)
next
  case (Cons v ts)
  show ?case
  proof (cases "EnvsubstParse L envvars v")
    case (Inl e)
    then show ?thesis by (simp add: go_simps)
  next
    case (Inr s)
    obtain p1 h1 where h1: "slice_append CStrings un_Strings '''' grow p [s] h = (Ok p1, h1)"
        "owns n un_Strings h1 p1 (xs @ [s])" "touches n un_Strings h h1"
      using append_owns [OF un_cell(28) Cons.prems] by blast
    have "n \<le> length h1" using Cons.prems(2) h1(3) by (simp add: touches_def)
    from Cons.IH [OF h1(2) this] obtain r h2 where "touches n un_Strings h1 h2" and
        loop: "loop ts (\<lambda>v replacedStrings. case EnvsubstParse L envvars v of
            Inl e \<Rightarrow> raise (Errorf ''failed to substitute %q: %v'' [AS v, AE e])
          | Inr resultString \<Rightarrow> slice_append CStrings un_Strings '''' grow replacedStrings [resultString]) p1 h1 = (r, h2)"
        "rel_res (\<lambda>q rs. owns n un_Strings h2 q ((xs @ [s]) @ rs)) r (ReplaceInTemplates L envvars ts)" by blast
    then show ?thesis
      using Inr h1(1) touches_trans [OF h1(3)]
      by (cases r; cases "ReplaceInTemplates L envvars ts") (auto simp: bind_go_run check_res_def)
  qed
qed

lemma mem_ReplaceInTemplates_refines:
  "\<exists>r h'. mem_ReplaceInTemplates L grow envvars templates h = (r, h') \<and> prefix h h' \<and>
     rel_res (\<lambda>q rs. owns (length h) un_Strings h' q rs) r (ReplaceInTemplates L envvars templates)"
proof -
  let ?h = "h @ [CStrings (replicate (length templates) '''')]"
  let ?p = "Some \<lparr>sl_Array = length h, sl_Off = 0, sl_Len = 0, sl_Cap = length templates\<rparr>"
  have "owns (length h) un_Strings ?h ?p []"
    by (simp add: owns_def memory_simps window_def slice_ok_def)
  from replace_loop [OF this, of templates grow L envvars] show ?thesis
    using touches_own [OF touches_trans [OF touches_new]]
    by (fastforce simp: mem_ReplaceInTemplates_def bind_go_run new_obj_def)
qed

section \<open>Steps on the settings\<close>

lemma un_Sign_disjoint:
  "un_Strings c \<noteq> None \<longrightarrow> un_Sign c = None" "un_Sign c \<noteq> None \<longrightarrow> un_Strings c = None"
  "un_LocalObjectReference c \<noteq> None \<longrightarrow> un_Sign c = None" "un_LocalObjectReference c \<noteq> None \<longrightarrow> un_Strings c = None"
  by (cases c; simp add: un_Sign_def un_Strings_def un_LocalObjectReference_def)+

lemma references_frame:
  assumes "touches n prj h h'" and "\<forall>c. un_LocalObjectReference c \<noteq> None \<longrightarrow> prj c = None" and "reference_view h p \<noteq> None"
  shows "reference_view h' p \<noteq> None" and "ptr_value un_LocalObjectReference h' p = ptr_value un_LocalObjectReference h p"
  using ptr_view_frame [OF assms] ptr_value_frame [OF assms] by blast+

text \<open>The settings stay when objects of their kind are written, and when memory is only added.\<close>

lemma sign_here_keep:
  assumes "sign_here n h s v" and "owns n un_Strings h' (sgl_FilesToSign s) (sign_FilesToSign v)"
    and "\<And>p. reference_view h p \<noteq> None \<Longrightarrow> reference_view h' p \<noteq> None \<and>
      ptr_value un_LocalObjectReference h' p = ptr_value un_LocalObjectReference h p"
  shows "sign_here n h' s v"
  using assms(1) assms(2) assms(3) [of "sgl_KeySecret s"] assms(3) [of "sgl_CertSecret s"] owns_value [OF assms(2)]
  by (auto simp: sign_here_def Sign_value_def)

lemma sign_here_frame:
  assumes "sign_here n h s v" and "touches m un_Sign h h'"
  shows "sign_here n h' s v"
proof (rule sign_here_keep [OF assms(1)])
  show "owns n un_Strings h' (sgl_FilesToSign s) (sign_FilesToSign v)"
    using assms(1) owns_frame [OF _ assms(2)] un_Sign_disjoint(1) by (auto simp: sign_here_def)
qed (use references_frame [OF assms(2)] un_Sign_disjoint(3) in blast)

lemma sign_here_prefix:
  assumes "sign_here n h s v" and "prefix h h'"
  shows "sign_here n h' s v"
proof (rule sign_here_keep [OF assms(1)])
  show "owns n un_Strings h' (sgl_FilesToSign s) (sign_FilesToSign v)"
    using assms(1) owns_prefix [OF _ assms(2)] by (auto simp: sign_here_def)
qed (rule reference_value_prefix [OF _ assms(2)])

text \<open>A new value of a field; the list of files may be one that has just been made.\<close>

lemma sign_here_set:
  assumes "sign_here n h s v"
  shows "sign_here n h (s\<lparr>sgl_UnsignedImage := img\<rparr>) (v\<lparr>sign_UnsignedImage := img\<rparr>)"
    and "reference_view h p \<noteq> None \<Longrightarrow>
      sign_here n h (s\<lparr>sgl_KeySecret := p\<rparr>) (v\<lparr>sign_KeySecret := ptr_value un_LocalObjectReference h p\<rparr>)"
    and "reference_view h p \<noteq> None \<Longrightarrow>
      sign_here n h (s\<lparr>sgl_CertSecret := p\<rparr>) (v\<lparr>sign_CertSecret := ptr_value un_LocalObjectReference h p\<rparr>)"
  using assms by (auto simp: sign_here_def Sign_value_def)

lemma sign_here_files:
  assumes "sign_here n h s v" and "touches m un_Strings h h'" and "owns n un_Strings h' q xs"
  shows "sign_here n h' (s\<lparr>sgl_FilesToSign := q\<rparr>) (v\<lparr>sign_FilesToSign := xs\<rparr>)"
  using assms(1,3) references_frame [OF assms(2)] un_Sign_disjoint(4) owns_value [OF assms(3)]
  by (fastforce simp: sign_here_def Sign_value_def)

text \<open>Storing it, if the condition holds.\<close>

lemma update_here:
  assumes "peek un_Sign h a = Some s" and "n \<le> a" and "sign_here n h (if c then f s else s) v"
  shows "\<exists>h'. (if c then update_obj CSign un_Sign a f else ret ()) h = (Ok (), h') \<and> touches n un_Sign h h' \<and>
    peek un_Sign h' a = Some (if c then f s else s) \<and> sign_here n h' (if c then f s else s) v"
proof (cases c)
  case True
  have "touches n un_Sign h (h[a := CSign (f s)])" by (rule touches_update [OF assms(1,2)])
  then show ?thesis
    using True update_run [OF assms(1)] peek_Some_less [OF assms(1)] sign_here_frame [OF assms(3)] by (simp add: memory_simps)
qed (use assms in \<open>simp add: ret_run\<close>)

lemma append_here:
  assumes "peek un_Sign h a = Some s" and "sign_here n h s v" and "n \<le> a" and "n \<le> length h"
  shows "\<exists>q h1 h2. slice_append CStrings un_Strings '''' grow (sgl_FilesToSign s) extra h = (Ok q, h1) \<and>
    update_obj CSign un_Sign a (\<lambda>s. s\<lparr>sgl_FilesToSign := q\<rparr>) h1 = (Ok (), h2) \<and> touches n Some h h2 \<and>
    peek un_Sign h2 a = Some (s\<lparr>sgl_FilesToSign := q\<rparr>) \<and>
    sign_here n h2 (s\<lparr>sgl_FilesToSign := q\<rparr>) (v\<lparr>sign_FilesToSign := sign_FilesToSign v @ extra\<rparr>)"
proof -
  have "owns n un_Strings h (sgl_FilesToSign s) (sign_FilesToSign v)" using assms(2) by (simp add: sign_here_def)
  from append_owns [OF un_cell(28) this assms(4)] obtain q h1 where
    q: "slice_append CStrings un_Strings '''' grow (sgl_FilesToSign s) extra h = (Ok q, h1)"
      "owns n un_Strings h1 q (sign_FilesToSign v @ extra)" "touches n un_Strings h h1" by blast
  have "peek un_Sign h1 a = Some s" using touches_peek [OF q(3) assms(1)] un_Sign_disjoint(2) by blast
  from update_here [OF this assms(3), of True "\<lambda>s. s\<lparr>sgl_FilesToSign := q\<rparr>"] sign_here_files [OF assms(2) q(3,2)]
  show ?thesis using q(1) touches_trans [OF touches_any [OF q(3)] touches_any] by fastforce
qed

section \<open>Trees and values\<close>

lemma inj_String_tree: "inj (\<lambda>x. forget (String_tree x))"
  by (auto simp: inj_def String_tree_def)

lemma Sign_view_Some_iff:
  "Sign_view h s = Some t \<longleftrightarrow> (\<exists>t3 t4 t5.
     reference_view h (sgl_KeySecret s) = Some t3 \<and> reference_view h (sgl_CertSecret s) = Some t4 \<and>
     strings_view h (sgl_FilesToSign s) = Some t5 \<and>
     t = GStruct [String_tree (sgl_UnsignedImage s), TLSOptions_tree (sgl_UnsignedImageRegistryTLS s), t3, t4, t5])"
  by (auto simp: Sign_view_def struct_view_def field_view_def flat_view_def TLSOptions_tree_def String_tree_def
      split: option.splits)

lemma Sign_value_tree:
  fixes h h' :: "'x cell mem"
  assumes "Sign_view h s = Some t" and "Sign_view h' s' = Some t'" and "forget t = forget t'"
  shows "Sign_value h s = Sign_value h' s'"
proof -
  obtain t3 t4 t5 where t: "reference_view h (sgl_KeySecret s) = Some t3" "reference_view h (sgl_CertSecret s) = Some t4"
      "strings_view h (sgl_FilesToSign s) = Some t5"
      "t = GStruct [String_tree (sgl_UnsignedImage s), TLSOptions_tree (sgl_UnsignedImageRegistryTLS s), t3, t4, t5]"
    using assms(1) by (auto simp: Sign_view_Some_iff)
  obtain u3 u4 u5 where u: "reference_view h' (sgl_KeySecret s') = Some u3" "reference_view h' (sgl_CertSecret s') = Some u4"
      "strings_view h' (sgl_FilesToSign s') = Some u5"
      "t' = GStruct [String_tree (sgl_UnsignedImage s'), TLSOptions_tree (sgl_UnsignedImageRegistryTLS s'), u3, u4, u5]"
    using assms(2) by (auto simp: Sign_view_Some_iff)
  have "forget t3 = forget u3" "forget t4 = forget u4" "forget t5 = forget u5"
    using assms(3) t(4) u(4) by auto
  moreover have "sgl_UnsignedImage s = sgl_UnsignedImage s'" "sgl_UnsignedImageRegistryTLS s = sgl_UnsignedImageRegistryTLS s'"
    using assms(3) t(4) u(4) by (auto simp: TLSOptions_tree_def String_tree_def)
  ultimately show ?thesis
    using ptr_value_tree [OF t(1) u(1) _ inj_trees(2)] ptr_value_tree [OF t(2) u(2) _ inj_trees(2)]
      slice_value_tree [OF t(3) u(3) _ inj_String_tree]
    by (simp add: Sign_value_def)
qed

lemma sign_here_view:
  assumes "Sign_view h s = Some t" and "addresses t \<subseteq> {n..}"
  shows "sign_here n h s (Sign_value h s)"
  using assms owns_view [of un_Strings _ h "sgl_FilesToSign s"]
  by (fastforce simp: sign_here_def Sign_view_Some_iff Sign_value_def)

lemma sign_at_here: "peek un_Sign h a = Some s \<Longrightarrow> sign_here n h s v \<Longrightarrow> sign_at h (Some a) = Some v"
  by (auto simp: sign_at_def ptr_value_def sign_here_def)

lemma sign_at_None [simp]: "sign_at h None = None"
  by (simp add: sign_at_def ptr_value_def)

lemma sign_at_prefix:
  assumes "ptr_view un_Sign Sign_view h p \<noteq> None" and "prefix h h'"
  shows "sign_at h' p = sign_at h p"
proof (cases p)
  case (Some a)
  then obtain s t where s: "peek un_Sign h a = Some s" "Sign_view h s = Some t"
    using assms(1) by (auto simp: ptr_view_Some_iff)
  then have "sign_here 0 h s (Sign_value h s)" by (auto intro: sign_here_view)
  then show ?thesis
    using sign_at_here sign_here_prefix [OF _ assms(2)] prefix_peek [OF assms(2) s(1)] s(1) Some by metis
qed simp

text \<open>The settings as \<open>DeepCopy\<close> leaves them.\<close>

lemma Sign_DeepCopy_here:
  assumes "ptr_view un_Sign Sign_view h p \<noteq> None"
  shows "\<exists>q h'. Sign_DeepCopy p h = (Ok q, h') \<and> prefix h h' \<and> (q = None \<longleftrightarrow> p = None) \<and>
    (\<forall>a. q = Some a \<longrightarrow> length h \<le> a \<and>
      (\<exists>s v. peek un_Sign h' a = Some s \<and> sign_here (length h) h' s v \<and> sign_at h p = Some v))"
proof -
  obtain t q h' u where q: "ptr_view un_Sign Sign_view h p = Some t" "Sign_DeepCopy p h = (Ok q, h')"
      "prefix h h'" "ptr_view un_Sign Sign_view h' q = Some u" "forget u = forget t"
      "addresses u \<subseteq> {length h..<length h'}"
    using sign_pointer.copies [OF assms] by (auto simp: runs_def fresh_copy_def fresh_from_def)
  have none: "q = None \<longleftrightarrow> p = None"
    using q(1,4,5) by (cases p; cases q) (auto simp: ptr_view_Some_iff)
  moreover have "length h \<le> a \<and> (\<exists>s v. peek un_Sign h' a = Some s \<and> sign_here (length h) h' s v \<and> sign_at h p = Some v)"
    if qa: "q = Some a" for a
  proof -
    obtain s ts where s: "peek un_Sign h' a = Some s" "Sign_view h' s = Some ts" "u = GPtr a ts"
      using q(4) qa by (auto simp: ptr_view_Some_iff)
    obtain a0 s0 t0 where p: "p = Some a0" "peek un_Sign h a0 = Some s0" "Sign_view h s0 = Some t0" "t = GPtr a0 t0"
      using q(1,5) none qa s(3) by (cases p) (auto simp: ptr_view_Some_iff)
    have "Sign_value h' s = Sign_value h s0"
      using Sign_value_tree [OF s(2) p(3)] q(5) s(3) p(4) by simp
    moreover have "addresses ts \<subseteq> {length h..}" and a: "length h \<le> a" using q(6) s(3) by auto
    ultimately show ?thesis
      using sign_here_view [OF s(2)] s(1) p by (auto simp: sign_at_def ptr_value_def)
  qed
  ultimately show ?thesis using q(2,3) by blast
qed

section \<open>Merging\<close>

text \<open>A result that holds settings of our own, of the given value.\<close>

definition holds_sign :: "addr \<Rightarrow> 'x cell mem \<Rightarrow> addr option \<Rightarrow> Sign option \<Rightarrow> bool" where
  "holds_sign n h q v \<longleftrightarrow> (case q of None \<Rightarrow> v = None
     | Some a \<Rightarrow> n \<le> a \<and> (\<exists>s w. peek un_Sign h a = Some s \<and> sign_here n h s w \<and> v = Some w))"

lemma Sign_DeepCopy_holds:
  assumes "ptr_view un_Sign Sign_view h p \<noteq> None"
  shows "\<exists>q h'. Sign_DeepCopy p h = (Ok q, h') \<and> prefix h h' \<and> holds_sign (length h) h' q (sign_at h p)"
proof -
  obtain q h' where "Sign_DeepCopy p h = (Ok q, h')" "prefix h h'" "q = None \<longleftrightarrow> p = None"
      "\<forall>a. q = Some a \<longrightarrow> length h \<le> a \<and>
        (\<exists>s v. peek un_Sign h' a = Some s \<and> sign_here (length h) h' s v \<and> sign_at h p = Some v)"
    using Sign_DeepCopy_here [OF assms] by blast
  then show ?thesis by (cases q) (auto simp: holds_sign_def)
qed

lemma reference_value_None:
  "reference_view h p \<noteq> None \<Longrightarrow> ptr_value un_LocalObjectReference h p = None \<longleftrightarrow> p = None"
  by (cases p) (auto simp: ptr_value_def ptr_view_Some_iff)

lemma set_field:
  assumes "holds_sign n h (Some a) (Some v)" and "\<And>s. sign_here n h s v \<Longrightarrow> c \<Longrightarrow> sign_here n h (f s) v'"
  shows "\<exists>h'. (if c then update_obj CSign un_Sign a f else ret ()) h = (Ok (), h') \<and> touches n un_Sign h h' \<and>
    holds_sign n h' (Some a) (Some (if c then v' else v))"
proof -
  obtain s where s: "peek un_Sign h a = Some s" "n \<le> a" "sign_here n h s v"
    using assms(1) by (auto simp: holds_sign_def)
  have "sign_here n h (if c then f s else s) (if c then v' else v)"
    using s(3) assms(2) by simp
  from update_here [where c = c and f = f, OF s(1,2) this] show ?thesis using s(2) by (auto simp: holds_sign_def)
qed

lemma set_secret:
  assumes "holds_sign n h (Some a) (Some v)" and "reference_view h0 p \<noteq> None" and "prefix h0 h"
  shows "\<exists>h'. (if p \<noteq> None then update_obj CSign un_Sign a (\<lambda>s. s\<lparr>sgl_KeySecret := p\<rparr>) else ret ()) h = (Ok (), h') \<and>
      touches n un_Sign h h' \<and> holds_sign n h' (Some a)
        (Some (if p \<noteq> None then v\<lparr>sign_KeySecret := ptr_value un_LocalObjectReference h0 p\<rparr> else v))"
    and "\<exists>h'. (if p \<noteq> None then update_obj CSign un_Sign a (\<lambda>s. s\<lparr>sgl_CertSecret := p\<rparr>) else ret ()) h = (Ok (), h') \<and>
      touches n un_Sign h h' \<and> holds_sign n h' (Some a)
        (Some (if p \<noteq> None then v\<lparr>sign_CertSecret := ptr_value un_LocalObjectReference h0 p\<rparr> else v))"
proof -
  have "reference_view h p \<noteq> None" "ptr_value un_LocalObjectReference h p = ptr_value un_LocalObjectReference h0 p"
    using reference_value_prefix [OF assms(2,3)] by auto
  then have "sign_here n h (s\<lparr>sgl_KeySecret := p\<rparr>) (v\<lparr>sign_KeySecret := ptr_value un_LocalObjectReference h0 p\<rparr>)"
      "sign_here n h (s\<lparr>sgl_CertSecret := p\<rparr>) (v\<lparr>sign_CertSecret := ptr_value un_LocalObjectReference h0 p\<rparr>)"
    if "sign_here n h s v" for s
    using sign_here_set(2,3) [OF that, of p] by simp_all
  then show "\<exists>h'. (if p \<noteq> None then update_obj CSign un_Sign a (\<lambda>s. s\<lparr>sgl_KeySecret := p\<rparr>) else ret ()) h = (Ok (), h') \<and>
      touches n un_Sign h h' \<and> holds_sign n h' (Some a)
        (Some (if p \<noteq> None then v\<lparr>sign_KeySecret := ptr_value un_LocalObjectReference h0 p\<rparr> else v))"
    and "\<exists>h'. (if p \<noteq> None then update_obj CSign un_Sign a (\<lambda>s. s\<lparr>sgl_CertSecret := p\<rparr>) else ret ()) h = (Ok (), h') \<and>
      touches n un_Sign h h' \<and> holds_sign n h' (Some a)
        (Some (if p \<noteq> None then v\<lparr>sign_CertSecret := ptr_value un_LocalObjectReference h0 p\<rparr> else v))"
    using set_field [OF assms(1)] by presburger+
qed

lemma append_files:
  assumes "holds_sign n h (Some a) (Some v)" and "n \<le> length h"
  shows "\<exists>s q h1 h2. load_obj un_Sign a h = (Ok s, h) \<and>
    slice_append CStrings un_Strings '''' grow (sgl_FilesToSign s) extra h = (Ok q, h1) \<and>
    update_obj CSign un_Sign a (\<lambda>s. s\<lparr>sgl_FilesToSign := q\<rparr>) h1 = (Ok (), h2) \<and> touches n Some h h2 \<and>
    holds_sign n h2 (Some a) (Some (v\<lparr>sign_FilesToSign := sign_FilesToSign v @ extra\<rparr>))"
proof -
  obtain s where s: "peek un_Sign h a = Some s" "n \<le> a" "sign_here n h s v"
    using assms(1) by (auto simp: holds_sign_def)
  from append_here [OF s(1,3,2) assms(2)] show ?thesis
    using load_run [OF s(1)] s(2) by (fastforce simp: holds_sign_def)
qed

lemma mem_merge_sign_both:
  assumes "ptr_view un_Sign Sign_view h (Some ms) \<noteq> None" and "ptr_view un_Sign Sign_view h (Some ks) \<noteq> None"
  shows "\<exists>q h'. mem_merge_sign grow (Some ms) (Some ks) h = (Ok q, h') \<and> prefix h h' \<and>
    holds_sign (length h) h' q (merge_sign (sign_at h (Some ms)) (sign_at h (Some ks)))"
proof -
  let ?n = "length h"
  obtain k t where k: "peek un_Sign h ks = Some k" "Sign_view h k = Some t"
    using assms(2) by (auto simp: ptr_view_Some_iff)
  define w where "w = Sign_value h k"
  have here: "sign_here 0 h k w" unfolding w_def by (rule sign_here_view [OF k(2)]) simp
  then have refs: "reference_view h (sgl_KeySecret k) \<noteq> None" "reference_view h (sgl_CertSecret k) \<noteq> None"
      and files: "owns 0 un_Strings h (sgl_FilesToSign k) (sign_FilesToSign w)"
    by (simp_all add: sign_here_def)
  obtain a h1 v where h1: "Sign_DeepCopy (Some ms) h = (Ok (Some a), h1)" "prefix h h1" "sign_at h (Some ms) = Some v"
      "holds_sign ?n h1 (Some a) (Some v)"
    using Sign_DeepCopy_here [OF assms(1)] by (fastforce simp: holds_sign_def)
  obtain h2 v2 where h2: "(if sgl_UnsignedImage k \<noteq> '''' then update_obj CSign un_Sign a
        (\<lambda>s. s\<lparr>sgl_UnsignedImage := sgl_UnsignedImage k\<rparr>) else ret ()) h1 = (Ok (), h2)" "touches ?n un_Sign h1 h2"
      "holds_sign ?n h2 (Some a) (Some v2)"
      "v2 = (if sgl_UnsignedImage k \<noteq> '''' then v\<lparr>sign_UnsignedImage := sgl_UnsignedImage k\<rparr> else v)"
    using set_field [OF h1(4), where f = "\<lambda>s. s\<lparr>sgl_UnsignedImage := sgl_UnsignedImage k\<rparr>"] sign_here_set(1) by blast
  have p2: "prefix h h2" by (rule touches_prefix [OF h1(2) h2(2) order_refl])
  obtain h3 v3 where h3: "(if sgl_KeySecret k \<noteq> None then update_obj CSign un_Sign a
        (\<lambda>s. s\<lparr>sgl_KeySecret := sgl_KeySecret k\<rparr>) else ret ()) h2 = (Ok (), h3)" "touches ?n un_Sign h2 h3"
      "holds_sign ?n h3 (Some a) (Some v3)"
      "v3 = (if sgl_KeySecret k \<noteq> None then v2\<lparr>sign_KeySecret := ptr_value un_LocalObjectReference h (sgl_KeySecret k)\<rparr> else v2)"
    using set_secret(1) [OF h2(3) refs(1) p2] by blast
  have p3: "prefix h h3" by (rule touches_prefix [OF p2 h3(2) order_refl])
  obtain h4 v4 where h4: "(if sgl_CertSecret k \<noteq> None then update_obj CSign un_Sign a
        (\<lambda>s. s\<lparr>sgl_CertSecret := sgl_CertSecret k\<rparr>) else ret ()) h3 = (Ok (), h4)" "touches ?n un_Sign h3 h4"
      "holds_sign ?n h4 (Some a) (Some v4)"
      "v4 = (if sgl_CertSecret k \<noteq> None then v3\<lparr>sign_CertSecret := ptr_value un_LocalObjectReference h (sgl_CertSecret k)\<rparr> else v3)"
    using set_secret(2) [OF h3(3) refs(2) p3] by blast
  have p4: "prefix h h4" by (rule touches_prefix [OF p3 h4(2) order_refl])
  obtain s4 q h5 h6 where h6: "load_obj un_Sign a h4 = (Ok s4, h4)"
      "slice_append CStrings un_Strings '''' grow (sgl_FilesToSign s4) (sign_FilesToSign w) h4 = (Ok q, h5)"
      "update_obj CSign un_Sign a (\<lambda>s. s\<lparr>sgl_FilesToSign := q\<rparr>) h5 = (Ok (), h6)" "touches ?n Some h4 h6"
      "holds_sign ?n h6 (Some a) (Some (v4\<lparr>sign_FilesToSign := sign_FilesToSign v4 @ sign_FilesToSign w\<rparr>))"
    using append_files [OF h4(3) prefix_length_le [OF p4]] by blast
  have "mem_merge_sign grow (Some ms) (Some ks) h = (Ok (Some a), h6)"
    using h1(1) load_run [OF prefix_peek [OF h1(2) k(1)]] h2(1) h3(1) h4(1) h6(1-3) elems_owns [OF owns_prefix [OF files p4]]
    by (simp add: mem_merge_sign_def bind_go_run pure_go_run ret_run)
  moreover have "prefix h h6" by (rule touches_prefix [OF p4 h6(4) order_refl])
  moreover have "merge_sign (Some v) (Some w) = Some (v4\<lparr>sign_FilesToSign := sign_FilesToSign v4 @ sign_FilesToSign w\<rparr>)"
    using refs by (auto simp: merge_sign_def h2(4) h3(4) h4(4) w_def Sign_value_def reference_value_None)
  moreover have "sign_at h (Some ks) = Some w" by (rule sign_at_here [OF k(1) here])
  ultimately show ?thesis using h6(5) h1(3) by auto
qed

lemma mem_merge_sign_refines:
  assumes "ptr_view un_Sign Sign_view h moduleSign \<noteq> None" and "ptr_view un_Sign Sign_view h mappingSign \<noteq> None"
  shows "\<exists>q h'. mem_merge_sign grow moduleSign mappingSign h = (Ok q, h') \<and> prefix h h' \<and>
    holds_sign (length h) h' q (merge_sign (sign_at h moduleSign) (sign_at h mappingSign))"
proof (cases moduleSign)
  case None
  then show ?thesis using Sign_DeepCopy_holds [OF assms(2)] by (simp add: mem_merge_sign_def merge_sign_def)
next
  case ms: (Some ms)
  show ?thesis
  proof (cases mappingSign)
    case None
    then show ?thesis
      using Sign_DeepCopy_holds [OF assms(1)] ms by (auto simp: mem_merge_sign_def merge_sign_def split: option.split)
  next
    case (Some ks)
    then show ?thesis using mem_merge_sign_both assms ms by blast
  qed
qed

section \<open>Substituting\<close>

lemma replaced_run:
  obtains (failed) e h' where "mem_ReplaceInTemplates L grow envvars ts h = (Err e, h')" "prefix h h'"
      "ReplaceInTemplates L envvars ts = Err e"
  | (replaced) q rs h' where "mem_ReplaceInTemplates L grow envvars ts h = (Ok q, h')" "prefix h h'"
      "ReplaceInTemplates L envvars ts = Ok rs" "owns (length h) un_Strings h' q rs"
proof -
  obtain r h' where run: "mem_ReplaceInTemplates L grow envvars ts h = (r, h')" "prefix h h'"
      "rel_res (\<lambda>q rs. owns (length h) un_Strings h' q rs) r (ReplaceInTemplates L envvars ts)"
    using mem_ReplaceInTemplates_refines by blast
  then show thesis
    using failed replaced ReplaceInTemplates_not_Panic [of L envvars ts]
    by (cases r; cases "ReplaceInTemplates L envvars ts") auto
qed

lemma owns_mono: "owns n prj h p xs \<Longrightarrow> m \<le> n \<Longrightarrow> owns m prj h p xs"
  by (auto simp: owns_def split: option.splits)

lemma holds_prefix: "holds_sign n h (Some a) (Some v) \<Longrightarrow> prefix h h' \<Longrightarrow> holds_sign n h' (Some a) (Some v)"
  using sign_here_prefix prefix_peek by (fastforce simp: holds_sign_def)

lemma set_files:
  assumes "holds_sign n h (Some a) (Some v)" and "owns n un_Strings h q xs"
  shows "\<exists>h'. update_obj CSign un_Sign a (\<lambda>s. s\<lparr>sgl_FilesToSign := q\<rparr>) h = (Ok (), h') \<and> touches n un_Sign h h' \<and>
    holds_sign n h' (Some a) (Some (v\<lparr>sign_FilesToSign := xs\<rparr>))"
  using set_field [OF assms(1), of True "\<lambda>s. s\<lparr>sgl_FilesToSign := q\<rparr>"] sign_here_files [OF _ touches_refl assms(2)] by simp

lemma set_image:
  assumes "holds_sign n h (Some a) (Some v)"
  shows "\<exists>h'. update_obj CSign un_Sign a (\<lambda>s. s\<lparr>sgl_UnsignedImage := img\<rparr>) h = (Ok (), h') \<and> touches n un_Sign h h' \<and>
    holds_sign n h' (Some a) (Some (v\<lparr>sign_UnsignedImage := img\<rparr>))"
  using set_field [OF assms, of True "\<lambda>s. s\<lparr>sgl_UnsignedImage := img\<rparr>" "v\<lparr>sign_UnsignedImage := img\<rparr>"]
    sign_here_set(1) [of n h _ v img] by simp

lemma holds_load:
  assumes "holds_sign n h (Some a) (Some v)"
  obtains s where "load_obj un_Sign a h = (Ok s, h)" "sgl_UnsignedImage s = sign_UnsignedImage v"
    "slice_elems un_Strings (sgl_FilesToSign s) h = (Ok (sign_FilesToSign v), h)"
  using assms load_run elems_owns by (fastforce simp: holds_sign_def sign_here_def Sign_value_def)

lemma first_replaced:
  assumes "ReplaceInTemplates L envvars [t] = Ok rs" and "owns n un_Strings h q rs"
  obtains u where "q = Some u" "slice_get un_Strings u 0 h = (Ok (rs ! 0), h)"
proof -
  have "length rs = 1" using assms(1) by (auto simp: check_res_Ok_iff split: sum.splits)
  with assms(2) that show thesis
    using get_owns [of n un_Strings h _ rs 0] by (cases q) (auto simp: owns_def)
qed

text \<open>The part of the function from the merged settings on.\<close>

lemma substitute_run:
  assumes "mem_merge_sign grow moduleSign mappingSign h = (Ok (Some a), h1)" and "KernelComponentsAsEnvVars kern = Ok envvars"
    and "prefix h h1" and "holds_sign (length h) h1 (Some a) (Some v)"
  shows "\<exists>r h'. mem_GetRelevantSign L grow moduleSign mappingSign kern h = (r, h') \<and> prefix h h' \<and>
    rel_res (\<lambda>q w. sign_at h' q = Some w) r
      (check_res (ReplaceInTemplates L envvars [sign_UnsignedImage v]) (\<lambda>e. e) (\<lambda>unsignedImage.
       check_res (ReplaceInTemplates L envvars (sign_FilesToSign v)) (\<lambda>e. e) (\<lambda>filesToSign.
       Ok (v\<lparr>sign_UnsignedImage := unsignedImage ! 0, sign_FilesToSign := filesToSign\<rparr>))))"
proof -
  obtain s1 where s1: "load_obj un_Sign a h1 = (Ok s1, h1)" "sgl_UnsignedImage s1 = sign_UnsignedImage v"
    by (rule holds_load [OF assms(4)])
  note run1 = mem_GetRelevantSign_def bind_go_run pure_go_run assms(1,2) s1
  show ?thesis
  proof (cases rule: replaced_run [of L grow envvars "[sign_UnsignedImage v]" h1])
    case (failed e h2)
    then show ?thesis using prefix_order.trans [OF assms(3)] by (simp add: run1)
  next
    case (replaced q rs h2)
    obtain u where u: "q = Some u" "slice_get un_Strings u 0 h2 = (Ok (rs ! 0), h2)"
      by (rule first_replaced [OF replaced(3,4)])
    obtain h3 where h3: "update_obj CSign un_Sign a (\<lambda>s. s\<lparr>sgl_UnsignedImage := rs ! 0\<rparr>) h2 = (Ok (), h3)"
        "touches (length h) un_Sign h2 h3" "holds_sign (length h) h3 (Some a) (Some (v\<lparr>sign_UnsignedImage := rs ! 0\<rparr>))"
      using set_image [OF holds_prefix [OF assms(4) replaced(2)]] by blast
    have p3: "prefix h h3"
      by (rule touches_prefix [OF prefix_order.trans [OF assms(3) replaced(2)] h3(2) order_refl])
    obtain s3 where s3: "load_obj un_Sign a h3 = (Ok s3, h3)"
        "slice_elems un_Strings (sgl_FilesToSign s3) h3 = (Ok (sign_FilesToSign v), h3)"
      using holds_load [OF h3(3)] by auto
    note run2 = run1 replaced(1,3) u h3(1) s3
    show ?thesis
    proof (cases rule: replaced_run [of L grow envvars "sign_FilesToSign v" h3])
      case (failed e h4)
      then show ?thesis using prefix_order.trans [OF p3] by (simp add: run2 del: ReplaceInTemplates.simps)
    next
      case files: (replaced q4 fs h4)
      have "owns (length h) un_Strings h4 q4 fs" by (rule owns_mono [OF files(4) prefix_length_le [OF p3]])
      from set_files [OF holds_prefix [OF h3(3) files(2)] this] obtain h5 where
        h5: "update_obj CSign un_Sign a (\<lambda>s. s\<lparr>sgl_FilesToSign := q4\<rparr>) h4 = (Ok (), h5)" "touches (length h) un_Sign h4 h5"
          "holds_sign (length h) h5 (Some a) (Some (v\<lparr>sign_UnsignedImage := rs ! 0, sign_FilesToSign := fs\<rparr>))" by auto
      have "prefix h h5" by (rule touches_prefix [OF prefix_order.trans [OF p3 files(2)] h5(2) order_refl])
      moreover have "sign_at h5 (Some a) = Some (v\<lparr>sign_UnsignedImage := rs ! 0, sign_FilesToSign := fs\<rparr>)"
        using h5(3) sign_at_here by (fastforce simp: holds_sign_def)
      ultimately show ?thesis using files(1,3) h5(1) by (simp add: run2 ret_run del: ReplaceInTemplates.simps)
    qed
  qed
qed

lemma mem_GetRelevantSign_rel:
  assumes "ptr_view un_Sign Sign_view h moduleSign \<noteq> None" and "ptr_view un_Sign Sign_view h mappingSign \<noteq> None"
  shows "\<exists>r h'. mem_GetRelevantSign L grow moduleSign mappingSign kern h = (r, h') \<and> prefix h h' \<and>
    rel_res (\<lambda>q w. sign_at h' q = Some w) r (GetRelevantSign L (sign_at h moduleSign) (sign_at h mappingSign) kern)"
proof -
  let ?v = "merge_sign (sign_at h moduleSign) (sign_at h mappingSign)"
  obtain q h1 where h1: "mem_merge_sign grow moduleSign mappingSign h = (Ok q, h1)" "prefix h h1" "holds_sign (length h) h1 q ?v"
    using mem_merge_sign_refines [OF assms] by blast
  show ?thesis
  proof (cases "KernelComponentsAsEnvVars kern")
    case (Ok envvars)
    show ?thesis
    proof (cases q)
      case None
      then have "?v = None" using h1(3) by (simp add: holds_sign_def)
      then show ?thesis
        using None h1(1,2) Ok by (simp add: mem_GetRelevantSign_def GetRelevantSign_def bind_go_run pure_go_run)
    next
      case (Some a)
      then obtain w where "?v = Some w" using h1(3) by (auto simp: holds_sign_def)
      then show ?thesis
        using substitute_run [of grow moduleSign mappingSign h a h1 kern envvars w L] h1 Ok Some
        by (simp add: GetRelevantSign_def)
    qed
  qed (use h1 in \<open>simp_all add: mem_GetRelevantSign_def GetRelevantSign_def bind_go_run pure_go_run\<close>)
qed

section \<open>The result\<close>

text \<open>
  C10. \<open>GetRelevantSign\<close> run on memory, with its writes in place, gives what the function of
  \<open>Config_Helpers\<close> computes from the values of the Module and of the mapping: the same error, a panic in
  the same cases, or settings of the same value.  In each of these cases, errors half way through
  included, it has written no object that existed before, so that the Module and the kernel mapping keep
  their values, though the result may share the references to secrets with the mapping.
\<close>

theorem mem_GetRelevantSign_refines:
  assumes "ptr_view un_Sign Sign_view h moduleSign \<noteq> None" and "ptr_view un_Sign Sign_view h mappingSign \<noteq> None"
  shows "\<exists>r h'. mem_GetRelevantSign L grow moduleSign mappingSign kern h = (r, h') \<and> prefix h h' \<and>
    (case GetRelevantSign L (sign_at h moduleSign) (sign_at h mappingSign) kern of
       Ok v \<Rightarrow> \<exists>q. r = Ok q \<and> sign_at h' q = Some v | Err e \<Rightarrow> r = Err e | Panic \<Rightarrow> r = Panic) \<and>
    sign_at h' moduleSign = sign_at h moduleSign \<and> sign_at h' mappingSign = sign_at h mappingSign"
proof -
  let ?v = "GetRelevantSign L (sign_at h moduleSign) (sign_at h mappingSign) kern"
  obtain r h' where run: "mem_GetRelevantSign L grow moduleSign mappingSign kern h = (r, h')" "prefix h h'"
      "rel_res (\<lambda>q w. sign_at h' q = Some w) r ?v"
    using mem_GetRelevantSign_rel [OF assms] by blast
  then have "case ?v of Ok v \<Rightarrow> \<exists>q. r = Ok q \<and> sign_at h' q = Some v | Err e \<Rightarrow> r = Err e | Panic \<Rightarrow> r = Panic"
    by (cases ?v; cases r) auto
  with run(1,2) show ?thesis
    using sign_at_prefix [OF assms(1) run(2)] sign_at_prefix [OF assms(2) run(2)] by blast
qed

text \<open>A sample: the Module signs \<open>/a.ko\<close>, the list has room for one more; the mapping adds \<open>/b.ko\<close> and has its own key.\<close>

definition two_signs :: "string cell mem" where
  "two_signs =
     [CStrings [''/a.ko'', ''''],
      CSign (blank_Sign\<lparr>sgl_UnsignedImage := ''img'', sgl_FilesToSign := Some \<lparr>sl_Array = 0, sl_Off = 0, sl_Len = 1, sl_Cap = 2\<rparr>\<rparr>),
      CStrings [''/b.ko''],
      CLocalObjectReference \<lparr>lor_Name = ''k''\<rparr>,
      CSign (blank_Sign\<lparr>sgl_KeySecret := Some 3, sgl_FilesToSign := Some \<lparr>sl_Array = 2, sl_Off = 0, sl_Len = 1, sl_Cap = 1\<rparr>\<rparr>)]"

lemma two_signs_view:
  "ptr_view un_Sign Sign_view two_signs (Some 1) \<noteq> None"
  "ptr_view un_Sign Sign_view two_signs (Some 4) \<noteq> None"
  by (simp_all add: two_signs_def view_defs Sign_view_def blank_defs blank_Sign_def eval_nat_numeral)

lemma two_signs_value:
  "sign_at two_signs (Some 1) = Some \<lparr>sign_UnsignedImage = ''img'', sign_UnsignedImageRegistryTLS = blank_TLSOptions,
     sign_KeySecret = None, sign_CertSecret = None, sign_FilesToSign = [''/a.ko'']\<rparr>"
  "sign_at two_signs (Some 4) = Some \<lparr>sign_UnsignedImage = '''', sign_UnsignedImageRegistryTLS = blank_TLSOptions,
     sign_KeySecret = Some \<lparr>lor_Name = ''k''\<rparr>, sign_CertSecret = None, sign_FilesToSign = [''/b.ko'']\<rparr>"
  by (simp_all add: sign_at_def ptr_value_def slice_value_def Sign_value_def two_signs_def peek_def
      window_def blank_defs blank_Sign_def eval_nat_numeral)

theorem mem_GetRelevantSign_refines_witness:
  "\<exists>q h'. mem_GetRelevantSign empty_cluster (\<lambda>n. n) (Some 1) (Some 4) ''5.4.0-gke'' two_signs = (Ok q, h') \<and>
     prefix two_signs h' \<and>
     sign_at h' q = Some \<lparr>sign_UnsignedImage = ''img'', sign_UnsignedImageRegistryTLS = blank_TLSOptions,
       sign_KeySecret = Some \<lparr>lor_Name = ''k''\<rparr>, sign_CertSecret = None, sign_FilesToSign = [''/a.ko'', ''/b.ko'']\<rparr> \<and>
     map_option sign_FilesToSign (sign_at h' (Some 1)) = Some [''/a.ko'']"
proof -
  have "GetRelevantSign empty_cluster (sign_at two_signs (Some 1)) (sign_at two_signs (Some 4)) ''5.4.0-gke'' =
      Ok \<lparr>sign_UnsignedImage = ''img'', sign_UnsignedImageRegistryTLS = blank_TLSOptions,
        sign_KeySecret = Some \<lparr>lor_Name = ''k''\<rparr>, sign_CertSecret = None, sign_FilesToSign = [''/a.ko'', ''/b.ko'']\<rparr>"
    unfolding two_signs_value
    by (simp add: GetRelevantSign_def merge_sign_def KernelComponentsAsEnvVars_eq Let_def is_kernel_sep_def empty_cluster_def)
  then show ?thesis
    using mem_GetRelevantSign_refines [OF two_signs_view, of empty_cluster "\<lambda>n. n" "''5.4.0-gke''"] two_signs_value(1)
    by fastforce
qed

end
