(* ===== verification/Spec2Isabelle.thy ===== *)
theory Spec2Isabelle
  imports Operator_Life Loader_Lifecycle Kernel_Pipeline Hub_Pipeline Sign_Pipeline Tar_Reader Start_Up Sign_Memory
begin

text \<open>
  The Kernel Module Management operator (KMM): a model of its Go sources and what is proved of them.
  File names below are relative to \<open>src/\<close>.

  \<^bold>\<open>The program.\<close>  KMM loads out-of-tree kernel modules on the nodes of a Kubernetes cluster.  A user
  describes a Module: for which kernels there is which container image, how an image is built or signed
  if it does not exist, and an optional device plugin.  The operator consists of controllers; each is
  called with the name of an object, reads the cluster, and writes what is missing.

  \<^item> The Module controller (\<open>controllers/module_reconciler.go\<close>) finds the mapping of each node's kernel,
    has the image built and signed by Jobs, creates a DaemonSet per kernel that loads the module, one
    for the device plugin, removes what is no longer needed and updates the status.
  \<^item> The node controllers (\<open>pod_node_module_reconciler.go\<close>, \<open>node_kernel_reconciler.go\<close>,
    \<open>node_kernel_clusterclaim.go\<close>) label a node when the module is loaded there, label it with its kernel,
    and publish the kernels of the cluster.
  \<^item> The preflight controller tries out an upgrade to another kernel without touching the nodes.
  \<^item> The hub (\<open>controllers/hub\<close>, \<open>internal/cluster\<close>, \<open>internal/manifestwork\<close>) builds and signs for many
    clusters and ships the Modules to them in ManifestWorks.
  \<^item> \<open>cmd/signimage\<close> is the program a sign job runs; \<open>cmd/manager\<close> and \<open>cmd/manager-hub\<close> start the
    controllers.

  \<^bold>\<open>How it is modelled.\<close>  Go code that can fail is a function of type \<open>('s, 'a) go\<close>: from a state to a
  result and a state, where a result is \<open>Ok\<close>, \<open>Err\<close> with the error value the code returns, or \<open>Panic\<close>
  (\<open>Go_Prelude\<close>).  Errors keep their wrapping, so \<open>IsNotFound\<close> sees through them as in Go.  Structs are
  records with the fields the code uses, a pointer that may be nil is an option, a dereference of nil
  is \<open>Panic\<close>, maps are association lists that are only read by key or in an order chosen by the
  environment, 32-bit counters are words (\<open>KMM_Types\<close>).  The API server, the registry and the libraries
  are the fields of the record \<open>env\<close> (\<open>KMM_Env\<close>).  Each answer of the cluster is a function of all calls
  made before, so the theorems hold whatever other clients do in between and whichever calls fail.  The
  state of a run is the history of the calls made, and the gauges.  Theorems about effects speak about
  this history; \<open>guar\<close> and \<open>emits\<close> are the rules to prove them compositionally.  What is relied on of a
  library is a named hypothesis: \<open>selector_law\<close>, \<open>labels_law\<close>, \<open>controller_law\<close>, \<open>status_stored\<close>,
  \<open>keeps_references\<close>, \<open>k8s_copies\<close>; and the cluster as a store is \<open>ds_server\<close> and \<open>cluster_env\<close>.

  \<^bold>\<open>The theories.\<close>
  \<^item> \<open>Go_Prelude\<close>: results, the combinators for sequencing, loops over slices and maps, strings, with
    their lemmas and the collection \<open>go_simps\<close>.  \<open>KMM_Types\<close>: \<open>api/\<close>, \<open>api-hub/\<close>,
    \<open>internal/api\<close>, \<open>internal/constants\<close> and the Kubernetes types.  \<open>KMM_Env\<close>: the environment and the
    program logic.  \<open>Samples\<close>: concrete objects for the closed examples.
  \<^item> \<open>Kernel_Templates\<close>, \<open>Config_Helpers\<close>, \<open>Kernel_Mapper\<close>: \<open>internal/utils/replaceStrings.go\<close>,
    \<open>internal/build/helper.go\<close>, \<open>internal/sign/helper.go\<close>, \<open>internal/module/kernelmapper.go\<close>.  Which mapping
    is chosen, how settings are merged, what the data for a kernel is made of, and on which versions
    the code panics.
  \<^item> \<open>Daemon_Set\<close>: \<open>internal/daemonset\<close>.  The DaemonSets are well formed, their index by kernel, exact
    garbage collection.
  \<^item> \<open>Image_Access\<close>: \<open>internal/registry\<close>, \<open>internal/auth\<close>, \<open>internal/module/helper.go\<close>.
  \<^item> \<open>Job_Helper\<close>, \<open>Job_Manager\<close>, \<open>Build_Job\<close>, \<open>Sign_Job\<close>: \<open>internal/utils/jobhelper.go\<close>,
    \<open>internal/build\<close>, \<open>internal/sign\<close>.  The locale \<open>job_manager\<close> is the interface \<open>ShouldSync\<close>, \<open>Sync\<close>,
    \<open>GarbageCollect\<close> with its laws; both managers interpret it, and the controllers are verified against it.
  \<^item> \<open>Job_Lifecycle\<close>: the jobs of a cluster as a state, the runs of the managers and of everybody else as
    steps.  The locale \<open>job_lifecycle\<close> extends the interface; in it one synchronisation is shown to refine
    an abstract state machine, and the reachable states to have at most one job for each purpose.
  \<^item> \<open>Status_Updater\<close>: \<open>internal/statusupdater\<close>, \<open>internal/metrics\<close>.  \<open>Module_Reconciler\<close>: the Module
    controller; it loads only images that are ready, deletes only stale DaemonSets, writes only its own.
  \<^item> \<open>Loader_Lifecycle\<close>: several runs of the Module controller in a cluster that keeps DaemonSets and
    carries out the writes.  When a run succeeds; one that does leaves exactly the DaemonSets that are
    asked for, and from then on no run changes one.
  \<^item> \<open>Job_Pipeline\<close>: the two job managers together, over jobs and images as a state.  The locale
    \<open>pipeline_stage\<close> has what building and signing share, the locale \<open>kernel_turn\<close> a run for one kernel: it
    refines the order build, sign, then the rest, and five runs are enough to reach the rest.
    \<open>Kernel_Pipeline\<close> interprets it on the Module controller, where the rest is the DaemonSet, and
    \<open>Hub_Pipeline\<close> on the hub.
  \<^item> \<open>Preflight\<close>: \<open>internal/preflight\<close> and its controller.  A positive verdict is earned; a run writes only
    its status and jobs; it ends exactly when all is verified.
  \<^item> \<open>Node_Labels\<close>, \<open>Event_Filter\<close>: the node controllers and \<open>internal/filter\<close>.  The label follows the pod,
    the finalizer goes last, no transition is missed.
  \<^item> \<open>Hub\<close>: the hub.  Go's slices share arrays, and the code writes through one: the array of kernel
    mappings is an explicit store there, and the consequence is a theorem.
  \<^item> \<open>Sign_Image\<close>, \<open>Sign_Pipeline\<close>: \<open>cmd/signimage\<close>, its command line, and the way from the sign job to
    the pushed image.  \<open>Tar_Reader\<close>: the loop that reads a file out of an archive, against the reader of
    \<open>archive/tar\<close>; when it ends, and that it may not.
  \<^item> \<open>Go_Memory\<close>: Go's memory: objects, arrays with slices into them, maps; the views of a value in memory,
    and what a deep copy is (the locale \<open>deep_copier\<close>).  \<open>API_Memory\<close>: how the API types lie in it.
    \<open>Deep_Copy\<close>: \<open>zz_generated.deepcopy.go\<close> of both APIs; every copy is equal to the original and shares
    nothing with it.  \<open>Config_Memory\<close>, \<open>Sign_Memory\<close>: \<open>internal/build/helper.go\<close> and
    \<open>internal/sign/helper.go\<close> once more, with their writes in place; they compute what \<open>Config_Helpers\<close>
    says, errors included, and leave the Module as it was.
  \<^item> \<open>Start_Up\<close>: \<open>cmd/manager\<close>, \<open>cmd/manager-hub\<close>, \<open>internal/cmd\<close> and \<open>SetupWithManager\<close> of all controllers.
  \<^item> \<open>Operator_Life\<close>: the locale \<open>reconciler\<close>, the contract of a controller towards the cluster, interpreted
    on the controllers for Modules, preflight validations, pods, nodes and ManagedClusterModules, and
    what the operator can write over any sequence of runs.  Runs of different controllers are put one
    after the other; what other processes do between two calls is in the answers of the environment.
  \<^item> This theory: properties that span several of these.

  \<^bold>\<open>Bounds.\<close>  No fuel is used: the loops of the sources run over finite slices and maps and are structural
  recursions, so these functions are total and a theorem on what a run returns needs no hypothesis on
  termination.  The one exception is the reading loop of \<open>ExtractBytesFromTar\<close>: \<open>Sign_Image\<close> runs it over
  the list of the answers of its reader; \<open>Tar_Reader\<close> has it as a partial function over a reader and
  proves when there is such a list.

  \<^bold>\<open>Abstractions.\<close>  Logging and contexts are left out.  Except in the theories on memory and in \<open>Hub\<close>,
  a deep copy of a value is the value, which is what \<open>Deep_Copy\<close> justifies.  JSON,
  hashing, regular expressions, template substitution and tar are parameters.  \<open>CreateOrPatch\<close>, the
  predicate combinators and \<open>flag.Parse\<close> are modelled by their documentation.  In \<open>CreateOrPatch\<close> two
  objects are equal if their models are, so two association lists for one map may count as a change.
  In \<open>Job_Lifecycle\<close> and \<open>Job_Pipeline\<close> list requests see the current jobs; the client's cache is not modelled.

  \<^bold>\<open>Not modelled.\<close>  The generated mocks, which only pass their arguments on to gomock, and the test
  helpers; the registration of schemes, and \<open>PreflightReconcilerUpdatePredicate\<close>, which is a predicate of the library
  and an argument in \<open>Start_Up\<close>; how controller-runtime queues and retries requests.
\<close>

section \<open>Definitions across components\<close>

text \<open>The scheduler's view of a node selector.\<close>

definition selects :: "smap \<Rightarrow> Node \<Rightarrow> bool" where
  "selects sel n \<longleftrightarrow> list_all (\<lambda>(k, v). map_of (om_Labels (node_Meta n)) k = Some v) sel"

text \<open>
  The pods of a DaemonSet carry the labels of its template; the DaemonSet controller may add others,
  but none of those that KMM reads.
\<close>

definition pod_of :: "DaemonSet \<Rightarrow> Pod \<Rightarrow> bool" where
  "pod_of ds pod \<longleftrightarrow> list_all (\<lambda>k. map_of (om_Labels (pod_Meta pod)) k = map_of (pt_Labels (ds_Template ds)) k)
     [ModuleNameLabel, KernelLabel]"

text \<open>\<open>predicate.LabelChangedPredicate\<close> lets an update pass that changes the labels.\<close>

definition labels_law :: "env \<Rightarrow> bool" where
  "labels_law L \<longleftrightarrow> (\<forall>old new. map_of old \<noteq> map_of new \<longrightarrow> LabelsChanged L old new)"

text \<open>Nodes and one Module, for closed examples.\<close>

definition module_nodes :: env where
  "module_nodes = (node_cluster (loader_pod None))\<lparr>cl_ListModules := (\<lambda>_. Inr [sample_module []])\<rparr>"

section \<open>Lemmas across components\<close>

lemma SetDevicePlugin_selector:
  assumes "SetDevicePluginAsDesired L (Some ds) m = Ok ds'"
  shows "ps_NodeSelector (pt_Spec (ds_Template ds')) = [(getDriverContainerNodeLabel (om_Name (mod_Meta m)), '''')]"
  using assms
  by (auto simp: SetDevicePluginAsDesired_def Let_def ds_with_owner_Ok_iff split: option.splits)

lemma loader_pod_label:
  assumes "SetDriverContainerAsDesired L (Some ds) mld = Ok loader" and "pod_of loader pod"
  shows "map_of (om_Labels (pod_Meta pod)) ModuleNameLabel = Some (mld_Name mld)"
    and "GetNodeLabelFromPod pod (mld_Name mld) = getDriverContainerNodeLabel (mld_Name mld)"
  using assms(2) SetDriver_fields(1,2) [OF assms(1)]
  by (auto simp: pod_of_def GetNodeLabelFromPod_def devicePluginKernelVersion_def mget_def label_defs)

lemma plugin_pod_label:
  assumes "SetDevicePluginAsDesired L (Some ds) m = Ok plugin" and "pod_of plugin pod"
  shows "map_of (om_Labels (pod_Meta pod)) ModuleNameLabel = Some (om_Name (mod_Meta m))"
    and "GetNodeLabelFromPod pod (om_Name (mod_Meta m)) = getDevicePluginNodeLabel (om_Name (mod_Meta m))"
  using assms(2) SetDevicePlugin_fields(1) [OF assms(1)]
  by (auto simp: pod_of_def GetNodeLabelFromPod_def devicePluginKernelVersion_def mget_def label_defs)

lemma ready_labels_differ: "getDevicePluginNodeLabel n \<noteq> getDriverContainerNodeLabel n"
  by (simp add: getDevicePluginNodeLabel_def getDriverContainerNodeLabel_def)

text \<open>The first write of the pod controller.\<close>

lemma PodReconcile_first_write:
  assumes "PodReconcile L req s = (r, t)" and "cl_GetPod L (history s) req = Inr pod"
    and "map_of (om_Labels (pod_Meta pod)) ModuleNameLabel = Some m"
    and "cl_GetNode L (history s @ [Read (GetPod req)]) (pod_NodeName pod) = Inr node"
  shows "\<exists>node' ws. writes (drop (length (history s)) (history t)) = PatchNode node node' # ws \<and>
     (\<forall>k. map_of (om_Labels (node_Meta node')) k =
       (if k = GetNodeLabelFromPod pod m
        then if IsPodReady L pod \<and> om_DeletionTimestamp (pod_Meta pod) = None then Some '''' else None
        else map_of (om_Labels (node_Meta node)) k))"
  using assms
  by (auto simp: PodReconcile_def addLabel_def deleteLabel_def deleteFinalizer_def Let_def go_simps of_sum_def
      set_node_label_def del_node_label_def map_of_mdel split: sum.splits option.splits if_splits)

lemma FindModulesForNode_mem:
  assumes "selector_law L" and "cl_ListModules L (history s) = Inr mods"
    and "\<forall>m \<in> set mods. distinct (map fst (spec_Selector (mod_Spec m))) \<and> valid_selector L (spec_Selector (mod_Spec m))"
    and "m \<in> set mods" and "selects (spec_Selector (mod_Spec m)) n"
  shows "\<exists>reqs. fst (FindModulesForNode L (ONode n) s) = Ok reqs \<and>
     \<lparr>nn_Namespace = om_Namespace (mod_Meta m), nn_Name = om_Name (mod_Meta m)\<rparr> \<in> set reqs"
proof -
  let ?f = "\<lambda>m. (\<lparr>nn_Namespace = om_Namespace (mod_Meta m), nn_Name = om_Name (mod_Meta m)\<rparr>, spec_Selector (mod_Spec m))"
  have "\<forall>(nsn, sel) \<in> set (map ?f mods). distinct (map fst sel)" using assms(3) by auto
  note eq = matching_requests_eq [OF assms(1) this, of "om_Labels (node_Meta n)" "[]"]
  have "takeWhile (\<lambda>(nsn, sel). valid_selector L sel) (map ?f mods) = map ?f mods"
    using assms(3) by (auto simp: takeWhile_eq_all_conv)
  moreover have "?f m \<in> set (filter (\<lambda>(nsn, sel). \<forall>(k, v) \<in> set sel. map_of (om_Labels (node_Meta n)) k = Some v) (map ?f mods))"
    using assms(4,5) by (auto simp: selects_def list_all_iff)
  ultimately have "fst (?f m) \<in> set (matching_requests L (om_Labels (node_Meta n)) (map ?f mods) [])"
    unfolding eq append_Nil list.set_map by (intro imageI) (simp only:)
  then show ?thesis using assms(2) by (simp add: FindModulesForNode_def go_simps)
qed

section \<open>Properties across components\<close>

text \<open>
  C19. The device plugin follows the module loader.  Let the DaemonSets of the module loader and of the
  device plugin be made for one Module.  When the pod controller handles a pod of the module loader, the
  node it patches satisfies the node selector of the device plugin afterwards if and only if the pod is
  ready and not being deleted; when it handles a pod of the device plugin itself, the patch leaves
  this as it was, so the device plugin never evicts itself.
\<close>

theorem device_plugin_follows_loader:
  assumes "SetDriverContainerAsDesired L (Some ds1) mld = Ok loader"
    and "SetDevicePluginAsDesired L (Some ds2) m = Ok plugin" and "mld_Name mld = om_Name (mod_Meta m)"
    and "PodReconcile L req s = (r, t)" and "cl_GetPod L (history s) req = Inr pod"
    and "pod_of loader pod \<or> pod_of plugin pod"
    and "cl_GetNode L (history s @ [Read (GetPod req)]) (pod_NodeName pod) = Inr node"
  shows "\<exists>node' ws. writes (drop (length (history s)) (history t)) = PatchNode node node' # ws \<and>
     (pod_of loader pod \<longrightarrow> (selects (ps_NodeSelector (pt_Spec (ds_Template plugin))) node' \<longleftrightarrow>
        IsPodReady L pod \<and> om_DeletionTimestamp (pod_Meta pod) = None)) \<and>
     (pod_of plugin pod \<longrightarrow> (selects (ps_NodeSelector (pt_Spec (ds_Template plugin))) node' \<longleftrightarrow>
        selects (ps_NodeSelector (pt_Spec (ds_Template plugin))) node))"
proof -
  let ?n = "om_Name (mod_Meta m)"
  have module_label: "map_of (om_Labels (pod_Meta pod)) ModuleNameLabel = Some ?n"
    using assms(6) loader_pod_label(1) [OF assms(1)] plugin_pod_label(1) [OF assms(2)] assms(3) by auto
  obtain node' ws where patch: "writes (drop (length (history s)) (history t)) = PatchNode node node' # ws"
    and labels: "\<forall>k. map_of (om_Labels (node_Meta node')) k =
       (if k = GetNodeLabelFromPod pod ?n
        then if IsPodReady L pod \<and> om_DeletionTimestamp (pod_Meta pod) = None then Some '''' else None
        else map_of (om_Labels (node_Meta node)) k)"
    using PodReconcile_first_write [OF assms(4,5) module_label assms(7)] by blast
  have sel: "selects (ps_NodeSelector (pt_Spec (ds_Template plugin))) x \<longleftrightarrow>
      map_of (om_Labels (node_Meta x)) (getDriverContainerNodeLabel ?n) = Some ''''" for x
    by (simp add: SetDevicePlugin_selector [OF assms(2)] selects_def)
  have "GetNodeLabelFromPod pod ?n = getDriverContainerNodeLabel ?n" if "pod_of loader pod"
    using loader_pod_label(2) [OF assms(1) that] assms(3) by simp
  moreover have "GetNodeLabelFromPod pod ?n = getDevicePluginNodeLabel ?n" if "pod_of plugin pod"
    using plugin_pod_label(2) [OF assms(2) that] .
  ultimately show ?thesis
    using patch labels ready_labels_differ [of ?n] by (auto simp: sel)
qed

theorem device_plugin_follows_loader_witness:
  "\<exists>loader plugin t node' ws.
     SetDriverContainerAsDesired (node_cluster (loader_pod None)) (Some (sample_ds ''ds'' '''')) (sample_mld None None) = Ok loader \<and>
     SetDevicePluginAsDesired (node_cluster (loader_pod None)) (Some (sample_ds ''dp'' '''')) sample_dp_module = Ok plugin \<and>
     PodReconcile (node_cluster (loader_pod None)) sample_request fresh_state = (Ok (), t) \<and>
     writes (history t) = PatchNode (sample_node ''n1'' ''5.4.0-gke+'') node' # ws \<and>
     selects (ps_NodeSelector (pt_Spec (ds_Template plugin))) node'"
proof -
  let ?L = "node_cluster (loader_pod None)"
  obtain loader where loader: "SetDriverContainerAsDesired ?L (Some (sample_ds ''ds'' '''')) (sample_mld None None) = Ok loader"
    by (simp add: SetDriverContainerAsDesired_def Let_def ds_with_owner_def node_cluster_def sample_defs)
  obtain plugin where plugin: "SetDevicePluginAsDesired ?L (Some (sample_ds ''dp'' '''')) sample_dp_module = Ok plugin"
    by (simp add: SetDevicePluginAsDesired_def Let_def ds_with_owner_def node_cluster_def sample_dp_module_def sample_dp_def sample_defs)
  have pod: "cl_GetPod ?L h req = Inr (loader_pod None)" "cl_GetNode ?L h n = Inr (sample_node n ''5.4.0-gke+'')"
    "pod_NodeName (loader_pod None) = ''n1''" "om_DeletionTimestamp (pod_Meta (loader_pod None)) = None"
    "IsPodReady ?L (loader_pod None)" "om_Name (mod_Meta sample_dp_module) = ''mod''" "mld_Name (sample_mld None None) = ''mod''" for h req n
    by (simp_all add: node_cluster_def loader_pod_def empty_cluster_def sample_dp_module_def sample_module_def sample_meta_def sample_mld_def)
  have of_loader: "pod_of loader (loader_pod None)"
    using SetDriver_fields(2) [OF loader] by (simp add: pod_of_def loader_pod_def sample_mld_def label_defs)
  obtain t where run: "PodReconcile ?L sample_request fresh_state = (Ok (), t)"
    by (simp add: PodReconcile_def addLabel_def node_cluster_def loader_pod_def empty_cluster_def Let_def go_simps)
  have "mld_Name (sample_mld None None) = om_Name (mod_Meta sample_dp_module)" by (simp add: pod(6,7))
  from device_plugin_follows_loader [OF loader plugin this run pod(1) disjI1 [OF of_loader] pod(2)]
  obtain node' ws where "writes (history t) = PatchNode (sample_node ''n1'' ''5.4.0-gke+'') node' # ws"
    "selects (ps_NodeSelector (pt_Spec (ds_Template plugin))) node'"
    using of_loader by (auto simp: pod(3,4,5) fresh_state_def)
  with loader plugin run show ?thesis by blast
qed

text \<open>
  C20. A new kernel on a node reaches the Modules.  In an operator that has been started, when the node
  kernel controller has changed the kernel label of a node, the controller for Modules watches nodes
  with a filter that the update passes, and, provided the selectors of all Modules are valid, the
  requests made of the update name every Module that selects the node.  The kernel of the node has a
  name, and the selector of the Module does not use the kernel label, which the operator itself sets.
\<close>

theorem kernel_change_reaches_modules:
  assumes "manager_main L generationChanged H configFile unstarted = (r0, st)" and "su_Started st"
    and "NodeKernelReconcile L KernelLabel req s = (Ok (), t)"
    and "cl_GetNode L (history s) (nn_Name req) = Inr node"
    and "map_of (om_Labels (node_Meta node)) KernelLabel \<noteq> Some (TrimSuffix (node_KernelVersion node) ''+'')"
    and "TrimSuffix (node_KernelVersion node) ''+'' \<noteq> ''''"
    and "labels_law L" and "selector_law L" and "cl_ListModules L (history u) = Inr mods"
    and "\<forall>m \<in> set mods. distinct (map fst (spec_Selector (mod_Spec m))) \<and> valid_selector L (spec_Selector (mod_Spec m))"
    and "m \<in> set mods" and "selects (spec_Selector (mod_Spec m)) node" and "KernelLabel \<notin> fst ` set (spec_Selector (mod_Spec m))"
  shows "\<exists>node' c w reqs. last (history t) = Write (PatchNode node node') \<and>
     c \<in> set (su_Controllers st) \<and> ctl_For c = ModuleKind \<and> w \<in> set (ctl_Watches c) \<and> wa_Kind w = NodeKind \<and>
     ctl_EventFilter c (UpdateEvent (ONode node) (ONode node')) = Ok True \<and>
     wa_Predicate w (UpdateEvent (ONode node) (ONode node')) = Ok True \<and>
     fst (wa_Requests w (ONode node') u) = Ok reqs \<and>
     \<lparr>nn_Namespace = om_Namespace (mod_Meta m), nn_Name = om_Name (mod_Meta m)\<rparr> \<in> set reqs"
proof -
  let ?k = "TrimSuffix (node_KernelVersion node) ''+''"
  obtain node' where last: "last (history t) = Write (PatchNode node node')"
    and labels: "map_of (om_Labels (node_Meta node')) = (map_of (om_Labels (node_Meta node)))(KernelLabel \<mapsto> ?k)"
    using NodeKernelReconcile_labels [OF assms(3)] assms(4) by (auto simp: fun_eq_iff)
  have "map_of (om_Labels (node_Meta node)) \<noteq> map_of (om_Labels (node_Meta node'))"
    using labels assms(5) by (metis fun_upd_same)
  then have changed: "LabelsChanged L (om_Labels (node_Meta node)) (om_Labels (node_Meta node'))"
    using assms(7) by (simp add: labels_law_def)
  have "mget (om_Labels (node_Meta node')) KernelLabel = ?k" by (simp add: mget_def labels)
  with changed assms(6) have passes: "ModuleReconcilerNodePredicate L KernelLabel (UpdateEvent (ONode node) (ONode node')) = Ok True"
    by (simp add: ModuleReconcilerNodePredicate_def HasLabel_def NewPredicateFuncs_def LabelChangedPredicate_def)
  have "selects (spec_Selector (mod_Spec m)) node'"
    using assms(12,13) by (force simp: selects_def list_all_iff labels)
  from FindModulesForNode_mem [OF assms(8-11) this] last passes show ?thesis
    using manager_main_started [OF assms(1,2)]
    by (auto simp: manager_controllers_def Module_SetupWithManager_def NewControllerManagedBy_def
        intro!: exI [of _ node'] exI [of _ "Module_SetupWithManager L KernelLabel"])
qed

theorem kernel_change_reaches_modules_witness:
  "\<exists>st t node' c w reqs. manager_main module_nodes (predicate_And []) (sample_host '''') ''c'' unstarted = (Ok (), st) \<and>
     NodeKernelReconcile module_nodes KernelLabel \<lparr>nn_Namespace = '''', nn_Name = ''n1''\<rparr> fresh_state = (Ok (), t) \<and>
     last (history t) = Write (PatchNode (sample_node ''n1'' ''5.4.0-gke+'') node') \<and>
     c \<in> set (su_Controllers st) \<and> w \<in> set (ctl_Watches c) \<and>
     fst (wa_Requests w (ONode node') fresh_state) = Ok reqs \<and> \<lparr>nn_Namespace = ''ns'', nn_Name = ''mod''\<rparr> \<in> set reqs"
proof -
  let ?L = module_nodes
  let ?req = "\<lparr>nn_Namespace = '''', nn_Name = ''n1''\<rparr>" and ?node = "sample_node ''n1'' ''5.4.0-gke+''"
  obtain st where start: "manager_main ?L (predicate_And []) (sample_host '''') ''c'' unstarted = (Ok (), st)"
    by (simp add: manager_main_def GitCommit_def GetEnvOrFatalError_def GetBoolEnv_def start_manager_def
        Let_def go_simps sample_host_def OperatorNamespaceEnvVar_def)
  have started: "su_Started st" by (rule runs_withE [OF manager_main_runs start]) auto
  obtain t where run: "NodeKernelReconcile ?L KernelLabel ?req fresh_state = (Ok (), t)"
    by (simp add: NodeKernelReconcile_def Let_def go_simps module_nodes_def node_cluster_def empty_cluster_def)
  have trim: "TrimSuffix (node_KernelVersion ?node) ''+'' = ''5.4.0-gke''" by code_simp
  have node: "cl_GetNode ?L (history fresh_state) (nn_Name ?req) = Inr ?node" by (simp add: module_nodes_def node_cluster_def)
  have "map_of (om_Labels (node_Meta ?node)) KernelLabel \<noteq> Some (TrimSuffix (node_KernelVersion ?node) ''+'')"
    "TrimSuffix (node_KernelVersion ?node) ''+'' \<noteq> ''''" "labels_law ?L" "selector_law ?L"
    "cl_ListModules ?L (history fresh_state) = Inr [sample_module []]"
    "\<forall>m \<in> set [sample_module []]. distinct (map fst (spec_Selector (mod_Spec m))) \<and> valid_selector ?L (spec_Selector (mod_Spec m))"
    "sample_module [] \<in> set [sample_module []]" "selects (spec_Selector (mod_Spec (sample_module []))) ?node"
    "KernelLabel \<notin> fst ` set (spec_Selector (mod_Spec (sample_module [])))"
    unfolding trim
    by (auto simp: labels_law_def selector_law_def valid_selector_def selects_def list_all_iff module_nodes_def node_cluster_def
        empty_cluster_def sample_node_def sample_meta_def sample_module_def sample_spec_def label_defs)
  from kernel_change_reaches_modules [OF start started run node this] obtain node' c w reqs where
    "last (history t) = Write (PatchNode ?node node')" "c \<in> set (su_Controllers st)" "w \<in> set (ctl_Watches c)"
    "fst (wa_Requests w (ONode node') fresh_state) = Ok reqs" "\<lparr>nn_Namespace = ''ns'', nn_Name = ''mod''\<rparr> \<in> set reqs"
    by (auto simp: sample_module_def sample_meta_def)
  with start run show ?thesis by blast
qed

end
